(* ===== verification/Float64.thy ===== *)
theory Float64
  imports Complex_Main "HOL-Library.Log_Nat" Prelude
begin

section \<open>IEEE 754 binary64, as Rust's \<open>f64\<close>\<close>

text \<open>
  The evaluator and the measurement model compute in \<open>f64\<close>.  A finite value is the exact
  rational it denotes; an operation computes the exact rational result and rounds it to
  the nearest binary64 value, ties to even, overflowing to an infinity.  \<open>NaN\<close> and the
  infinities are values, comparisons with \<open>NaN\<close> are false, and \<open>max\<close> ignores a \<open>NaN\<close>
  operand, as the Rust operators do.  The only thing the type leaves out is the sign of
  zero, which no comparison or sum of the source observes.
\<close>

datatype f64 = NaN | PInf | NInf | Fin rat

subsection \<open>Rounding to nearest, ties to even\<close>

definition floor_log2 :: "rat \<Rightarrow> int" where
  "floor_log2 x =
     (case quotient_of x of (p, q) \<Rightarrow>
        if q \<le> p then int (floorlog 2 (nat (p div q))) - 1
        else - int (floorlog 2 (nat ((q + p - 1) div p - 1))))"

definition round_half_even :: "rat \<Rightarrow> int" where
  "round_half_even y =
     (let f = \<lfloor>y\<rfloor>; d = y - of_int f
      in if d < 1/2 then f
         else if 1/2 < d then f + 1
         else if even f then f else f + 1)"

definition round_f64 :: "rat \<Rightarrow> f64" where
  "round_f64 x =
     (if x = 0 then Fin 0
      else let e = max (- 1074) (floor_log2 \<bar>x\<bar> - 52);
               y = of_int (round_half_even (x / 2 powi e)) * 2 powi e
           in if 2 ^ 1024 \<le> \<bar>y\<bar> then (if 0 < x then PInf else NInf) else Fin y)"

subsection \<open>Operators\<close>

fun f64_add :: "f64 \<Rightarrow> f64 \<Rightarrow> f64" where
  "f64_add NaN _ = NaN"
| "f64_add _ NaN = NaN"
| "f64_add PInf NInf = NaN"
| "f64_add NInf PInf = NaN"
| "f64_add PInf _ = PInf"
| "f64_add _ PInf = PInf"
| "f64_add NInf _ = NInf"
| "f64_add _ NInf = NInf"
| "f64_add (Fin a) (Fin b) = round_f64 (a + b)"

fun f64_neg :: "f64 \<Rightarrow> f64" where
  "f64_neg NaN = NaN"
| "f64_neg PInf = NInf"
| "f64_neg NInf = PInf"
| "f64_neg (Fin a) = Fin (- a)"

definition f64_inf :: "bool \<Rightarrow> f64" where
  "f64_inf positive = (if positive then PInf else NInf)"

fun f64_mul :: "f64 \<Rightarrow> f64 \<Rightarrow> f64" where
  "f64_mul (Fin a) (Fin b) = round_f64 (a * b)"
| "f64_mul NaN _ = NaN"
| "f64_mul _ NaN = NaN"
| "f64_mul (Fin a) i = (if a = 0 then NaN else f64_inf ((0 < a) = (i = PInf)))"
| "f64_mul i (Fin a) = (if a = 0 then NaN else f64_inf ((0 < a) = (i = PInf)))"
| "f64_mul i j = f64_inf (i = j)"

fun f64_div :: "f64 \<Rightarrow> f64 \<Rightarrow> f64" where
  "f64_div (Fin a) (Fin b) =
     (if b = 0 then (if a = 0 then NaN else f64_inf (0 < a)) else round_f64 (a / b))"
| "f64_div NaN _ = NaN"
| "f64_div _ NaN = NaN"
| "f64_div (Fin a) _ = Fin 0"
| "f64_div i (Fin b) = f64_inf ((0 \<le> b) = (i = PInf))"
| "f64_div _ _ = NaN"

fun f64_less :: "f64 \<Rightarrow> f64 \<Rightarrow> bool" where
  "f64_less NaN _ = False"
| "f64_less _ NaN = False"
| "f64_less PInf _ = False"
| "f64_less _ NInf = False"
| "f64_less NInf _ = True"
| "f64_less _ PInf = True"
| "f64_less (Fin a) (Fin b) = (a < b)"

definition f64_eq :: "f64 \<Rightarrow> f64 \<Rightarrow> bool" where
  "f64_eq a b \<longleftrightarrow> a = b \<and> a \<noteq> NaN"

text \<open>The source's operators, through the library's syntactic classes.\<close>

instantiation f64 :: "{zero, plus, minus, times, inverse, ord}"
begin

definition zero_f64 :: f64 where
  "zero_f64 = Fin 0"

definition plus_f64 :: "f64 \<Rightarrow> f64 \<Rightarrow> f64" where
  "plus_f64 a b = f64_add a b"

definition minus_f64 :: "f64 \<Rightarrow> f64 \<Rightarrow> f64" where
  "minus_f64 a b = f64_add a (f64_neg b)"

definition times_f64 :: "f64 \<Rightarrow> f64 \<Rightarrow> f64" where
  "times_f64 a b = f64_mul a b"

definition divide_f64 :: "f64 \<Rightarrow> f64 \<Rightarrow> f64" where
  "divide_f64 a b = f64_div a b"

definition inverse_f64 :: "f64 \<Rightarrow> f64" where
  "inverse_f64 a = f64_div (Fin 1) a"

definition less_f64 :: "f64 \<Rightarrow> f64 \<Rightarrow> bool" where
  "less_f64 a b = f64_less a b"

definition less_eq_f64 :: "f64 \<Rightarrow> f64 \<Rightarrow> bool" where
  "less_eq_f64 a b = (f64_less a b \<or> f64_eq a b)"

instance ..

end

lemmas f64_ops = zero_f64_def plus_f64_def minus_f64_def times_f64_def divide_f64_def
  less_f64_def less_eq_f64_def

definition f64_max :: "f64 \<Rightarrow> f64 \<Rightarrow> f64" where
  "f64_max a b = (if a = NaN then b else if b = NaN then a else if a < b then b else a)"

definition f64_is_finite :: "f64 \<Rightarrow> bool" where
  "f64_is_finite a \<longleftrightarrow> (case a of Fin _ \<Rightarrow> True | _ \<Rightarrow> False)"

definition f64_of_u32 :: "u32 \<Rightarrow> f64" where
  "f64_of_u32 w = Fin (of_nat (unat w))"

subsection \<open>Order\<close>

lemma f64_less_simps [simp]:
  "\<not> NaN < a" "\<not> a < NaN" "\<not> PInf < a" "\<not> a < NInf"
  "NInf < Fin x" "Fin x < PInf" "NInf < PInf" "Fin x < Fin y \<longleftrightarrow> x < y"
  by (cases a; simp add: f64_ops)+

lemma f64_le_simps [simp]:
  "\<not> NaN \<le> a" "\<not> a \<le> NaN" "PInf \<le> PInf" "NInf \<le> NInf"
  "\<not> PInf \<le> Fin x" "\<not> PInf \<le> NInf" "NInf \<le> Fin x" "Fin x \<le> PInf" "NInf \<le> PInf"
  "\<not> Fin x \<le> NInf" "Fin x \<le> Fin y \<longleftrightarrow> x \<le> y"
  by (cases a; auto simp: f64_ops f64_eq_def)+

lemma f64_le_iff_not_less: "a \<noteq> NaN \<Longrightarrow> b \<noteq> NaN \<Longrightarrow> a \<le> b \<longleftrightarrow> \<not> b < (a::f64)"
  by (cases a; cases b) auto

lemma f64_le_trans: "a \<le> b \<Longrightarrow> b \<le> c \<Longrightarrow> a \<le> (c::f64)"
  by (cases a; cases b; cases c) auto

lemma f64_le_refl [simp]: "a \<le> a \<longleftrightarrow> a \<noteq> (NaN::f64)"
  by (cases a) auto

lemma f64_max_eq_NaN [simp]: "f64_max a b = NaN \<longleftrightarrow> a = NaN \<and> b = NaN"
  by (auto simp: f64_max_def)

lemma f64_max_ge1: "a \<noteq> NaN \<Longrightarrow> a \<le> f64_max a b"
  by (cases a; cases b) (auto simp: f64_max_def)

lemma f64_max_ge2: "b \<noteq> NaN \<Longrightarrow> b \<le> f64_max a b"
  by (cases a; cases b) (auto simp: f64_max_def)

lemma f64_max_cases: "f64_max a b = a \<or> f64_max a b = b"
  by (auto simp: f64_max_def)

lemma f64_max_NInf [simp]: "f64_max NInf a = (if a = NaN then NInf else a)"
  by (cases a) (auto simp: f64_max_def)

lemma f64_max_idem [simp]: "f64_max a a = a"
  by (cases a) (auto simp: f64_max_def)

subsection \<open>Exactness on representable values\<close>

lemma floor_log2_le:
  assumes "0 < x"
  shows "2 powi floor_log2 x \<le> x"
proof -
  obtain p q where pq: "quotient_of x = (p, q)" by (cases "quotient_of x")
  then have q: "0 < q" and x: "x = of_int p / of_int q"
    by (auto simp: quotient_of_denom_pos quotient_of_div)
  with assms have p: "0 < p" by (simp add: zero_less_divide_iff)
  show ?thesis
  proof (cases "q \<le> p")
    case True
    let ?n = "nat (p div q)"
    have n: "0 < ?n" using True q p by (simp add: pos_imp_zdiv_pos_iff)
    then have b: "2 ^ (floorlog 2 ?n - 1) \<le> ?n" and fl: "0 < floorlog 2 ?n"
      using floorlog_bounds [of ?n 2] by (auto simp: floorlog_def)
    from b n have "(2::int) ^ (floorlog 2 ?n - 1) \<le> p div q"
      by (simp add: le_nat_iff)
    then have "(2::int) ^ (floorlog 2 ?n - 1) * q \<le> p div q * q"
      using q by (simp add: mult_right_mono)
    also have "\<dots> \<le> p" using q pos_mod_sign [of q p] minus_mod_eq_div_mult [of p q] by linarith
    finally have "rat_of_int (2 ^ (floorlog 2 ?n - 1) * q) \<le> of_int p"
      by (simp only: of_int_le_iff)
    then have "(2::rat) ^ (floorlog 2 ?n - 1) \<le> x"
      using q by (simp add: x pos_le_divide_eq)
    moreover have "floor_log2 x = int (floorlog 2 ?n - 1)"
      using True fl pq by (simp add: floor_log2_def of_nat_diff)
    ultimately show ?thesis by simp
  next
    case False
    define c where "c = (q + p - 1) div p"
    define k where "k = floorlog 2 (nat (c - 1))"
    have m: "c * p = q + p - 1 - (q + p - 1) mod p"
      unfolding c_def by (simp add: minus_mod_eq_div_mult)
    moreover have "(q + p - 1) mod p < p" using p by simp
    ultimately have qc: "q \<le> c * p" by linarith
    have c: "2 \<le> c"
    proof (rule ccontr)
      assume "\<not> 2 \<le> c"
      then have "c * p \<le> 1 * p" using p by (intro mult_right_mono) auto
      with qc False show False by simp
    qed
    then have "nat (c - 1) < 2 ^ k"
      unfolding k_def using floorlog_bounds [of "nat (c - 1)" 2] by simp
    then have "nat (c - 1) < nat (2 ^ k)" by (simp add: nat_power_eq)
    then have "c \<le> 2 ^ k" by simp
    then have "c * p \<le> 2 ^ k * p" using p by simp
    with qc have "q \<le> 2 ^ k * p" by simp
    then have "rat_of_int q \<le> of_int (2 ^ k * p)"
      by (simp only: of_int_le_iff)
    then have "(of_int q :: rat) \<le> 2 ^ k * of_int p" by simp
    moreover have "floor_log2 x = - int k"
      using False pq by (simp add: floor_log2_def k_def c_def)
    moreover have "(2::rat) powi (- int k) = 1 / 2 ^ k"
      by (simp add: power_int_minus divide_inverse)
    moreover have "(of_int q :: rat) \<le> 2 ^ k * of_int p \<Longrightarrow> 1 / 2 ^ k \<le> of_int p / (of_int q :: rat)"
      using q by (simp add: field_simps)
    ultimately show ?thesis
      by (simp add: x)
  qed
qed

definition representable :: "rat \<Rightarrow> bool" where
  "representable x \<longleftrightarrow>
     (\<exists>m e. x = of_int m * 2 powi e \<and> \<bar>m\<bar> < 2 ^ 53 \<and> - 1074 \<le> e) \<and> \<bar>x\<bar> < 2 ^ 1024"

lemma round_half_even_of_int [simp]: "round_half_even (of_int n) = n"
  by (simp add: round_half_even_def Let_def)

lemma round_f64_exact:
  assumes "representable x"
  shows "round_f64 x = Fin x"
proof (cases "x = 0")
  case True
  then show ?thesis by (simp add: round_f64_def)
next
  case False
  from assms obtain m e where x: "x = of_int m * 2 powi e" and m: "\<bar>m\<bar> < 2 ^ 53"
    and e: "- 1074 \<le> e" and big: "\<bar>x\<bar> < 2 ^ 1024"
    by (auto simp: representable_def)
  define E where "E = max (- 1074) (floor_log2 \<bar>x\<bar> - 52)"
  have "2 powi floor_log2 \<bar>x\<bar> \<le> \<bar>x\<bar>" using False by (intro floor_log2_le) simp
  also have "\<bar>x\<bar> = of_int \<bar>m\<bar> * 2 powi e" by (simp add: x abs_mult)
  also have "\<dots> < 2 ^ 53 * 2 powi e"
    using m by (intro mult_strict_right_mono) (metis of_int_less_iff of_int_numeral of_int_power, simp)
  also have "\<dots> = 2 powi (e + 53)" by (simp add: power_int_add)
  finally have "(2::rat) powi floor_log2 \<bar>x\<bar> < 2 powi (e + 53)" .
  then have "floor_log2 \<bar>x\<bar> < e + 53"
    by (metis not_less power_int_increasing one_le_numeral)
  with e have Ee: "E \<le> e" by (simp add: E_def)
  have "(2::rat) powi e / 2 powi E = 2 powi (e - E)" by (simp add: power_int_diff)
  also have "\<dots> = 2 ^ nat (e - E)" using Ee by (simp add: power_int_def)
  finally have "x / 2 powi E = of_int (m * 2 ^ nat (e - E))"
    by (simp add: x times_divide_eq_right [symmetric] del: times_divide_eq_right)
  then have "of_int (round_half_even (x / 2 powi E)) * 2 powi E = x"
    by (metis (no_types, lifting) round_half_even_of_int nonzero_eq_divide_eq power_int_eq_0_iff zero_neq_numeral)
  then show ?thesis
    using False big by (simp add: round_f64_def Let_def E_def [symmetric])
qed

lemma representable_half_int:
  assumes "x = of_int k / 2" "\<bar>k\<bar> < 2 ^ 53"
  shows "representable x"
proof -
  have "x = of_int k * 2 powi (-1)" by (simp add: assms power_int_minus field_simps)
  moreover have "\<bar>x\<bar> < 2 ^ 1024"
  proof -
    have "\<bar>x\<bar> \<le> of_int \<bar>k\<bar>" by (simp add: assms abs_divide)
    also have "\<dots> < 2 ^ 53" using assms(2) by (metis of_int_less_iff of_int_numeral of_int_power)
    also have "\<dots> < (2::rat) ^ 1024" by simp
    finally show ?thesis .
  qed
  ultimately show ?thesis
    unfolding representable_def using assms(2)
    by (intro conjI exI [of _ k] exI [of _ "- 1"]) auto
qed

lemma representable_of_int: "\<bar>k\<bar> < 2 ^ 52 \<Longrightarrow> representable (of_int k)"
  by (rule representable_half_int [of _ "2 * k"]) (auto simp: abs_mult)

end
