(* ===== verification/Json.thy ===== *)
theory Json
  imports Float64 "HOL-Library.Finite_Map" "HOL-Library.Monad_Syntax"
begin

section \<open>JSON values\<close>

text \<open>
  \<open>serde_json::Value\<close> is data to this program: its public constructors are the datatype
  below (an integer that fits \<open>u64\<close>, a negative integer that fits \<open>i64\<close>, or a float, which is also what
  the parser makes of an integer literal that fits neither), an object is a finite
  map, and the accessors are the case distinctions the code makes on those constructors.
  How a value is printed to and parsed from text is third-party code and stays a parameter
  (\<open>to_text\<close>, \<open>of_text\<close> of the theory \<open>Journal\<close>).
\<close>

datatype number = PosInt u64 | NegInt int | Float f64

datatype json =
    Null
  | Bool bool
  | Number number
  | Str string
  | Arr "json list"
  | Obj "(string, json) fmap"

definition obj :: "(string \<times> json) list \<Rightarrow> json" where
  "obj kvs = Obj (fmap_of_list kvs)"

abbreviation num :: "u64 \<Rightarrow> json" where
  "num n \<equiv> Number (PosInt n)"

subsection \<open>Accessors\<close>

definition get :: "string \<Rightarrow> json \<Rightarrow> json option" where
  "get k v = (case v of Obj m \<Rightarrow> fmlookup m k | _ \<Rightarrow> None)"

definition as_u64 :: "json \<Rightarrow> u64 option" where
  "as_u64 v = (case v of Number (PosInt n) \<Rightarrow> Some n | _ \<Rightarrow> None)"

definition as_bool :: "json \<Rightarrow> bool option" where
  "as_bool v = (case v of Bool b \<Rightarrow> Some b | _ \<Rightarrow> None)"

definition as_str :: "json \<Rightarrow> string option" where
  "as_str v = (case v of Str s \<Rightarrow> Some s | _ \<Rightarrow> None)"

definition as_array :: "json \<Rightarrow> json list option" where
  "as_array v = (case v of Arr xs \<Rightarrow> Some xs | _ \<Rightarrow> None)"

definition as_object :: "json \<Rightarrow> (string, json) fmap option" where
  "as_object v = (case v of Obj m \<Rightarrow> Some m | _ \<Rightarrow> None)"

definition is_object :: "json \<Rightarrow> bool" where
  "is_object v \<longleftrightarrow> as_object v \<noteq> None"

definition get_u64 :: "string \<Rightarrow> json \<Rightarrow> u64 option" where
  "get_u64 k v = Option.bind (get k v) as_u64"

lemma get_obj [simp]: "get k (obj kvs) = map_of kvs k"
  by (simp add: get_def obj_def fmlookup_of_list)

lemma get_non_object [simp]:
  "get k Null = None" "get k (Bool b) = None" "get k (Number n) = None"
  "get k (Str s) = None" "get k (Arr xs) = None" "get k (Obj m) = fmlookup m k"
  by (simp_all add: get_def)

lemma as_u64_simps [simp]:
  "as_u64 (num n) = Some n" "as_u64 Null = None" "as_u64 (Bool b) = None"
  "as_u64 (Str s) = None" "as_u64 (Arr xs) = None" "as_u64 (Obj m) = None"
  "as_u64 (Number (NegInt i)) = None" "as_u64 (Number (Float x)) = None"
  by (simp_all add: as_u64_def)

lemma as_u64_obj [simp]: "as_u64 (obj kvs) = None"
  by (simp add: obj_def)

lemma as_u64_eq_Some: "as_u64 v = Some n \<longleftrightarrow> v = num n"
  by (auto simp: as_u64_def split: json.splits number.splits)

lemma as_bool_eq_Some [simp]: "as_bool v = Some b \<longleftrightarrow> v = Bool b"
  by (auto simp: as_bool_def split: json.splits)

lemma as_bool_Bool [simp]: "as_bool (Bool b) = Some b"
  by simp

lemma as_str_eq_Some [simp]: "as_str v = Some s \<longleftrightarrow> v = Str s"
  by (auto simp: as_str_def split: json.splits)

lemma as_str_Str [simp]: "as_str (Str s) = Some s" and as_str_obj [simp]: "as_str (obj kvs) = None"
  by (simp_all add: as_str_def obj_def)

lemma as_object_obj [simp]: "as_object (obj kvs) = Some (fmap_of_list kvs)"
  by (simp add: as_object_def obj_def)

lemma is_object_simps [simp]:
  "is_object (obj kvs)" "is_object (Obj m)" "\<not> is_object Null" "\<not> is_object (Bool b)"
  "\<not> is_object (Number n)" "\<not> is_object (Str s)" "\<not> is_object (Arr xs)"
  by (simp_all add: is_object_def as_object_def obj_def)

lemma get_u64_obj [simp]: "get_u64 k (obj kvs) = Option.bind (map_of kvs k) as_u64"
  by (simp add: get_u64_def)

lemma obj_neq [simp]:
  "obj kvs \<noteq> Null" "Null \<noteq> obj kvs" "obj kvs \<noteq> Str s" "Str s \<noteq> obj kvs"
  "obj kvs \<noteq> Number n" "Number n \<noteq> obj kvs" "obj kvs \<noteq> Bool b" "Bool b \<noteq> obj kvs"
  by (simp_all add: obj_def)

lemma fmap_of_list_eqD: "fmap_of_list xs = fmap_of_list ys \<Longrightarrow> map_of xs = map_of ys"
  by (metis fmlookup_of_list ext)

lemma obj_eq_iff: "obj xs = obj ys \<longleftrightarrow> map_of xs = map_of ys"
  by (auto simp: obj_def fmlookup_of_list intro!: fmap_ext dest: fmap_of_list_eqD)

text \<open>The two-way comparison of snapshots compares one-field states in the end.\<close>

lemma obj_single_eq [simp]: "obj [(k, v)] = obj [(k, w)] \<longleftrightarrow> v = w"
  by (auto simp: obj_eq_iff dest: fun_cong [of _ _ k])

subsection \<open>Decoding derived structs\<close>

text \<open>
  The contract structs derive \<open>Deserialize\<close>.  From an object, a required field must be present, an
  \<open>Option\<close> field may be missing or null, and \<open>deny_unknown_fields\<close> refuses any other key.  The derive
  also takes an array of the fields in the order they are declared: every one of them, but that those
  at the end which have a serde default, from the \<open>least\<close>-th on, may be left out.
\<close>

definition fields_within :: "string list \<Rightarrow> (string, json) fmap \<Rightarrow> bool" where
  "fields_within names m \<longleftrightarrow> fmdom m |\<subseteq>| fset_of_list names"

definition struct_fields_from :: "nat \<Rightarrow> string list \<Rightarrow> json \<Rightarrow> (string, json) fmap option" where
  "struct_fields_from least names v =
     (case v of
        Obj m \<Rightarrow> if fields_within names m then Some m else None
      | Arr xs \<Rightarrow> if least \<le> length xs \<and> length xs \<le> length names
          then Some (fmap_of_list (zip names xs)) else None
      | _ \<Rightarrow> None)"

definition struct_fields :: "string list \<Rightarrow> json \<Rightarrow> (string, json) fmap option" where
  "struct_fields names = struct_fields_from (length names) names"

definition req :: "(string, json) fmap \<Rightarrow> string \<Rightarrow> (json \<Rightarrow> 'a option) \<Rightarrow> 'a option" where
  "req m k dec = Option.bind (fmlookup m k) dec"

definition opt :: "(string, json) fmap \<Rightarrow> string \<Rightarrow> (json \<Rightarrow> 'a option) \<Rightarrow> 'a option option" where
  "opt m k dec =
     (case fmlookup m k of None \<Rightarrow> Some None | Some Null \<Rightarrow> Some None
      | Some v \<Rightarrow> map_option Some (dec v))"

lemma struct_fields_obj [simp]:
  "struct_fields_from least names (obj kvs) =
     (if list_all (\<lambda>(k, _). k \<in> set names) kvs then Some (fmap_of_list kvs) else None)"
  "struct_fields names (obj kvs) =
     (if list_all (\<lambda>(k, _). k \<in> set names) kvs then Some (fmap_of_list kvs) else None)"
  by (auto simp: struct_fields_from_def struct_fields_def obj_def fields_within_def list_all_iff
      less_eq_fset.rep_eq fset_of_list.rep_eq)

lemma struct_fields_arr [simp]:
  "struct_fields_from least names (Arr xs) =
     (if least \<le> length xs \<and> length xs \<le> length names then Some (fmap_of_list (zip names xs)) else None)"
  "struct_fields names (Arr xs) =
     (if length xs = length names then Some (fmap_of_list (zip names xs)) else None)"
  by (auto simp: struct_fields_from_def struct_fields_def)

lemma struct_fields_unknown:
  "fmlookup m k = Some v \<Longrightarrow> k \<notin> set names \<Longrightarrow> struct_fields names (Obj m) = None"
  by (auto simp: struct_fields_from_def struct_fields_def fields_within_def fset_of_list_elem dest!: fmdomI)

lemma req_of_list: "req (fmap_of_list kvs) k dec = Option.bind (map_of kvs k) dec"
  by (simp add: req_def fmlookup_of_list)

lemma req_fmupd [simp]:
  "req (fmupd k v m) k' dec = (if k = k' then dec v else req m k' dec)"
  "req fmempty k' dec = None"
  by (simp_all add: req_def)

lemma opt_fmupd [simp]:
  "opt (fmupd k v m) k' dec =
     (if k = k' then (case v of Null \<Rightarrow> Some None | _ \<Rightarrow> map_option Some (dec v)) else opt m k' dec)"
  "opt fmempty k' dec = Some None"
  by (auto simp: opt_def split: json.split)

lemma opt_of_list:
  "opt (fmap_of_list kvs) k dec =
     (case map_of kvs k of None \<Rightarrow> Some None | Some Null \<Rightarrow> Some None
      | Some v \<Rightarrow> map_option Some (dec v))"
  by (simp add: opt_def fmlookup_of_list)

subsection \<open>A wire format: an encoder and the decoder that accepts what it prints\<close>

locale wire_format =
  fixes enc :: "'a \<Rightarrow> json"
    and dec :: "json \<Rightarrow> 'a option"
    and ok :: "'a \<Rightarrow> bool"
  assumes dec_enc: "ok x \<Longrightarrow> dec (enc x) = Some x"
begin

lemma enc_inject: "ok x \<Longrightarrow> ok y \<Longrightarrow> enc x = enc y \<Longrightarrow> x = y"
  by (metis dec_enc option.inject)

lemma list_roundtrip: "list_all ok xs \<Longrightarrow> those (map dec (map enc xs)) = Some xs"
  by (induction xs) (simp_all add: dec_enc)

end

definition list_enc :: "('a \<Rightarrow> json) \<Rightarrow> 'a list \<Rightarrow> json" where
  "list_enc enc xs = Arr (map enc xs)"

definition list_dec :: "(json \<Rightarrow> 'a option) \<Rightarrow> json \<Rightarrow> 'a list option" where
  "list_dec dec v = (case v of Arr ys \<Rightarrow> those (map dec ys) | _ \<Rightarrow> None)"

locale wire_list = elem: wire_format enc dec ok
  for enc :: "'a \<Rightarrow> json" and dec :: "json \<Rightarrow> 'a option" and ok :: "'a \<Rightarrow> bool"

sublocale wire_list \<subseteq> lst: wire_format "list_enc enc" "list_dec dec" "list_all ok"
  by unfold_locales (simp add: list_enc_def list_dec_def elem.list_roundtrip del: map_map)

text \<open>An \<open>Option\<close> field holding values that never print as \<open>null\<close>.\<close>

definition option_json :: "('a \<Rightarrow> json) \<Rightarrow> 'a option \<Rightarrow> json" where
  "option_json enc x = (case x of None \<Rightarrow> Null | Some y \<Rightarrow> enc y)"

locale wire_option = wire_format enc dec ok
  for enc :: "'a \<Rightarrow> json" and dec :: "json \<Rightarrow> 'a option" and ok :: "'a \<Rightarrow> bool" +
  assumes enc_not_null: "enc x \<noteq> Null"
begin

lemma opt_option_json:
  assumes "\<forall>y. x = Some y \<longrightarrow> ok y"
  shows "opt (fmupd k (option_json enc x) m) k dec = Some x"
proof (cases x)
  case (Some y)
  then show ?thesis
    using assms enc_not_null [of y] dec_enc [of y]
    by (cases "enc y") (simp_all add: option_json_def opt_def)
qed (simp add: option_json_def)

lemma option_json_cases:
  "\<forall>y. x = Some y \<longrightarrow> ok y \<Longrightarrow>
   (case option_json enc x of Null \<Rightarrow> Some None | _ \<Rightarrow> map_option Some (dec (option_json enc x))) = Some x"
  using opt_option_json [of x _ fmempty] by simp

end

end
