(* ===== verification/Journal.thy ===== *)
theory Journal
  imports Json
begin

section \<open>The durable experiment journal\<close>

text \<open>
  The SQLite tables of \<open>crates/control-plane/src/lib.rs\<close> (\<open>experiment_journal\<close> and
  \<open>experiment_trials\<close>) as lists of rows in insertion order, and the statements the control
  plane, the watchdog and the CLI run on them.  Rows are only ever inserted, so a row's
  \<open>sequence\<close> is its position.

  What is not in this repository is a parameter, the record \<open>host\<close>: which statement fails
  and how (\<open>stmt_fault\<close>, by the number of the statement, so that any schedule of failures is
  covered), the clock SQLite reads (\<open>now_ms\<close>), how the JSON library prints and parses text
  (\<open>to_text\<close>, \<open>of_text\<close>, over an abstract type of texts) and words its decoding errors
  (\<open>shape_text\<close>), and the platform name (\<open>os\<close>).  A failing statement changes no row: a
  single \<open>INSERT\<close> and an \<open>IMMEDIATE\<close> transaction are atomic.
\<close>

subsection \<open>State\<close>

record 't jrow =
  row_experiment :: int
  recorded_at :: "int option" \<comment> \<open>milliseconds; \<open>None\<close> for text that is not a timestamp\<close>
  stage :: string
  row_provider :: string
  payload :: 't

record 't trial_row =
  trial_id :: int
  trial_payload :: 't

record 't journal =
  jtable :: bool \<comment> \<open>the tables exist\<close>
  jrows :: "'t jrow list"
  jtrials :: "'t trial_row list"
  jclock :: nat \<comment> \<open>statements issued so far\<close>

datatype fault = Encode_fault string | Sqlite_fault string

record 't host =
  os :: string
  stmt_fault :: "nat \<Rightarrow> fault option"
  now_ms :: "nat \<Rightarrow> int"
  to_text :: "json \<Rightarrow> 't"
  of_text :: "'t \<Rightarrow> (string, json) result"
  shape_text :: "json \<Rightarrow> string"

definition reads_back :: "'t host \<Rightarrow> json \<Rightarrow> bool" where
  "reads_back H v \<longleftrightarrow> of_text H (to_text H v) = Inr v"

definition from_text :: "'t host \<Rightarrow> (json \<Rightarrow> 'a option) \<Rightarrow> 't \<Rightarrow> (string, 'a) result" where
  "from_text H dec t =
     (case of_text H t of Inl e \<Rightarrow> Inl e
      | Inr v \<Rightarrow> ok_or (shape_text H v) (dec v))"

lemma from_text_reads_back [simp]:
  "reads_back H v \<Longrightarrow> from_text H dec (to_text H v) = ok_or (shape_text H v) (dec v)"
  by (simp add: from_text_def reads_back_def)

subsection \<open>Statements\<close>

definition tick :: "'t journal \<Rightarrow> 't journal" where
  "tick j = j\<lparr>jclock := Suc (jclock j)\<rparr>"

definition statement ::
  "'t host \<Rightarrow> ('t journal \<Rightarrow> (string, 'a) result \<times> 't journal) \<Rightarrow> 't journal \<Rightarrow>
     (fault, 'a) result \<times> 't journal" where
  "statement H body j =
     (case stmt_fault H (jclock j) of
        Some f \<Rightarrow> (Inl f, tick j)
      | None \<Rightarrow>
          (case body (tick j) of
             (Inl e, _) \<Rightarrow> (Inl (Sqlite_fault e), tick j)
           | (Inr x, j') \<Rightarrow> (Inr x, j')))"

definition stamp :: "'t host \<Rightarrow> 't journal \<Rightarrow> int option" where
  "stamp H j = Some (now_ms H (jclock j))"

definition no_table :: string where
  "no_table = ''no such table: experiment_journal''"

definition append_rows ::
  "'t jrow list \<Rightarrow> 'a \<Rightarrow> 't journal \<Rightarrow> (string, 'a) result \<times> 't journal" where
  "append_rows rs x j =
     (if jtable j then (Inr x, j\<lparr>jrows := jrows j @ rs\<rparr>) else (Inl no_table, j))"

definition insert_record ::
  "'t host \<Rightarrow> int \<Rightarrow> string \<Rightarrow> string \<Rightarrow> 't \<Rightarrow> 't journal \<Rightarrow> (fault, unit) result \<times> 't journal" where
  "insert_record H e st pid t j =
     statement H (append_rows
       [\<lparr>row_experiment = e, recorded_at = stamp H j, stage = st, row_provider = pid,
         payload = t\<rparr>] ()) j"

text \<open>\<open>COALESCE(MAX(experiment_id), 0) + 1\<close>; an \<open>i64\<close> that cannot grow is an error.\<close>

definition max_experiment :: "'t jrow list \<Rightarrow> int" where
  "max_experiment rs = (if rs = [] then 0 else Max (set (map row_experiment rs)))"

definition next_experiment :: "'t jrow list \<Rightarrow> (string, int) result" where
  "next_experiment rs =
     (if max_experiment rs + 1 < 2 ^ 63 then Inr (max_experiment rs + 1)
      else Inl ''integer overflow'')"

definition allocate_experiment ::
  "'t host \<Rightarrow> string \<Rightarrow> 't \<Rightarrow> 't journal \<Rightarrow> (fault, int) result \<times> 't journal" where
  "allocate_experiment H pid t j =
     statement H (\<lambda>j'. case next_experiment (jrows j') of
         Inl e \<Rightarrow> (Inl e, j')
       | Inr e \<Rightarrow> append_rows
           [\<lparr>row_experiment = e, recorded_at = stamp H j, stage = ''snapshot'',
             row_provider = pid, payload = t\<rparr>] e j') j"

definition query ::
  "'t host \<Rightarrow> ('t journal \<Rightarrow> 'a) \<Rightarrow> 't journal \<Rightarrow> (fault, 'a) result \<times> 't journal" where
  "query H sel j = statement H (\<lambda>j'. (if jtable j' then Inr (sel j') else Inl no_table, j')) j"

definition next_trial :: "'t trial_row list \<Rightarrow> int" where
  "next_trial rs = (if rs = [] then 1 else Max (set (map trial_id rs)) + 1)"

definition insert_trial :: "'t host \<Rightarrow> 't \<Rightarrow> 't journal \<Rightarrow> (fault, int) result \<times> 't journal" where
  "insert_trial H t j =
     statement H (\<lambda>j'. if jtable j'
       then (let i = next_trial (jtrials j')
             in (Inr i, j'\<lparr>jtrials := jtrials j' @ [\<lparr>trial_id = i, trial_payload = t\<rparr>]\<rparr>))
       else (Inl no_table, j')) j"

subsection \<open>Effect on the rows\<close>

lemma tick_simps [simp]:
  "jrows (tick j) = jrows j" "jtable (tick j) = jtable j" "jtrials (tick j) = jtrials j"
  "jclock (tick j) = Suc (jclock j)"
  by (simp_all add: tick_def)

lemma stamp_tick [simp]: "stamp H (tick j) = Some (now_ms H (Suc (jclock j)))"
  by (simp add: stamp_def)

lemma insert_record_cases [consumes 1, case_names fault stored]:
  assumes "insert_record H e st pid t j = (r, j')"
  obtains f where "r = Inl f" "jrows j' = jrows j" "jtrials j' = jtrials j" "jtable j' = jtable j"
  | "r = Inr ()" "jtable j" "jtable j'" "jtrials j' = jtrials j"
    "jrows j' = jrows j @ [\<lparr>row_experiment = e, recorded_at = stamp H j, stage = st,
       row_provider = pid, payload = t\<rparr>]"
  using assms
  by (auto simp: insert_record_def statement_def append_rows_def split: option.splits if_splits)

lemma insert_record_ok:
  "stmt_fault H (jclock j) = None \<Longrightarrow> jtable j \<Longrightarrow>
   insert_record H e st pid t j =
     (Inr (), (tick j)\<lparr>jrows := jrows j @ [\<lparr>row_experiment = e, recorded_at = stamp H j,
        stage = st, row_provider = pid, payload = t\<rparr>]\<rparr>)"
  by (simp add: insert_record_def statement_def append_rows_def)

lemma row_le_max: "r \<in> set rs \<Longrightarrow> row_experiment r \<le> max_experiment rs"
  by (auto simp: max_experiment_def)

lemma allocate_experiment_cases [consumes 1, case_names fault stored]:
  assumes "allocate_experiment H pid t j = (r, j')"
  obtains f where "r = Inl f" "jrows j' = jrows j" "jtrials j' = jtrials j" "jtable j' = jtable j"
  | e where "r = Inr e" "jtable j" "jtable j'" "jtrials j' = jtrials j"
    "\<forall>x\<in>set (jrows j). row_experiment x < e"
    "jrows j' = jrows j @ [\<lparr>row_experiment = e, recorded_at = stamp H j, stage = ''snapshot'',
       row_provider = pid, payload = t\<rparr>]"
proof -
  have "e = max_experiment (jrows j) + 1 \<Longrightarrow> \<forall>x\<in>set (jrows j). row_experiment x < e" for e
    by (auto dest: row_le_max)
  then show thesis
    using assms that
    by (auto simp: allocate_experiment_def statement_def append_rows_def next_experiment_def
        split: option.splits if_splits sum.splits)
qed

lemma query_unchanged:
  "query H sel j = (r, j') \<Longrightarrow> jrows j' = jrows j \<and> jtrials j' = jtrials j \<and> jtable j' = jtable j"
  by (auto simp: query_def statement_def split: option.splits if_splits sum.splits)

lemma query_Inr: "query H sel j = (Inr x, j') \<Longrightarrow> x = sel (tick j) \<and> jtable j"
  by (auto simp: query_def statement_def split: option.splits if_splits sum.splits)

subsection \<open>Hosts without faults\<close>

definition no_faults :: "'t host \<Rightarrow> bool" where
  "no_faults H \<longleftrightarrow> (\<forall>n. stmt_fault H n = None)"

lemma no_faults_tick: "no_faults H \<Longrightarrow> stmt_fault H n = None"
  by (simp add: no_faults_def)

text \<open>The host of the concrete runs: no fault, a clock that counts, values kept unprinted.\<close>

definition plain_host :: "json host" where
  "plain_host = \<lparr>os = ''linux'', stmt_fault = \<lambda>_. None, now_ms = int, to_text = \<lambda>v. v,
     of_text = Inr, shape_text = \<lambda>_. ''unexpected shape''\<rparr>"

definition empty_journal :: "'t journal" where
  "empty_journal = \<lparr>jtable = True, jrows = [], jtrials = [], jclock = 0\<rparr>"

lemma plain_no_faults [simp]: "no_faults plain_host"
  by (simp add: no_faults_def plain_host_def)

lemma plain_host_simps [simp]:
  "to_text plain_host v = v" "of_text plain_host v = Inr v" "stmt_fault plain_host n = None"
  by (simp_all add: plain_host_def)

end
