(* ===== verification/Contracts.thy ===== *)
theory Contracts
  imports Json
begin

section \<open>Shared data contracts (\<open>crates/contracts/src/lib.rs\<close>)\<close>

text \<open>
  The versioned types every process exchanges or journals, the policy constants that bound
  them, and the JSON shape their derived serialisation has: kebab-case enum strings,
  required fields, \<open>deny_unknown_fields\<close>, non-zero integers and object-only parameters.
  The \<open>*_ok\<close> predicates state what the Rust types guarantee of a value (a \<open>NonZeroU32\<close> is
  not zero) and, for floats, that the value is one JSON can carry.
\<close>

subsection \<open>Enumerations\<close>

datatype risk_class = ReadOnly | Reversible | ApprovalRequired | Denied

datatype persistence = PersistNone | Leased | Persistent | RebootRequired

datatype decision = Promote | Reject

datatype verdict_reason =
    Promoted
  | InsufficientSamples
  | TemperatureExceeded
  | PowerExceeded
  | ErrorsExceeded
  | InsufficientImprovement

fun risk_wire :: "risk_class \<Rightarrow> string" where
  "risk_wire ReadOnly = ''read-only''"
| "risk_wire Reversible = ''reversible''"
| "risk_wire ApprovalRequired = ''approval-required''"
| "risk_wire Denied = ''denied''"

fun persistence_wire :: "persistence \<Rightarrow> string" where
  "persistence_wire PersistNone = ''none''"
| "persistence_wire Leased = ''leased''"
| "persistence_wire Persistent = ''persistent''"
| "persistence_wire RebootRequired = ''reboot-required''"

fun decision_wire :: "decision \<Rightarrow> string" where
  "decision_wire Promote = ''promote''"
| "decision_wire Reject = ''reject''"

fun reason_wire :: "verdict_reason \<Rightarrow> string" where
  "reason_wire Promoted = ''promoted''"
| "reason_wire InsufficientSamples = ''insufficient-samples''"
| "reason_wire TemperatureExceeded = ''temperature-exceeded''"
| "reason_wire PowerExceeded = ''power-exceeded''"
| "reason_wire ErrorsExceeded = ''errors-exceeded''"
| "reason_wire InsufficientImprovement = ''insufficient-improvement''"

text \<open>
  An enum of unit variants decodes from the string of one of them, or from an object whose one key is
  that string and whose value is null, and from nothing else.
\<close>

definition enum_enc :: "('a \<Rightarrow> string) \<Rightarrow> 'a \<Rightarrow> json" where
  "enum_enc wire x = Str (wire x)"

definition enum_dec :: "('a \<Rightarrow> string) \<Rightarrow> 'a list \<Rightarrow> json \<Rightarrow> 'a option" where
  "enum_dec wire variants v =
     List.find (\<lambda>x. v = Str (wire x) \<or> v = obj [(wire x, Null)]) variants"

definition risk_variants :: "risk_class list" where
  "risk_variants = [ReadOnly, Reversible, ApprovalRequired, Denied]"

definition persistence_variants :: "persistence list" where
  "persistence_variants = [PersistNone, Leased, Persistent, RebootRequired]"

definition decision_variants :: "decision list" where
  "decision_variants = [Promote, Reject]"

definition reason_variants :: "verdict_reason list" where
  "reason_variants = [Promoted, InsufficientSamples, TemperatureExceeded, PowerExceeded,
     ErrorsExceeded, InsufficientImprovement]"

lemmas variants_defs = risk_variants_def persistence_variants_def decision_variants_def
  reason_variants_def

abbreviation any :: "'a \<Rightarrow> bool" where
  "any \<equiv> (\<lambda>_. True)"

interpretation risk_format: wire_format "enum_enc risk_wire" "enum_dec risk_wire risk_variants" any
  by unfold_locales (rename_tac x, case_tac x; simp add: enum_enc_def enum_dec_def variants_defs)

interpretation persistence_format:
  wire_format "enum_enc persistence_wire" "enum_dec persistence_wire persistence_variants" any
  by unfold_locales (rename_tac x, case_tac x; simp add: enum_enc_def enum_dec_def variants_defs)

interpretation decision_format:
  wire_format "enum_enc decision_wire" "enum_dec decision_wire decision_variants" any
  by unfold_locales (rename_tac x, case_tac x; simp add: enum_enc_def enum_dec_def variants_defs)

interpretation reason_format:
  wire_format "enum_enc reason_wire" "enum_dec reason_wire reason_variants" any
  by unfold_locales (rename_tac x, case_tac x; simp add: enum_enc_def enum_dec_def variants_defs)

subsection \<open>Scalars\<close>

definition dec_u32 :: "json \<Rightarrow> u32 option" where
  "dec_u32 v =
     Option.bind (as_u64 v) (\<lambda>n. if unat n < 2 ^ 32 then Some (ucast n) else None)"

definition enc_u32 :: "u32 \<Rightarrow> json" where
  "enc_u32 n = num (ucast n)"

definition dec_nonzero_u32 :: "json \<Rightarrow> u32 option" where
  "dec_nonzero_u32 v = Option.bind (dec_u32 v) (\<lambda>n. if n = 0 then None else Some n)"

definition dec_nonzero_u64 :: "json \<Rightarrow> u64 option" where
  "dec_nonzero_u64 v = Option.bind (as_u64 v) (\<lambda>n. if n = 0 then None else Some n)"

definition enc_f64 :: "f64 \<Rightarrow> json" where
  "enc_f64 x = (if f64_is_finite x then Number (Float x) else Null)"

definition dec_f64 :: "json \<Rightarrow> f64 option" where
  "dec_f64 v =
     (case v of
        Number (PosInt n) \<Rightarrow> Some (round_f64 (of_nat (unat n)))
      | Number (NegInt i) \<Rightarrow> Some (round_f64 (of_int i))
      | Number (Float x) \<Rightarrow> Some x
      | _ \<Rightarrow> None)"

definition dec_object :: "json \<Rightarrow> json option" where
  "dec_object v = (if is_object v then Some v else None)"

lemma unat_u32_less [simp]: "unat (n :: u32) < 2 ^ 32" "unat (n :: u32) < 4294967296"
  using unsigned_less [of n] by simp_all

lemma unat_u64_of_u32 [simp]: "unat (ucast (n :: u32) :: u64) = unat n"
  by (simp add: unsigned_ucast_eq take_bit_nat_eq_self_iff order_less_trans [OF unat_u32_less(2)])

lemma u32_of_u64_of_u32 [simp]: "ucast (ucast (n :: u32) :: u64) = n"
  by (rule bit_word_eqI) (simp add: bit_ucast_iff)

lemma dec_enc_u32 [simp]: "dec_u32 (enc_u32 n) = Some n"
  by (simp add: dec_u32_def enc_u32_def)

lemma dec_enc_nonzero_u32 [simp]: "n \<noteq> 0 \<Longrightarrow> dec_nonzero_u32 (enc_u32 n) = Some n"
  by (simp add: dec_nonzero_u32_def)

lemma dec_nonzero_u64_num [simp]:
  "dec_nonzero_u64 (num n) = (if n = 0 then None else Some n)"
  by (simp add: dec_nonzero_u64_def)

lemma dec_enc_f64 [simp]: "f64_is_finite x \<Longrightarrow> dec_f64 (enc_f64 x) = Some x"
  by (simp add: enc_f64_def dec_f64_def)

lemma dec_object_eq [simp]: "is_object v \<Longrightarrow> dec_object v = Some v"
  by (simp add: dec_object_def)

subsection \<open>Capability descriptors and manifests\<close>

record capability_descriptor =
  cap_id :: string
  cap_description :: string
  cap_risk :: risk_class
  cap_persistence :: persistence
  cap_schema :: json

record provider_manifest =
  man_id :: string
  protocol_version :: u32
  targets :: "string list"
  capabilities :: "capability_descriptor list"

definition capability_json :: "capability_descriptor \<Rightarrow> json" where
  "capability_json c = obj
     [(''id'', Str (cap_id c)), (''description'', Str (cap_description c)),
      (''risk'', enum_enc risk_wire (cap_risk c)),
      (''persistence'', enum_enc persistence_wire (cap_persistence c)),
      (''input_schema'', cap_schema c)]"

definition capability_of_json :: "json \<Rightarrow> capability_descriptor option" where
  "capability_of_json v = do {
     m \<leftarrow> struct_fields [''id'', ''description'', ''risk'', ''persistence'', ''input_schema''] v;
     i \<leftarrow> req m ''id'' as_str;
     d \<leftarrow> req m ''description'' as_str;
     r \<leftarrow> req m ''risk'' (enum_dec risk_wire risk_variants);
     p \<leftarrow> req m ''persistence'' (enum_dec persistence_wire persistence_variants);
     s \<leftarrow> req m ''input_schema'' Some;
     Some \<lparr>cap_id = i, cap_description = d, cap_risk = r, cap_persistence = p, cap_schema = s\<rparr>
   }"

definition manifest_json :: "provider_manifest \<Rightarrow> json" where
  "manifest_json p = obj
     [(''id'', Str (man_id p)), (''protocol_version'', enc_u32 (protocol_version p)),
      (''targets'', list_enc Str (targets p)),
      (''capabilities'', list_enc capability_json (capabilities p))]"

definition manifest_of_json :: "json \<Rightarrow> provider_manifest option" where
  "manifest_of_json v = do {
     m \<leftarrow> struct_fields [''id'', ''protocol_version'', ''targets'', ''capabilities''] v;
     i \<leftarrow> req m ''id'' as_str;
     n \<leftarrow> req m ''protocol_version'' dec_nonzero_u32;
     t \<leftarrow> req m ''targets'' (list_dec as_str);
     c \<leftarrow> req m ''capabilities'' (list_dec capability_of_json);
     Some \<lparr>man_id = i, protocol_version = n, targets = t, capabilities = c\<rparr>
   }"

definition manifest_ok :: "provider_manifest \<Rightarrow> bool" where
  "manifest_ok p \<longleftrightarrow> protocol_version p \<noteq> 0"

interpretation capability_format: wire_format capability_json capability_of_json any
  by unfold_locales
    (simp add: capability_json_def capability_of_json_def
      risk_format.dec_enc persistence_format.dec_enc)

interpretation string_list: wire_list Str as_str any
  by unfold_locales simp

interpretation capability_list: wire_list capability_json capability_of_json any
  by unfold_locales (simp add: capability_format.dec_enc)

interpretation manifest_format: wire_format manifest_json manifest_of_json manifest_ok
  by unfold_locales
    (simp add: manifest_json_def manifest_of_json_def manifest_ok_def
      string_list.lst.dec_enc capability_list.lst.dec_enc list.pred_True)

subsection \<open>Change requests and snapshots\<close>

definition MAX_LEASE_SECONDS :: u64 where
  "MAX_LEASE_SECONDS = 300"

record change_request =
  capability_id :: string
  parameters :: json
  lease_seconds :: u64

definition object_parameters :: "json \<Rightarrow> json option" where
  "object_parameters v = dec_object v"

definition change_ok :: "change_request \<Rightarrow> bool" where
  "change_ok c \<longleftrightarrow> is_object (parameters c) \<and> lease_seconds c \<noteq> 0"

definition change_json :: "change_request \<Rightarrow> json" where
  "change_json c = obj
     [(''capability_id'', Str (capability_id c)), (''parameters'', parameters c),
      (''lease_seconds'', num (lease_seconds c))]"

definition change_of_json :: "json \<Rightarrow> change_request option" where
  "change_of_json v = do {
     m \<leftarrow> struct_fields [''capability_id'', ''parameters'', ''lease_seconds''] v;
     i \<leftarrow> req m ''capability_id'' as_str;
     p \<leftarrow> req m ''parameters'' object_parameters;
     l \<leftarrow> req m ''lease_seconds'' dec_nonzero_u64;
     Some \<lparr>capability_id = i, parameters = p, lease_seconds = l\<rparr>
   }"

record state_snapshot =
  snap_provider :: string
  snap_state :: json

definition snapshot_json :: "state_snapshot \<Rightarrow> json" where
  "snapshot_json s = obj [(''provider_id'', Str (snap_provider s)), (''state'', snap_state s)]"

definition snapshot_of_json :: "json \<Rightarrow> state_snapshot option" where
  "snapshot_of_json v = do {
     m \<leftarrow> struct_fields [''provider_id'', ''state''] v;
     i \<leftarrow> req m ''provider_id'' as_str;
     s \<leftarrow> req m ''state'' Some;
     Some \<lparr>snap_provider = i, snap_state = s\<rparr>
   }"

interpretation change_format: wire_format change_json change_of_json change_ok
  by unfold_locales
    (simp add: change_json_def change_of_json_def change_ok_def object_parameters_def)

interpretation snapshot_format: wire_format snapshot_json snapshot_of_json any
  by unfold_locales (simp add: snapshot_json_def snapshot_of_json_def)

end
