(* ===== verification/Provider.thy ===== *)
theory Provider
  imports Contracts
begin

section \<open>The provider boundary (\<open>crates/provider-sdk\<close>) and its two implementations\<close>

text \<open>
  A provider is the \<open>Provider\<close> trait as a record of operations over a state type: the
  \<open>&self\<close> methods read the state, the \<open>&mut self\<close> methods return it updated even when they
  fail.  The locale \<open>restoring_provider\<close> is the contract the safety argument needs (a
  snapshot that succeeds can be rolled back to), \<open>serving_provider\<close> adds what makes a
  lifecycle succeed.  Both are interpreted on the mock provider of
  \<open>sidecars/mock-provider\<close>; the control plane's own test double, whose faults can be switched
  on, supplies the failing behaviours.
\<close>

subsection \<open>Errors and operations\<close>

datatype provider_error =
    UnsupportedCapability string
  | InvalidRequest string
  | Unavailable string
  | RollbackFailed string

fun show_provider_error :: "provider_error \<Rightarrow> string" where
  "show_provider_error (UnsupportedCapability s) = ''unsupported capability: '' @ s"
| "show_provider_error (InvalidRequest s) = ''invalid request: '' @ s"
| "show_provider_error (Unavailable s) = ''provider unavailable: '' @ s"
| "show_provider_error (RollbackFailed s) = ''rollback failed: '' @ s"

record 'p provider_ops =
  op_manifest :: "'p \<Rightarrow> provider_manifest"
  op_snapshot :: "'p \<Rightarrow> (provider_error, state_snapshot) result"
  op_preview :: "'p \<Rightarrow> change_request \<Rightarrow> (provider_error, string) result"
  op_apply :: "'p \<Rightarrow> change_request \<Rightarrow> (provider_error, unit) result \<times> 'p"
  op_verify :: "'p \<Rightarrow> change_request \<Rightarrow> (provider_error, bool) result"
  op_rollback :: "'p \<Rightarrow> state_snapshot \<Rightarrow> (provider_error, unit) result \<times> 'p"

subsection \<open>Contracts\<close>

locale restoring_provider =
  fixes P :: "'p provider_ops"
    and inv :: "'p \<Rightarrow> bool"
  assumes apply_inv: "inv p \<Longrightarrow> inv (snd (op_apply P p c))"
    and rollback_restores:
      "inv p \<Longrightarrow> inv q \<Longrightarrow> op_snapshot P p = Inr s \<Longrightarrow>
         \<exists>r. op_rollback P q s = (Inr (), r) \<and> op_snapshot P r = Inr s \<and> inv r"
begin

lemma rollback_result:
  assumes "inv p" "inv q" "op_snapshot P p = Inr s"
  shows "fst (op_rollback P q s) = Inr ()"
    and "op_snapshot P (snd (op_rollback P q s)) = Inr s"
    and "inv (snd (op_rollback P q s))"
  using rollback_restores [OF assms] by auto

end

locale serving_provider = restoring_provider +
  fixes accepts :: "change_request \<Rightarrow> bool"
  assumes preview_ok: "inv p \<Longrightarrow> accepts c \<Longrightarrow> \<exists>d. op_preview P p c = Inr d"
    and apply_ok: "inv p \<Longrightarrow> accepts c \<Longrightarrow>
      \<exists>q. op_apply P p c = (Inr (), q) \<and> op_verify P q c = Inr True"
    and snapshot_ok: "inv p \<Longrightarrow> \<exists>s. op_snapshot P p = Inr s"

subsection \<open>The mock provider\<close>

record mock_provider =
  mock_value :: u64

definition value_schema :: json where
  "value_schema = obj
     [(''type'', Str ''object''), (''required'', Arr [Str ''value'']),
      (''properties'', obj [(''value'', obj
         [(''type'', Str ''integer''), (''minimum'', num 0), (''maximum'', num 100)])])]"

definition mock_manifest :: "string \<Rightarrow> mock_provider \<Rightarrow> provider_manifest" where
  "mock_manifest os p =
     \<lparr>man_id = ''mock'', protocol_version = 1, targets = [os],
      capabilities = [\<lparr>cap_id = ''mock.value'',
        cap_description = ''Sets an in-memory value for contract testing'',
        cap_risk = Reversible, cap_persistence = Leased, cap_schema = value_schema\<rparr>]\<rparr>"

definition mock_snapshot :: "mock_provider \<Rightarrow> (provider_error, state_snapshot) result" where
  "mock_snapshot p =
     Inr \<lparr>snap_provider = ''mock'', snap_state = obj [(''value'', num (mock_value p))]\<rparr>"

definition value_required :: provider_error where
  "value_required = InvalidRequest ''value must be a u64''"

definition mock_preview :: "mock_provider \<Rightarrow> change_request \<Rightarrow> (provider_error, string) result" where
  "mock_preview p c =
     (case ok_or value_required (get_u64 ''value'' (parameters c)) of
        Inl e \<Rightarrow> Inl e
      | Inr v \<Rightarrow> Inr (''set mock.value from '' @ show_word (mock_value p) @ '' to '' @ show_word v))"

definition mock_apply ::
  "mock_provider \<Rightarrow> change_request \<Rightarrow> (provider_error, unit) result \<times> mock_provider" where
  "mock_apply p c =
     (if capability_id c \<noteq> ''mock.value'' then (Inl (UnsupportedCapability (capability_id c)), p)
      else case ok_or value_required (get_u64 ''value'' (parameters c)) of
             Inl e \<Rightarrow> (Inl e, p)
           | Inr v \<Rightarrow> (Inr (), p\<lparr>mock_value := v\<rparr>))"

definition mock_verify :: "mock_provider \<Rightarrow> change_request \<Rightarrow> (provider_error, bool) result" where
  "mock_verify p c = Inr (get_u64 ''value'' (parameters c) = Some (mock_value p))"

definition mock_rollback ::
  "mock_provider \<Rightarrow> state_snapshot \<Rightarrow> (provider_error, unit) result \<times> mock_provider" where
  "mock_rollback p s =
     (case ok_or (RollbackFailed ''snapshot has no value'') (get_u64 ''value'' (snap_state s)) of
        Inl e \<Rightarrow> (Inl e, p)
      | Inr v \<Rightarrow> (Inr (), p\<lparr>mock_value := v\<rparr>))"

definition mock_ops :: "string \<Rightarrow> mock_provider provider_ops" where
  "mock_ops os =
     \<lparr>op_manifest = mock_manifest os, op_snapshot = mock_snapshot, op_preview = mock_preview,
      op_apply = mock_apply, op_verify = mock_verify, op_rollback = mock_rollback\<rparr>"

lemmas mock_defs = mock_ops_def mock_manifest_def mock_snapshot_def mock_preview_def
  mock_apply_def mock_verify_def mock_rollback_def

definition mock_accepts :: "change_request \<Rightarrow> bool" where
  "mock_accepts c \<longleftrightarrow>
     capability_id c = ''mock.value'' \<and> get_u64 ''value'' (parameters c) \<noteq> None"

interpretation mock: serving_provider "mock_ops os" any mock_accepts
  by unfold_locales (auto simp: mock_defs mock_accepts_def split: option.splits)

text \<open>The sidecar's \<open>main\<close>: one lifecycle by hand, \<open>None\<close> when its assertion fails.\<close>

definition mock_main :: "string \<Rightarrow> (provider_error, string) result option" where
  "mock_main os =
     (let p = \<lparr>mock_value = 0\<rparr>;
          c = \<lparr>capability_id = ''mock.value'', parameters = obj [(''value'', num 1)],
               lease_seconds = 30\<rparr>
      in case mock_snapshot p of Inl e \<Rightarrow> Some (Inl e) | Inr s \<Rightarrow>
         (case mock_preview p c of Inl e \<Rightarrow> Some (Inl e) | Inr _ \<Rightarrow>
         (case mock_apply p c of (Inl e, _) \<Rightarrow> Some (Inl e) | (Inr _, q) \<Rightarrow>
         (case mock_verify q c of Inl e \<Rightarrow> Some (Inl e) | Inr ok \<Rightarrow>
           if \<not> ok then None
           else (case mock_rollback q s of (Inl e, _) \<Rightarrow> Some (Inl e)
                 | (Inr _, r) \<Rightarrow> Some (Inr (man_id (mock_manifest os r))))))))"

lemma mock_main_ok: "mock_main os = Some (Inr ''mock'')"
  by (simp add: mock_main_def mock_defs)

subsection \<open>The control plane's test double\<close>

text \<open>
  \<open>FakeProvider\<close> of the control plane's unit tests.  Its one arithmetic step,
  \<open>self.value += 1\<close>, wraps here where a debug build would panic at the largest value.
\<close>

record fake_provider =
  fake_value :: u64
  fail_verification :: bool
  fail_apply :: bool
  corrupt_rollback :: bool

definition fake_manifest :: "string \<Rightarrow> fake_provider \<Rightarrow> provider_manifest" where
  "fake_manifest os p =
     \<lparr>man_id = ''fake'', protocol_version = 1, targets = [os],
      capabilities = [\<lparr>cap_id = ''mock.value'',
        cap_description = ''Sets an in-memory value for lifecycle tests'',
        cap_risk = Reversible, cap_persistence = Leased, cap_schema = value_schema\<rparr>]\<rparr>"

definition fake_snapshot :: "fake_provider \<Rightarrow> (provider_error, state_snapshot) result" where
  "fake_snapshot p =
     Inr \<lparr>snap_provider = ''fake'', snap_state = obj [(''value'', num (fake_value p))]\<rparr>"

text \<open>\<open>render\<close> is how the JSON library prints the value into the description.\<close>

definition fake_preview ::
  "(json \<Rightarrow> string) \<Rightarrow> fake_provider \<Rightarrow> change_request \<Rightarrow> (provider_error, string) result" where
  "fake_preview render p c =
     Inr (''set fake value to '' @
       render (case get ''value'' (parameters c) of None \<Rightarrow> Null | Some v \<Rightarrow> v))"

definition fake_apply ::
  "fake_provider \<Rightarrow> change_request \<Rightarrow> (provider_error, unit) result \<times> fake_provider" where
  "fake_apply p c =
     (case ok_or value_required (get_u64 ''value'' (parameters c)) of
        Inl e \<Rightarrow> (Inl e, p)
      | Inr v \<Rightarrow>
          (if fail_apply p
           then (Inl (Unavailable ''apply failed after mutating state''), p\<lparr>fake_value := v\<rparr>)
           else (Inr (), p\<lparr>fake_value := v\<rparr>)))"

definition fake_verify :: "fake_provider \<Rightarrow> change_request \<Rightarrow> (provider_error, bool) result" where
  "fake_verify p c =
     Inr (\<not> fail_verification p \<and> get_u64 ''value'' (parameters c) = Some (fake_value p))"

definition fake_rollback ::
  "fake_provider \<Rightarrow> state_snapshot \<Rightarrow> (provider_error, unit) result \<times> fake_provider" where
  "fake_rollback p s =
     (case ok_or (RollbackFailed ''snapshot has no value'') (get_u64 ''value'' (snap_state s)) of
        Inl e \<Rightarrow> (Inl e, p)
      | Inr v \<Rightarrow> (Inr (), p\<lparr>fake_value := (if corrupt_rollback p then v + 1 else v)\<rparr>))"

definition fake_ops :: "string \<Rightarrow> (json \<Rightarrow> string) \<Rightarrow> fake_provider provider_ops" where
  "fake_ops os render =
     \<lparr>op_manifest = fake_manifest os, op_snapshot = fake_snapshot,
      op_preview = fake_preview render, op_apply = fake_apply, op_verify = fake_verify,
      op_rollback = fake_rollback\<rparr>"

lemmas fake_defs = fake_ops_def fake_manifest_def fake_snapshot_def fake_preview_def
  fake_apply_def fake_verify_def fake_rollback_def

text \<open>A double that does not corrupt its rollback restores, whatever else it fails at.\<close>

interpretation fake:
  restoring_provider "fake_ops os render" "\<lambda>p. \<not> corrupt_rollback p"
  by unfold_locales (auto simp: fake_defs split: sum.splits)

end
