(* ===== verification/Watchdog.thy ===== *)
theory Watchdog
  imports Journal Provider
begin

section \<open>The independent watchdog (\<open>apps/watchdog\<close>)\<close>

text \<open>
  The lease and crash-recovery process: \<open>journal.rs\<close> (the scan for unclosed experiments and the
  restore records), \<open>lib.rs\<close> (one reclaim pass) and the argument parsing of \<open>main.rs\<close>.  It
  shares only the journal with the control plane.  What it prints and the loop of its
  passes are in \<open>Poller\<close>.
\<close>

subsection \<open>Policy and reasons\<close>

datatype watchdog_error = WatchdogJournalFault string | WatchdogSerialization string

fun watchdog_fault :: "fault \<Rightarrow> watchdog_error" where
  "watchdog_fault (Encode_fault s) = WatchdogSerialization s"
| "watchdog_fault (Sqlite_fault s) = WatchdogJournalFault s"

datatype reclaim_policy = AllUnclosed | ExpiredLeasesOnly

datatype reclaim_reason = LeaseExpired | CrashRecovery

fun reclaim_reason_wire :: "reclaim_reason \<Rightarrow> string" where
  "reclaim_reason_wire LeaseExpired = ''lease-expired''"
| "reclaim_reason_wire CrashRecovery = ''crash-recovery''"

fun terminal_message :: "reclaim_reason \<Rightarrow> string" where
  "terminal_message LeaseExpired =
     ''watchdog restored prior state after the TTL lease expired''"
| "terminal_message CrashRecovery =
     ''watchdog restored prior state after detecting an unclosed experiment''"

record unclosed_experiment =
  un_experiment :: int
  un_provider :: string
  un_snapshot :: state_snapshot
  un_request :: change_request
  un_expired :: bool

definition reclaim_reason_of :: "unclosed_experiment \<Rightarrow> reclaim_reason" where
  "reclaim_reason_of u = (if un_expired u then LeaseExpired else CrashRecovery)"

fun selected_by :: "unclosed_experiment \<Rightarrow> reclaim_policy \<Rightarrow> bool" where
  "selected_by u AllUnclosed = True"
| "selected_by u ExpiredLeasesOnly = un_expired u"

record restoration =
  rs_experiment :: int
  rs_reason :: reclaim_reason
  rs_lease :: u64
  rs_restored :: bool
  rs_error :: "string option"

record ('p, 't) watchdog =
  w_provider :: 'p
  w_provider_id :: string
  w_journal :: "'t journal"

subsection \<open>Reading the journal\<close>

text \<open>
  The age is a difference of whole seconds; a \<open>recorded_at\<close> that is no timestamp has none.
  Only a non-negative age at least as long as the lease counts as expired.
\<close>

definition seconds :: "int \<Rightarrow> int" where
  "seconds ms = ms div 1000"

definition age_seconds :: "int \<Rightarrow> 't jrow \<Rightarrow> int option" where
  "age_seconds now x = map_option (\<lambda>t. seconds now - seconds t) (recorded_at x)"

definition lease_expired :: "int option \<Rightarrow> u64 \<Rightarrow> bool" where
  "lease_expired age lease =
     (case age of
        Some a \<Rightarrow>
          if 0 \<le> a then lease \<le> (if a < 2 ^ 64 then word_of_int a else - 1) else False
      | None \<Rightarrow> False)"

definition terminal_for :: "'t jrow list \<Rightarrow> int \<Rightarrow> bool" where
  "terminal_for rs e \<longleftrightarrow>
     list_ex (\<lambda>t. row_experiment t = e \<and> (stage t = ''completed'' \<or> stage t = ''failed'')) rs"

text \<open>
  The query's join of intents with snapshots, in the order of the experiment id.  SQLite leaves
  the order of rows with the same id open; here they keep the order of insertion.
\<close>

definition unclosed_rows :: "string \<Rightarrow> 't jrow list \<Rightarrow> ('t jrow \<times> 't jrow) list" where
  "unclosed_rows pid rs =
     sort_key (\<lambda>(i, _). row_experiment i)
       (concat (map (\<lambda>i. map (\<lambda>s. (i, s))
          (filter (\<lambda>s. row_experiment s = row_experiment i \<and> stage s = ''snapshot'') rs))
         (filter (\<lambda>i. stage i = ''apply-intent'' \<and> row_provider i = pid \<and>
            \<not> terminal_for rs (row_experiment i)) rs)))"

definition unclosed_of ::
  "'t host \<Rightarrow> int \<Rightarrow> 't jrow \<times> 't jrow \<Rightarrow> (watchdog_error, unclosed_experiment) result" where
  "unclosed_of H now is =
     (case is of (i, s) \<Rightarrow>
      (case from_text H snapshot_of_json (payload s) of
         Inl e \<Rightarrow> Inl (WatchdogSerialization e)
       | Inr snap \<Rightarrow>
      (case from_text H change_of_json (payload i) of
         Inl e \<Rightarrow> Inl (WatchdogSerialization e)
       | Inr c \<Rightarrow>
           Inr \<lparr>un_experiment = row_experiment i, un_provider = snap_provider snap,
                un_snapshot = snap, un_request = c,
                un_expired = lease_expired (age_seconds now i) (lease_seconds c)\<rparr>)))"

fun decode_rows ::
  "('r \<Rightarrow> ('e, 'a) result) \<Rightarrow> 'r list \<Rightarrow> ('e, 'a list) result" where
  "decode_rows f [] = Inr []"
| "decode_rows f (x # xs) =
     (case f x of Inl e \<Rightarrow> Inl e
      | Inr y \<Rightarrow> (case decode_rows f xs of Inl e \<Rightarrow> Inl e | Inr ys \<Rightarrow> Inr (y # ys)))"

definition journal_ready :: "'t host \<Rightarrow> 't journal \<Rightarrow> (fault, bool) result \<times> 't journal" where
  "journal_ready H j = statement H (\<lambda>j'. (Inr (jtable j'), j')) j"

definition unclosed_experiments ::
  "'t host \<Rightarrow> string \<Rightarrow> 't journal \<Rightarrow>
     (watchdog_error, unclosed_experiment list) result \<times> 't journal" where
  "unclosed_experiments H pid j =
     (case journal_ready H j of
        (Inl f, j1) \<Rightarrow> (Inl (watchdog_fault f), j1)
      | (Inr ready, j1) \<Rightarrow>
          if \<not> ready then (Inr [], j1)
          else (case query H (\<lambda>j'. unclosed_rows pid (jrows j')) j1 of
                  (Inl f, j2) \<Rightarrow> (Inl (watchdog_fault f), j2)
                | (Inr rs, j2) \<Rightarrow> (decode_rows (unclosed_of H (now_ms H (jclock j1))) rs, j2)))"

definition scan ::
  "'t host \<Rightarrow> ('p, 't) watchdog \<Rightarrow>
     (watchdog_error, unclosed_experiment list) result \<times> ('p, 't) watchdog" where
  "scan H w = (case unclosed_experiments H (w_provider_id w) (w_journal w) of
     (r, j) \<Rightarrow> (r, w\<lparr>w_journal := j\<rparr>))"

subsection \<open>Restore records\<close>

definition restore_payload :: "reclaim_reason \<Rightarrow> state_snapshot \<Rightarrow> json" where
  "restore_payload reason s = obj
     [(''reason'', enum_enc reclaim_reason_wire reason), (''restored'', Bool True),
      (''snapshot'', snapshot_json s)]"

definition terminal_payload :: "reclaim_reason \<Rightarrow> json" where
  "terminal_payload reason = obj
     [(''kind'', Str ''watchdog-reclaimed''), (''stage'', Str ''watchdog''),
      (''reason'', enum_enc reclaim_reason_wire reason), (''error'', Str (terminal_message reason))]"

definition failure_payload :: "reclaim_reason \<Rightarrow> state_snapshot \<Rightarrow> string \<Rightarrow> json" where
  "failure_payload reason s er = obj
     [(''reason'', enum_enc reclaim_reason_wire reason), (''restored'', Bool False),
      (''error'', Str er), (''snapshot'', snapshot_json s)]"

text \<open>Both records of a success are one transaction.\<close>

definition record_success ::
  "'t host \<Rightarrow> int \<Rightarrow> string \<Rightarrow> reclaim_reason \<Rightarrow> state_snapshot \<Rightarrow> 't journal \<Rightarrow>
     (watchdog_error, unit) result \<times> 't journal" where
  "record_success H e pid reason s j =
     (case statement H (append_rows
        [\<lparr>row_experiment = e, recorded_at = stamp H j, stage = ''watchdog-restore'',
          row_provider = pid, payload = to_text H (restore_payload reason s)\<rparr>,
         \<lparr>row_experiment = e, recorded_at = stamp H (tick j), stage = ''failed'',
          row_provider = pid, payload = to_text H (terminal_payload reason)\<rparr>] ()) j of
        (r, j') \<Rightarrow> (map_err watchdog_fault r, j'))"

definition last_failure_matches ::
  "'t host \<Rightarrow> int \<Rightarrow> string \<Rightarrow> 't journal \<Rightarrow> (watchdog_error, bool) result \<times> 't journal" where
  "last_failure_matches H e er j =
     (case query H (\<lambda>j'. List.find (\<lambda>x. row_experiment x = e \<and> stage x = ''watchdog-restore'')
         (rev (jrows j'))) j of
        (Inl f, j1) \<Rightarrow> (Inl (watchdog_fault f), j1)
      | (Inr None, j1) \<Rightarrow> (Inr False, j1)
      | (Inr (Some x), j1) \<Rightarrow>
          (case of_text H (payload x) of
             Inl d \<Rightarrow> (Inl (WatchdogSerialization d), j1)
           | Inr v \<Rightarrow>
               (Inr (Option.bind (get ''restored'' v) as_bool = Some False \<and>
                     Option.bind (get ''error'' v) as_str = Some er), j1)))"

definition record_failure ::
  "'t host \<Rightarrow> int \<Rightarrow> string \<Rightarrow> reclaim_reason \<Rightarrow> state_snapshot \<Rightarrow> string \<Rightarrow> 't journal \<Rightarrow>
     (watchdog_error, unit) result \<times> 't journal" where
  "record_failure H e pid reason s er j =
     (case last_failure_matches H e er j of
        (Inl d, j1) \<Rightarrow> (Inl d, j1)
      | (Inr True, j1) \<Rightarrow> (Inr (), j1)
      | (Inr False, j1) \<Rightarrow>
          (case insert_record H e ''watchdog-restore'' pid
                  (to_text H (failure_payload reason s er)) j1 of
             (r, j2) \<Rightarrow> (map_err watchdog_fault r, j2)))"

subsection \<open>A reclaim pass\<close>

definition open_watchdog ::
  "'t host \<Rightarrow> 'p provider_ops \<Rightarrow> 'p \<Rightarrow> 't journal \<Rightarrow>
     (watchdog_error, ('p, 't) watchdog) result \<times> 't journal" where
  "open_watchdog H P p j =
     (case statement H (\<lambda>j'. (Inr (), j')) j of
        (Inl f, j1) \<Rightarrow> (Inl (watchdog_fault f), j1)
      | (Inr _, j1) \<Rightarrow> (case statement H (\<lambda>j'. (Inr (), j')) j1 of
          (Inl f, j2) \<Rightarrow> (Inl (watchdog_fault f), j2)
        | (Inr _, j2) \<Rightarrow>
            (Inr \<lparr>w_provider = p, w_provider_id = man_id (op_manifest P p), w_journal = j2\<rparr>, j2)))"

definition restore_state ::
  "'p provider_ops \<Rightarrow> state_snapshot \<Rightarrow> 'p \<Rightarrow> (provider_error, unit) result \<times> 'p" where
  "restore_state P s p =
     (case op_rollback P p s of
        (Inl er, q) \<Rightarrow> (Inl er, q)
      | (Inr _, q) \<Rightarrow>
          (case op_snapshot P q of
             Inl er \<Rightarrow> (Inl er, q)
           | Inr restored \<Rightarrow>
               (if restored = s then Inr ()
                else Inl (RollbackFailed
                  ''post-rollback snapshot did not match the journaled snapshot''), q)))"

definition reclaim_one ::
  "'t host \<Rightarrow> 'p provider_ops \<Rightarrow> unclosed_experiment \<Rightarrow> ('p, 't) watchdog \<Rightarrow>
     (watchdog_error, restoration) result \<times> ('p, 't) watchdog" where
  "reclaim_one H P u w =
     (let reason = reclaim_reason_of u; lease = lease_seconds (un_request u) in
      case restore_state P (un_snapshot u) (w_provider w) of
        (Inr _, p) \<Rightarrow>
          (case record_success H (un_experiment u) (w_provider_id w) reason (un_snapshot u)
                  (w_journal w) of
             (Inl er, j) \<Rightarrow> (Inl er, w\<lparr>w_provider := p, w_journal := j\<rparr>)
           | (Inr _, j) \<Rightarrow>
               (Inr \<lparr>rs_experiment = un_experiment u, rs_reason = reason, rs_lease = lease,
                     rs_restored = True, rs_error = None\<rparr>,
                w\<lparr>w_provider := p, w_journal := j\<rparr>))
      | (Inl er, p) \<Rightarrow>
          (case record_failure H (un_experiment u) (w_provider_id w) reason (un_snapshot u)
                  (show_provider_error er) (w_journal w) of
             (Inl er', j) \<Rightarrow> (Inl er', w\<lparr>w_provider := p, w_journal := j\<rparr>)
           | (Inr _, j) \<Rightarrow>
               (Inr \<lparr>rs_experiment = un_experiment u, rs_reason = reason, rs_lease = lease,
                     rs_restored = False, rs_error = Some (show_provider_error er)\<rparr>,
                w\<lparr>w_provider := p, w_journal := j\<rparr>)))"

fun reclaim_each ::
  "'t host \<Rightarrow> 'p provider_ops \<Rightarrow> reclaim_policy \<Rightarrow> unclosed_experiment list \<Rightarrow> ('p, 't) watchdog \<Rightarrow>
     (watchdog_error, restoration list) result \<times> ('p, 't) watchdog" where
  "reclaim_each H P pol [] w = (Inr [], w)"
| "reclaim_each H P pol (u # us) w =
     (if selected_by u pol
      then (case reclaim_one H P u w of
              (Inl er, w1) \<Rightarrow> (Inl er, w1)
            | (Inr r, w1) \<Rightarrow>
                (case reclaim_each H P pol us w1 of
                   (Inl er, w2) \<Rightarrow> (Inl er, w2)
                 | (Inr rs, w2) \<Rightarrow> (Inr (r # rs), w2)))
      else reclaim_each H P pol us w)"

definition reclaim ::
  "'t host \<Rightarrow> 'p provider_ops \<Rightarrow> reclaim_policy \<Rightarrow> ('p, 't) watchdog \<Rightarrow>
     (watchdog_error, restoration list) result \<times> ('p, 't) watchdog" where
  "reclaim H P pol w =
     (case scan H w of
        (Inl er, w1) \<Rightarrow> (Inl er, w1)
      | (Inr candidates, w1) \<Rightarrow> reclaim_each H P pol candidates w1)"

subsection \<open>The process: arguments and policy\<close>

definition DEFAULT_JOURNAL :: string where
  "DEFAULT_JOURNAL = ''fpsmaxxing-journal.sqlite''"

definition DEFAULT_INTERVAL_SECONDS :: u64 where
  "DEFAULT_INTERVAL_SECONDS = 5"

record config =
  journal_path :: string
  interval :: u64
  once :: bool
  recover_all :: bool

text \<open>The loop over the arguments; a trailing \<open>--journal\<close> forgets an earlier path, a trailing
  \<open>--interval\<close> changes nothing.\<close>

fun config_args :: "string list \<Rightarrow> string option \<times> u64 \<times> bool \<times> bool \<Rightarrow>
    string option \<times> u64 \<times> bool \<times> bool" where
  "config_args [] st = st"
| "config_args (a # as) (path, secs, o1, rec) =
     (if a = ''--journal'' then
        (case as of [] \<Rightarrow> (None, secs, o1, rec)
         | v # vs \<Rightarrow> config_args vs (Some v, secs, o1, rec))
      else if a = ''--interval'' then
        (case as of [] \<Rightarrow> (path, secs, o1, rec)
         | v # vs \<Rightarrow> config_args vs (path, (case parse_u64 v of None \<Rightarrow> secs | Some n \<Rightarrow> max n 1), o1, rec))
      else if a = ''--once'' then config_args as (path, secs, True, rec)
      else if a = ''--recover-all'' then config_args as (path, secs, o1, True)
      else config_args as (path, secs, o1, rec))"

definition config_from_args :: "string option \<Rightarrow> string list \<Rightarrow> config" where
  "config_from_args env args =
     (case config_args args (None, DEFAULT_INTERVAL_SECONDS, False, False) of
        (path, secs, o1, rec) \<Rightarrow>
          \<lparr>journal_path =
             (case path of Some p \<Rightarrow> p
              | None \<Rightarrow> (case env of Some p \<Rightarrow> p | None \<Rightarrow> DEFAULT_JOURNAL)),
           interval = secs, once = (o1 \<or> rec), recover_all = rec\<rparr>)"

definition config_policy :: "config \<Rightarrow> reclaim_policy" where
  "config_policy cfg = (if recover_all cfg then AllUnclosed else ExpiredLeasesOnly)"

text \<open>One pass, the unit a timer drives; what was restored is only printed.\<close>

definition watchdog_tick ::
  "'t host \<Rightarrow> 'p provider_ops \<Rightarrow> reclaim_policy \<Rightarrow> ('p, 't) watchdog \<Rightarrow>
     (watchdog_error, unit) result \<times> ('p, 't) watchdog" where
  "watchdog_tick H P pol w =
     (case reclaim H P pol w of (Inl er, w1) \<Rightarrow> (Inl er, w1) | (Inr _, w1) \<Rightarrow> (Inr (), w1))"

end
