(* ===== verification/Control_Plane.thy ===== *)
theory Control_Plane
  imports Provider Journal
begin

section \<open>The control plane (\<open>crates/control-plane/src/lib.rs\<close>)\<close>

text \<open>
  Registry, bounded policy, the broker lifecycle and the durable journal.  The state is the
  record \<open>plane\<close>; every method takes it and returns it with its result, in the order the
  code makes its provider calls and journal writes, so that each early return is a branch.
  Diagnostics printed to stderr are not modelled.
\<close>

subsection \<open>Errors\<close>

definition MAX_MOCK_VALUE :: u64 where
  "MAX_MOCK_VALUE = 100"

datatype cp_error =
    UnknownCapability string
  | PolicyDenied string
  | ProviderFault provider_error
  | VerificationFailed
  | RollbackVerificationFailed
  | UnknownTrial int
  | JournalFault string
  | SerializationFault string

fun kind :: "cp_error \<Rightarrow> string" where
  "kind (UnknownCapability _) = ''unknown-capability''"
| "kind (PolicyDenied _) = ''policy-denied''"
| "kind (ProviderFault _) = ''provider''"
| "kind VerificationFailed = ''verification-failed''"
| "kind RollbackVerificationFailed = ''rollback-verification-failed''"
| "kind (UnknownTrial _) = ''unknown-trial''"
| "kind (JournalFault _) = ''journal''"
| "kind (SerializationFault _) = ''serialization''"

fun show_cp_error :: "cp_error \<Rightarrow> string" where
  "show_cp_error (UnknownCapability s) = ''unknown capability: '' @ s"
| "show_cp_error (PolicyDenied s) = ''policy denied request: '' @ s"
| "show_cp_error (ProviderFault e) = show_provider_error e"
| "show_cp_error VerificationFailed = ''verification probe failed''"
| "show_cp_error RollbackVerificationFailed = ''rollback verification failed''"
| "show_cp_error (UnknownTrial i) = ''unknown trial: '' @ show_int i"
| "show_cp_error (JournalFault s) = s"
| "show_cp_error (SerializationFault s) = s"

fun of_fault :: "fault \<Rightarrow> cp_error" where
  "of_fault (Encode_fault s) = SerializationFault s"
| "of_fault (Sqlite_fault s) = JournalFault s"

datatype stage_failure =
  StageFailure (fail_stage: string) (fail_error: cp_error) (fail_suppressed: "stage_failure option")

definition new_failure :: "string \<Rightarrow> cp_error \<Rightarrow> stage_failure" where
  "new_failure st e = StageFailure st e None"

definition suppressing :: "stage_failure \<Rightarrow> stage_failure \<Rightarrow> stage_failure" where
  "suppressing f original = StageFailure (fail_stage f) (fail_error f) (Some original)"

lemma new_failure_sel [simp]:
  "fail_stage (new_failure st e) = st" "fail_error (new_failure st e) = e"
  "fail_suppressed (new_failure st e) = None"
  by (simp_all add: new_failure_def)

lemma suppressing_sel [simp]:
  "fail_stage (suppressing f g) = fail_stage f" "fail_error (suppressing f g) = fail_error f"
  "fail_suppressed (suppressing f g) = Some g"
  by (simp_all add: suppressing_def)

subsection \<open>State\<close>

record lifecycle_result =
  res_provider :: string
  res_preview :: string
  verified :: bool
  rolled_back :: bool

record ('p, 't) plane =
  provider :: 'p
  manifest :: provider_manifest
  journal :: "'t journal"

definition open_plane ::
  "'t host \<Rightarrow> 'p provider_ops \<Rightarrow> 'p \<Rightarrow> 't journal \<Rightarrow>
     (cp_error, ('p, 't) plane) result \<times> 't journal" where
  "open_plane H P p j =
     (let man = op_manifest P p in
      if \<not> list_ex (\<lambda>t. t = os H) (targets man)
      then (Inl (PolicyDenied ''unknown platform target''), j)
      else case statement H (\<lambda>j. (Inr (), j)) j of
        (Inl f, j1) \<Rightarrow> (Inl (of_fault f), j1)
      | (Inr _, j1) \<Rightarrow> (case statement H (\<lambda>j. (Inr (), j)) j1 of
        (Inl f, j2) \<Rightarrow> (Inl (of_fault f), j2)
      | (Inr _, j2) \<Rightarrow> (case statement H (\<lambda>j. (Inr (), j\<lparr>jtable := True\<rparr>)) j2 of
        (Inl f, j3) \<Rightarrow> (Inl (of_fault f), j3)
      | (Inr _, j3) \<Rightarrow> (Inr \<lparr>provider = p, manifest = man, journal = j3\<rparr>, j3))))"

subsection \<open>Policy\<close>

definition validate :: "provider_manifest \<Rightarrow> change_request \<Rightarrow> (cp_error, unit) result" where
  "validate man c =
     (case List.find (\<lambda>item. cap_id item = capability_id c) (capabilities man) of
        None \<Rightarrow> Inl (UnknownCapability (capability_id c))
      | Some cap \<Rightarrow>
          if cap_risk cap \<noteq> Reversible
          then Inl (PolicyDenied ''only reversible mock capabilities are enabled'')
          else if MAX_LEASE_SECONDS < lease_seconds c
          then Inl (PolicyDenied (''lease exceeds '' @ show_word MAX_LEASE_SECONDS @ '' seconds''))
          else case get_u64 ''value'' (parameters c) of
              None \<Rightarrow> Inl (PolicyDenied ''mock.value requires an unsigned value'')
            | Some v \<Rightarrow>
                if MAX_MOCK_VALUE < v
                then Inl (PolicyDenied (''mock.value is bounded to 0..='' @ show_word MAX_MOCK_VALUE))
                else Inr ())"

subsection \<open>Journal writes\<close>

definition record_stage ::
  "'t host \<Rightarrow> int \<Rightarrow> string \<Rightarrow> json \<Rightarrow> ('p, 't) plane \<Rightarrow>
     (cp_error, unit) result \<times> ('p, 't) plane" where
  "record_stage H e st v pl =
     (case insert_record H e st (man_id (manifest pl)) (to_text H v) (journal pl) of
        (r, j) \<Rightarrow> (map_err of_fault r, pl\<lparr>journal := j\<rparr>))"

definition begin_experiment ::
  "'t host \<Rightarrow> state_snapshot \<Rightarrow> ('p, 't) plane \<Rightarrow> (cp_error, int) result \<times> ('p, 't) plane" where
  "begin_experiment H s pl =
     (case allocate_experiment H (man_id (manifest pl)) (to_text H (snapshot_json s)) (journal pl) of
        (r, j) \<Rightarrow> (map_err of_fault r, pl\<lparr>journal := j\<rparr>))"

subsection \<open>Lifecycle stages\<close>

definition observe_applied ::
  "'t host \<Rightarrow> 'p provider_ops \<Rightarrow> int \<Rightarrow> change_request \<Rightarrow> ('p, 't) plane \<Rightarrow>
     (stage_failure, bool) result \<times> ('p, 't) plane" where
  "observe_applied H P e c pl =
     (case record_stage H e ''apply'' (obj [(''applied'', Bool True)]) pl of
        (Inl er, pl1) \<Rightarrow> (Inl (new_failure ''apply'' er), pl1)
      | (Inr _, pl1) \<Rightarrow>
          (case op_verify P (provider pl1) c of
             Inl er \<Rightarrow> (Inl (new_failure ''verify'' (ProviderFault er)), pl1)
           | Inr ok \<Rightarrow>
               (case record_stage H e ''verify'' (obj [(''verified'', Bool ok)]) pl1 of
                  (Inl er, pl2) \<Rightarrow> (Inl (new_failure ''verify'' er), pl2)
                | (Inr _, pl2) \<Rightarrow>
                    (if ok then Inr True else Inl (new_failure ''verify'' VerificationFailed), pl2))))"

definition restore ::
  "'t host \<Rightarrow> 'p provider_ops \<Rightarrow> int \<Rightarrow> state_snapshot \<Rightarrow> ('p, 't) plane \<Rightarrow>
     (stage_failure, unit) result \<times> ('p, 't) plane" where
  "restore H P e s pl =
     (case op_rollback P (provider pl) s of
        (Inl er, p) \<Rightarrow> (Inl (new_failure ''rollback'' (ProviderFault er)), pl\<lparr>provider := p\<rparr>)
      | (Inr _, p) \<Rightarrow>
          (case record_stage H e ''rollback'' (snapshot_json s) (pl\<lparr>provider := p\<rparr>) of
             (Inl er, pl1) \<Rightarrow> (Inl (new_failure ''rollback'' er), pl1)
           | (Inr _, pl1) \<Rightarrow>
               (case op_snapshot P (provider pl1) of
                  Inl er \<Rightarrow> (Inl (new_failure ''rollback-verify'' (ProviderFault er)), pl1)
                | Inr restored \<Rightarrow>
                    (case record_stage H e ''rollback-verify''
                            (obj [(''restored'', Bool (restored = s))]) pl1 of
                       (Inl er, pl2) \<Rightarrow> (Inl (new_failure ''rollback-verify'' er), pl2)
                     | (Inr _, pl2) \<Rightarrow>
                         (if restored = s then Inr ()
                          else Inl (new_failure ''rollback-verify'' RollbackVerificationFailed),
                          pl2)))))"

text \<open>The expression \<open>observed\<close> of \<open>run_stages\<close>: apply, then observe the applied value.\<close>

definition apply_and_observe ::
  "'t host \<Rightarrow> 'p provider_ops \<Rightarrow> int \<Rightarrow> change_request \<Rightarrow> ('p, 't) plane \<Rightarrow>
     (stage_failure, bool) result \<times> ('p, 't) plane" where
  "apply_and_observe H P e c pl =
     (case op_apply P (provider pl) c of
        (Inl er, p) \<Rightarrow> (Inl (new_failure ''apply'' (ProviderFault er)), pl\<lparr>provider := p\<rparr>)
      | (Inr _, p) \<Rightarrow> observe_applied H P e c (pl\<lparr>provider := p\<rparr>))"

text \<open>Restore whatever was observed; a failed restore takes precedence and keeps the original.\<close>

definition restore_after ::
  "'t host \<Rightarrow> 'p provider_ops \<Rightarrow> int \<Rightarrow> state_snapshot \<Rightarrow> string \<Rightarrow>
     (stage_failure, bool) result \<Rightarrow> ('p, 't) plane \<Rightarrow>
     (stage_failure, lifecycle_result) result \<times> ('p, 't) plane" where
  "restore_after H P e s preview observed pl =
     (case restore H P e s pl of
        (Inl restore_failure, pl1) \<Rightarrow>
          (Inl (case observed of Inl original \<Rightarrow> suppressing restore_failure original
                | Inr _ \<Rightarrow> restore_failure), pl1)
      | (Inr _, pl1) \<Rightarrow>
          (case observed of
             Inl original \<Rightarrow> (Inl original, pl1)
           | Inr ok \<Rightarrow>
               (Inr \<lparr>res_provider = man_id (manifest pl1), res_preview = preview, verified = ok,
                     rolled_back = True\<rparr>, pl1)))"

definition run_stages ::
  "'t host \<Rightarrow> 'p provider_ops \<Rightarrow> int \<Rightarrow> change_request \<Rightarrow> state_snapshot \<Rightarrow> ('p, 't) plane \<Rightarrow>
     (stage_failure, lifecycle_result) result \<times> ('p, 't) plane" where
  "run_stages H P e c s pl =
     (case op_preview P (provider pl) c of
        Inl er \<Rightarrow> (Inl (new_failure ''preview'' (ProviderFault er)), pl)
      | Inr preview \<Rightarrow>
     (case record_stage H e ''preview'' (obj [(''description'', Str preview)]) pl of
        (Inl er, pl1) \<Rightarrow> (Inl (new_failure ''preview'' er), pl1)
      | (Inr _, pl1) \<Rightarrow>
     (case record_stage H e ''apply-intent'' (change_json c) pl1 of
        (Inl er, pl2) \<Rightarrow> (Inl (new_failure ''apply-intent'' er), pl2)
      | (Inr _, pl2) \<Rightarrow>
     (case apply_and_observe H P e c pl2 of
        (observed, pl3) \<Rightarrow> restore_after H P e s preview observed pl3))))"

definition failure_json :: "stage_failure \<Rightarrow> (string \<times> json) list" where
  "failure_json f =
     [(''kind'', Str (kind (fail_error f))), (''stage'', Str (fail_stage f)),
      (''error'', Str (show_cp_error (fail_error f)))]"

definition failed_payload :: "stage_failure \<Rightarrow> json" where
  "failed_payload f = obj (failure_json f @
     (case fail_suppressed f of None \<Rightarrow> [] | Some g \<Rightarrow> [(''suppressed'', obj (failure_json g))]))"

definition record_outcome ::
  "'t host \<Rightarrow> int \<Rightarrow> (stage_failure, lifecycle_result) result \<Rightarrow> ('p, 't) plane \<Rightarrow>
     (cp_error, lifecycle_result) result \<times> ('p, 't) plane" where
  "record_outcome H e outcome pl =
     (case outcome of
        Inr result \<Rightarrow>
          (case record_stage H e ''completed''
                  (obj [(''verified'', Bool (verified result)),
                        (''rolled_back'', Bool (rolled_back result))]) pl of
             (Inl er, pl1) \<Rightarrow> (Inl er, pl1)
           | (Inr _, pl1) \<Rightarrow> (Inr result, pl1))
      | Inl failure \<Rightarrow>
          (case record_stage H e ''failed'' (failed_payload failure) pl of
             (_, pl1) \<Rightarrow> (Inl (fail_error failure), pl1)))"

definition run_lifecycle ::
  "'t host \<Rightarrow> 'p provider_ops \<Rightarrow> change_request \<Rightarrow> ('p, 't) plane \<Rightarrow>
     (cp_error, lifecycle_result) result \<times> ('p, 't) plane" where
  "run_lifecycle H P c pl =
     (case validate (manifest pl) c of
        Inl er \<Rightarrow> (Inl er, pl)
      | Inr _ \<Rightarrow>
     (case op_snapshot P (provider pl) of
        Inl er \<Rightarrow> (Inl (ProviderFault er), pl)
      | Inr s \<Rightarrow>
     (case begin_experiment H s pl of
        (Inl er, pl1) \<Rightarrow> (Inl er, pl1)
      | (Inr e, pl1) \<Rightarrow>
     (case run_stages H P e c s pl1 of
        (outcome, pl2) \<Rightarrow> record_outcome H e outcome pl2))))"

subsection \<open>Reads and the trial journal\<close>

definition journal_stages ::
  "'t host \<Rightarrow> ('p, 't) plane \<Rightarrow> (cp_error, string list) result \<times> ('p, 't) plane" where
  "journal_stages H pl =
     (case query H (\<lambda>j. map stage (jrows j)) (journal pl) of
        (r, j) \<Rightarrow> (map_err of_fault r, pl\<lparr>journal := j\<rparr>))"

definition plane_snapshot ::
  "'p provider_ops \<Rightarrow> ('p, 't) plane \<Rightarrow> (cp_error, state_snapshot) result" where
  "plane_snapshot P pl = map_err ProviderFault (op_snapshot P (provider pl))"

definition record_trial ::
  "'t host \<Rightarrow> json \<Rightarrow> ('p, 't) plane \<Rightarrow> (cp_error, int) result \<times> ('p, 't) plane" where
  "record_trial H v pl =
     (case insert_trial H (to_text H v) (journal pl) of
        (r, j) \<Rightarrow> (map_err of_fault r, pl\<lparr>journal := j\<rparr>))"

definition read_trial ::
  "'t host \<Rightarrow> int \<Rightarrow> ('p, 't) plane \<Rightarrow> (cp_error, json) result \<times> ('p, 't) plane" where
  "read_trial H i pl =
     (case query H (\<lambda>j. List.find (\<lambda>t. trial_id t = i) (jtrials j)) (journal pl) of
        (Inl f, j) \<Rightarrow> (Inl (of_fault f), pl\<lparr>journal := j\<rparr>)
      | (Inr None, j) \<Rightarrow> (Inl (UnknownTrial i), pl\<lparr>journal := j\<rparr>)
      | (Inr (Some t), j) \<Rightarrow>
          (map_err SerializationFault (of_text H (trial_payload t)), pl\<lparr>journal := j\<rparr>))"

definition trial_ids ::
  "'t host \<Rightarrow> ('p, 't) plane \<Rightarrow> (cp_error, int list) result \<times> ('p, 't) plane" where
  "trial_ids H pl =
     (case query H (\<lambda>j. sort (map trial_id (jtrials j))) (journal pl) of
        (r, j) \<Rightarrow> (map_err of_fault r, pl\<lparr>journal := j\<rparr>))"

end
