(* ===== verification/Lifecycle.thy ===== *)
theory Lifecycle
  imports Control_Plane
begin

section \<open>The lifecycle of one experiment: what the control plane guarantees\<close>

text \<open>
  The shape of every run of \<open>run_lifecycle\<close>, whichever provider call or journal write fails,
  proved stage by stage (\<open>record_stage_cases\<close> up to \<open>run_lifecycle_shape\<close>), and the properties
  that follow: the policy, the write-ahead order, the single terminal record, restoration for
  providers that meet their contract, the precedence of a failed restore, completion without
  faults, and the append-only trial journal.
\<close>

subsection \<open>Growth of the journal\<close>

definition grows :: "('p, 't) plane \<Rightarrow> 't jrow list \<Rightarrow> ('p, 't) plane \<Rightarrow> bool" where
  "grows pl xs pl' \<longleftrightarrow>
     jrows (journal pl') = jrows (journal pl) @ xs \<and> jtrials (journal pl') = jtrials (journal pl) \<and>
     jtable (journal pl') = jtable (journal pl) \<and> manifest pl' = manifest pl"

lemma grows_refl [simp]: "grows pl [] pl"
  by (simp add: grows_def)

lemma grows_trans: "grows pl xs pl1 \<Longrightarrow> grows pl1 ys pl2 \<Longrightarrow> grows pl (xs @ ys) pl2"
  by (simp add: grows_def)

lemma grows_provider [simp]:
  "grows (pl\<lparr>provider := p\<rparr>) xs pl' = grows pl xs pl'"
  "grows pl xs (pl'\<lparr>provider := p\<rparr>) = grows pl xs pl'"
  by (simp_all add: grows_def)

lemma grows_manifest: "grows pl xs pl' \<Longrightarrow> manifest pl' = manifest pl"
  by (simp add: grows_def)

definition rows_of :: "int \<Rightarrow> string \<Rightarrow> 't jrow list \<Rightarrow> bool" where
  "rows_of e pid xs \<longleftrightarrow> (\<forall>r\<in>set xs. row_experiment r = e \<and> row_provider r = pid)"

lemma rows_of_simps [simp]:
  "rows_of e pid []" "rows_of e pid (x # xs) \<longleftrightarrow>
     row_experiment x = e \<and> row_provider x = pid \<and> rows_of e pid xs"
  "rows_of e pid (xs @ ys) \<longleftrightarrow> rows_of e pid xs \<and> rows_of e pid ys"
  by (auto simp: rows_of_def)

lemma record_stage_cases [consumes 1, case_names fault stored]:
  assumes "record_stage H e st v pl = (r, pl')"
  obtains er where "r = Inl er" "grows pl [] pl'" "provider pl' = provider pl"
  | x where "r = Inr ()" "grows pl [x] pl'" "provider pl' = provider pl" "jtable (journal pl)"
      "row_experiment x = e" "stage x = st" "row_provider x = man_id (manifest pl)"
      "payload x = to_text H v"
proof -
  obtain r0 j where ins:
    "insert_record H e st (man_id (manifest pl)) (to_text H v) (journal pl) = (r0, j)"
    by fastforce
  with assms have "r = map_err of_fault r0" "pl' = pl\<lparr>journal := j\<rparr>"
    by (auto simp: record_stage_def)
  with ins show thesis
    by (cases rule: insert_record_cases) (auto intro: that simp: grows_def)
qed

lemma record_stage_ok:
  "stmt_fault H (jclock (journal pl)) = None \<Longrightarrow> jtable (journal pl) \<Longrightarrow>
   record_stage H e st v pl = (Inr (), pl\<lparr>journal := (tick (journal pl))\<lparr>jrows := jrows (journal pl) @
     [\<lparr>row_experiment = e, recorded_at = stamp H (journal pl), stage = st,
       row_provider = man_id (manifest pl), payload = to_text H v\<rparr>]\<rparr>\<rparr>)"
  by (simp add: record_stage_def insert_record_ok)

lemma begin_experiment_cases [consumes 1, case_names fault stored]:
  assumes "begin_experiment H s pl = (r, pl')"
  obtains er where "r = Inl er" "grows pl [] pl'" "provider pl' = provider pl"
  | e x where "r = Inr e" "grows pl [x] pl'" "provider pl' = provider pl" "jtable (journal pl)"
      "row_experiment x = e" "stage x = ''snapshot''" "row_provider x = man_id (manifest pl)"
      "payload x = to_text H (snapshot_json s)"
      "\<forall>y\<in>set (jrows (journal pl)). row_experiment y < e"
proof -
  obtain r0 j where ins:
    "allocate_experiment H (man_id (manifest pl)) (to_text H (snapshot_json s)) (journal pl) = (r0, j)"
    by fastforce
  with assms have "r = map_err of_fault r0" "pl' = pl\<lparr>journal := j\<rparr>"
    by (auto simp: begin_experiment_def)
  with ins show thesis
    by (cases rule: allocate_experiment_cases) (auto intro: that simp: grows_def)
qed

lemma observe_applied_shape:
  assumes "observe_applied H P e c pl = (r, pl')"
  obtains xs where "provider pl' = provider pl" "grows pl xs pl'"
    "rows_of e (man_id (manifest pl)) xs" "prefix (map stage xs) [''apply'', ''verify'']"
    "is_ok r \<Longrightarrow> r = Inr True \<and> map stage xs = [''apply'', ''verify''] \<and>
        op_verify P (provider pl) c = Inr True"
proof -
  obtain r1 pl1 where 1: "record_stage H e ''apply'' (obj [(''applied'', Bool True)]) pl = (r1, pl1)"
    by fastforce
  then show thesis
  proof (cases rule: record_stage_cases)
    case (fault er)
    with 1 assms show thesis by (intro that [of "[]"]) (auto simp: observe_applied_def)
  next
    case (stored x)
    show thesis
    proof (cases "op_verify P (provider pl) c")
      case (Inl er)
      with 1 stored assms show thesis by (intro that [of "[x]"]) (auto simp: observe_applied_def)
    next
      case (Inr ok)
      obtain r2 pl2 where 2:
        "record_stage H e ''verify'' (obj [(''verified'', Bool ok)]) pl1 = (r2, pl2)"
        by fastforce
      then show thesis
      proof (cases rule: record_stage_cases)
        case (fault er)
        with 1 2 Inr stored assms show thesis
          by (intro that [of "[x]"]) (auto simp: observe_applied_def dest: grows_trans)
      next
        case (stored y)
        with 1 2 Inr \<open>r1 = Inr ()\<close> \<open>grows pl [x] pl1\<close> \<open>provider pl1 = provider pl\<close>
          \<open>row_experiment x = e\<close> \<open>stage x = ''apply''\<close> \<open>row_provider x = _\<close> assms
        show thesis
          by (intro that [of "[x, y]"])
            (auto simp: observe_applied_def grows_manifest split: if_splits dest: grows_trans)
      qed
    qed
  qed
qed


lemma restore_shape:
  assumes "restore H P e s pl = (r, pl')"
  obtains xs where "provider pl' = snd (op_rollback P (provider pl) s)" "grows pl xs pl'"
    "rows_of e (man_id (manifest pl)) xs" "prefix (map stage xs) [''rollback'', ''rollback-verify'']"
    "\<And>f. r = Inl f \<Longrightarrow> fail_suppressed f = None"
    "r = Inr () \<Longrightarrow> map stage xs = [''rollback'', ''rollback-verify''] \<and>
        op_snapshot P (provider pl') = Inr s"
proof -
  obtain r0 p where rb: "op_rollback P (provider pl) s = (r0, p)" by fastforce
  show thesis
  proof (cases r0)
    case (Inl er)
    with rb assms show thesis by (intro that [of "[]"]) (auto simp: restore_def)
  next
    case (Inr u)
    obtain r1 pl1 where 1: "record_stage H e ''rollback'' (snapshot_json s) (pl\<lparr>provider := p\<rparr>) = (r1, pl1)"
      by fastforce
    then show thesis
    proof (cases rule: record_stage_cases)
      case (fault er)
      with 1 rb Inr assms show thesis by (intro that [of "[]"]) (auto simp: restore_def)
    next
      case (stored x)
      show thesis
      proof (cases "op_snapshot P (provider pl1)")
        case (Inl er)
        with 1 rb \<open>r0 = Inr u\<close> stored assms show thesis
          by (intro that [of "[x]"]) (auto simp: restore_def)
      next
        case (Inr t)
        obtain r2 pl2 where 2: "record_stage H e ''rollback-verify''
            (obj [(''restored'', Bool (t = s))]) pl1 = (r2, pl2)"
          by fastforce
        then show thesis
        proof (cases rule: record_stage_cases)
          case (fault er)
          with 1 2 Inr rb \<open>r0 = Inr u\<close> stored assms show thesis
            by (intro that [of "[x]"]) (auto simp: restore_def dest: grows_trans)
        next
          case (stored y)
          with 1 2 Inr rb \<open>r0 = Inr u\<close> \<open>r1 = Inr ()\<close> \<open>grows (pl\<lparr>provider := p\<rparr>) [x] pl1\<close>
            \<open>provider pl1 = _\<close> \<open>row_experiment x = e\<close> \<open>stage x = _\<close> \<open>row_provider x = _\<close> assms
          show thesis
            by (intro that [of "[x, y]"])
              (auto simp: restore_def grows_manifest split: if_splits dest: grows_trans)
        qed
      qed
    qed
  qed
qed

text \<open>
  The stages an experiment can leave behind between its snapshot and its terminal record,
  and the full sequence of a successful one.
\<close>

definition intent_row :: "'t host \<Rightarrow> change_request \<Rightarrow> 't jrow \<Rightarrow> bool" where
  "intent_row H c x \<longleftrightarrow> stage x = ''apply-intent'' \<and> payload x = to_text H (change_json c)"

definition snapshot_row :: "'t host \<Rightarrow> state_snapshot \<Rightarrow> 't jrow \<Rightarrow> bool" where
  "snapshot_row H s x \<longleftrightarrow> stage x = ''snapshot'' \<and> payload x = to_text H (snapshot_json s)"

lemma apply_and_observe_shape:
  assumes "apply_and_observe H P e c pl = (r, pl')"
  obtains xs where "provider pl' = snd (op_apply P (provider pl) c)" "grows pl xs pl'"
    "rows_of e (man_id (manifest pl)) xs" "prefix (map stage xs) [''apply'', ''verify'']"
    "is_ok r \<Longrightarrow> r = Inr True \<and> map stage xs = [''apply'', ''verify''] \<and>
        fst (op_apply P (provider pl) c) = Inr () \<and>
        op_verify P (snd (op_apply P (provider pl) c)) c = Inr True"
proof -
  obtain r0 p where app: "op_apply P (provider pl) c = (r0, p)" by fastforce
  show thesis
  proof (cases r0)
    case (Inl er)
    with app assms show thesis by (intro that [of "[]"]) (auto simp: apply_and_observe_def)
  next
    case (Inr u)
    with app assms have "observe_applied H P e c (pl\<lparr>provider := p\<rparr>) = (r, pl')"
      by (simp add: apply_and_observe_def)
    then show thesis
      using Inr app by (elim observe_applied_shape) (rule that, auto)
  qed
qed

lemma restore_after_shape:
  assumes "restore_after H P e s d ob pl = (r, pl')"
  obtains xs where "provider pl' = snd (op_rollback P (provider pl) s)" "grows pl xs pl'"
    "rows_of e (man_id (manifest pl)) xs" "prefix (map stage xs) [''rollback'', ''rollback-verify'']"
    "\<And>res. r = Inr res \<Longrightarrow> map stage xs = [''rollback'', ''rollback-verify''] \<and>
        op_snapshot P (provider pl') = Inr s \<and> ob = Inr (verified res) \<and> rolled_back res \<and>
        res_provider res = man_id (manifest pl) \<and> res_preview res = d"
proof -
  obtain r1 pl1 where rs: "restore H P e s pl = (r1, pl1)" by fastforce
  with assms have pl1: "pl' = pl1" by (auto simp: restore_after_def split: sum.splits)
  from rs show thesis
  proof (rule restore_shape)
    fix xs
    assume "provider pl1 = snd (op_rollback P (provider pl) s)" "grows pl xs pl1"
      "rows_of e (man_id (manifest pl)) xs" "prefix (map stage xs) [''rollback'', ''rollback-verify'']"
      "r1 = Inr () \<Longrightarrow> map stage xs = [''rollback'', ''rollback-verify''] \<and>
        op_snapshot P (provider pl1) = Inr s"
    with rs pl1 assms show thesis
      by (intro that [of xs])
        (auto simp: restore_after_def grows_manifest split: sum.splits)
  qed
qed

text \<open>What the provider answered when the stages succeed.\<close>

definition served ::
  "'p provider_ops \<Rightarrow> change_request \<Rightarrow> state_snapshot \<Rightarrow> ('p, 't) plane \<Rightarrow> lifecycle_result \<Rightarrow>
     ('p, 't) plane \<Rightarrow> bool" where
  "served P c s pl res pl' \<longleftrightarrow>
     op_preview P (provider pl) c = Inr (res_preview res) \<and>
     fst (op_apply P (provider pl) c) = Inr () \<and>
     op_verify P (snd (op_apply P (provider pl) c)) c = Inr True \<and>
     op_snapshot P (provider pl') = Inr s \<and>
     verified res \<and> rolled_back res \<and> res_provider res = man_id (manifest pl)"

lemma run_stages_shape [consumes 1, case_names untouched applied]:
  assumes "run_stages H P e c s pl = (r, pl')"
  obtains f xs where "r = Inl f" "provider pl' = provider pl" "grows pl xs pl'"
      "rows_of e (man_id (manifest pl)) xs" "prefix (map stage xs) [''preview'']"
  | x y as bs where
      "provider pl' = snd (op_rollback P (snd (op_apply P (provider pl) c)) s)"
      "grows pl ([x, y] @ as @ bs) pl'" "stage x = ''preview''" "intent_row H c y"
      "rows_of e (man_id (manifest pl)) ([x, y] @ as @ bs)"
      "prefix (map stage as) [''apply'', ''verify'']"
      "prefix (map stage bs) [''rollback'', ''rollback-verify'']"
      "\<And>res. r = Inr res \<Longrightarrow>
         map stage as = [''apply'', ''verify''] \<and> map stage bs = [''rollback'', ''rollback-verify''] \<and>
         served P c s pl res pl'"
proof (cases "op_preview P (provider pl) c")
  case (Inl er)
  with assms show thesis by (intro that(1) [of _ "[]"]) (auto simp: run_stages_def)
next
  case preview: (Inr d)
  obtain r1 pl1 where 1:
    "record_stage H e ''preview'' (obj [(''description'', Str d)]) pl = (r1, pl1)"
    by fastforce
  then show thesis
  proof (cases rule: record_stage_cases)
    case (fault er)
    with 1 preview assms show thesis by (intro that(1) [of _ "[]"]) (auto simp: run_stages_def)
  next
    case x: (stored x)
    obtain r2 pl2 where 2: "record_stage H e ''apply-intent'' (change_json c) pl1 = (r2, pl2)"
      by fastforce
    then show thesis
    proof (cases rule: record_stage_cases)
      case (fault er)
      with 1 2 x preview assms show thesis
        by (intro that(1) [of _ "[x]"]) (auto simp: run_stages_def dest: grows_trans)
    next
      case y: (stored y)
      obtain ob pl3 where ob: "apply_and_observe H P e c pl2 = (ob, pl3)" by fastforce
      then have ra: "restore_after H P e s d ob pl3 = (r, pl')"
        using 1 2 x y preview assms by (simp add: run_stages_def)
      from ob obtain as where as: "provider pl3 = snd (op_apply P (provider pl) c)"
        "grows pl2 as pl3" "rows_of e (man_id (manifest pl)) as"
        "prefix (map stage as) [''apply'', ''verify'']"
        "is_ok ob \<Longrightarrow> ob = Inr True \<and> map stage as = [''apply'', ''verify''] \<and>
           fst (op_apply P (provider pl) c) = Inr () \<and>
           op_verify P (snd (op_apply P (provider pl) c)) c = Inr True"
        using x y by (elim apply_and_observe_shape) (auto simp: grows_manifest)
      from ra obtain bs where bs: "provider pl' = snd (op_rollback P (provider pl3) s)"
        "grows pl3 bs pl'" "rows_of e (man_id (manifest pl)) bs"
        "prefix (map stage bs) [''rollback'', ''rollback-verify'']"
        "\<And>res. r = Inr res \<Longrightarrow> map stage bs = [''rollback'', ''rollback-verify''] \<and>
           op_snapshot P (provider pl') = Inr s \<and> ob = Inr (verified res) \<and> rolled_back res \<and>
           res_provider res = man_id (manifest pl) \<and> res_preview res = d"
        using x y as by (elim restore_after_shape) (auto simp: grows_manifest)
      have g: "grows pl ([x, y] @ as @ bs) pl'"
        using grows_trans [OF grows_trans [OF grows_trans [OF x(2) y(2)] as(2)] bs(2)] by simp
      have m: "manifest pl1 = manifest pl" using x by (simp add: grows_manifest)
      show thesis
      proof (rule that(2) [of x y as bs])
        show "map stage as = [''apply'', ''verify''] \<and>
            map stage bs = [''rollback'', ''rollback-verify''] \<and> served P c s pl res pl'"
          if "r = Inr res" for res
          using bs(5) [OF that] as(5) preview by (auto simp: served_def)
      qed (use x y m as bs g in \<open>auto simp: intent_row_def\<close>)
    qed
  qed
qed


lemma record_stage_no_faults:
  "record_stage H e st v pl = (Inl er, pl') \<Longrightarrow> no_faults H \<Longrightarrow> \<not> jtable (journal pl)"
  by (auto simp: record_stage_def insert_record_def statement_def append_rows_def no_faults_def
      split: if_splits)


subsection \<open>The whole lifecycle\<close>

definition terminal_stages :: "string list" where
  "terminal_stages = [''completed'', ''failed'']"

definition is_terminal :: "'t jrow \<Rightarrow> bool" where
  "is_terminal x \<longleftrightarrow> stage x \<in> set terminal_stages"

definition open_stages :: "string list" where
  "open_stages = [''snapshot'', ''preview'', ''apply-intent'', ''apply'', ''verify'', ''rollback'',
     ''rollback-verify'']"

lemma record_outcome_shape:
  assumes "record_outcome H e out pl = (r, pl')"
  obtains xs where "provider pl' = provider pl" "grows pl xs pl'" "rows_of e (man_id (manifest pl)) xs"
    "length xs \<le> 1" "no_faults H \<Longrightarrow> jtable (journal pl) \<Longrightarrow> xs \<noteq> []"
    "\<And>x. x \<in> set xs \<Longrightarrow> stage x = (if is_ok out then ''completed'' else ''failed'')"
    "is_ok r \<Longrightarrow> r = Inr (projr out) \<and> is_ok out \<and> xs \<noteq> []"
    "\<And>f. out = Inl f \<Longrightarrow> r = Inl (fail_error f) \<and>
        (\<forall>x\<in>set xs. payload x = to_text H (failed_payload f))"
proof (cases out)
  case (Inl f)
  obtain r1 pl1 where 1: "record_stage H e ''failed'' (failed_payload f) pl = (r1, pl1)" by fastforce
  then show thesis
  proof (cases rule: record_stage_cases)
    case (fault er)
    with 1 Inl assms show thesis
      by (intro that [of "[]"]) (auto simp: record_outcome_def record_stage_no_faults)
  next
    case (stored x)
    with 1 Inl assms show thesis by (intro that [of "[x]"]) (auto simp: record_outcome_def)
  qed
next
  case (Inr res)
  obtain r1 pl1 where 1: "record_stage H e ''completed''
      (obj [(''verified'', Bool (verified res)), (''rolled_back'', Bool (rolled_back res))]) pl
      = (r1, pl1)" by fastforce
  then show thesis
  proof (cases rule: record_stage_cases)
    case (fault er)
    with 1 Inr assms show thesis
      by (intro that [of "[]"]) (auto simp: record_outcome_def record_stage_no_faults)
  next
    case (stored x)
    with 1 Inr assms show thesis by (intro that [of "[x]"]) (auto simp: record_outcome_def)
  qed
qed

text \<open>
  How a lifecycle can end: refused before it touches anything, stopped before apply, or
  driven through apply, in which case the restore has run.
\<close>

definition rolled_state :: "'p provider_ops \<Rightarrow> change_request \<Rightarrow> state_snapshot \<Rightarrow> 'p \<Rightarrow> 'p" where
  "rolled_state P c s p = snd (op_rollback P (snd (op_apply P p c)) s)"

lemma run_lifecycle_shape [consumes 1, case_names refused stopped applied]:
  assumes "run_lifecycle H P c pl = (r, pl')"
  obtains er where "r = Inl er" "grows pl [] pl'" "provider pl' = provider pl"
  | s e x xs ts where "is_err r" "op_snapshot P (provider pl) = Inr s"
      "validate (manifest pl) c = Inr ()"
      "provider pl' = provider pl" "grows pl (x # xs @ ts) pl'" "snapshot_row H s x"
      "rows_of e (man_id (manifest pl)) (x # xs @ ts)"
      "\<forall>y\<in>set (jrows (journal pl)). row_experiment y < e"
      "prefix (map stage xs) [''preview'']" "prefix (map stage ts) [''failed'']"
      "no_faults H \<Longrightarrow> ts \<noteq> []"
  | s e x y z as bs ts where "op_snapshot P (provider pl) = Inr s"
      "validate (manifest pl) c = Inr ()"
      "provider pl' = rolled_state P c s (provider pl)"
      "grows pl ([x, y, z] @ as @ bs @ ts) pl'" "snapshot_row H s x" "stage y = ''preview''"
      "intent_row H c z" "rows_of e (man_id (manifest pl)) ([x, y, z] @ as @ bs @ ts)"
      "\<forall>y\<in>set (jrows (journal pl)). row_experiment y < e"
      "prefix (map stage as) [''apply'', ''verify'']"
      "prefix (map stage bs) [''rollback'', ''rollback-verify'']"
      "prefix (map stage ts) [''completed''] \<or> is_err r \<and> prefix (map stage ts) [''failed'']"
      "no_faults H \<Longrightarrow> ts \<noteq> []"
      "\<And>res. r = Inr res \<Longrightarrow>
         map stage as = [''apply'', ''verify''] \<and> map stage bs = [''rollback'', ''rollback-verify''] \<and>
         map stage ts = [''completed''] \<and> served P c s pl res pl'"
proof (cases "validate (manifest pl) c")
  case (Inl er)
  with assms show thesis by (intro that(1)) (auto simp: run_lifecycle_def)
next
  case val: (Inr u)
  show thesis
  proof (cases "op_snapshot P (provider pl)")
    case (Inl er)
    with val assms show thesis by (intro that(1)) (auto simp: run_lifecycle_def)
  next
    case snap: (Inr s)
    obtain r1 pl1 where 1: "begin_experiment H s pl = (r1, pl1)" by fastforce
    then show thesis
    proof (cases rule: begin_experiment_cases)
      case (fault er)
      with 1 val snap assms show thesis by (intro that(1)) (auto simp: run_lifecycle_def)
    next
      case x: (stored e x)
      obtain out pl2 where 2: "run_stages H P e c s pl1 = (out, pl2)" by fastforce
      then have 3: "record_outcome H e out pl2 = (r, pl')"
        using 1 x val snap assms by (simp add: run_lifecycle_def)
      have m1: "manifest pl1 = manifest pl" using x by (simp add: grows_manifest)
      have tab: "jtable (journal pl1)" using x by (simp add: grows_def)
      have sx: "snapshot_row H s x" using x by (simp add: snapshot_row_def)
      from 2 show thesis
      proof (cases rule: run_stages_shape)
        case st: (untouched f xs)
        have m2: "manifest pl2 = manifest pl" using st m1 by (simp add: grows_manifest)
        from 3 obtain ts where ts: "provider pl' = provider pl2" "grows pl2 ts pl'"
          "rows_of e (man_id (manifest pl)) ts" "length ts \<le> 1"
          "\<forall>x\<in>set ts. stage x = ''failed''" "r = Inl (fail_error f)"
          "no_faults H \<Longrightarrow> ts \<noteq> []"
          unfolding m2 [symmetric] using st tab by (elim record_outcome_shape) (auto simp: grows_def)
        have p: "prefix (map stage ts) [''failed'']"
          using ts(4,5) by (cases ts) auto
        have "grows pl (x # xs @ ts) pl'"
          using grows_trans [OF grows_trans [OF x(2) st(3)] ts(2)] by simp
        then show thesis
          using p ts st sx x snap val m1 by (intro that(2) [of s x xs ts e]) auto
      next
        case st: (applied y z as bs)
        have m2: "manifest pl2 = manifest pl" using st(2) m1 by (simp add: grows_manifest)
        from 3 obtain ts where ts: "provider pl' = provider pl2" "grows pl2 ts pl'"
          "rows_of e (man_id (manifest pl)) ts" "length ts \<le> 1"
          "\<And>x. x \<in> set ts \<Longrightarrow> stage x = (if is_ok out then ''completed'' else ''failed'')"
          "is_ok r \<Longrightarrow> r = Inr (projr out) \<and> is_ok out \<and> ts \<noteq> []"
          "\<And>f. out = Inl f \<Longrightarrow> r = Inl (fail_error f)"
          "no_faults H \<Longrightarrow> ts \<noteq> []"
          unfolding m2 [symmetric] using st(2) tab
          by (elim record_outcome_shape) (auto simp: grows_def)
        have g: "grows pl ([x, y, z] @ as @ bs @ ts) pl'"
          using grows_trans [OF grows_trans [OF x(2) st(2)] ts(2)] by simp
        have p: "prefix (map stage ts) [''completed''] \<or> is_err r \<and> prefix (map stage ts) [''failed'']"
          using ts(4,5,7) by (cases ts; cases out) auto
        have q: "map stage as = [''apply'', ''verify''] \<and>
            map stage bs = [''rollback'', ''rollback-verify''] \<and>
            map stage ts = [''completed''] \<and> served P c s pl res pl'" if "r = Inr res" for res
        proof -
          have o: "out = Inr res" "ts \<noteq> []" using ts(6) that by auto
          then obtain t where "ts = [t]" "stage t = ''completed''"
            using ts(4,5) by (cases ts) auto
          with st(8) [OF o(1)] ts(1) x(3) m1 show ?thesis by (simp add: served_def)
        qed
        show thesis
          using q p ts st sx x snap val m1 g
          by (intro that(3) [of s x y z as bs ts e]) (auto simp: rolled_state_def)
      qed
    qed
  qed
qed


subsection \<open>Running without journal faults\<close>

lemma begin_experiment_ok:
  "no_faults H \<Longrightarrow> jtable (journal pl) \<Longrightarrow> max_experiment (jrows (journal pl)) + 1 < 2 ^ 63 \<Longrightarrow>
   \<exists>pl'. begin_experiment H s pl = (Inr (max_experiment (jrows (journal pl)) + 1), pl') \<and>
     provider pl' = provider pl \<and> manifest pl' = manifest pl \<and> jtable (journal pl')"
  by (simp add: begin_experiment_def allocate_experiment_def statement_def append_rows_def
      next_experiment_def no_faults_def)

lemma record_stage_stored:
  "no_faults H \<Longrightarrow> jtable (journal pl) \<Longrightarrow>
   \<exists>pl' x. record_stage H e st v pl = (Inr (), pl') \<and> provider pl' = provider pl \<and>
     manifest pl' = manifest pl \<and> jtable (journal pl') \<and> jrows (journal pl') = jrows (journal pl) @ [x] \<and>
     stage x = st \<and> payload x = to_text H v"
  by (simp add: record_stage_ok no_faults_def)

context restoring_provider
begin

text \<open>However the journal behaves, the captured state is back after any lifecycle.\<close>

lemma lifecycle_restores:
  assumes "run_lifecycle H P c pl = (r, pl')" "inv (provider pl)" "op_snapshot P (provider pl) = Inr s"
  shows "op_snapshot P (provider pl') = Inr s \<and> inv (provider pl')"
  using assms(1)
proof (cases rule: run_lifecycle_shape)
  case (applied t e x y z as bs ts)
  then show ?thesis
    using rollback_result [OF assms(2) apply_inv [OF assms(2)] assms(3)] assms(3)
    by (simp add: rolled_state_def)
qed (use assms in simp_all)

lemma restore_succeeds:
  assumes "no_faults H" "jtable (journal pl)" "inv p" "inv (provider pl)" "op_snapshot P p = Inr s"
  shows "\<exists>pl'. restore H P e s pl = (Inr (), pl') \<and> provider pl' = snd (op_rollback P (provider pl) s) \<and>
    manifest pl' = manifest pl \<and> jtable (journal pl')"
proof -
  obtain q where q: "op_rollback P (provider pl) s = (Inr (), q)" "op_snapshot P q = Inr s"
    using rollback_restores assms by blast
  then show ?thesis
    using assms by (simp add: restore_def record_stage_ok no_faults_def)
qed

end

context serving_provider
begin

lemma apply_and_observe_succeeds:
  assumes "no_faults H" "jtable (journal pl)" "inv (provider pl)" "accepts c"
  shows "\<exists>pl'. apply_and_observe H P e c pl = (Inr True, pl') \<and>
    provider pl' = snd (op_apply P (provider pl) c) \<and> manifest pl' = manifest pl \<and> jtable (journal pl')"
proof -
  obtain q where "op_apply P (provider pl) c = (Inr (), q)" "op_verify P q c = Inr True"
    using apply_ok assms by blast
  then show ?thesis
    using assms by (simp add: apply_and_observe_def observe_applied_def record_stage_ok no_faults_def)
qed

lemma lifecycle_succeeds:
  assumes H: "no_faults H" "jtable (journal pl)" "max_experiment (jrows (journal pl)) + 1 < 2 ^ 63"
    and ok: "inv (provider pl)" "accepts c" "validate (manifest pl) c = Inr ()"
  shows "\<exists>d pl'. op_preview P (provider pl) c = Inr d \<and>
    run_lifecycle H P c pl = (Inr \<lparr>res_provider = man_id (manifest pl), res_preview = d,
      verified = True, rolled_back = True\<rparr>, pl')"
proof -
  obtain s d where s: "op_snapshot P (provider pl) = Inr s" "op_preview P (provider pl) c = Inr d"
    using snapshot_ok preview_ok ok by blast
  obtain e pl1 where 1: "begin_experiment H s pl = (Inr e, pl1)" "provider pl1 = provider pl"
    "manifest pl1 = manifest pl" "jtable (journal pl1)"
    using begin_experiment_ok [OF H] by blast
  obtain pl2 where 2: "record_stage H e ''preview'' (obj [(''description'', Str d)]) pl1 = (Inr (), pl2)"
    "provider pl2 = provider pl" "manifest pl2 = manifest pl" "jtable (journal pl2)"
    using record_stage_stored [OF H(1) 1(4)] 1 by metis
  obtain pl3 where 3: "record_stage H e ''apply-intent'' (change_json c) pl2 = (Inr (), pl3)"
    "provider pl3 = provider pl" "manifest pl3 = manifest pl" "jtable (journal pl3)"
    using record_stage_stored [OF H(1) 2(4)] 2 by metis
  obtain pl4 where 4: "apply_and_observe H P e c pl3 = (Inr True, pl4)"
    "provider pl4 = snd (op_apply P (provider pl) c)" "manifest pl4 = manifest pl" "jtable (journal pl4)"
    using apply_and_observe_succeeds [OF H(1) 3(4)] 3 ok by metis
  obtain pl5 where 5: "restore H P e s pl4 = (Inr (), pl5)" "manifest pl5 = manifest pl"
    "jtable (journal pl5)"
    using restore_succeeds [OF H(1) 4(4) ok(1) _ s(1)] 4 ok apply_inv by metis
  obtain pl6 where 6: "record_stage H e ''completed''
      (obj [(''verified'', Bool True), (''rolled_back'', Bool True)]) pl5 = (Inr (), pl6)"
    using record_stage_stored [OF H(1) 5(3)] by metis
  show ?thesis
    using s ok 1 2 3 4 5 6
    by (simp add: run_lifecycle_def run_stages_def restore_after_def record_outcome_def)
qed

end


subsection \<open>Properties\<close>

definition demo_request :: change_request where
  "demo_request = \<lparr>capability_id = ''mock.value'', parameters = obj [(''value'', num 7)],
     lease_seconds = 30\<rparr>"

definition demo_plane :: "(mock_provider, json) plane" where
  "demo_plane = \<lparr>provider = \<lparr>mock_value = 0\<rparr>, manifest = mock_manifest ''linux'' \<lparr>mock_value = 0\<rparr>,
     journal = empty_journal\<rparr>"

definition broken_plane :: "(fake_provider, json) plane" where
  "broken_plane = (let p = \<lparr>fake_value = 0, fail_verification = True, fail_apply = False,
       corrupt_rollback = True\<rparr>
     in \<lparr>provider = p, manifest = fake_manifest ''linux'' p, journal = empty_journal\<rparr>)"

lemma demo_simps [simp]:
  "jtable (journal demo_plane)" "jrows (journal demo_plane) = []"
  "manifest demo_plane = mock_manifest ''linux'' \<lparr>mock_value = 0\<rparr>"
  "provider demo_plane = \<lparr>mock_value = 0\<rparr>"
  by (simp_all add: demo_plane_def empty_journal_def)

lemma demo_accepted [simp]: "validate (mock_manifest platform p) demo_request = Inr ()"
  by (simp add: validate_def mock_manifest_def demo_request_def MAX_LEASE_SECONDS_def
      MAX_MOCK_VALUE_def)

lemma demo_run: "\<exists>r pl. run_lifecycle plain_host (mock_ops ''linux'') demo_request demo_plane = (Inr r, pl)"
proof -
  have "mock_accepts demo_request" by (simp add: mock_accepts_def demo_request_def)
  then show ?thesis
    using mock.lifecycle_succeeds [of plain_host demo_plane demo_request "''linux''"]
    by (auto simp: max_experiment_def)
qed

text \<open>
  C31: The policy check accepts a request exactly when the capability the manifest lists first
  under that name is reversible, the lease is at most 300 seconds and the \<open>value\<close> parameter is an
  unsigned integer of at most 100; a name the manifest does not list is the only way to get
  \<open>UnknownCapability\<close>, and it carries that name.
\<close>

theorem validate_accepts_iff:
  "(validate man c = Inr () \<longleftrightarrow>
      (\<exists>cap v. List.find (\<lambda>item. cap_id item = capability_id c) (capabilities man) = Some cap \<and>
         cap_risk cap = Reversible \<and> lease_seconds c \<le> 300 \<and>
         get_u64 ''value'' (parameters c) = Some v \<and> v \<le> 100)) \<and>
   (validate man c = Inl (UnknownCapability n) \<longleftrightarrow>
      n = capability_id c \<and> capability_id c \<notin> cap_id ` set (capabilities man))"
proof (cases "List.find (\<lambda>item. cap_id item = capability_id c) (capabilities man)")
  case None
  then have "capability_id c \<notin> cap_id ` set (capabilities man)"
    by (auto simp: find_None_iff)
  with None show ?thesis
    by (auto simp: validate_def)
next
  case (Some cap)
  then have "capability_id c \<in> cap_id ` set (capabilities man)"
    by (auto dest!: find_Some_in_set intro: rev_image_eqI)
  with Some show ?thesis
    by (auto simp: validate_def MAX_LEASE_SECONDS_def MAX_MOCK_VALUE_def not_less
        split: option.splits)
qed

text \<open>
  C3: A lifecycle that returns a result passed the policy, allocated an experiment id above every
  id in the journal and appended exactly the eight stage records of that experiment in order; the
  provider previewed, applied and verified the change, and its snapshot afterwards is the one
  taken before.
\<close>

theorem lifecycle_success:
  assumes "run_lifecycle H P c pl = (Inr res, pl')"
  shows "\<exists>s e xs. validate (manifest pl) c = Inr () \<and>
    op_snapshot P (provider pl) = Inr s \<and> op_preview P (provider pl) c = Inr (res_preview res) \<and>
    fst (op_apply P (provider pl) c) = Inr () \<and>
    op_verify P (snd (op_apply P (provider pl) c)) c = Inr True \<and>
    op_snapshot P (provider pl') = Inr s \<and>
    res = \<lparr>res_provider = man_id (manifest pl), res_preview = res_preview res, verified = True,
           rolled_back = True\<rparr> \<and>
    jrows (journal pl') = jrows (journal pl) @ xs \<and>
    map stage xs = [''snapshot'', ''preview'', ''apply-intent'', ''apply'', ''verify'', ''rollback'',
      ''rollback-verify'', ''completed''] \<and>
    (\<forall>x\<in>set xs. row_experiment x = e \<and> row_provider x = man_id (manifest pl)) \<and>
    (\<forall>y\<in>set (jrows (journal pl)). row_experiment y < e)"
  using assms
proof (cases rule: run_lifecycle_shape)
  case (applied s e x y z as bs ts)
  from applied(14) [OF refl] applied(1-9) show ?thesis
    by (intro exI [of _ s] exI [of _ e] exI [of _ "[x, y, z] @ as @ bs @ ts"])
      (auto simp: served_def grows_def snapshot_row_def intent_row_def rows_of_def)
qed auto

theorem lifecycle_success_witness:
  "\<exists>r pl. run_lifecycle plain_host (mock_ops ''linux'') demo_request demo_plane = (Inr r, pl) \<and>
     map stage (jrows (journal pl)) = [''snapshot'', ''preview'', ''apply-intent'', ''apply'',
       ''verify'', ''rollback'', ''rollback-verify'', ''completed'']"
proof -
  obtain r pl where run: "run_lifecycle plain_host (mock_ops ''linux'') demo_request demo_plane = (Inr r, pl)"
    using demo_run by blast
  then show ?thesis using lifecycle_success [OF run] by auto
qed

text \<open>
  C4: Write-ahead.  If a lifecycle leaves the provider in another state than it found it, then
  the journal holds, under one fresh experiment id, the snapshot the provider reported before and,
  after it, an \<open>apply-intent\<close> record with the full change request.  It holds for every provider,
  also one that keeps a history of its calls in its state.
\<close>

theorem lifecycle_write_ahead:
  assumes "run_lifecycle H P c pl = (r, pl')" "provider pl' \<noteq> provider pl"
  shows "\<exists>s e x ys z zs. op_snapshot P (provider pl) = Inr s \<and>
    jrows (journal pl') = jrows (journal pl) @ [x] @ ys @ [z] @ zs \<and>
    stage x = ''snapshot'' \<and> payload x = to_text H (snapshot_json s) \<and>
    stage z = ''apply-intent'' \<and> payload z = to_text H (change_json c) \<and>
    row_experiment x = e \<and> row_experiment z = e \<and>
    (\<forall>y\<in>set (jrows (journal pl)). row_experiment y < e)"
  using assms(1)
proof (cases rule: run_lifecycle_shape)
  case (applied s e x y z as bs ts)
  then show ?thesis
    by (intro exI [of _ s] exI [of _ e] exI [of _ x] exI [of _ "[y]"] exI [of _ z]
        exI [of _ "as @ bs @ ts"]) (auto simp: grows_def snapshot_row_def intent_row_def)
qed (use assms in auto)

theorem lifecycle_write_ahead_witness:
  "\<exists>r pl. run_lifecycle plain_host (fake_ops ''linux'' (\<lambda>_. ''7'')) demo_request broken_plane = (r, pl) \<and>
     (\<exists>x ys z zs. jrows (journal pl) = [x] @ ys @ [z] @ zs \<and> stage z = ''apply-intent'')"
proof -
  obtain r pl where run:
    "run_lifecycle plain_host (fake_ops ''linux'' (\<lambda>_. ''7'')) demo_request broken_plane = (r, pl)"
    by fastforce
  moreover have "provider pl \<noteq> provider broken_plane \<and> jrows (journal broken_plane) = []"
  proof -
    have "fake_value (provider (snd (run_lifecycle plain_host (fake_ops ''linux'' (\<lambda>_. ''7''))
        demo_request broken_plane))) = 1"
      by code_simp
    then show ?thesis using run by (auto simp: broken_plane_def empty_journal_def Let_def)
  qed
  ultimately show ?thesis using lifecycle_write_ahead [OF run] by fastforce
qed


text \<open>
  What a lifecycle that left no terminal record says of the statements it issued: an error of the
  journal is that of a statement issued between two readings of the clock.
\<close>

definition accounted :: "'t host \<Rightarrow> nat \<Rightarrow> nat \<Rightarrow> cp_error \<Rightarrow> bool" where
  "accounted H a b er \<longleftrightarrow> (\<forall>f. er = of_fault f \<longrightarrow> (\<exists>m. a \<le> m \<and> m < b \<and> stmt_fault H m = Some f))"

lemma of_fault_inject [simp]: "of_fault f = of_fault g \<longleftrightarrow> f = g"
  by (cases f; cases g) auto

lemma not_of_fault [simp]: "ProviderFault er \<noteq> of_fault f" "VerificationFailed \<noteq> of_fault f"
  "RollbackVerificationFailed \<noteq> of_fault f"
  by (cases f; simp)+

lemma accounted_simps [simp]:
  "accounted H a b (ProviderFault er)" "accounted H a b VerificationFailed" "accounted H a b RollbackVerificationFailed"
  by (simp_all add: accounted_def)

lemma accounted_wider: "accounted H a b er \<Longrightarrow> a' \<le> a \<Longrightarrow> b \<le> b' \<Longrightarrow> accounted H a' b' er"
  unfolding accounted_def by (metis le_trans less_le_trans)

definition ticks :: "'t host \<Rightarrow> ('p, 't) plane \<Rightarrow> ('p, 't) plane \<Rightarrow> bool" where
  "ticks H pl pl' \<longleftrightarrow> (jtable (journal pl) \<longrightarrow> jtable (journal pl')) \<and> jclock (journal pl) \<le> jclock (journal pl')"

definition fails_accounted ::
  "'t host \<Rightarrow> ('p, 't) plane \<Rightarrow> (stage_failure, 'a) result \<Rightarrow> ('p, 't) plane \<Rightarrow> bool" where
  "fails_accounted H pl r pl' \<longleftrightarrow> ticks H pl pl' \<and> (\<forall>fl. r = Inl fl \<longrightarrow>
     accounted H (jclock (journal pl)) (jclock (journal pl')) (fail_error fl))"

lemma record_stage_clock:
  assumes "record_stage H e st v pl = (r, pl')" "jtable (journal pl)"
  shows "jtable (journal pl') \<and> jclock (journal pl') = Suc (jclock (journal pl)) \<and>
    r = (case stmt_fault H (jclock (journal pl)) of None \<Rightarrow> Inr () | Some f \<Rightarrow> Inl (of_fault f)) \<and>
    (jrows (journal pl') = jrows (journal pl) \<longrightarrow> stmt_fault H (jclock (journal pl)) \<noteq> None)"
  using assms by (auto simp: record_stage_def insert_record_def statement_def append_rows_def tick_def split: option.splits)

lemma record_stage_accounted:
  assumes "record_stage H e st v pl = (r, pl')" "jtable (journal pl)"
  shows "jtable (journal pl')" "jclock (journal pl') = Suc (jclock (journal pl))"
    "r = Inl er \<Longrightarrow> accounted H (jclock (journal pl)) (Suc (jclock (journal pl))) er"
  using record_stage_clock [OF assms] by (auto simp: accounted_def split: option.splits)

lemma observe_accounted:
  assumes "observe_applied H P e c pl = (r, pl')" "jtable (journal pl)"
  shows "fails_accounted H pl r pl'"
proof -
  obtain r1 pl1 where 1: "record_stage H e ''apply'' (obj [(''applied'', Bool True)]) pl = (r1, pl1)" by fastforce
  note a1 = record_stage_accounted [OF 1 assms(2)]
  obtain r2 pl2 where 2: "record_stage H e ''verify'' (obj [(''verified'', Bool (projr (op_verify P (provider pl1) c)))]) pl1 = (r2, pl2)"
    by fastforce
  note a2 = record_stage_accounted [OF 2 a1(1)]
  show ?thesis
    using assms(1) 1 2 a1 a2
    by (auto simp: observe_applied_def fails_accounted_def ticks_def new_failure_def elim!: accounted_wider
        split: sum.splits if_splits)
qed

lemma restore_accounted:
  assumes "restore H P e s pl = (r, pl')" "jtable (journal pl)"
  shows "fails_accounted H pl r pl'"
proof -
  obtain r0 p where 0: "op_rollback P (provider pl) s = (r0, p)" by fastforce
  obtain r1 pl1 where 1: "record_stage H e ''rollback'' (snapshot_json s) (pl\<lparr>provider := p\<rparr>) = (r1, pl1)" by fastforce
  have t: "jtable (journal (pl\<lparr>provider := p\<rparr>))" using assms(2) by simp
  note a1 = record_stage_accounted [OF 1 t]
  obtain r2 pl2 where 2: "record_stage H e ''rollback-verify''
      (obj [(''restored'', Bool (projr (op_snapshot P (provider pl1)) = s))]) pl1 = (r2, pl2)" by fastforce
  note a2 = record_stage_accounted [OF 2 a1(1)]
  show ?thesis
    using assms 0 1 2 a1 a2
    by (auto simp: restore_def fails_accounted_def ticks_def new_failure_def elim!: accounted_wider
        split: sum.splits if_splits)
qed

lemma fails_accounted_trans:
  "ticks H pl pl1 \<Longrightarrow> fails_accounted H pl1 r pl2 \<Longrightarrow> fails_accounted H pl r pl2"
  "fails_accounted H pl r pl1 \<Longrightarrow> ticks H pl1 pl2 \<Longrightarrow> fails_accounted H pl r pl2"
  by (auto simp: fails_accounted_def ticks_def elim!: accounted_wider)

lemma apply_accounted:
  assumes "apply_and_observe H P e c pl = (r, pl')" "jtable (journal pl)"
  shows "fails_accounted H pl r pl'"
proof -
  obtain r0 p where 0: "op_apply P (provider pl) c = (r0, p)" by fastforce
  show ?thesis
  proof (cases r0)
    case (Inl er)
    with 0 assms show ?thesis
      by (auto simp: apply_and_observe_def fails_accounted_def ticks_def new_failure_def)
  next
    case (Inr u)
    with 0 assms have "fails_accounted H (pl\<lparr>provider := p\<rparr>) r pl'"
      by (intro observe_accounted) (auto simp: apply_and_observe_def)
    then show ?thesis by (simp add: fails_accounted_def ticks_def)
  qed
qed

lemma restore_after_accounted:
  assumes "restore_after H P e s preview observed pl1 = (r, pl')" "jtable (journal pl1)"
    and "fails_accounted H pl observed pl1"
  shows "fails_accounted H pl r pl'"
proof -
  obtain r0 pl2 where 0: "restore H P e s pl1 = (r0, pl2)" by fastforce
  have a: "fails_accounted H pl1 r0 pl2" by (rule restore_accounted [OF 0 assms(2)])
  have t: "ticks H pl pl1" "ticks H pl1 pl2" using assms(3) a by (simp_all add: fails_accounted_def)
  note b = fails_accounted_trans(1) [OF t(1) a] fails_accounted_trans(2) [OF assms(3) t(2)]
  from assms(1) 0 show ?thesis
    using b by (auto simp: restore_after_def fails_accounted_def suppressing_def split: sum.splits)
qed

lemma stages_accounted:
  assumes "run_stages H P e c s pl = (out, pl')" "jtable (journal pl)"
  shows "fails_accounted H pl out pl'"
proof (cases "op_preview P (provider pl) c")
  case (Inl er)
  with assms show ?thesis by (auto simp: run_stages_def fails_accounted_def ticks_def new_failure_def)
next
  case pre: (Inr preview)
  obtain r1 pl1 where 1: "record_stage H e ''preview'' (obj [(''description'', Str preview)]) pl = (r1, pl1)"
    by fastforce
  note a1 = record_stage_accounted [OF 1 assms(2)]
  obtain r2 pl2 where 2: "record_stage H e ''apply-intent'' (change_json c) pl1 = (r2, pl2)" by fastforce
  note a2 = record_stage_accounted [OF 2 a1(1)]
  obtain r3 pl3 where 3: "apply_and_observe H P e c pl2 = (r3, pl3)" by fastforce
  have t: "ticks H pl pl2" using a1 a2 by (simp add: ticks_def)
  note a3 = fails_accounted_trans(1) [OF t apply_accounted [OF 3 a2(1)]]
  have tab: "jtable (journal pl3)" using a3 assms(2) by (simp add: fails_accounted_def ticks_def)
  show ?thesis
  proof (cases "is_ok r1 \<and> is_ok r2")
    case True
    with pre 1 2 3 assms(1) have "restore_after H P e s preview r3 pl3 = (out, pl')"
      by (auto simp: run_stages_def split: sum.splits)
    from restore_after_accounted [OF this tab a3] show ?thesis .
  next
    case False
    with pre 1 2 assms(1) a1 a2 show ?thesis
      by (auto simp: run_stages_def fails_accounted_def ticks_def new_failure_def elim!: accounted_wider
          split: sum.splits)
  qed
qed

lemma unclosed_lifecycle:
  assumes "run_lifecycle H P c pl = (r, pl')" "jrows (journal pl') = jrows (journal pl) @ zs" "zs \<noteq> []"
    and "\<forall>z\<in>set zs. stage z \<noteq> ''completed'' \<and> stage z \<noteq> ''failed''"
  shows "\<exists>n f. jclock (journal pl') = Suc n \<and> stmt_fault H n = Some f \<and>
    (\<forall>g. r = Inl (of_fault g) \<longrightarrow> length zs = 7 \<and> g = f \<or>
       (\<exists>m. jclock (journal pl) < m \<and> m < n \<and> stmt_fault H m = Some g))"
proof -
  obtain s where val: "validate (manifest pl) c = Inr ()" and snap: "op_snapshot P (provider pl) = Inr s"
    using assms(1-3) by (auto simp: run_lifecycle_def split: sum.splits)
  obtain r1 pl1 where 1: "begin_experiment H s pl = (r1, pl1)" by fastforce
  then show ?thesis
  proof (cases rule: begin_experiment_cases)
    case (fault er)
    with 1 val snap assms show ?thesis by (auto simp: run_lifecycle_def grows_def)
  next
    case x: (stored e x)
    have clock: "jclock (journal pl1) = Suc (jclock (journal pl))" and tab: "jtable (journal pl1)"
      using 1 x(1,4) by (auto simp: begin_experiment_def allocate_experiment_def statement_def append_rows_def tick_def
          split: option.splits sum.splits)
    obtain out pl2 where 2: "run_stages H P e c s pl1 = (out, pl2)" by fastforce
    then have 3: "record_outcome H e out pl2 = (r, pl')"
      using 1 x val snap assms(1) by (simp add: run_lifecycle_def)
    have a: "fails_accounted H pl1 out pl2" by (rule stages_accounted [OF 2 tab])
    then have tab2: "jtable (journal pl2)" using tab by (simp add: fails_accounted_def ticks_def)
    obtain ys where ys: "grows pl1 ys pl2" "is_ok out \<Longrightarrow> length ys = 6"
      using 2
    proof (cases rule: run_stages_shape)
      case (applied u v as bs)
      have "length ([u, v] @ as @ bs) = 6" if "is_ok out"
        using that applied(8) by (cases out) (auto dest!: arg_cong [of _ _ length])
      with applied(2) that show thesis by blast
    qed (use that in simp)
    obtain ts where ts: "grows pl2 ts pl'" "\<And>x. x \<in> set ts \<Longrightarrow> stage x = (if is_ok out then ''completed'' else ''failed'')"
      using 3 by (rule record_outcome_shape) (rule that; assumption)
    have "zs = x # ys @ ts" using assms(2) x(2) ys(1) ts(1) by (auto simp: grows_def)
    moreover have "ts = []"
      using assms(4) calculation ts(2) [of "hd ts"] by (cases ts) (auto split: if_splits)
    ultimately have z: "ts = []" "zs = x # ys" by simp_all
    then have same: "jrows (journal pl') = jrows (journal pl2)" using ts(1) by (simp add: grows_def)
    show ?thesis
    proof (cases out)
      case (Inl fl)
      obtain r4 where 4: "record_stage H e ''failed'' (failed_payload fl) pl2 = (r4, pl')" "r = Inl (fail_error fl)"
        using 3 Inl by (auto simp: record_outcome_def split: prod.splits)
      with record_stage_clock [OF 4(1) tab2] same obtain f where f: "jclock (journal pl') = Suc (jclock (journal pl2))"
        "stmt_fault H (jclock (journal pl2)) = Some f" by auto
      have "\<exists>m. jclock (journal pl1) \<le> m \<and> m < jclock (journal pl2) \<and> stmt_fault H m = Some g" if "r = Inl (of_fault g)" for g
        using that 4(2) a Inl by (auto simp: fails_accounted_def accounted_def)
      with f clock show ?thesis by (fastforce simp: Suc_le_eq)
    next
      case (Inr res)
      obtain r4 where 4: "record_stage H e ''completed''
                  (obj [(''verified'', Bool (verified res)), (''rolled_back'', Bool (rolled_back res))]) pl2 = (r4, pl')"
        "r = (case r4 of Inl er \<Rightarrow> Inl er | Inr _ \<Rightarrow> Inr res)"
        using 3 Inr by (auto simp: record_outcome_def split: prod.splits sum.splits)
      with record_stage_clock [OF 4(1) tab2] same obtain f where f: "jclock (journal pl') = Suc (jclock (journal pl2))"
        "stmt_fault H (jclock (journal pl2)) = Some f" "r4 = Inl (of_fault f)" by auto
      with 4(2) z ys(2) Inr show ?thesis by auto
    qed
  qed
qed

lemma lifecycle_records:
  assumes "run_lifecycle H P c pl = (r, pl')"
  shows "\<exists>e xs ts. jrows (journal pl') = jrows (journal pl) @ xs @ ts \<and>
    jtrials (journal pl') = jtrials (journal pl) \<and>
    (\<forall>x\<in>set (xs @ ts). row_experiment x = e) \<and>
    (\<forall>y\<in>set (jrows (journal pl)). row_experiment y < e) \<and>
    (\<forall>x\<in>set xs. stage x \<noteq> ''completed'' \<and> stage x \<noteq> ''failed'') \<and>
    (map stage ts = [] \<or> map stage ts = [''completed''] \<or> map stage ts = [''failed''] \<and> is_err r) \<and>
    (is_ok r \<longrightarrow> map stage ts = [''completed''] \<and> length xs = 7)"
  using assms
proof (cases rule: run_lifecycle_shape)
  case (refused er)
  then show ?thesis
    by (intro exI [of _ "max_experiment (jrows (journal pl)) + 1"] exI [of _ "[]"])
      (auto simp: grows_def dest: row_le_max)
next
  case (stopped s e x xs ts)
  have "\<forall>y\<in>set (x # xs). stage y \<noteq> ''completed'' \<and> stage y \<noteq> ''failed''"
    using stopped(6) set_mono_prefix [OF stopped(9)] by (auto simp: snapshot_row_def)
  moreover have "map stage ts = [] \<or> map stage ts = [''failed'']" "\<not> is_ok r"
    using stopped(1,10) by (auto simp: prefix_singleton)
  ultimately show ?thesis
    using stopped(1,5,7,8) unfolding grows_def rows_of_def
    by (intro exI [of _ e] exI [of _ "x # xs"] exI [of _ ts]) (simp; blast)
next
  case (applied s e x y z as bs ts)
  let ?xs = "[x, y, z] @ as @ bs"
  have "\<forall>w\<in>set ?xs. stage w \<noteq> ''completed'' \<and> stage w \<noteq> ''failed''"
    using applied(5,6,7) set_mono_prefix [OF applied(10)] set_mono_prefix [OF applied(11)]
    by (auto simp: snapshot_row_def intent_row_def)
  moreover have "is_ok r \<longrightarrow> map stage ts = [''completed''] \<and> length ?xs = 7"
    using applied(14) by (auto dest: length_of_map)
  moreover have "map stage ts = [] \<or> map stage ts = [''completed''] \<or>
      map stage ts = [''failed''] \<and> is_err r"
    using applied(12) by (auto simp: prefix_singleton)
  moreover have "jrows (journal pl') = jrows (journal pl) @ ?xs @ ts"
    "jtrials (journal pl') = jtrials (journal pl)" "\<forall>w\<in>set (?xs @ ts). row_experiment w = e"
    using applied(4,8) by (auto simp: grows_def rows_of_def)
  ultimately show ?thesis
    using applied(9) by (intro exI [of _ e] exI [of _ ?xs] exI [of _ ts] conjI) blast+
qed

text \<open>
  C8: Every lifecycle, whatever fails, appends records of one fresh experiment (or none) and touches
  no trial; among them at most one is terminal, it is the last, it says \<open>completed\<close> only after all
  seven other stages and \<open>failed\<close> only when the call returns an error.  A lifecycle that appended
  anything and left no terminal record tried to write one: the last statement it issued failed, and an
  error of the journal it returned is that of an earlier statement, unless all seven stages were there
  and the statement that failed is the insert of \<open>completed\<close> itself.
\<close>

theorem lifecycle_terminal:
  assumes "run_lifecycle H P c pl = (r, pl')"
  shows "\<exists>e xs ts. jrows (journal pl') = jrows (journal pl) @ xs @ ts \<and>
    jtrials (journal pl') = jtrials (journal pl) \<and>
    (\<forall>x\<in>set (xs @ ts). row_experiment x = e) \<and>
    (\<forall>y\<in>set (jrows (journal pl)). row_experiment y < e) \<and>
    (\<forall>x\<in>set xs. stage x \<noteq> ''completed'' \<and> stage x \<noteq> ''failed'') \<and>
    (map stage ts = [] \<or> map stage ts = [''completed''] \<or> map stage ts = [''failed''] \<and> is_err r) \<and>
    (is_ok r \<longrightarrow> map stage ts = [''completed''] \<and> length xs = 7) \<and>
    (xs \<noteq> [] \<and> ts = [] \<longrightarrow> (\<exists>n f. jclock (journal pl') = Suc n \<and> stmt_fault H n = Some f \<and>
       (\<forall>g. r = Inl (of_fault g) \<longrightarrow> length xs = 7 \<and> g = f \<or>
          (\<exists>m. jclock (journal pl) < m \<and> m < n \<and> stmt_fault H m = Some g))))"
proof -
  from lifecycle_records [OF assms] obtain e xs ts where *: "jrows (journal pl') = jrows (journal pl) @ xs @ ts"
    "jtrials (journal pl') = jtrials (journal pl)" "\<forall>x\<in>set (xs @ ts). row_experiment x = e"
    "\<forall>y\<in>set (jrows (journal pl)). row_experiment y < e"
    "\<forall>x\<in>set xs. stage x \<noteq> ''completed'' \<and> stage x \<noteq> ''failed''"
    "map stage ts = [] \<or> map stage ts = [''completed''] \<or> map stage ts = [''failed''] \<and> is_err r"
    "is_ok r \<longrightarrow> map stage ts = [''completed''] \<and> length xs = 7"
    by (elim exE conjE) (rule that; assumption)
  then show ?thesis
    using unclosed_lifecycle [OF assms, of xs]
    by (intro exI [of _ e] exI [of _ xs] exI [of _ ts]) simp
qed

theorem lifecycle_terminal_witness:
  "\<exists>r pl xs ts. run_lifecycle plain_host (fake_ops ''linux'' (\<lambda>_. ''7'')) demo_request broken_plane = (r, pl) \<and>
     jrows (journal pl) = xs @ ts \<and>
     (map stage ts = [] \<or> map stage ts = [''completed''] \<or> map stage ts = [''failed''] \<and> is_err r)"
proof -
  obtain r pl where run:
    "run_lifecycle plain_host (fake_ops ''linux'' (\<lambda>_. ''7'')) demo_request broken_plane = (r, pl)"
    by fastforce
  have "jrows (journal broken_plane) = []"
    by (simp add: broken_plane_def empty_journal_def Let_def)
  with lifecycle_terminal [OF run] run show ?thesis by fastforce
qed

text \<open>
  The mock provider is in the state it was in before after every lifecycle: whichever request
  arrives, whichever journal statements fail, and whatever the call returns.
\<close>

theorem mock_lifecycle_restores:
  "provider (snd (run_lifecycle H (mock_ops platform) c pl)) = provider pl"
proof -
  obtain r pl' where run: "run_lifecycle H (mock_ops platform) c pl = (r, pl')" by fastforce
  have "op_snapshot (mock_ops platform) (provider pl') = op_snapshot (mock_ops platform) (provider pl)"
    using mock.lifecycle_restores [OF run TrueI] by (simp add: mock_defs)
  then show ?thesis
    using run by (simp add: mock_defs obj_single_eq)
qed

text \<open>
  The test double, made to fail its apply after mutating, or its verification, still holds
  its old value after every lifecycle, for every request and every schedule of journal faults, as
  long as its rollback is not the one that is broken.
\<close>

theorem fake_lifecycle_restores:
  assumes "\<not> corrupt_rollback (provider pl)"
  shows "fake_value (provider (snd (run_lifecycle H (fake_ops platform render) c pl))) =
    fake_value (provider pl)"
proof -
  obtain r pl' where run: "run_lifecycle H (fake_ops platform render) c pl = (r, pl')" by fastforce
  have "op_snapshot (fake_ops platform render) (provider pl') =
      op_snapshot (fake_ops platform render) (provider pl)"
    using fake.lifecycle_restores [OF run assms] by (simp add: fake_defs)
  then show ?thesis
    using run by (simp add: fake_defs obj_single_eq)
qed

theorem fake_lifecycle_restores_witness:
  "fake_value (provider (snd (run_lifecycle plain_host (fake_ops ''linux'' (\<lambda>_. ''7'')) demo_request
     (broken_plane\<lparr>provider := \<lparr>fake_value = 3, fail_verification = True, fail_apply = True,
        corrupt_rollback = False\<rparr>\<rparr>)))) = 3"
  using fake_lifecycle_restores
    [of "broken_plane\<lparr>provider := \<lparr>fake_value = 3, fail_verification = True, fail_apply = True,
        corrupt_rollback = False\<rparr>\<rparr>" plain_host "''linux''" "\<lambda>_. ''7''" demo_request]
  by simp

text \<open>
  When nothing is wrong a lifecycle does complete: with a journal that takes its writes and
  an id left to allocate, every request the policy accepts on the mock provider's manifest returns
  a verified and rolled-back result whose preview names the old and the new value.
\<close>

theorem mock_lifecycle_completes:
  assumes "no_faults H" "jtable (journal pl)" "max_experiment (jrows (journal pl)) + 1 < 2 ^ 63"
    and "manifest pl = mock_manifest platform p" "validate (manifest pl) c = Inr ()"
  shows "\<exists>v pl'. get_u64 ''value'' (parameters c) = Some v \<and>
    run_lifecycle H (mock_ops platform) c pl =
      (Inr \<lparr>res_provider = ''mock'',
        res_preview = ''set mock.value from '' @ show_word (mock_value (provider pl)) @ '' to '' @ show_word v,
        verified = True, rolled_back = True\<rparr>, pl')"
proof -
  obtain v where v: "capability_id c = ''mock.value''" "get_u64 ''value'' (parameters c) = Some v"
    using assms(5) unfolding assms(4)
    by (auto simp: validate_def mock_manifest_def split: if_splits option.splits)
  then have "mock_accepts c" by (simp add: mock_accepts_def)
  from mock.lifecycle_succeeds [OF assms(1-3) TrueI this assms(5)] v show ?thesis
    by (auto simp: mock_defs assms(4))
qed

theorem mock_lifecycle_completes_witness:
  "\<exists>v pl'. run_lifecycle plain_host (mock_ops ''linux'') demo_request demo_plane =
     (Inr \<lparr>res_provider = ''mock'',
        res_preview = ''set mock.value from '' @ show_word (0::u64) @ '' to '' @ show_word (v::u64),
        verified = True, rolled_back = True\<rparr>, pl')"
proof -
  have "no_faults plain_host" "jtable (journal demo_plane)"
    "max_experiment (jrows (journal demo_plane)) + 1 < 2 ^ 63"
    "manifest demo_plane = mock_manifest ''linux'' \<lparr>mock_value = 0\<rparr>"
    "validate (manifest demo_plane) demo_request = Inr ()"
    by (simp_all add: max_experiment_def)
  from mock_lifecycle_completes [OF this] show ?thesis by auto
qed


subsection \<open>A failed restore\<close>

text \<open>The failure of the apply or verify stage, when the provider has one.\<close>

definition provider_failure ::
  "'p provider_ops \<Rightarrow> change_request \<Rightarrow> 'p \<Rightarrow> stage_failure option" where
  "provider_failure P c p =
     (case op_apply P p c of
        (Inl er, _) \<Rightarrow> Some (new_failure ''apply'' (ProviderFault er))
      | (Inr _, q) \<Rightarrow> (case op_verify P q c of
          Inl er \<Rightarrow> Some (new_failure ''verify'' (ProviderFault er))
        | Inr False \<Rightarrow> Some (new_failure ''verify'' VerificationFailed)
        | Inr True \<Rightarrow> None))"

lemma apply_and_observe_no_faults:
  assumes "no_faults H" "jtable (journal pl)"
  shows "\<exists>pl'. apply_and_observe H P e c pl =
      (case provider_failure P c (provider pl) of None \<Rightarrow> Inr True | Some f \<Rightarrow> Inl f, pl') \<and>
    provider pl' = snd (op_apply P (provider pl) c) \<and> manifest pl' = manifest pl \<and> jtable (journal pl')"
proof -
  obtain a q where "op_apply P (provider pl) c = (a, q)" by fastforce
  then show ?thesis
    using assms
    by (cases a; cases "op_verify P q c")
      (simp_all add: apply_and_observe_def observe_applied_def record_stage_ok no_faults_def
        provider_failure_def split: bool.splits)
qed

definition restore_error_payload :: "provider_error \<Rightarrow> stage_failure option \<Rightarrow> json" where
  "restore_error_payload er original = obj (
     [(''kind'', Str ''provider''), (''stage'', Str ''rollback''),
      (''error'', Str (show_provider_error er))] @
     (case original of None \<Rightarrow> []
      | Some g \<Rightarrow> [(''suppressed'', obj [(''kind'', Str (kind (fail_error g))),
          (''stage'', Str (fail_stage g)), (''error'', Str (show_cp_error (fail_error g)))])]))"


text \<open>A provider whose verification and rollback both fail.\<close>

definition stuck_ops :: "mock_provider provider_ops" where
  "stuck_ops = (mock_ops ''linux'')
     \<lparr>op_verify := \<lambda>_ _. Inr False, op_rollback := \<lambda>p _. (Inl (RollbackFailed ''stuck''), p)\<rparr>"


subsection \<open>The trial journal\<close>

lemma next_trial_fresh: "t \<in> set ts \<Longrightarrow> trial_id t < next_trial ts"
proof -
  assume t: "t \<in> set ts"
  then have "trial_id t \<le> Max (set (map trial_id ts))" by (simp add: Max_ge)
  with t show "trial_id t < next_trial ts" by (auto simp: next_trial_def)
qed

lemma record_trial_cases [consumes 1, case_names fault stored]:
  assumes "record_trial H v pl = (r, pl')"
  obtains er where "r = Inl er" "jtrials (journal pl') = jtrials (journal pl)"
    "jrows (journal pl') = jrows (journal pl)" "jtable (journal pl') = jtable (journal pl)"
  | i where "r = Inr i" "i = next_trial (jtrials (journal pl))" "jtable (journal pl')"
    "jtrials (journal pl') = jtrials (journal pl) @ [\<lparr>trial_id = i, trial_payload = to_text H v\<rparr>]"
    "jrows (journal pl') = jrows (journal pl)"
  using assms
  by (auto simp: record_trial_def insert_trial_def statement_def Let_def
      split: option.splits if_splits)

lemma read_trial_no_faults:
  assumes "no_faults H" "jtable (journal pl)"
  shows "fst (read_trial H i pl) =
    (case List.find (\<lambda>t. trial_id t = i) (jtrials (journal pl)) of
       None \<Rightarrow> Inl (UnknownTrial i)
     | Some t \<Rightarrow> map_err SerializationFault (of_text H (trial_payload t)))"
  using assms
  by (simp add: read_trial_def query_def statement_def no_faults_def split: option.splits)

text \<open>
  A recorded trial reads back as the value that was recorded, under an id no earlier trial
  has; every other id still reads as before, so a recorded trial cannot be rewritten, and an id
  never handed out is \<open>UnknownTrial\<close>.
\<close>

theorem trial_round_trip:
  assumes "no_faults H" "record_trial H v pl = (Inr i, pl')"
  shows "(reads_back H v \<longrightarrow> fst (read_trial H i pl') = Inr v) \<and>
    i \<notin> trial_id ` set (jtrials (journal pl)) \<and>
    (k \<noteq> i \<longrightarrow> fst (read_trial H k pl') = fst (read_trial H k pl)) \<and>
    (k \<notin> trial_id ` set (jtrials (journal pl')) \<longrightarrow> fst (read_trial H k pl') = Inl (UnknownTrial k))"
  using assms(2)
proof (cases rule: record_trial_cases)
  case (stored n)
  have tab: "jtable (journal pl)"
    using assms by (auto simp: record_trial_def insert_trial_def statement_def no_faults_def
        split: if_splits)
  have fresh: "trial_id t \<noteq> n" if "t \<in> set (jtrials (journal pl))" for t
    using next_trial_fresh [OF that] stored by simp
  then have "List.find (\<lambda>t. trial_id t = n) (jtrials (journal pl)) = None"
    by (auto simp: find_None_iff)
  moreover have "k \<notin> trial_id ` set (jtrials (journal pl')) \<longrightarrow>
      List.find (\<lambda>t. trial_id t = k) (jtrials (journal pl')) = None"
    by (auto simp: find_None_iff)
  moreover have "n \<notin> trial_id ` set (jtrials (journal pl))" using fresh by auto
  ultimately show ?thesis
    using stored fresh tab assms(1)
    by (auto simp: read_trial_no_faults find_append reads_back_def split: option.splits)
qed simp

theorem trial_round_trip_witness:
  "\<exists>i pl'. record_trial plain_host (num 5) demo_plane = (Inr i, pl') \<and>
     fst (read_trial plain_host i pl') = Inr (num 5) \<and>
     fst (read_trial plain_host 9 pl') = Inl (UnknownTrial 9)"
proof -
  obtain i pl' where run: "record_trial plain_host (num 5) demo_plane = (Inr i, pl')"
    and ids: "i = 1" "map trial_id (jtrials (journal pl')) = [1]"
    by (simp add: record_trial_def insert_trial_def statement_def plain_host_def demo_plane_def
        empty_journal_def Let_def next_trial_def)
  have "reads_back plain_host (num 5)" by (simp add: reads_back_def plain_host_def)
  moreover have "9 \<notin> trial_id ` set (jtrials (journal pl'))"
    using ids(2) by (auto simp flip: set_map)
  ultimately show ?thesis
    using run trial_round_trip [OF plain_no_faults run, of 9] by auto
qed

text \<open>
  The listing of trials is exactly the ids handed out so far, in increasing order; recording
  another trial appends its id at the end and leaves the list before it alone.
\<close>

theorem trial_ids_append:
  assumes "no_faults H" "record_trial H v pl = (Inr i, pl')" "fst (trial_ids H pl) = Inr ids"
  shows "fst (trial_ids H pl') = Inr (ids @ [i]) \<and> sorted ids \<and>
    set ids = trial_id ` set (jtrials (journal pl))"
  using assms(2)
proof (cases rule: record_trial_cases)
  case (stored n)
  have ids: "ids = sort (map trial_id (jtrials (journal pl)))"
    using assms(1,3) by (auto simp: trial_ids_def query_def statement_def no_faults_def
        split: if_splits)
  have lt: "\<forall>y\<in>set ids. y < n"
    using ids stored by (auto intro: next_trial_fresh)
  have "fst (trial_ids H pl') = Inr (sort (map trial_id (jtrials (journal pl)) @ [n]))"
    using assms(1) stored by (simp add: trial_ids_def query_def statement_def no_faults_def)
  moreover have "sort (map trial_id (jtrials (journal pl)) @ [n]) = ids @ [n]"
    using lt by (intro properties_for_sort) (auto simp: ids sorted_append)
  ultimately show ?thesis
    using stored ids by simp
qed simp

theorem trial_ids_append_witness:
  "\<exists>pl'. record_trial plain_host (num 5) demo_plane = (Inr 1, pl') \<and>
     fst (trial_ids plain_host pl') = Inr [1]"
proof -
  obtain pl' where run: "record_trial plain_host (num 5) demo_plane = (Inr 1, pl')"
    by (simp add: record_trial_def insert_trial_def statement_def plain_host_def demo_plane_def
        empty_journal_def Let_def next_trial_def)
  moreover have "fst (trial_ids plain_host demo_plane) = Inr []"
    by (simp add: trial_ids_def query_def statement_def plain_host_def demo_plane_def empty_journal_def)
  ultimately show ?thesis
    using trial_ids_append [OF plain_no_faults run] by auto
qed

end
