(* ===== verification/Recovery.thy ===== *)
theory Recovery
  imports Watchdog Lifecycle
begin

section \<open>What the watchdog guarantees\<close>

text \<open>
  The scan reports exactly the leaked experiments (\<open>leaked\<close> is the abstract set the SQL query
  selects), a pass only appends its own records, one failed rollback does not stop the others,
  crash recovery closes every leak and is idempotent, and a knob that cannot be restored does not
  grow the journal.
\<close>

subsection \<open>The scan\<close>

lemma decode_rows_eq: "decode_rows f xs = Inr ys \<longleftrightarrow> map f xs = map Inr ys"
proof (induction xs arbitrary: ys)
  case (Cons x xs)
  show ?case
  proof (cases "decode_rows f xs")
    case (Inl e)
    then have "map f xs \<noteq> map Inr zs" for zs using Cons [of zs] by simp
    with Inl show ?thesis by (auto split: sum.splits simp: Cons_eq_map_conv)
  next
    case (Inr zs)
    with Cons [of zs] show ?thesis by (cases ys) (auto split: sum.splits)
  qed
qed auto

lemma unclosed_of_Inr:
  "unclosed_of H now (i, s) = Inr u \<longleftrightarrow>
     (\<exists>snap c. from_text H snapshot_of_json (payload s) = Inr snap \<and>
        from_text H change_of_json (payload i) = Inr c \<and>
        u = \<lparr>un_experiment = row_experiment i, un_provider = snap_provider snap, un_snapshot = snap,
             un_request = c, un_expired = lease_expired (age_seconds now i) (lease_seconds c)\<rparr>)"
  by (auto simp: unclosed_of_def split: sum.splits)

lemma terminal_for_iff:
  "terminal_for rs e \<longleftrightarrow>
     (\<exists>t\<in>set rs. row_experiment t = e \<and> (stage t = ''completed'' \<or> stage t = ''failed''))"
  by (auto simp: terminal_for_def list_ex_iff)

lemma in_unclosed_rows:
  "(i, s) \<in> set (unclosed_rows pid rs) \<longleftrightarrow>
     i \<in> set rs \<and> stage i = ''apply-intent'' \<and> row_provider i = pid \<and>
     \<not> terminal_for rs (row_experiment i) \<and>
     s \<in> set rs \<and> row_experiment s = row_experiment i \<and> stage s = ''snapshot''"
  by (auto simp: unclosed_rows_def)

lemma scan_cases [consumes 1, case_names fault empty rows]:
  assumes "scan H w = (r, w')"
  obtains er where "r = Inl er" "jrows (w_journal w') = jrows (w_journal w)"
      "jtrials (w_journal w') = jtrials (w_journal w)" "jtable (w_journal w') = jtable (w_journal w)"
      "w_provider w' = w_provider w" "w_provider_id w' = w_provider_id w"
  | "r = Inr []" "\<not> jtable (w_journal w)" "jrows (w_journal w') = jrows (w_journal w)"
      "jtrials (w_journal w') = jtrials (w_journal w)" "jtable (w_journal w') = jtable (w_journal w)"
      "w_provider w' = w_provider w" "w_provider_id w' = w_provider_id w"
  | now us where "r = Inr us" "jtable (w_journal w)"
      "map (unclosed_of H now) (unclosed_rows (w_provider_id w) (jrows (w_journal w))) = map Inr us"
      "jrows (w_journal w') = jrows (w_journal w)" "jtrials (w_journal w') = jtrials (w_journal w)"
      "jtable (w_journal w') = jtable (w_journal w)"
      "w_provider w' = w_provider w" "w_provider_id w' = w_provider_id w"
proof -
  obtain r1 j1 where 1: "journal_ready H (w_journal w) = (r1, j1)" by fastforce
  have j1: "jrows j1 = jrows (w_journal w)" "jtrials j1 = jtrials (w_journal w)"
    "jtable j1 = jtable (w_journal w)" "r1 = Inr b \<Longrightarrow> b = jtable (w_journal w)" for b
    using 1 by (auto simp: journal_ready_def statement_def split: option.splits)
  obtain r2 j2 where 2: "query H (\<lambda>j'. unclosed_rows (w_provider_id w) (jrows j')) j1 = (r2, j2)"
    by fastforce
  note j2 = query_unchanged [OF 2]
  show thesis
  proof (cases r1)
    case (Inl f)
    with 1 assms j1(1-3) show thesis
      by (intro that(1)) (auto simp: scan_def unclosed_experiments_def)
  next
    case (Inr ready)
    note ready = j1(4) [OF Inr]
    show thesis
    proof (cases ready)
      case False
      with ready Inr 1 assms j1(1-3) show thesis
        by (intro that(2)) (auto simp: scan_def unclosed_experiments_def)
    next
      case True
      then have run: "scan H w = (case r2 of
          Inl f \<Rightarrow> (Inl (watchdog_fault f), w\<lparr>w_journal := j2\<rparr>)
        | Inr rs \<Rightarrow> (decode_rows (unclosed_of H (now_ms H (jclock j1))) rs, w\<lparr>w_journal := j2\<rparr>))"
        using 1 2 Inr by (simp add: scan_def unclosed_experiments_def split: sum.split)
      show thesis
      proof (cases r2)
        case (Inl f)
        with run assms j1(1-3) j2 show thesis by (intro that(1)) auto
      next
        case rs: (Inr rs)
        have rows: "rs = unclosed_rows (w_provider_id w) (jrows (w_journal w))"
          using query_Inr [OF 2 [unfolded rs]] j1(1) by simp
        show thesis
        proof (cases r)
          case (Inl er)
          with run rs assms j1(1-3) j2 show thesis by (intro that(1) [of er]) auto
        next
          case us: (Inr us)
          then have "decode_rows (unclosed_of H (now_ms H (jclock j1))) rs = Inr us"
            using run rs assms by simp
          then have "map (unclosed_of H (now_ms H (jclock j1))) rs = map Inr us"
            using decode_rows_eq by metis
          then show thesis
            using us run rs assms rows j1(1-3) j2 ready True
            by (intro that(3) [of us "now_ms H (jclock j1)"]) simp_all
        qed
      qed
    qed
  qed
qed

lemma unclosed_map_experiment:
  assumes "map (unclosed_of H now) rs = map Inr us"
  shows "map un_experiment us = map (\<lambda>(i, s). row_experiment i) rs"
  using assms
proof (induction rs arbitrary: us)
  case (Cons x rs)
  then obtain u us' where "us = u # us'" "unclosed_of H now x = Inr u"
    "map (unclosed_of H now) rs = map Inr us'"
    by (cases us) auto
  with Cons.IH show ?case
    by (cases x) (auto simp: unclosed_of_Inr)
qed simp

lemma in_unclosed:
  assumes "map f rs = map Inr us"
  shows "u \<in> set us \<longleftrightarrow> (\<exists>x\<in>set rs. f x = Inr u)"
  using assms by (induction rs arbitrary: us) (auto simp: Cons_eq_map_conv)

text \<open>Which experiments a scan by \<open>pid\<close> must report.\<close>

definition leaked :: "string \<Rightarrow> 't jrow list \<Rightarrow> int \<Rightarrow> bool" where
  "leaked pid rs e \<longleftrightarrow>
     (\<exists>i\<in>set rs. row_experiment i = e \<and> stage i = ''apply-intent'' \<and> row_provider i = pid) \<and>
     (\<exists>s\<in>set rs. row_experiment s = e \<and> stage s = ''snapshot'') \<and> \<not> terminal_for rs e"

lemma scan_experiments:
  assumes "map (unclosed_of H now) (unclosed_rows pid rs) = map Inr us"
  shows "e \<in> un_experiment ` set us \<longleftrightarrow> leaked pid rs e"
proof -
  have "un_experiment ` set us = (\<lambda>(i, s). row_experiment i) ` set (unclosed_rows pid rs)"
    using unclosed_map_experiment [OF assms] by (metis list.set_map)
  also have "e \<in> \<dots> \<longleftrightarrow> leaked pid rs e"
    by (auto simp: image_iff Bex_def in_unclosed_rows leaked_def)
  finally show ?thesis .
qed

lemma unclosed_rows_empty: "unclosed_rows pid rs = [] \<longleftrightarrow> (\<forall>e. \<not> leaked pid rs e)"
proof
  assume "unclosed_rows pid rs = []"
  then have "(i, s) \<notin> set (unclosed_rows pid rs)" for i s by simp
  then show "\<forall>e. \<not> leaked pid rs e"
    unfolding in_unclosed_rows leaked_def by metis
next
  assume "\<forall>e. \<not> leaked pid rs e"
  then have "x \<notin> set (unclosed_rows pid rs)" for x
    by (cases x) (auto simp: in_unclosed_rows leaked_def)
  then show "unclosed_rows pid rs = []"
    by (metis list.set_intros(1) neq_Nil_conv)
qed

lemma lease_expired_iff:
  "lease_expired age lease \<longleftrightarrow> (\<exists>a. age = Some a \<and> 0 \<le> a \<and> int (unat lease) \<le> a)"
proof (cases age)
  case (Some a)
  show ?thesis
  proof (cases "0 \<le> a \<and> a < 2 ^ 64")
    case True
    then have "uint (word_of_int a :: u64) = a"
      by (simp add: uint_word_of_int)
    then have "lease \<le> word_of_int a \<longleftrightarrow> int (unat lease) \<le> a"
      by (simp add: word_le_def)
    with True Some show ?thesis by (auto simp: lease_expired_def)
  next
    case False
    have "int (unat lease) < 2 ^ 64"
      using unsigned_less [of lease] by simp
    with False Some show ?thesis by (auto simp: lease_expired_def)
  qed
qed (simp add: lease_expired_def)

lemma scan_rows:
  assumes "scan H w = (Inr us, w')" "jtable (w_journal w)"
  shows "map (unclosed_of H (now_ms H (Suc (jclock (w_journal w)))))
      (unclosed_rows (w_provider_id w) (jrows (w_journal w))) = map Inr us"
  using assms
  by (auto simp: scan_def unclosed_experiments_def journal_ready_def query_def statement_def tick_def decode_rows_eq
      split: option.splits sum.splits prod.splits)

text \<open>A pair of an intent and a snapshot is reported once.\<close>

lemma unclosed_rows_count:
  "count_list (map (\<lambda>(i, s). row_experiment i) (unclosed_rows pid rs)) e =
     (if terminal_for rs e then 0 else
        length (filter (\<lambda>i. row_experiment i = e \<and> stage i = ''apply-intent'' \<and> row_provider i = pid) rs) *
        length (filter (\<lambda>s. row_experiment s = e \<and> stage s = ''snapshot'') rs))"
proof -
  let ?S = "\<lambda>i. filter (\<lambda>s. row_experiment s = row_experiment i \<and> stage s = ''snapshot'') rs"
  let ?I = "filter (\<lambda>i. stage i = ''apply-intent'' \<and> row_provider i = pid \<and> \<not> terminal_for rs (row_experiment i)) rs"
  let ?k = "length (filter (\<lambda>s. row_experiment s = e \<and> stage s = ''snapshot'') rs)"
  have "count_list (map (\<lambda>(i, s). row_experiment i) (unclosed_rows pid rs)) e =
      sum_list (map (\<lambda>i. count_list (map (\<lambda>(i, s). row_experiment i) (map (Pair i) (?S i))) e) ?I)"
    unfolding unclosed_rows_def count_sort_key count_concat_map ..
  also have "\<dots> = sum_list (map (\<lambda>i. if row_experiment i = e then ?k else 0) ?I)"
    by (intro arg_cong [of _ _ sum_list] map_cong refl) (auto simp: comp_def map_replicate_const)
  also have "\<dots> = ?k * length (filter (\<lambda>i. row_experiment i = e) ?I)"
    by (rule sum_list_const_if)
  also have "filter (\<lambda>i. row_experiment i = e) ?I = (if terminal_for rs e then [] else
      filter (\<lambda>i. row_experiment i = e \<and> stage i = ''apply-intent'' \<and> row_provider i = pid) rs)"
    by (auto simp: filter_empty_conv intro!: filter_cong)
  finally show ?thesis by simp
qed

text \<open>
  C20: A scan that succeeds reports, in the order of their ids, exactly the experiments that have an
  \<open>apply-intent\<close> of this provider, a snapshot and no terminal record, each once for every pair of such
  an intent and a snapshot, hence once when it has one of each, as every lifecycle writes them.  Each
  carries the decoded snapshot and the decoded write-ahead request of such records, and counts as
  expired iff the age of the intent, taken from the database's clock at the statement of the scan, is
  known, not negative and at least the lease.  A scan writes nothing.
\<close>

theorem scan_reports_exactly_the_leaks:
  assumes "scan H w = (Inr us, w')" "jtable (w_journal w)"
  shows "sorted (map un_experiment us) \<and>
    un_experiment ` set us = {e. leaked (w_provider_id w) (jrows (w_journal w)) e} \<and>
    (\<forall>e. count_list (map un_experiment us) e =
       (if terminal_for (jrows (w_journal w)) e then 0 else
          length (filter (\<lambda>i. row_experiment i = e \<and> stage i = ''apply-intent'' \<and> row_provider i = w_provider_id w)
            (jrows (w_journal w))) *
          length (filter (\<lambda>s. row_experiment s = e \<and> stage s = ''snapshot'') (jrows (w_journal w))))) \<and>
    (\<forall>u\<in>set us. \<exists>i\<in>set (jrows (w_journal w)). \<exists>s\<in>set (jrows (w_journal w)).
       row_experiment i = un_experiment u \<and> row_experiment s = un_experiment u \<and>
       stage i = ''apply-intent'' \<and> row_provider i = w_provider_id w \<and> stage s = ''snapshot'' \<and>
       from_text H snapshot_of_json (payload s) = Inr (un_snapshot u) \<and>
       from_text H change_of_json (payload i) = Inr (un_request u) \<and>
       (un_expired u \<longleftrightarrow> (let now = now_ms H (Suc (jclock (w_journal w))) in
          \<exists>t. recorded_at i = Some t \<and> seconds t \<le> seconds now \<and>
            int (unat (lease_seconds (un_request u))) \<le> seconds now - seconds t))) \<and>
    jrows (w_journal w') = jrows (w_journal w) \<and> w_provider w' = w_provider w"
proof -
  let ?rs = "jrows (w_journal w)"
  note us = scan_rows [OF assms]
  have "sorted (map un_experiment us)"
    unfolding unclosed_map_experiment [OF us] by (simp add: unclosed_rows_def)
  moreover have "un_experiment ` set us = {e. leaked (w_provider_id w) ?rs e}"
    using scan_experiments [OF us] by auto
  moreover note count = unclosed_rows_count [of "w_provider_id w" ?rs, folded unclosed_map_experiment [OF us]]
  moreover have "\<exists>i\<in>set ?rs. \<exists>s\<in>set ?rs.
       row_experiment i = un_experiment u \<and> row_experiment s = un_experiment u \<and>
       stage i = ''apply-intent'' \<and> row_provider i = w_provider_id w \<and> stage s = ''snapshot'' \<and>
       from_text H snapshot_of_json (payload s) = Inr (un_snapshot u) \<and>
       from_text H change_of_json (payload i) = Inr (un_request u) \<and>
       (un_expired u \<longleftrightarrow> (let now = now_ms H (Suc (jclock (w_journal w))) in
          \<exists>t. recorded_at i = Some t \<and> seconds t \<le> seconds now \<and>
            int (unat (lease_seconds (un_request u))) \<le> seconds now - seconds t))"
    if u: "u \<in> set us" for u
  proof -
    obtain i s where pair: "(i, s) \<in> set (unclosed_rows (w_provider_id w) ?rs)"
      "unclosed_of H (now_ms H (Suc (jclock (w_journal w)))) (i, s) = Inr u"
      using u unfolding in_unclosed [OF us] by fast
    show ?thesis
      by (rule bexI [of _ i], rule bexI [of _ s])
        (use pair in \<open>auto simp: in_unclosed_rows unclosed_of_Inr lease_expired_iff age_seconds_def Let_def\<close>)
  qed
  moreover have "jrows (w_journal w') = ?rs" "w_provider w' = w_provider w"
    using assms(1) by (cases rule: scan_cases; simp)+
  ultimately show ?thesis by blast
qed


subsection \<open>What a reclaim pass writes\<close>

definition wgrows :: "('p, 't) watchdog \<Rightarrow> 't jrow list \<Rightarrow> ('p, 't) watchdog \<Rightarrow> bool" where
  "wgrows w xs w' \<longleftrightarrow>
     jrows (w_journal w') = jrows (w_journal w) @ xs \<and> jtrials (w_journal w') = jtrials (w_journal w) \<and>
     jtable (w_journal w') = jtable (w_journal w) \<and> w_provider_id w' = w_provider_id w"

lemma wgrows_refl [simp]: "wgrows w [] w"
  by (simp add: wgrows_def)

lemma wgrows_trans: "wgrows w xs w1 \<Longrightarrow> wgrows w1 ys w2 \<Longrightarrow> wgrows w (xs @ ys) w2"
  by (simp add: wgrows_def)

lemma wgrows_provider_id: "wgrows w xs w' \<Longrightarrow> w_provider_id w' = w_provider_id w"
  by (simp add: wgrows_def)

lemma record_success_cases [consumes 1, case_names fault stored]:
  assumes "record_success H e pid reason s j = (r, j')"
  obtains er where "r = Inl er" "jrows j' = jrows j" "jtrials j' = jtrials j" "jtable j' = jtable j"
      "\<not> no_faults H \<or> \<not> jtable j"
  | x t where "r = Inr ()" "jtrials j' = jtrials j" "jtable j' = jtable j"
      "jrows j' = jrows j @ [x, t]" "row_experiment x = e" "row_experiment t = e"
      "row_provider x = pid" "row_provider t = pid" "stage x = ''watchdog-restore''" "stage t = ''failed''"
      "payload x = to_text H (restore_payload reason s)" "payload t = to_text H (terminal_payload reason)"
  using assms no_faults_tick [of H "jclock j"]
  by (auto simp: record_success_def statement_def append_rows_def
      split: option.splits if_splits) blast+

lemma last_failure_matches_unchanged:
  "last_failure_matches H e er j = (r, j') \<Longrightarrow>
     jrows j' = jrows j \<and> jtrials j' = jtrials j \<and> jtable j' = jtable j"
  by (auto simp: last_failure_matches_def dest: query_unchanged
      split: prod.splits sum.splits option.splits)

definition last_restore :: "'t jrow list \<Rightarrow> int \<Rightarrow> 't jrow option" where
  "last_restore rs e =
     List.find (\<lambda>x. row_experiment x = e \<and> stage x = ''watchdog-restore'') (rev rs)"

definition same_failure :: "'t host \<Rightarrow> string \<Rightarrow> 't jrow \<Rightarrow> bool" where
  "same_failure H er x \<longleftrightarrow> (case of_text H (payload x) of Inl _ \<Rightarrow> False
     | Inr v \<Rightarrow> Option.bind (get ''restored'' v) as_bool = Some False \<and>
         Option.bind (get ''error'' v) as_str = Some er)"

lemma last_failure_matches_Inr:
  assumes "last_failure_matches H e er j = (Inr b, j')"
  shows "b \<longleftrightarrow> (\<exists>x. last_restore (jrows j) e = Some x \<and> same_failure H er x)"
proof -
  obtain rq j1 where q: "query H (\<lambda>j'. List.find (\<lambda>x. row_experiment x = e \<and>
      stage x = ''watchdog-restore'') (rev (jrows j'))) j = (rq, j1)" by fastforce
  show ?thesis
  proof (cases rq)
    case (Inr found)
    have "found = last_restore (jrows j) e"
      using query_Inr [OF q [unfolded Inr]] by (simp add: last_restore_def)
    with q Inr assms show ?thesis
      by (auto simp: last_failure_matches_def same_failure_def split: option.splits sum.splits)
  qed (use q assms in \<open>simp add: last_failure_matches_def\<close>)
qed

text \<open>A journal that takes writes and whose payloads all parse.\<close>

definition readable :: "'t host \<Rightarrow> 't journal \<Rightarrow> bool" where
  "readable H j \<longleftrightarrow>
     no_faults H \<and> jtable j \<and> (\<forall>x\<in>set (jrows j). is_ok (of_text H (payload x)))"

lemma last_failure_matches_no_faults:
  assumes "readable H j"
  shows "\<exists>b j'. last_failure_matches H e er j = (Inr b, j')"
proof -
  have "is_ok (of_text H (payload x))" if "last_restore (jrows j) e = Some x" for x
    using find_Some_in_set [OF that [unfolded last_restore_def]] assms by (simp add: readable_def)
  then show ?thesis
    using assms
    by (auto simp: readable_def last_failure_matches_def query_def statement_def no_faults_def
        last_restore_def [symmetric] split: option.split sum.split)
qed

lemma record_failure_cases [consumes 1, case_names fault repeated stored]:
  assumes "record_failure H e pid reason s er j = (r, j')"
  obtains d where "r = Inl d" "jrows j' = jrows j" "jtrials j' = jtrials j" "jtable j' = jtable j"
      "\<not> readable H j"
  | x where "r = Inr ()" "jrows j' = jrows j" "jtrials j' = jtrials j" "jtable j' = jtable j"
      "last_restore (jrows j) e = Some x" "same_failure H er x"
  | x where "r = Inr ()" "jtrials j' = jtrials j" "jtable j' = jtable j"
      "jrows j' = jrows j @ [x]" "row_experiment x = e" "row_provider x = pid"
      "stage x = ''watchdog-restore''" "payload x = to_text H (failure_payload reason s er)"
      "\<not> (\<exists>y. last_restore (jrows j) e = Some y \<and> same_failure H er y)"
proof -
  obtain r1 j1 where 1: "last_failure_matches H e er j = (r1, j1)" by fastforce
  note j1 = last_failure_matches_unchanged [OF 1]
  show thesis
  proof (cases r1)
    case (Inl d)
    moreover have "\<not> readable H j"
      using 1 Inl last_failure_matches_no_faults [of H j e er] by auto
    ultimately show thesis using 1 j1 assms by (intro that(1)) (auto simp: record_failure_def)
  next
    case (Inr b)
    note b = last_failure_matches_Inr [OF 1 [unfolded Inr]]
    show thesis
    proof (cases b)
      case True
      then obtain x where "last_restore (jrows j) e = Some x" "same_failure H er x" using b by blast
      with True Inr 1 j1 assms show thesis by (intro that(2)) (auto simp: record_failure_def)
    next
      case False
      obtain r2 j2 where 2: "insert_record H e ''watchdog-restore'' pid
          (to_text H (failure_payload reason s er)) j1 = (r2, j2)" by fastforce
      then show thesis
      proof (cases rule: insert_record_cases)
        case (fault f)
        have "\<not> readable H j"
          using 2 fault j1 insert_record_ok [of H j1 e "''watchdog-restore''" pid]
          by (auto simp: readable_def no_faults_tick)
        with fault False Inr 1 2 j1 assms show thesis
          by (intro that(1) [of "watchdog_fault f"]) (auto simp: record_failure_def)
      next
        case stored
        with False Inr 1 2 j1 b assms show thesis
          by (intro that(3)) (auto simp: record_failure_def)
      qed
    qed
  qed
qed

text \<open>The rows one experiment's restore adds.\<close>

definition restore_rows :: "string \<Rightarrow> int \<Rightarrow> 't jrow list \<Rightarrow> bool" where
  "restore_rows pid e xs \<longleftrightarrow>
     (\<forall>x\<in>set xs. row_experiment x = e \<and> row_provider x = pid \<and>
        (stage x = ''watchdog-restore'' \<or> stage x = ''failed''))"

lemma reclaim_one_cases [consumes 1, case_names restored failed]:
  assumes "reclaim_one H P u w = (r, w')"
  obtains p xs where "restore_state P (un_snapshot u) (w_provider w) = (Inr (), p)" "w_provider w' = p"
      "wgrows w xs w'" "restore_rows (w_provider_id w) (un_experiment u) xs"
      "xs \<noteq> [] \<Longrightarrow> map stage xs = [''watchdog-restore'', ''failed'']"
      "\<And>x. r = Inr x \<Longrightarrow> xs \<noteq> [] \<and>
         x = \<lparr>rs_experiment = un_experiment u, rs_reason = reclaim_reason_of u,
              rs_lease = lease_seconds (un_request u), rs_restored = True, rs_error = None\<rparr>"
      "is_ok r \<or> \<not> readable H (w_journal w)" "\<forall>x\<in>set xs. \<exists>v. payload x = to_text H v"
  | er p xs where "restore_state P (un_snapshot u) (w_provider w) = (Inl er, p)" "w_provider w' = p"
      "wgrows w xs w'" "restore_rows (w_provider_id w) (un_experiment u) xs" "length xs \<le> 1"
      "\<forall>x\<in>set xs. stage x = ''watchdog-restore'' \<and>
         payload x = to_text H (failure_payload (reclaim_reason_of u) (un_snapshot u) (show_provider_error er))"
      "\<And>x. r = Inr x \<Longrightarrow>
         x = \<lparr>rs_experiment = un_experiment u, rs_reason = reclaim_reason_of u,
              rs_lease = lease_seconds (un_request u), rs_restored = False,
              rs_error = Some (show_provider_error er)\<rparr> \<and>
         (xs = [] \<longleftrightarrow> (\<exists>y. last_restore (jrows (w_journal w)) (un_experiment u) = Some y \<and>
             same_failure H (show_provider_error er) y))"
      "is_ok r \<or> \<not> readable H (w_journal w)"
proof -
  obtain q p where rs: "restore_state P (un_snapshot u) (w_provider w) = (q, p)" by fastforce
  show thesis
  proof (cases q)
    case (Inr n)
    obtain r1 j where 1: "record_success H (un_experiment u) (w_provider_id w) (reclaim_reason_of u)
        (un_snapshot u) (w_journal w) = (r1, j)" by fastforce
    then show thesis
    proof (cases rule: record_success_cases)
      case (fault er)
      with rs Inr 1 assms show thesis
        by (intro that(1) [of p "[]"])
          (auto simp: reclaim_one_def Let_def wgrows_def restore_rows_def readable_def)
    next
      case (stored x t)
      with rs Inr 1 assms show thesis
        by (intro that(1) [of p "[x, t]"])
          (auto simp: reclaim_one_def Let_def wgrows_def restore_rows_def)
    qed
  next
    case (Inl er)
    obtain r1 j where 1: "record_failure H (un_experiment u) (w_provider_id w) (reclaim_reason_of u)
        (un_snapshot u) (show_provider_error er) (w_journal w) = (r1, j)" by fastforce
    then show thesis
    proof (cases rule: record_failure_cases)
      case (fault d)
      with rs Inl 1 assms show thesis
        by (intro that(2) [of er p "[]"])
          (auto simp: reclaim_one_def Let_def wgrows_def restore_rows_def)
    next
      case (repeated x)
      with rs Inl 1 assms show thesis
        by (intro that(2) [of er p "[]"])
          (auto simp: reclaim_one_def Let_def wgrows_def restore_rows_def)
    next
      case (stored x)
      with rs Inl 1 assms show thesis
        by (intro that(2) [of er p "[x]"])
          (auto simp: reclaim_one_def Let_def wgrows_def restore_rows_def)
    qed
  qed
qed

lemma reclaim_one_grows:
  assumes "reclaim_one H P u w = (r, w')"
  shows "\<exists>xs. wgrows w xs w' \<and> restore_rows (w_provider_id w) (un_experiment u) xs"
  using assms by (cases rule: reclaim_one_cases) auto

text \<open>
  Whatever the policy, the provider and the journal do, a reclaim pass only appends to the
  journal: every row it adds is a \<open>watchdog-restore\<close> or a terminal \<open>failed\<close> record under its own
  provider id, for an experiment that was leaked when the pass started, and no trial changes.
\<close>

theorem reclaim_writes_only_restores:
  assumes "reclaim H P pol w = (r, w')"
  shows "\<exists>xs. jrows (w_journal w') = jrows (w_journal w) @ xs \<and>
    jtrials (w_journal w') = jtrials (w_journal w) \<and>
    (\<forall>x\<in>set xs. (stage x = ''watchdog-restore'' \<or> stage x = ''failed'') \<and>
       row_provider x = w_provider_id w \<and>
       leaked (w_provider_id w) (jrows (w_journal w)) (row_experiment x))"
proof -
  have each: "\<exists>xs. wgrows v xs w' \<and> (\<forall>x\<in>set xs. \<exists>u\<in>set us. selected_by u pol \<and>
      restore_rows (w_provider_id v) (un_experiment u) [x])"
    if "reclaim_each H P pol us v = (r, w')" for us v and r :: "(watchdog_error, restoration list) result"
    using that
  proof (induction us arbitrary: v r)
    case Nil
    then show ?case by (intro exI [of _ "[]"]) auto
  next
    case (Cons u us)
    show ?case
    proof (cases "selected_by u pol")
      case False
      with Cons.prems Cons.IH [of v r] show ?thesis by auto
    next
      case True
      obtain r1 w1 where 1: "reclaim_one H P u v = (r1, w1)" by fastforce
      obtain xs where xs: "wgrows v xs w1" "restore_rows (w_provider_id v) (un_experiment u) xs"
        using reclaim_one_grows [OF 1] by blast
      show ?thesis
      proof (cases r1)
        case (Inl er)
        with True 1 xs Cons.prems show ?thesis
          by (intro exI [of _ xs]) (auto simp: restore_rows_def)
      next
        case (Inr a)
        obtain r2 w2 where 2: "reclaim_each H P pol us w1 = (r2, w2)" by fastforce
        then have "w2 = w'" using True 1 Inr Cons.prems by (auto split: sum.splits)
        with Cons.IH 2 obtain ys where "wgrows w1 ys w'" "\<forall>x\<in>set ys. \<exists>u\<in>set us. selected_by u pol \<and>
            restore_rows (w_provider_id w1) (un_experiment u) [x]" by blast
        with True xs show ?thesis
          by (intro exI [of _ "xs @ ys"])
            (auto simp: restore_rows_def wgrows_provider_id dest: wgrows_trans)
      qed
    qed
  qed
  obtain r1 w1 where 1: "scan H w = (r1, w1)" by fastforce
  then show ?thesis
  proof (cases rule: scan_cases)
    case (rows now us)
    with 1 assms have "reclaim_each H P pol us w1 = (r, w')" by (simp add: reclaim_def)
    from each [OF this] obtain xs where xs: "wgrows w1 xs w'" "\<forall>x\<in>set xs. \<exists>u\<in>set us.
        selected_by u pol \<and> restore_rows (w_provider_id w1) (un_experiment u) [x]" by blast
    with rows scan_experiments [OF rows(3)] show ?thesis
      by (intro exI [of _ xs]) (fastforce simp: wgrows_def restore_rows_def)
  qed (use 1 assms in \<open>auto simp: reclaim_def\<close>)
qed


lemma readable_wgrows:
  assumes "wgrows w xs w'" "readable H (w_journal w)" "\<forall>v. is_ok (of_text H (to_text H v))"
    "\<forall>x\<in>set xs. \<exists>v. payload x = to_text H v"
  shows "readable H (w_journal w')"
  using assms by (fastforce simp: readable_def wgrows_def)

lemma reclaim_each_readable:
  assumes "readable H (w_journal w)" "\<forall>v. is_ok (of_text H (to_text H v))"
  shows "\<exists>rs w' xs. reclaim_each H P pol us w = (Inr rs, w') \<and> wgrows w xs w' \<and>
    map rs_experiment rs = map un_experiment (filter (\<lambda>u. selected_by u pol) us) \<and>
    (\<forall>x\<in>set xs. (stage x = ''watchdog-restore'' \<or> stage x = ''failed'') \<and>
       (\<exists>v. payload x = to_text H v)) \<and>
    (\<forall>e. (\<exists>x\<in>set xs. row_experiment x = e \<and> stage x = ''failed'') \<longleftrightarrow>
       (\<exists>r\<in>set rs. rs_experiment r = e \<and> rs_restored r))"
  using assms(1)
proof (induction us arbitrary: w)
  case (Cons u us)
  show ?case
  proof (cases "selected_by u pol")
    case False
    with Cons.IH [OF Cons.prems] show ?thesis by simp
  next
    case True
    obtain r w1 where 1: "reclaim_one H P u w = (r, w1)" by fastforce
    then obtain a xs where a: "r = Inr a" "wgrows w xs w1" "rs_experiment a = un_experiment u"
      "\<forall>x\<in>set xs. (stage x = ''watchdog-restore'' \<or> stage x = ''failed'') \<and>
         row_experiment x = un_experiment u \<and> (\<exists>v. payload x = to_text H v)"
      "(\<exists>x\<in>set xs. stage x = ''failed'') \<longleftrightarrow> rs_restored a"
    proof (cases rule: reclaim_one_cases)
      case (restored p xs)
      obtain a where "r = Inr a" using restored(7) Cons.prems by auto
      with restored(3-6,8) show thesis
        by (intro that [of a xs]) (auto simp: restore_rows_def)
    next
      case (failed er p xs)
      obtain a where "r = Inr a" using failed(8) Cons.prems by auto
      with failed(3-7) show thesis
        by (intro that [of a xs]) (auto simp: restore_rows_def)
    qed
    have "readable H (w_journal w1)"
      using readable_wgrows [OF a(2) Cons.prems assms(2)] a(4) by blast
    from Cons.IH [OF this] obtain rs w' ys where ys: "reclaim_each H P pol us w1 = (Inr rs, w')"
      "wgrows w1 ys w'" "map rs_experiment rs = map un_experiment (filter (\<lambda>u. selected_by u pol) us)"
      "\<forall>x\<in>set ys. (stage x = ''watchdog-restore'' \<or> stage x = ''failed'') \<and> (\<exists>v. payload x = to_text H v)"
      "\<forall>e. (\<exists>x\<in>set ys. row_experiment x = e \<and> stage x = ''failed'') \<longleftrightarrow>
         (\<exists>r\<in>set rs. rs_experiment r = e \<and> rs_restored r)"
      by blast
    have "reclaim_each H P pol (u # us) w = (Inr (a # rs), w')"
      using True 1 a(1) ys(1) by simp
    moreover have "(\<exists>x\<in>set (xs @ ys). row_experiment x = e \<and> stage x = ''failed'') \<longleftrightarrow>
         (\<exists>r\<in>set (a # rs). rs_experiment r = e \<and> rs_restored r)" for e
      using ys(5) a(3-5) by auto
    ultimately show ?thesis
      using True a(3,4) ys(3,4) wgrows_trans [OF a(2) ys(2)]
      by (intro exI [of _ "a # rs"] exI [of _ w'] exI [of _ "xs @ ys"]) auto
  qed
qed (auto intro: exI [of _ "[]"])

lemma scan_readable:
  assumes "readable H (w_journal w)" "scan H w = (Inr us, w1)"
  shows "readable H (w_journal w1)"
  using assms(2,1) by (cases rule: scan_cases) (auto simp: readable_def)

lemma leaked_append:
  assumes "\<forall>x\<in>set xs. stage x = ''watchdog-restore'' \<or> stage x = ''failed''"
  shows "leaked pid (rs @ xs) e \<longleftrightarrow>
    leaked pid rs e \<and> \<not> (\<exists>x\<in>set xs. row_experiment x = e \<and> stage x = ''failed'')"
  using assms by (auto simp: leaked_def terminal_for_iff)

lemma pass_outcome:
  assumes "readable H (w_journal w)" "\<forall>v. is_ok (of_text H (to_text H v))"
    and "scan H w = (Inr us, w1)"
  shows "\<exists>rs w'. reclaim H P pol w = (Inr rs, w') \<and>
    map rs_experiment rs = map un_experiment (filter (\<lambda>u. selected_by u pol) us) \<and>
    (\<forall>e. leaked (w_provider_id w) (jrows (w_journal w')) e \<longleftrightarrow>
       leaked (w_provider_id w) (jrows (w_journal w)) e \<and>
       \<not> (\<exists>r\<in>set rs. rs_experiment r = e \<and> rs_restored r))"
proof -
  have w1: "jrows (w_journal w1) = jrows (w_journal w)"
    using assms(3) by (cases rule: scan_cases) auto
  obtain rs w' xs where e: "reclaim_each H P pol us w1 = (Inr rs, w')" "wgrows w1 xs w'"
    "map rs_experiment rs = map un_experiment (filter (\<lambda>u. selected_by u pol) us)"
    "\<forall>x\<in>set xs. stage x = ''watchdog-restore'' \<or> stage x = ''failed''"
    "\<forall>e. (\<exists>x\<in>set xs. row_experiment x = e \<and> stage x = ''failed'') \<longleftrightarrow>
         (\<exists>r\<in>set rs. rs_experiment r = e \<and> rs_restored r)"
    using reclaim_each_readable [OF scan_readable [OF assms(1,3)] assms(2), of P pol us] by blast
  have "leaked pid (jrows (w_journal w')) e \<longleftrightarrow> leaked pid (jrows (w_journal w)) e \<and>
       \<not> (\<exists>r\<in>set rs. rs_experiment r = e \<and> rs_restored r)" for pid e
    using leaked_append [OF e(4), of pid "jrows (w_journal w1)" e] e(2,5) w1
    by (simp add: wgrows_def)
  with e(1,3) assms(3) show ?thesis
    by (intro exI [of _ rs] exI [of _ w']) (simp add: reclaim_def)
qed

text \<open>
  What an attempt on one experiment did, in terms of the provider's own operations: \<open>p\<close> and \<open>rs\<close> are
  the provider and the rows before it, \<open>xs\<close> the rows it wrote.
\<close>

definition attempted ::
  "'t host \<Rightarrow> 'p provider_ops \<Rightarrow> string \<Rightarrow> unclosed_experiment \<Rightarrow> restoration \<Rightarrow> 'p \<Rightarrow> 't jrow list \<Rightarrow>
     't jrow list \<Rightarrow> bool" where
  "attempted H P pid u r p rs xs \<longleftrightarrow>
     (let s = un_snapshot u; p' = snd (op_rollback P p s) in
      rs_experiment r = un_experiment u \<and>
      (\<forall>x\<in>set xs. row_experiment x = un_experiment u \<and> row_provider x = pid) \<and>
      (if rs_restored r
       then fst (op_rollback P p s) = Inr () \<and> op_snapshot P p' = Inr s \<and> rs_error r = None \<and>
         map stage xs = [''watchdog-restore'', ''failed''] \<and>
         (\<exists>v. payload (hd xs) = to_text H v \<and> get ''restored'' v = Some (Bool True) \<and>
            get ''snapshot'' v = Some (snapshot_json s))
       else (\<exists>er. rs_error r = Some (show_provider_error er) \<and>
         (case fst (op_rollback P p s) of
            Inl er' \<Rightarrow> er' = er
          | Inr _ \<Rightarrow> (case op_snapshot P p' of Inl er' \<Rightarrow> er' = er | Inr s' \<Rightarrow> s' \<noteq> s)) \<and>
         (if \<exists>y. last_restore rs (un_experiment u) = Some y \<and> same_failure H (show_provider_error er) y
          then xs = []
          else map stage xs = [''watchdog-restore''] \<and>
            (\<exists>v. payload (hd xs) = to_text H v \<and> get ''restored'' v = Some (Bool False) \<and>
               get ''error'' v = Some (Str (show_provider_error er)) \<and>
               get ''snapshot'' v = Some (snapshot_json s))))))"

text \<open>The attempts of a pass, one after the other, each on what the one before left.\<close>

fun attempts ::
  "'t host \<Rightarrow> 'p provider_ops \<Rightarrow> string \<Rightarrow> unclosed_experiment list \<Rightarrow> restoration list \<Rightarrow> 'p \<times> 't jrow list \<Rightarrow>
     'p \<times> 't jrow list \<Rightarrow> bool" where
  "attempts H P pid (u # us) (r # rs) (p, rows) end \<longleftrightarrow>
     (\<exists>xs. attempted H P pid u r p rows xs \<and>
        attempts H P pid us rs (snd (op_rollback P p (un_snapshot u)), rows @ xs) end)"
| "attempts H P pid us rs start end \<longleftrightarrow> us = [] \<and> rs = [] \<and> start = end"

lemma restore_state_result:
  assumes "restore_state P s p = (q, p')"
  shows "p' = snd (op_rollback P p s)"
    "q = Inr () \<Longrightarrow> fst (op_rollback P p s) = Inr () \<and> op_snapshot P p' = Inr s"
    "q = Inl er \<Longrightarrow> (case fst (op_rollback P p s) of
            Inl er' \<Rightarrow> er' = er
          | Inr _ \<Rightarrow> (case op_snapshot P p' of Inl er' \<Rightarrow> er' = er | Inr s' \<Rightarrow> s' \<noteq> s))"
  using assms by (auto simp: restore_state_def split: prod.splits sum.splits if_splits)

lemma reclaim_one_attempted:
  assumes "reclaim_one H P u w = (r, w')" "readable H (w_journal w)"
  shows "\<exists>a xs. r = Inr a \<and> wgrows w xs w' \<and> w_provider w' = snd (op_rollback P (w_provider w) (un_snapshot u)) \<and>
    (\<forall>x\<in>set xs. \<exists>v. payload x = to_text H v) \<and>
    attempted H P (w_provider_id w) u a (w_provider w) (jrows (w_journal w)) xs"
proof -
  obtain q p where rs: "restore_state P (un_snapshot u) (w_provider w) = (q, p)" by fastforce
  note p = restore_state_result [OF rs]
  show ?thesis
  proof (cases q)
    case (Inr n)
    then have "q = Inr ()" by simp
    note p = p(1) p(2) [OF this]
    obtain r1 j where 1: "record_success H (un_experiment u) (w_provider_id w) (reclaim_reason_of u)
        (un_snapshot u) (w_journal w) = (r1, j)" by fastforce
    then show ?thesis
    proof (cases rule: record_success_cases)
      case (fault er)
      with assms(2) show ?thesis by (simp add: readable_def)
    next
      case (stored x t)
      with rs Inr 1 assms p show ?thesis
        by (intro exI [of _ "projr r"] exI [of _ "[x, t]"])
          (auto simp: reclaim_one_def Let_def wgrows_def attempted_def restore_payload_def)
    qed
  next
    case (Inl er)
    note p = p(1) p(3) [OF Inl]
    obtain r1 j where 1: "record_failure H (un_experiment u) (w_provider_id w) (reclaim_reason_of u)
        (un_snapshot u) (show_provider_error er) (w_journal w) = (r1, j)" by fastforce
    then show ?thesis
    proof (cases rule: record_failure_cases)
      case (fault d)
      with assms(2) show ?thesis by simp
    next
      case (repeated x)
      with rs Inl 1 assms(1) p show ?thesis
        by (intro exI [of _ "projr r"] exI [of _ "[]"])
          (auto simp: reclaim_one_def Let_def wgrows_def attempted_def)
    next
      case (stored x)
      with rs Inl 1 assms(1) p show ?thesis
        by (intro exI [of _ "projr r"] exI [of _ "[x]"])
          (auto simp: reclaim_one_def Let_def wgrows_def attempted_def failure_payload_def intro!: exI [of _ er])
    qed
  qed
qed

lemma reclaim_each_attempts:
  assumes "readable H (w_journal w)" "\<forall>v. is_ok (of_text H (to_text H v))"
  shows "\<exists>rs w'. reclaim_each H P pol us w = (Inr rs, w') \<and>
    attempts H P (w_provider_id w) (filter (\<lambda>u. selected_by u pol) us) rs
      (w_provider w, jrows (w_journal w)) (w_provider w', jrows (w_journal w'))"
  using assms(1)
proof (induction us arbitrary: w)
  case (Cons u us)
  show ?case
  proof (cases "selected_by u pol")
    case True
    obtain r w1 where 1: "reclaim_one H P u w = (r, w1)" by fastforce
    from reclaim_one_attempted [OF 1 Cons.prems] obtain a xs where a: "r = Inr a" "wgrows w xs w1"
      "w_provider w1 = snd (op_rollback P (w_provider w) (un_snapshot u))"
      "\<forall>x\<in>set xs. \<exists>v. payload x = to_text H v"
      "attempted H P (w_provider_id w) u a (w_provider w) (jrows (w_journal w)) xs" by blast
    have "readable H (w_journal w1)"
      using readable_wgrows [OF a(2) Cons.prems assms(2)] a(4) by blast
    from Cons.IH [OF this] obtain rs w' where "reclaim_each H P pol us w1 = (Inr rs, w')"
      "attempts H P (w_provider_id w1) (filter (\<lambda>u. selected_by u pol) us) rs
        (w_provider w1, jrows (w_journal w1)) (w_provider w', jrows (w_journal w'))" by blast
    with True 1 a show ?thesis
      by (auto simp: wgrows_def)
  qed (use Cons in simp)
qed simp

text \<open>
  C10: On a readable journal a reclaim pass attempts every selected leak once, in the order of the
  scan, also when some rollbacks fail, and does nothing else: each attempt rolls the provider back to
  the recorded snapshot and reads it again; it counts as restored only when the read-back is that
  snapshot, and then appends the audit row and the terminal record, which closes the experiment;
  otherwise it reports the provider's error and leaves the experiment open with the failure recorded
  once, that is unless its last audit row already says the same.  Afterwards an experiment is still
  leaked exactly if it was before and no attempt on it succeeded.
\<close>

theorem reclaim_outcome:
  assumes "readable H (w_journal w)" "\<forall>v. is_ok (of_text H (to_text H v))"
    and "scan H w = (Inr us, w1)"
  shows "\<exists>rs w'. reclaim H P pol w = (Inr rs, w') \<and>
    map rs_experiment rs = map un_experiment (filter (\<lambda>u. selected_by u pol) us) \<and>
    attempts H P (w_provider_id w) (filter (\<lambda>u. selected_by u pol) us) rs
      (w_provider w, jrows (w_journal w)) (w_provider w', jrows (w_journal w')) \<and>
    (\<forall>e. leaked (w_provider_id w) (jrows (w_journal w')) e \<longleftrightarrow>
       leaked (w_provider_id w) (jrows (w_journal w)) e \<and>
       \<not> (\<exists>r\<in>set rs. rs_experiment r = e \<and> rs_restored r))"
proof -
  have w1: "jrows (w_journal w1) = jrows (w_journal w)" "w_provider w1 = w_provider w" "w_provider_id w1 = w_provider_id w"
    using assms(3) by (cases rule: scan_cases; simp)+
  obtain rs w' where p: "reclaim H P pol w = (Inr rs, w')"
    "map rs_experiment rs = map un_experiment (filter (\<lambda>u. selected_by u pol) us)"
    "\<forall>e. leaked (w_provider_id w) (jrows (w_journal w')) e \<longleftrightarrow> leaked (w_provider_id w) (jrows (w_journal w)) e \<and>
       \<not> (\<exists>r\<in>set rs. rs_experiment r = e \<and> rs_restored r)"
    using pass_outcome [OF assms, of P pol] by blast
  moreover from p(1) assms(3) have "reclaim_each H P pol us w1 = (Inr rs, w')"
    by (simp add: reclaim_def)
  with reclaim_each_attempts [OF scan_readable [OF assms(1,3)] assms(2), of P pol us] w1
  have "attempts H P (w_provider_id w) (filter (\<lambda>u. selected_by u pol) us) rs
      (w_provider w, jrows (w_journal w)) (w_provider w', jrows (w_journal w'))" by auto
  ultimately show ?thesis by blast
qed

lemma scan_no_leaks:
  assumes "no_faults H" "jtable (w_journal w)" "\<forall>e. \<not> leaked (w_provider_id w) (jrows (w_journal w)) e"
  shows "\<exists>w'. scan H w = (Inr [], w') \<and> w_provider w' = w_provider w \<and>
    jrows (w_journal w') = jrows (w_journal w)"
  using assms
  by (simp add: scan_def unclosed_experiments_def journal_ready_def query_def statement_def
      no_faults_tick unclosed_rows_empty [symmetric])

lemma reclaim_each_all_restored:
  assumes "\<forall>u\<in>set us. \<forall>p. fst (restore_state P (un_snapshot u) p) = Inr ()"
    and "reclaim_each H P pol us w = (Inr rs, w')"
  shows "\<forall>r\<in>set rs. rs_restored r"
  using assms
proof (induction us arbitrary: w rs)
  case (Cons u us)
  show ?case
  proof (cases "selected_by u pol")
    case True
    obtain r w1 where 1: "reclaim_one H P u w = (r, w1)" by fastforce
    with True Cons.prems obtain a rs' where a: "r = Inr a" "rs = a # rs'"
      "reclaim_each H P pol us w1 = (Inr rs', w')"
      by (auto split: sum.splits prod.splits)
    from 1 have "rs_restored a"
    proof (cases rule: reclaim_one_cases)
      case (restored p xs)
      then show ?thesis using a by simp
    next
      case (failed er p xs)
      have "fst (restore_state P (un_snapshot u) (w_provider w)) = Inr ()"
        using Cons.prems(1) by simp
      then show ?thesis using failed(1) by simp
    qed
    with a Cons show ?thesis by simp
  qed (use Cons in simp)
qed simp

lemma scan_experiments_readable:
  assumes "readable H (w_journal w)" "scan H w = (Inr us, w1)"
  shows "un_experiment ` set us = {e. leaked (w_provider_id w) (jrows (w_journal w)) e}"
  using assms(2,1)
proof (cases rule: scan_cases)
  case (rows now us')
  then show ?thesis using scan_experiments [OF rows(3)] by auto
qed (simp_all add: readable_def)

lemma closes_all:
  assumes "readable H (w_journal w)" "\<forall>v. is_ok (of_text H (to_text H v))"
    and "scan H w = (Inr us, w1)" "reclaim_each H P AllUnclosed us w1 = (Inr rs, w')"
    and ok: "\<forall>r\<in>set rs. rs_restored r"
  shows "(\<forall>e. \<not> leaked (w_provider_id w) (jrows (w_journal w')) e) \<and>
    map rs_experiment rs = map un_experiment us \<and> jtable (w_journal w') \<and>
    w_provider_id w' = w_provider_id w"
proof -
  obtain xs where e: "wgrows w1 xs w'" "map rs_experiment rs = map un_experiment us"
    "\<forall>x\<in>set xs. stage x = ''watchdog-restore'' \<or> stage x = ''failed''"
    "\<forall>e. (\<exists>x\<in>set xs. row_experiment x = e \<and> stage x = ''failed'') \<longleftrightarrow>
         (\<exists>r\<in>set rs. rs_experiment r = e \<and> rs_restored r)"
    using reclaim_each_readable [OF scan_readable [OF assms(1,3)] assms(2), of P AllUnclosed us] assms(4)
    by auto
  have w1: "w_provider_id w1 = w_provider_id w" "jrows (w_journal w1) = jrows (w_journal w)"
    using assms(3) by (cases rule: scan_cases; simp)+
  have "\<not> leaked (w_provider_id w) (jrows (w_journal w')) e" for e
  proof
    assume "leaked (w_provider_id w) (jrows (w_journal w')) e"
    then have l: "leaked (w_provider_id w) (jrows (w_journal w)) e"
      "\<not> (\<exists>r\<in>set rs. rs_experiment r = e \<and> rs_restored r)"
      using leaked_append [OF e(3)] e(1,4) w1 by (simp_all add: wgrows_def)
    have "e \<in> rs_experiment ` set rs"
      using l(1) scan_experiments_readable [OF assms(1,3)] e(2) by (metis list.set_map mem_Collect_eq)
    then show False using l(2) ok by auto
  qed
  with e(1,2) w1 scan_readable [OF assms(1,3)] show ?thesis
    by (simp add: wgrows_def readable_def)
qed

text \<open>
  C11: Crash recovery closes every leak and is idempotent.  On a readable journal, with a provider
  whose rollback restores each leaked snapshot, a pass over all unclosed experiments restores every
  one of them, leaves no leak behind, and any later pass under any policy finds nothing: it neither
  touches the provider nor appends a row.
\<close>

theorem recover_all_is_idempotent:
  assumes "readable H (w_journal w)" "\<forall>v. is_ok (of_text H (to_text H v))"
    and "scan H w = (Inr us, w1)"
    and "\<forall>u\<in>set us. \<forall>p. fst (restore_state P (un_snapshot u) p) = Inr ()"
  shows "\<exists>rs w'. reclaim H P AllUnclosed w = (Inr rs, w') \<and>
    map rs_experiment rs = map un_experiment us \<and> (\<forall>r\<in>set rs. rs_restored r) \<and>
    (\<forall>e. \<not> leaked (w_provider_id w) (jrows (w_journal w')) e) \<and>
    (\<exists>w''. reclaim H P pol w' = (Inr [], w'') \<and> w_provider w'' = w_provider w' \<and>
       jrows (w_journal w'') = jrows (w_journal w'))"
proof -
  obtain rs w' where e: "reclaim_each H P AllUnclosed us w1 = (Inr rs, w')"
    using reclaim_each_readable [OF scan_readable [OF assms(1,3)] assms(2), of P AllUnclosed us] by blast
  have ok: "\<forall>r\<in>set rs. rs_restored r"
    using reclaim_each_all_restored [OF assms(4) e] .
  note closed = closes_all [OF assms(1-3) e ok]
  obtain w'' where w'': "scan H w' = (Inr [], w'')" "w_provider w'' = w_provider w'"
    "jrows (w_journal w'') = jrows (w_journal w')"
    using scan_no_leaks [of H w'] closed assms(1) by (auto simp: readable_def)
  show ?thesis
    using e ok closed w'' assms(3)
    by (intro exI [of _ rs] exI [of _ w']) (simp add: reclaim_def)
qed

subsection \<open>A knob that cannot be restored\<close>

lemma unclosed_rows_restores:
  assumes "\<forall>x\<in>set xs. stage x = ''watchdog-restore''"
  shows "unclosed_rows pid (rs @ xs) = unclosed_rows pid rs"
proof -
  have none: "filter (\<lambda>x. Q x \<and> stage x = ''snapshot'') xs = []"
    "filter (\<lambda>x. stage x = ''apply-intent'' \<and> Q x) xs = []" for Q
    using assms by (auto simp: filter_empty_conv)
  have "terminal_for (rs @ xs) e \<longleftrightarrow> terminal_for rs e" for e
    using assms by (auto simp: terminal_for_iff)
  then show ?thesis
    by (simp add: unclosed_rows_def none)
qed

lemma decoded: "map f rs = map Inr us \<Longrightarrow> x \<in> set rs \<Longrightarrow> \<exists>u\<in>set us. f x = Inr u"
  by (induction rs arbitrary: us) (auto simp: Cons_eq_map_conv)

lemma unclosed_of_same:
  "unclosed_of H now p = Inr u \<Longrightarrow> unclosed_of H now2 p = Inr v \<Longrightarrow>
   un_snapshot v = un_snapshot u \<and> un_experiment v = un_experiment u"
  by (cases p) (auto simp: unclosed_of_Inr)

lemma last_restore_append:
  "last_restore (rs @ xs) e = (case last_restore xs e of None \<Rightarrow> last_restore rs e | Some x \<Rightarrow> Some x)"
  by (simp add: last_restore_def find_append split: option.split)

definition known_failure ::
  "'t host \<Rightarrow> (state_snapshot \<Rightarrow> provider_error) \<Rightarrow> unclosed_experiment \<Rightarrow> 't jrow list \<Rightarrow> bool" where
  "known_failure H er u rs \<longleftrightarrow>
     (\<exists>y. last_restore rs (un_experiment u) = Some y \<and>
        same_failure H (show_provider_error (er (un_snapshot u))) y)"

definition stuck_on ::
  "'p provider_ops \<Rightarrow> (state_snapshot \<Rightarrow> provider_error) \<Rightarrow> unclosed_experiment \<Rightarrow> bool" where
  "stuck_on P er u \<longleftrightarrow> (\<forall>p. fst (restore_state P (un_snapshot u) p) = Inl (er (un_snapshot u)))"

lemma stuck_onD:
  "stuck_on P er u \<Longrightarrow> restore_state P (un_snapshot u) p = (Inl e, q) \<Longrightarrow> e = er (un_snapshot u)"
  "stuck_on P er u \<Longrightarrow> restore_state P (un_snapshot u) p \<noteq> (Inr (), q)"
  by (auto simp: stuck_on_def dest!: spec [of _ p])

lemma same_failure_payload:
  "reads_back H (failure_payload reason s er) \<Longrightarrow> payload x = to_text H (failure_payload reason s er) \<Longrightarrow>
   same_failure H er x"
  by (simp add: same_failure_def reads_back_def failure_payload_def)

lemma reclaim_one_stuck:
  assumes "reclaim_one H P u w = (Inr a, w')" "stuck_on P er u"
    and "\<forall>reason. reads_back H (failure_payload reason (un_snapshot u)
           (show_provider_error (er (un_snapshot u))))"
  shows "\<exists>xs. wgrows w xs w' \<and> known_failure H er u (jrows (w_journal w')) \<and>
    (\<forall>x\<in>set xs. row_experiment x = un_experiment u \<and> stage x = ''watchdog-restore'') \<and>
    (known_failure H er u (jrows (w_journal w)) \<longrightarrow> xs = []) \<and>
    un_experiment u = rs_experiment a \<and> \<not> rs_restored a"
  using assms(1)
proof (cases rule: reclaim_one_cases)
  case (restored p xs)
  with stuck_onD(2) [OF assms(2)] show ?thesis by blast
next
  case (failed e p xs)
  note e = stuck_onD(1) [OF assms(2) failed(1)]
  have known: "xs = [] \<longleftrightarrow> known_failure H er u (jrows (w_journal w))"
    using failed(7) e by (simp add: known_failure_def)
  have "known_failure H er u (jrows (w_journal w'))"
  proof (cases "xs = []")
    case True
    with known failed(3) show ?thesis by (simp add: wgrows_def)
  next
    case False
    with failed(5) obtain x where x: "xs = [x]" by (cases xs) auto
    have "same_failure H (show_provider_error e) x"
      using failed(6) x e assms(3) by (intro same_failure_payload) auto
    with x failed(3,4,6) e show ?thesis
      by (simp add: known_failure_def wgrows_def last_restore_append restore_rows_def)
        (simp add: last_restore_def)
  qed
  with failed known show ?thesis
    by (intro exI [of _ xs]) (auto simp: restore_rows_def)
qed

lemma known_failure_other:
  assumes "\<forall>x\<in>set xs. row_experiment x \<noteq> un_experiment u"
  shows "known_failure H er u (rs @ xs) \<longleftrightarrow> known_failure H er u rs"
proof -
  have "last_restore xs (un_experiment u) = None"
    using assms by (auto simp: last_restore_def find_None_iff)
  then show ?thesis by (simp add: known_failure_def last_restore_append)
qed

lemma reclaim_each_stuck:
  assumes "reclaim_each H P AllUnclosed us w = (Inr rs, w')"
    and "\<forall>u\<in>set us. stuck_on P er u" "distinct (map un_experiment us)"
    and "\<forall>u\<in>set us. \<forall>reason. reads_back H (failure_payload reason (un_snapshot u)
           (show_provider_error (er (un_snapshot u))))"
  shows "\<exists>xs. wgrows w xs w' \<and> (\<forall>u\<in>set us. known_failure H er u (jrows (w_journal w'))) \<and>
    (\<forall>x\<in>set xs. row_experiment x \<in> un_experiment ` set us \<and> stage x = ''watchdog-restore'') \<and>
    ((\<forall>u\<in>set us. known_failure H er u (jrows (w_journal w))) \<longrightarrow> xs = []) \<and>
    map rs_experiment rs = map un_experiment us \<and> (\<forall>r\<in>set rs. \<not> rs_restored r)"
  using assms
proof (induction us arbitrary: w rs)
  case (Cons u us)
  obtain r w1 where 1: "reclaim_one H P u w = (r, w1)" by fastforce
  with Cons.prems(1) obtain a rs' where a: "r = Inr a" "rs = a # rs'"
    "reclaim_each H P AllUnclosed us w1 = (Inr rs', w')"
    by (auto split: sum.splits prod.splits)
  obtain xs where xs: "wgrows w xs w1" "known_failure H er u (jrows (w_journal w1))"
    "\<forall>x\<in>set xs. row_experiment x = un_experiment u \<and> stage x = ''watchdog-restore''"
    "known_failure H er u (jrows (w_journal w)) \<longrightarrow> xs = []" "un_experiment u = rs_experiment a"
    "\<not> rs_restored a"
    using reclaim_one_stuck [OF 1 [unfolded a(1)], of er] Cons.prems(2,4) by fastforce
  obtain ys where ys: "wgrows w1 ys w'" "\<forall>u\<in>set us. known_failure H er u (jrows (w_journal w'))"
    "\<forall>x\<in>set ys. row_experiment x \<in> un_experiment ` set us \<and> stage x = ''watchdog-restore''"
    "(\<forall>u\<in>set us. known_failure H er u (jrows (w_journal w1))) \<longrightarrow> ys = []"
    "map rs_experiment rs' = map un_experiment us" "\<forall>r\<in>set rs'. \<not> rs_restored r"
    using Cons.IH [OF a(3)] Cons.prems by auto
  have "\<forall>x\<in>set ys. row_experiment x \<noteq> un_experiment u"
    using ys(3) Cons.prems(3) by (metis distinct.simps(2) list.simps(9) list.set_map)
  then have "known_failure H er u (jrows (w_journal w'))"
    using ys(1) xs(2) by (simp add: wgrows_def known_failure_other)
  moreover have "xs @ ys = []" if "\<forall>v\<in>set (u # us). known_failure H er v (jrows (w_journal w))"
    using that xs(1,4) ys(4) by (simp add: wgrows_def)
  ultimately show ?case
    using wgrows_trans [OF xs(1) ys(1)] xs(3,5,6) ys(2,3,5,6) a(2)
    by (intro exI [of _ "xs @ ys"]) auto
qed auto

lemma rescan:
  assumes "readable H (w_journal w)"
    and "map (unclosed_of H now) (unclosed_rows (w_provider_id w) (jrows (w_journal w))) = map Inr us"
  shows "\<exists>us2 w' now2. scan H w = (Inr us2, w') \<and>
    map (unclosed_of H now2) (unclosed_rows (w_provider_id w) (jrows (w_journal w))) = map Inr us2"
proof -
  let ?rs = "unclosed_rows (w_provider_id w) (jrows (w_journal w))"
  have decodes: "\<exists>us2. map (unclosed_of H now2) rs = map Inr us2"
    if "map (unclosed_of H now) rs = map Inr us" for rs us and now2
    using that
  proof (induction rs arbitrary: us)
    case (Cons p rs)
    then obtain u us' where u: "unclosed_of H now p = Inr u" "map (unclosed_of H now) rs = map Inr us'"
      by (auto simp: Cons_eq_map_conv)
    obtain v where "unclosed_of H now2 p = Inr v"
      using u(1) by (cases p) (auto simp: unclosed_of_def split: sum.splits)
    moreover obtain us2 where "map (unclosed_of H now2) rs = map Inr us2" using Cons.IH [OF u(2)] ..
    ultimately have "map (unclosed_of H now2) (p # rs) = map Inr (v # us2)" by simp
    then show ?case by blast
  qed simp
  obtain now2 w' where s: "scan H w = (decode_rows (unclosed_of H now2) ?rs, w')"
    using assms(1) by (simp add: readable_def scan_def unclosed_experiments_def journal_ready_def
        query_def statement_def no_faults_tick)
  from decodes [OF assms(2)] obtain us2 where us2: "map (unclosed_of H now2) ?rs = map Inr us2" ..
  then have "decode_rows (unclosed_of H now2) ?rs = Inr us2" by (simp only: decode_rows_eq)
  with s us2 show ?thesis by metis
qed

text \<open>
  A knob that cannot be restored does not flood a readable journal.  If rollback fails for every leaked
  experiment, each time with the same message for the same snapshot, then a first pass over all
  unclosed experiments records the failures and closes nothing, and a second pass retries the same
  experiments, reports them again and appends no row at all.
\<close>

theorem repeated_failures_do_not_grow_the_journal:
  assumes "readable H (w_journal w)" "\<forall>v. is_ok (of_text H (to_text H v))"
    and "scan H w = (Inr us, w0)" "\<forall>u\<in>set us. stuck_on P er u" "distinct (map un_experiment us)"
    and "\<forall>u\<in>set us. \<forall>reason. reads_back H (failure_payload reason (un_snapshot u)
           (show_provider_error (er (un_snapshot u))))"
  shows "\<exists>rs w1 rs2 w2. reclaim H P AllUnclosed w = (Inr rs, w1) \<and>
    reclaim H P AllUnclosed w1 = (Inr rs2, w2) \<and>
    (\<forall>e. leaked (w_provider_id w) (jrows (w_journal w1)) e \<longleftrightarrow>
      leaked (w_provider_id w) (jrows (w_journal w)) e) \<and>
    map rs_experiment rs = map un_experiment us \<and> map rs_experiment rs2 = map un_experiment us \<and>
    (\<forall>r\<in>set rs \<union> set rs2. \<not> rs_restored r) \<and>
    jrows (w_journal w2) = jrows (w_journal w1)"
proof -
  obtain rs w1 zs where e1: "reclaim_each H P AllUnclosed us w0 = (Inr rs, w1)" "wgrows w0 zs w1"
    "\<forall>x\<in>set zs. \<exists>v. payload x = to_text H v"
    using reclaim_each_readable [OF scan_readable [OF assms(1,3)] assms(2), of P AllUnclosed us] by blast
  have rd: "readable H (w_journal w1)"
    using readable_wgrows [OF e1(2) scan_readable [OF assms(1,3)] assms(2) e1(3)] .
  obtain xs where xs: "wgrows w0 xs w1" "\<forall>u\<in>set us. known_failure H er u (jrows (w_journal w1))"
    "\<forall>x\<in>set xs. stage x = ''watchdog-restore''" "map rs_experiment rs = map un_experiment us"
    "\<forall>r\<in>set rs. \<not> rs_restored r"
    using reclaim_each_stuck [OF e1(1) assms(4,5,6)] by auto
  obtain now where now: "map (unclosed_of H now) (unclosed_rows (w_provider_id w) (jrows (w_journal w))) = map Inr us"
    and w0: "jrows (w_journal w0) = jrows (w_journal w)" "w_provider_id w0 = w_provider_id w"
  proof (cases rule: scan_cases [OF assms(3)])
    case (3 now us')
    then show thesis using that [of now] by simp
  qed (use assms(1) in \<open>simp_all add: readable_def\<close>)
  have w1: "jrows (w_journal w1) = jrows (w_journal w) @ xs" "w_provider_id w1 = w_provider_id w"
    using xs(1) w0 by (simp_all add: wgrows_def)
  have rows: "unclosed_rows (w_provider_id w1) (jrows (w_journal w1)) =
      unclosed_rows (w_provider_id w) (jrows (w_journal w))"
    unfolding w1 by (rule unclosed_rows_restores [OF xs(3)])
  obtain us2 w1' now2 where s2: "scan H w1 = (Inr us2, w1')"
    and now2: "map (unclosed_of H now2) (unclosed_rows (w_provider_id w) (jrows (w_journal w))) = map Inr us2"
    using rescan [OF rd now [folded rows]] unfolding rows by blast
  have w1': "jrows (w_journal w1') = jrows (w_journal w1)" "w_provider_id w1' = w_provider_id w1"
    using s2(1) by (cases rule: scan_cases; simp)+
  obtain rs2 w2 where e2: "reclaim_each H P AllUnclosed us2 w1' = (Inr rs2, w2)"
    using reclaim_each_readable [OF scan_readable [OF rd s2] assms(2), of P AllUnclosed us2] by blast
  have same: "\<exists>u\<in>set us. un_snapshot v = un_snapshot u \<and> un_experiment v = un_experiment u"
    if v: "v \<in> set us2" for v
  proof -
    obtain p where p: "p \<in> set (unclosed_rows (w_provider_id w) (jrows (w_journal w)))"
      "unclosed_of H now2 p = Inr v"
      using in_unclosed [OF now2, THEN iffD1, OF v] by (elim bexE)
    then obtain u where u: "u \<in> set us" "unclosed_of H now p = Inr u"
      using decoded [OF now p(1)] by (elim bexE)
    show ?thesis using u(1) unclosed_of_same [OF u(2) p(2)] by blast
  qed
  have ids: "map un_experiment us2 = map un_experiment us"
    using unclosed_map_experiment [OF now] unclosed_map_experiment [OF now2] by simp
  have "\<forall>u\<in>set us2. stuck_on P er u"
    using same assms(4) by (fastforce simp: stuck_on_def)
  moreover have "\<forall>u\<in>set us2. known_failure H er u (jrows (w_journal w1'))"
    using same xs(2) w1' by (fastforce simp: known_failure_def)
  moreover have "\<forall>u\<in>set us2. \<forall>reason. reads_back H (failure_payload reason (un_snapshot u)
           (show_provider_error (er (un_snapshot u))))"
    using same assms(6) by fastforce
  ultimately have "wgrows w1' [] w2 \<and> map rs_experiment rs2 = map un_experiment us2 \<and>
      (\<forall>r\<in>set rs2. \<not> rs_restored r)"
    using reclaim_each_stuck [OF e2, of er] ids assms(5) by fastforce
  moreover have "leaked (w_provider_id w) (jrows (w_journal w1)) e \<longleftrightarrow>
      leaked (w_provider_id w) (jrows (w_journal w)) e" for e
    unfolding w1(1) using xs(3) by (subst leaked_append) auto
  ultimately show ?thesis
    using xs(4,5) ids w1' assms(3) s2 e1(1) e2
    by (intro exI [of _ rs] exI [of _ w1] exI [of _ rs2] exI [of _ w2])
      (auto simp: wgrows_def reclaim_def)
qed


subsection \<open>Concrete passes\<close>

text \<open>A crash after the apply: snapshot and intent journaled, value 7 applied, nothing closed.\<close>

definition demo_snapshot :: state_snapshot where
  "demo_snapshot = \<lparr>snap_provider = ''mock'', snap_state = obj [(''value'', num 0)]\<rparr>"

definition leak_journal :: "json journal" where
  "leak_journal = \<lparr>jtable = True, jrows =
     [\<lparr>row_experiment = 1, recorded_at = Some 0, stage = ''snapshot'', row_provider = ''mock'',
       payload = snapshot_json demo_snapshot\<rparr>,
      \<lparr>row_experiment = 1, recorded_at = Some 0, stage = ''apply-intent'', row_provider = ''mock'',
       payload = change_json demo_request\<rparr>], jtrials = [], jclock = 0\<rparr>"

definition leak_watchdog :: "(mock_provider, json) watchdog" where
  "leak_watchdog = \<lparr>w_provider = \<lparr>mock_value = 7\<rparr>, w_provider_id = ''mock'', w_journal = leak_journal\<rparr>"

lemma demo_request_ok: "change_ok demo_request"
  by (simp add: change_ok_def demo_request_def)

lemma leak_readable [simp]: "readable plain_host leak_journal" "jtable leak_journal"
  by (simp_all add: readable_def leak_journal_def)

lemma leak_sel [simp]:
  "w_journal leak_watchdog = leak_journal" "w_provider_id leak_watchdog = ''mock''"
  "w_provider leak_watchdog = \<lparr>mock_value = 7\<rparr>"
  by (simp_all add: leak_watchdog_def)

lemma leak_scan:
  "\<exists>w'. scan plain_host leak_watchdog = (Inr [\<lparr>un_experiment = 1, un_provider = ''mock'',
     un_snapshot = demo_snapshot, un_request = demo_request, un_expired = False\<rparr>], w')"
proof -
  have "lease_expired (Some 0) (lease_seconds demo_request) = False"
    by (simp add: lease_expired_iff demo_request_def)
  then show ?thesis
    by (simp add: scan_def unclosed_experiments_def journal_ready_def query_def statement_def
        unclosed_rows_def terminal_for_def leak_journal_def unclosed_of_def from_text_def
        snapshot_format.dec_enc change_format.dec_enc demo_request_ok age_seconds_def seconds_def
        plain_host_def)
      (simp add: demo_snapshot_def)
qed

lemma demo_restores: "fst (restore_state (mock_ops platform) demo_snapshot p) = Inr ()"
  by (simp add: restore_state_def mock_defs demo_snapshot_def)

theorem scan_reports_exactly_the_leaks_witness:
  "\<exists>us w'. scan plain_host leak_watchdog = (Inr us, w') \<and>
     un_experiment ` set us = {e. leaked ''mock'' (jrows leak_journal) e} \<and>
     count_list (map un_experiment us) 1 = 1"
proof -
  obtain us w' where run: "scan plain_host leak_watchdog = (Inr us, w')" using leak_scan by blast
  with scan_reports_exactly_the_leaks [OF run] show ?thesis
    by (auto simp: leak_journal_def terminal_for_def)
qed

theorem reclaim_writes_only_restores_witness:
  "\<exists>xs. jrows (w_journal (snd (reclaim plain_host (mock_ops ''linux'') AllUnclosed leak_watchdog))) =
     jrows leak_journal @ xs \<and> (\<forall>x\<in>set xs. row_provider x = ''mock'')"
proof -
  obtain r w' where run: "reclaim plain_host (mock_ops ''linux'') AllUnclosed leak_watchdog = (r, w')"
    by fastforce
  with reclaim_writes_only_restores [OF run] show ?thesis by auto
qed

theorem reclaim_outcome_witness:
  "\<exists>rs w'. reclaim plain_host (mock_ops ''linux'') AllUnclosed leak_watchdog = (Inr rs, w') \<and>
     map rs_experiment rs = [1]"
proof -
  obtain w1 where run: "scan plain_host leak_watchdog = (Inr [\<lparr>un_experiment = 1, un_provider = ''mock'',
     un_snapshot = demo_snapshot, un_request = demo_request, un_expired = False\<rparr>], w1)"
    using leak_scan by blast
  have "readable plain_host (w_journal leak_watchdog)" by simp
  from reclaim_outcome [OF this _ run, of "mock_ops ''linux''" AllUnclosed] show ?thesis by auto
qed

theorem recover_all_is_idempotent_witness:
  "\<exists>rs w' w''. reclaim plain_host (mock_ops ''linux'') AllUnclosed leak_watchdog = (Inr rs, w') \<and>
     map rs_experiment rs = [1] \<and> (\<forall>r\<in>set rs. rs_restored r) \<and>
     reclaim plain_host (mock_ops ''linux'') AllUnclosed w' = (Inr [], w'')"
proof -
  obtain w1 where run: "scan plain_host leak_watchdog = (Inr [\<lparr>un_experiment = 1, un_provider = ''mock'',
     un_snapshot = demo_snapshot, un_request = demo_request, un_expired = False\<rparr>], w1)"
    using leak_scan by blast
  have "readable plain_host (w_journal leak_watchdog)" by simp
  from recover_all_is_idempotent [OF this _ run, of "mock_ops ''linux''" AllUnclosed] demo_restores
  show ?thesis by auto
qed

theorem repeated_failures_do_not_grow_the_journal_witness:
  "\<exists>rs rs2 w1 w2. reclaim plain_host stuck_ops AllUnclosed leak_watchdog = (Inr rs, w1) \<and>
     reclaim plain_host stuck_ops AllUnclosed w1 = (Inr rs2, w2) \<and>
     map rs_experiment rs2 = [1] \<and> jrows (w_journal w2) = jrows (w_journal w1)"
proof -
  let ?u = "\<lparr>un_experiment = 1, un_provider = ''mock'', un_snapshot = demo_snapshot,
    un_request = demo_request, un_expired = False\<rparr>"
  obtain w0 where run: "scan plain_host leak_watchdog = (Inr [?u], w0)" using leak_scan by blast
  have reads: "\<forall>reason. reads_back plain_host (failure_payload reason (un_snapshot ?u)
      (show_provider_error (RollbackFailed ''stuck'')))"
    by (simp add: reads_back_def)
  have stuck: "stuck_on stuck_ops (\<lambda>_. RollbackFailed ''stuck'') ?u"
    by (simp add: stuck_on_def restore_state_def stuck_ops_def)
  have "readable plain_host (w_journal leak_watchdog)" by simp
  from repeated_failures_do_not_grow_the_journal
    [OF this _ run, of stuck_ops "\<lambda>_. RollbackFailed ''stuck''"] stuck reads
  show ?thesis by auto
qed

end
