(* ===== verification/Crash.thy ===== *)
theory Crash
  imports Recovery
begin

section \<open>A process that dies at any point, and its recovery\<close>

text \<open>
  \<open>run_lifecycle\<close> effect by effect: \<open>lifecycle_step\<close> makes one provider call or one journal
  statement and \<open>phase\<close> is what the code holds in its local variables between two of them.  At
  most fourteen steps are the whole lifecycle.  A crash is any number of steps (\<open>crashed\<close>); the
  invariant \<open>phase_ok\<close> says what the provider and the journal look like in each phase, and with it
  a watchdog pass over the crashed process's provider and journal restores the captured state.
\<close>

datatype phase =
    PStart
  | PSnapshot state_snapshot
  | POpen int state_snapshot
  | PPreviewed int state_snapshot string
  | PPreviewLogged int state_snapshot string
  | PIntent int state_snapshot string
  | PApplied int state_snapshot string
  | PApplyLogged int state_snapshot string
  | PVerified int state_snapshot string bool
  | PObserved int state_snapshot string "(stage_failure, bool) result"
  | PRolledBack int state_snapshot string "(stage_failure, bool) result"
  | PRollbackLogged int state_snapshot string "(stage_failure, bool) result"
  | PReread int state_snapshot string "(stage_failure, bool) result" bool
  | POutcome int state_snapshot "(stage_failure, lifecycle_result) result"
  | PDone "(cp_error, lifecycle_result) result"

definition restore_failed ::
  "(stage_failure, bool) result \<Rightarrow> string \<Rightarrow> cp_error \<Rightarrow> (stage_failure, lifecycle_result) result" where
  "restore_failed observed st er =
     Inl (case observed of Inl original \<Rightarrow> suppressing (new_failure st er) original
          | Inr _ \<Rightarrow> new_failure st er)"

fun lifecycle_step ::
  "'t host \<Rightarrow> 'p provider_ops \<Rightarrow> change_request \<Rightarrow> phase \<times> ('p, 't) plane \<Rightarrow>
     phase \<times> ('p, 't) plane" where
  "lifecycle_step H P c (PStart, pl) =
     (case validate (manifest pl) c of
        Inl er \<Rightarrow> (PDone (Inl er), pl)
      | Inr _ \<Rightarrow> (case op_snapshot P (provider pl) of
          Inl er \<Rightarrow> (PDone (Inl (ProviderFault er)), pl)
        | Inr s \<Rightarrow> (PSnapshot s, pl)))"
| "lifecycle_step H P c (PSnapshot s, pl) =
     (case begin_experiment H s pl of
        (Inl er, pl1) \<Rightarrow> (PDone (Inl er), pl1) | (Inr e, pl1) \<Rightarrow> (POpen e s, pl1))"
| "lifecycle_step H P c (POpen e s, pl) =
     (case op_preview P (provider pl) c of
        Inl er \<Rightarrow> (POutcome e s (Inl (new_failure ''preview'' (ProviderFault er))), pl)
      | Inr d \<Rightarrow> (PPreviewed e s d, pl))"
| "lifecycle_step H P c (PPreviewed e s d, pl) =
     (case record_stage H e ''preview'' (obj [(''description'', Str d)]) pl of
        (Inl er, pl1) \<Rightarrow> (POutcome e s (Inl (new_failure ''preview'' er)), pl1)
      | (Inr _, pl1) \<Rightarrow> (PPreviewLogged e s d, pl1))"
| "lifecycle_step H P c (PPreviewLogged e s d, pl) =
     (case record_stage H e ''apply-intent'' (change_json c) pl of
        (Inl er, pl1) \<Rightarrow> (POutcome e s (Inl (new_failure ''apply-intent'' er)), pl1)
      | (Inr _, pl1) \<Rightarrow> (PIntent e s d, pl1))"
| "lifecycle_step H P c (PIntent e s d, pl) =
     (case op_apply P (provider pl) c of
        (Inl er, p) \<Rightarrow> (PObserved e s d (Inl (new_failure ''apply'' (ProviderFault er))), pl\<lparr>provider := p\<rparr>)
      | (Inr _, p) \<Rightarrow> (PApplied e s d, pl\<lparr>provider := p\<rparr>))"
| "lifecycle_step H P c (PApplied e s d, pl) =
     (case record_stage H e ''apply'' (obj [(''applied'', Bool True)]) pl of
        (Inl er, pl1) \<Rightarrow> (PObserved e s d (Inl (new_failure ''apply'' er)), pl1)
      | (Inr _, pl1) \<Rightarrow> (PApplyLogged e s d, pl1))"
| "lifecycle_step H P c (PApplyLogged e s d, pl) =
     (case op_verify P (provider pl) c of
        Inl er \<Rightarrow> (PObserved e s d (Inl (new_failure ''verify'' (ProviderFault er))), pl)
      | Inr ok \<Rightarrow> (PVerified e s d ok, pl))"
| "lifecycle_step H P c (PVerified e s d ok, pl) =
     (case record_stage H e ''verify'' (obj [(''verified'', Bool ok)]) pl of
        (Inl er, pl1) \<Rightarrow> (PObserved e s d (Inl (new_failure ''verify'' er)), pl1)
      | (Inr _, pl1) \<Rightarrow>
          (PObserved e s d (if ok then Inr True else Inl (new_failure ''verify'' VerificationFailed)), pl1))"
| "lifecycle_step H P c (PObserved e s d observed, pl) =
     (case op_rollback P (provider pl) s of
        (Inl er, p) \<Rightarrow>
          (POutcome e s (restore_failed observed ''rollback'' (ProviderFault er)), pl\<lparr>provider := p\<rparr>)
      | (Inr _, p) \<Rightarrow> (PRolledBack e s d observed, pl\<lparr>provider := p\<rparr>))"
| "lifecycle_step H P c (PRolledBack e s d observed, pl) =
     (case record_stage H e ''rollback'' (snapshot_json s) pl of
        (Inl er, pl1) \<Rightarrow> (POutcome e s (restore_failed observed ''rollback'' er), pl1)
      | (Inr _, pl1) \<Rightarrow> (PRollbackLogged e s d observed, pl1))"
| "lifecycle_step H P c (PRollbackLogged e s d observed, pl) =
     (case op_snapshot P (provider pl) of
        Inl er \<Rightarrow> (POutcome e s (restore_failed observed ''rollback-verify'' (ProviderFault er)), pl)
      | Inr restored \<Rightarrow> (PReread e s d observed (restored = s), pl))"
| "lifecycle_step H P c (PReread e s d observed same, pl) =
     (case record_stage H e ''rollback-verify'' (obj [(''restored'', Bool same)]) pl of
        (Inl er, pl1) \<Rightarrow> (POutcome e s (restore_failed observed ''rollback-verify'' er), pl1)
      | (Inr _, pl1) \<Rightarrow>
          (POutcome e s
             (if \<not> same
              then restore_failed observed ''rollback-verify'' RollbackVerificationFailed
              else case observed of Inl original \<Rightarrow> Inl original
                | Inr ok \<Rightarrow> Inr \<lparr>res_provider = man_id (manifest pl1), res_preview = d,
                    verified = ok, rolled_back = True\<rparr>), pl1))"
| "lifecycle_step H P c (POutcome e s outcome, pl) =
     (case record_outcome H e outcome pl of (r, pl1) \<Rightarrow> (PDone r, pl1))"
| "lifecycle_step H P c (PDone r, pl) = (PDone r, pl)"

text \<open>The process after \<open>n\<close> effects, unless it is done before.\<close>

fun after_effects ::
  "nat \<Rightarrow> 't host \<Rightarrow> 'p provider_ops \<Rightarrow> change_request \<Rightarrow> phase \<times> ('p, 't) plane \<Rightarrow>
     phase \<times> ('p, 't) plane" where
  "after_effects 0 H P c st = st"
| "after_effects (Suc n) H P c st = after_effects n H P c (lifecycle_step H P c st)"

lemma after_done [simp]: "after_effects n H P c (PDone r, pl) = (PDone r, pl)"
  by (induction n) simp_all

definition finish ::
  "'t host \<Rightarrow> int \<Rightarrow> (stage_failure, lifecycle_result) result \<times> ('p, 't) plane \<Rightarrow> phase \<times> ('p, 't) plane" where
  "finish H e st = (case st of (out, pl) \<Rightarrow>
     (case record_outcome H e out pl of (r, pl1) \<Rightarrow> (PDone r, pl1)))"

lemma after_Suc: "0 < k \<Longrightarrow> after_effects k H P c st = after_effects (k - 1) H P c (lifecycle_step H P c st)"
  by (cases k) simp_all

lemma after_outcome:
  "0 < k \<Longrightarrow> after_effects k H P c (POutcome e s out, pl) = finish H e (out, pl)"
  by (simp add: after_Suc [of k] finish_def split: prod.split)

lemma after_observed:
  assumes "5 \<le> k"
  shows "after_effects k H P c (PObserved e s d ob, pl) = finish H e (restore_after H P e s d ob pl)"
proof -
  have "k = Suc (Suc (Suc (Suc (Suc (k - 5)))))"
    using assms by simp
  then obtain n where "k = Suc (Suc (Suc (Suc (Suc n))))" ..
  then show ?thesis
    by (auto simp: restore_after_def restore_def restore_failed_def finish_def
        split: prod.split sum.split)
qed

lemma after_verified:
  "6 \<le> k \<Longrightarrow> after_effects k H P c (PVerified e s d ok, pl) =
     (case record_stage H e ''verify'' (obj [(''verified'', Bool ok)]) pl of
        (Inl er, pl1) \<Rightarrow> finish H e (restore_after H P e s d (Inl (new_failure ''verify'' er)) pl1)
      | (Inr _, pl1) \<Rightarrow> finish H e (restore_after H P e s d
          (if ok then Inr True else Inl (new_failure ''verify'' VerificationFailed)) pl1))"
  by (simp add: after_Suc [of k] after_observed split: prod.split sum.split)

lemma after_apply_logged:
  "7 \<le> k \<Longrightarrow> after_effects k H P c (PApplyLogged e s d, pl) =
     (case op_verify P (provider pl) c of
        Inl er \<Rightarrow> finish H e (restore_after H P e s d (Inl (new_failure ''verify'' (ProviderFault er))) pl)
      | Inr ok \<Rightarrow> after_effects (k - 1) H P c (PVerified e s d ok, pl))"
  by (simp add: after_Suc [of k] after_observed split: sum.split)

lemma after_applied:
  "8 \<le> k \<Longrightarrow> after_effects k H P c (PApplied e s d, pl) =
     (case observe_applied H P e c pl of (ob, pl1) \<Rightarrow> finish H e (restore_after H P e s d ob pl1))"
  by (simp add: after_Suc [of k] after_apply_logged observe_applied_def after_observed
      after_verified split: prod.split sum.split)

lemma after_intent:
  "9 \<le> k \<Longrightarrow> after_effects k H P c (PIntent e s d, pl) =
     (case apply_and_observe H P e c pl of (ob, pl1) \<Rightarrow> finish H e (restore_after H P e s d ob pl1))"
  by (simp add: after_Suc [of k] apply_and_observe_def after_observed after_applied
      split: prod.split sum.split)

lemma after_preview_logged:
  "10 \<le> k \<Longrightarrow> after_effects k H P c (PPreviewLogged e s d, pl) =
     (case record_stage H e ''apply-intent'' (change_json c) pl of
        (Inl er, pl1) \<Rightarrow> finish H e (Inl (new_failure ''apply-intent'' er), pl1)
      | (Inr _, pl1) \<Rightarrow> (case apply_and_observe H P e c pl1 of
          (ob, pl2) \<Rightarrow> finish H e (restore_after H P e s d ob pl2)))"
  by (simp add: after_Suc [of k] after_outcome after_intent split: prod.split sum.split)

lemma after_previewed:
  "11 \<le> k \<Longrightarrow> after_effects k H P c (PPreviewed e s d, pl) =
     (case record_stage H e ''preview'' (obj [(''description'', Str d)]) pl of
        (Inl er, pl1) \<Rightarrow> finish H e (Inl (new_failure ''preview'' er), pl1)
      | (Inr _, pl1) \<Rightarrow> after_effects (k - 1) H P c (PPreviewLogged e s d, pl1))"
  by (simp add: after_Suc [of k] after_outcome split: prod.split sum.split)

lemma after_open:
  "12 \<le> k \<Longrightarrow> after_effects k H P c (POpen e s, pl) = finish H e (run_stages H P e c s pl)"
  by (simp add: after_Suc [of k] after_previewed after_preview_logged run_stages_def
      after_outcome split: prod.split sum.split)

lemma after_snapshot:
  "13 \<le> k \<Longrightarrow> after_effects k H P c (PSnapshot s, pl) =
     (case begin_experiment H s pl of
        (Inl er, pl1) \<Rightarrow> (PDone (Inl er), pl1)
      | (Inr e, pl1) \<Rightarrow> finish H e (run_stages H P e c s pl1))"
  by (simp add: after_Suc [of k] after_open split: prod.split sum.split)

text \<open>
  The effect-by-effect machine is the lifecycle: after at most fourteen effects it is done, with
  exactly the result, the provider state and the journal of \<open>run_lifecycle\<close>, and it stays there.
\<close>

lemma machine_runs:
  "after_effects (14 + n) H P c (PStart, pl) =
     (PDone (fst (run_lifecycle H P c pl)), snd (run_lifecycle H P c pl))"
  by (simp add: after_Suc [of "14 + n"] run_lifecycle_def after_snapshot finish_def
      split: prod.split sum.split)


subsection \<open>What a crash leaves behind\<close>

text \<open>The states a crash can leave: those after any number of effects.\<close>

inductive crashed ::
  "'t host \<Rightarrow> 'p provider_ops \<Rightarrow> change_request \<Rightarrow> ('p, 't) plane \<Rightarrow> phase \<times> ('p, 't) plane \<Rightarrow> bool"
  for H P c pl0 where
  crashed_start: "crashed H P c pl0 (PStart, pl0)"
| crashed_step: "crashed H P c pl0 st \<Longrightarrow> crashed H P c pl0 (lifecycle_step H P c st)"

lemma crashed_after: "crashed H P c pl0 st \<Longrightarrow> crashed H P c pl0 (after_effects n H P c st)"
  by (induction n arbitrary: st) (simp_all add: crashed_step)

definition experiment_rows ::
  "'t host \<Rightarrow> change_request \<Rightarrow> int \<Rightarrow> state_snapshot \<Rightarrow> string \<Rightarrow> 't jrow list \<Rightarrow> bool" where
  "experiment_rows H c e s pid xs \<longleftrightarrow> rows_of e pid xs \<and>
     (\<exists>x ys. xs = x # ys \<and> snapshot_row H s x \<and>
        (\<forall>y\<in>set ys. stage y \<noteq> ''snapshot'' \<and> (stage y = ''apply-intent'' \<longrightarrow> intent_row H c y) \<and>
           (\<exists>v. payload y = to_text H v)))"

definition started ::
  "'t host \<Rightarrow> 'p provider_ops \<Rightarrow> change_request \<Rightarrow> ('p, 't) plane \<Rightarrow> int \<Rightarrow> state_snapshot \<Rightarrow>
     't jrow list \<Rightarrow> bool" where
  "started H P c pl0 e s xs \<longleftrightarrow>
     op_snapshot P (provider pl0) = Inr s \<and> (\<forall>y\<in>set (jrows (journal pl0)). row_experiment y < e) \<and>
     jtable (journal pl0) \<and> experiment_rows H c e s (man_id (manifest pl0)) xs"

definition open_rows :: "'t jrow list \<Rightarrow> bool" where
  "open_rows xs \<longleftrightarrow> (\<forall>y\<in>set xs. \<not> is_terminal y)"

definition has_intent :: "'t jrow list \<Rightarrow> bool" where
  "has_intent xs \<longleftrightarrow> (\<exists>y\<in>set xs. stage y = ''apply-intent'')"

fun phase_ok ::
  "'t host \<Rightarrow> 'p provider_ops \<Rightarrow> change_request \<Rightarrow> ('p \<Rightarrow> bool) \<Rightarrow> ('p, 't) plane \<Rightarrow> 'p \<Rightarrow>
     't jrow list \<Rightarrow> phase \<Rightarrow> bool" where
  "phase_ok H P c sound pl0 p xs PStart = (p = provider pl0 \<and> xs = [])"
| "phase_ok H P c sound pl0 p xs (PSnapshot s) =
     (p = provider pl0 \<and> xs = [] \<and> op_snapshot P p = Inr s)"
| "phase_ok H P c sound pl0 p xs (POpen e s) =
     (p = provider pl0 \<and> started H P c pl0 e s xs \<and> open_rows xs)"
| "phase_ok H P c sound pl0 p xs (PPreviewed e s d) =
     (p = provider pl0 \<and> started H P c pl0 e s xs \<and> open_rows xs)"
| "phase_ok H P c sound pl0 p xs (PPreviewLogged e s d) =
     (p = provider pl0 \<and> started H P c pl0 e s xs \<and> open_rows xs)"
| "phase_ok H P c sound pl0 p xs (PIntent e s d) =
     (p = provider pl0 \<and> started H P c pl0 e s xs \<and> open_rows xs \<and> has_intent xs)"
| "phase_ok H P c sound pl0 p xs (PApplied e s d) =
     (sound p \<and> started H P c pl0 e s xs \<and> open_rows xs \<and> has_intent xs)"
| "phase_ok H P c sound pl0 p xs (PApplyLogged e s d) =
     (sound p \<and> started H P c pl0 e s xs \<and> open_rows xs \<and> has_intent xs)"
| "phase_ok H P c sound pl0 p xs (PVerified e s d ok) =
     (sound p \<and> started H P c pl0 e s xs \<and> open_rows xs \<and> has_intent xs)"
| "phase_ok H P c sound pl0 p xs (PObserved e s d ob) =
     (sound p \<and> started H P c pl0 e s xs \<and> open_rows xs \<and> has_intent xs)"
| "phase_ok H P c sound pl0 p xs (PRolledBack e s d ob) =
     (sound p \<and> op_snapshot P p = Inr s \<and> started H P c pl0 e s xs \<and> open_rows xs)"
| "phase_ok H P c sound pl0 p xs (PRollbackLogged e s d ob) =
     (sound p \<and> op_snapshot P p = Inr s \<and> started H P c pl0 e s xs \<and> open_rows xs)"
| "phase_ok H P c sound pl0 p xs (PReread e s d ob same) =
     (sound p \<and> op_snapshot P p = Inr s \<and> started H P c pl0 e s xs \<and> open_rows xs)"
| "phase_ok H P c sound pl0 p xs (POutcome e s out) =
     (sound p \<and> op_snapshot P p = Inr s \<and> started H P c pl0 e s xs \<and> open_rows xs)"
| "phase_ok H P c sound pl0 p xs (PDone r) =
     (sound p \<and> op_snapshot P p = op_snapshot P (provider pl0) \<and>
        (xs = [] \<or> (\<exists>e s. started H P c pl0 e s xs)))"

lemma started_snoc:
  "started H P c pl0 e s xs \<Longrightarrow> row_experiment y = e \<Longrightarrow> row_provider y = man_id (manifest pl0) \<Longrightarrow>
   stage y \<noteq> ''snapshot'' \<Longrightarrow> (stage y = ''apply-intent'' \<longrightarrow> intent_row H c y) \<Longrightarrow>
   payload y = to_text H v \<Longrightarrow> started H P c pl0 e s (xs @ [y])"
  by (auto simp: started_def experiment_rows_def)

lemma open_rows_simps [simp]: "open_rows []" "open_rows (xs @ [y]) \<longleftrightarrow> open_rows xs \<and> \<not> is_terminal y"
  by (auto simp: open_rows_def)

lemma has_intent_snoc [simp]: "has_intent (xs @ [y]) \<longleftrightarrow> has_intent xs \<or> stage y = ''apply-intent''"
  by (auto simp: has_intent_def)

text \<open>One record of the running experiment, written or not.\<close>

lemma record_stage_started:
  assumes "record_stage H e st v pl = (r, pl')" "grows pl0 xs pl" "started H P c pl0 e s xs"
    "st \<noteq> ''snapshot''" "st = ''apply-intent'' \<longrightarrow> v = change_json c"
  shows "provider pl' = provider pl \<and> (\<exists>ys. grows pl0 ys pl' \<and> started H P c pl0 e s ys \<and>
    (open_rows xs \<and> st \<notin> set terminal_stages \<longrightarrow> open_rows ys) \<and> (has_intent xs \<longrightarrow> has_intent ys) \<and>
    (is_ok r \<longrightarrow> st = ''apply-intent'' \<longrightarrow> has_intent ys))"
  using assms(1)
proof (cases rule: record_stage_cases)
  case (fault er)
  with assms grows_trans [OF assms(2) fault(2)] show ?thesis by (intro conjI exI [of _ xs]) auto
next
  case (stored x)
  have "started H P c pl0 e s (xs @ [x])"
    using stored assms grows_manifest [OF assms(2)]
    by (intro started_snoc [of _ _ _ _ _ _ _ _ v]) (auto simp: intent_row_def)
  with stored assms grows_trans [OF assms(2) stored(2)] show ?thesis
    by (intro conjI exI [of _ "xs @ [x]"]) (auto simp: is_terminal_def)
qed

context restoring_provider
begin

lemma phase_ok_step:
  assumes good: "inv (provider pl0)" and g: "grows pl0 xs pl"
    and ok: "phase_ok H P c inv pl0 (provider pl) xs ph"
    and step: "lifecycle_step H P c (ph, pl) = (ph', pl')"
  shows "\<exists>ys. grows pl0 ys pl' \<and> phase_ok H P c inv pl0 (provider pl') ys ph'"
proof (cases ph)
  case PStart
  with assms show ?thesis by (fastforce split: sum.splits)
next
  case (PSnapshot s)
  obtain r pl1 where 1: "begin_experiment H s pl = (r, pl1)" by fastforce
  then show ?thesis
  proof (cases rule: begin_experiment_cases)
    case (fault er)
    with 1 PSnapshot assms grows_trans [OF g fault(2)] show ?thesis
      by (intro exI [of _ "[]"]) auto
  next
    case (stored e x)
    have "started H P c pl0 e s [x]"
      using stored ok g PSnapshot
      by (auto simp: started_def experiment_rows_def snapshot_row_def grows_def)
    moreover have "\<not> is_terminal x" using stored by (simp add: is_terminal_def terminal_stages_def)
    ultimately show ?thesis
      using 1 PSnapshot assms stored grows_trans [OF g stored(2)]
      by (intro exI [of _ "[x]"]) (auto simp: open_rows_def)
  qed
next
  case (POpen e s)
  with assms show ?thesis
    by (auto simp: started_def split: sum.splits intro!: exI [of _ xs])
next
  case (PPreviewed e s d)
  obtain r pl1 where 1: "record_stage H e ''preview'' (obj [(''description'', Str d)]) pl = (r, pl1)"
    by fastforce
  have "started H P c pl0 e s xs" using ok PPreviewed by simp
  from record_stage_started [OF 1 g this] 1 PPreviewed assms show ?thesis
    by (auto simp: terminal_stages_def started_def split: sum.splits)
next
  case (PPreviewLogged e s d)
  obtain r pl1 where 1: "record_stage H e ''apply-intent'' (change_json c) pl = (r, pl1)" by fastforce
  have "started H P c pl0 e s xs" using ok PPreviewLogged by simp
  from record_stage_started [OF 1 g this] 1 PPreviewLogged assms show ?thesis
    by (auto simp: terminal_stages_def started_def split: sum.splits)
next
  case (PIntent e s d)
  have "inv (snd (op_apply P (provider pl) c))" using PIntent ok good apply_inv by simp
  with PIntent assms show ?thesis
    by (cases "op_apply P (provider pl) c") (auto split: sum.splits intro!: exI [of _ xs])
next
  case (PApplied e s d)
  obtain r pl1 where 1: "record_stage H e ''apply'' (obj [(''applied'', Bool True)]) pl = (r, pl1)"
    by fastforce
  have "started H P c pl0 e s xs" using ok PApplied by simp
  from record_stage_started [OF 1 g this] 1 PApplied assms show ?thesis
    by (auto simp: terminal_stages_def split: sum.splits)
next
  case (PApplyLogged e s d)
  with assms show ?thesis by (auto split: sum.splits intro!: exI [of _ xs])
next
  case (PVerified e s d v)
  obtain r pl1 where 1: "record_stage H e ''verify'' (obj [(''verified'', Bool v)]) pl = (r, pl1)"
    by fastforce
  have "started H P c pl0 e s xs" using ok PVerified by simp
  from record_stage_started [OF 1 g this] 1 PVerified assms show ?thesis
    by (auto simp: terminal_stages_def split: sum.splits)
next
  case (PObserved e s d ob)
  have st: "op_snapshot P (provider pl0) = Inr s" "inv (provider pl)"
    using PObserved ok by (auto simp: started_def)
  obtain p where "op_rollback P (provider pl) s = (Inr (), p)" "op_snapshot P p = Inr s" "inv p"
    using rollback_restores [OF good st(2) st(1)] by blast
  with PObserved assms show ?thesis by (auto intro!: exI [of _ xs])
next
  case (PRolledBack e s d ob)
  obtain r pl1 where 1: "record_stage H e ''rollback'' (snapshot_json s) pl = (r, pl1)" by fastforce
  have "started H P c pl0 e s xs" using ok PRolledBack by simp
  from record_stage_started [OF 1 g this] 1 PRolledBack assms show ?thesis
    by (auto simp: terminal_stages_def split: sum.splits)
next
  case (PRollbackLogged e s d ob)
  with assms show ?thesis by (auto split: sum.splits intro!: exI [of _ xs])
next
  case (PReread e s d ob same)
  obtain r pl1 where 1: "record_stage H e ''rollback-verify'' (obj [(''restored'', Bool same)]) pl = (r, pl1)"
    by fastforce
  have "started H P c pl0 e s xs" using ok PReread by simp
  from record_stage_started [OF 1 g this] 1 PReread assms show ?thesis
    by (auto simp: terminal_stages_def split: sum.splits)
next
  case (POutcome e s out)
  obtain r pl1 where 1: "record_outcome H e out pl = (r, pl1)" by fastforce
  have st: "started H P c pl0 e s xs" using ok POutcome by simp
  have "provider pl1 = provider pl \<and> (\<exists>ys. grows pl0 ys pl1 \<and> started H P c pl0 e s ys)"
  proof (cases out)
    case (Inl f)
    obtain r1 pl2 where 2: "record_stage H e ''failed'' (failed_payload f) pl = (r1, pl2)" by fastforce
    with 1 Inl have "pl1 = pl2" by (simp add: record_outcome_def)
    with record_stage_started [OF 2 g st] show ?thesis by auto
  next
    case (Inr res)
    obtain r1 pl2 where 2: "record_stage H e ''completed'' (obj [(''verified'', Bool (verified res)),
        (''rolled_back'', Bool (rolled_back res))]) pl = (r1, pl2)" by fastforce
    with 1 Inr have "pl1 = pl2" by (cases r1) (simp_all add: record_outcome_def)
    with record_stage_started [OF 2 g st] show ?thesis by auto
  qed
  then obtain ys where "provider pl1 = provider pl" "grows pl0 ys pl1" "started H P c pl0 e s ys" by blast
  moreover have "op_snapshot P (provider pl0) = Inr s" using st by (simp add: started_def)
  ultimately show ?thesis using 1 POutcome assms by (intro exI [of _ ys]) auto
next
  case (PDone r)
  with assms show ?thesis by (intro exI [of _ xs]) auto
qed

lemma crashed_ok:
  assumes "inv (provider pl0)" "crashed H P c pl0 st"
  shows "\<exists>xs. grows pl0 xs (snd st) \<and> phase_ok H P c inv pl0 (provider (snd st)) xs (fst st)"
  using assms(2)
proof induction
  case crashed_start
  then show ?case by (intro exI [of _ "[]"]) simp
next
  case (crashed_step st)
  then obtain xs where "grows pl0 xs (snd st)" "phase_ok H P c inv pl0 (provider (snd st)) xs (fst st)"
    by blast
  from phase_ok_step [OF assms(1) this, of "fst (lifecycle_step H P c st)" "snd (lifecycle_step H P c st)"]
  show ?case by simp
qed

end


subsection \<open>Crash, then recovery\<close>

text \<open>The same host with its faults over.\<close>

definition calm :: "'t host \<Rightarrow> 't host" where
  "calm H = H\<lparr>stmt_fault := \<lambda>_. None\<rparr>"

lemma calm_simps [simp]:
  "no_faults (calm H)" "to_text (calm H) = to_text H" "of_text (calm H) = of_text H"
  "shape_text (calm H) = shape_text H" "reads_back (calm H) v = reads_back H v"
  by (simp_all add: calm_def no_faults_def reads_back_def)

text \<open>Every record a lifecycle writes is one the library printed, so a journal stays readable.\<close>

definition all_readable :: "'t host \<Rightarrow> 't journal \<Rightarrow> bool" where
  "all_readable H j \<longleftrightarrow> jtable j \<and> (\<forall>x\<in>set (jrows j). is_ok (of_text H (payload x)))"

lemma record_stage_printed:
  "record_stage H e st v pl = (r, pl') \<Longrightarrow> is_ok (of_text H (to_text H v)) \<Longrightarrow>
   all_readable H (journal pl) \<Longrightarrow> all_readable H (journal pl')"
  by (auto simp: record_stage_def all_readable_def split: prod.splits elim!: insert_record_cases)

lemma begin_experiment_printed:
  "begin_experiment H s pl = (r, pl') \<Longrightarrow> is_ok (of_text H (to_text H (snapshot_json s))) \<Longrightarrow>
   all_readable H (journal pl) \<Longrightarrow> all_readable H (journal pl')"
  by (auto simp: begin_experiment_def all_readable_def split: prod.splits elim!: allocate_experiment_cases)

lemma record_outcome_printed:
  "record_outcome H e out pl = (r, pl') \<Longrightarrow> \<forall>v. is_ok (of_text H (to_text H v)) \<Longrightarrow>
   all_readable H (journal pl) \<Longrightarrow> all_readable H (journal pl')"
  by (auto simp: record_outcome_def split: prod.splits sum.splits dest: record_stage_printed)

lemma step_printed:
  assumes "\<forall>v. is_ok (of_text H (to_text H v))" "all_readable H (journal (snd st))"
  shows "all_readable H (journal (snd (lifecycle_step H P c st)))"
  using assms
  by (cases "(H, P, c, st)" rule: lifecycle_step.cases)
    (auto split: sum.split prod.split dest: record_stage_printed begin_experiment_printed record_outcome_printed)

lemma crashed_printed:
  assumes "crashed H P c pl0 st" "\<forall>v. is_ok (of_text H (to_text H v))" "all_readable H (journal pl0)"
  shows "all_readable H (journal (snd st))"
  using assms by induction (simp_all add: step_printed)

lemma lifecycle_printed:
  assumes "\<forall>v. is_ok (of_text H (to_text H v))" "all_readable H (journal pl)"
  shows "all_readable H (journal (snd (run_lifecycle H P c pl)))"
proof -
  have "crashed H P c pl (after_effects (14 + 0) H P c (PStart, pl))"
    by (rule crashed_after [OF crashed_start])
  from crashed_printed [OF this assms] show ?thesis unfolding machine_runs by simp
qed

lemma readable_calm: "readable (calm H) j \<longleftrightarrow> all_readable H j"
  by (simp add: readable_def all_readable_def)

text \<open>The watchdog that takes over the crashed process's provider and journal.\<close>

definition takes_over :: "('p, 't) plane \<Rightarrow> ('p, 't) watchdog" where
  "takes_over pl = \<lparr>w_provider = provider pl, w_provider_id = man_id (manifest pl), w_journal = journal pl\<rparr>"

lemma takes_over_sel [simp]:
  "w_provider (takes_over pl) = provider pl" "w_provider_id (takes_over pl) = man_id (manifest pl)"
  "w_journal (takes_over pl) = journal pl"
  by (simp_all add: takes_over_def)

lemma started_leaked:
  assumes "started H P c pl0 e s xs" "\<forall>d. \<not> leaked pid (jrows (journal pl0)) d"
    and "leaked pid (jrows (journal pl0) @ xs) d"
  shows "d = e \<and> open_rows xs"
proof -
  have old: "y \<in> set (jrows (journal pl0)) \<Longrightarrow> row_experiment y \<noteq> e"
    and new: "y \<in> set xs \<Longrightarrow> row_experiment y = e" for y
    using assms(1) by (auto simp: started_def experiment_rows_def rows_of_def)
  have "d = e"
  proof (rule ccontr)
    assume "d \<noteq> e"
    with new assms(3) have "leaked pid (jrows (journal pl0)) d"
      by (auto simp: leaked_def terminal_for_iff)
    with assms(2) show False by blast
  qed
  with assms(3) new show ?thesis
    by (auto simp: leaked_def terminal_for_iff open_rows_def is_terminal_def terminal_stages_def)
qed

lemma intent_leaks:
  assumes "started H P c pl0 e s xs" "open_rows xs" "has_intent xs"
  shows "leaked (man_id (manifest pl0)) (jrows (journal pl0) @ xs) e"
proof -
  have old: "y \<in> set (jrows (journal pl0)) \<Longrightarrow> row_experiment y \<noteq> e" for y
    using assms(1) by (auto simp: started_def)
  have new: "y \<in> set xs \<Longrightarrow> row_experiment y = e \<and> row_provider y = man_id (manifest pl0)" for y
    using assms(1) by (auto simp: started_def experiment_rows_def rows_of_def)
  have "\<exists>x\<in>set xs. stage x = ''snapshot''"
    using assms(1) by (auto simp: started_def experiment_rows_def snapshot_row_def)
  then obtain x where x: "x \<in> set xs" "stage x = ''snapshot''" by (elim bexE)
  obtain y where y: "y \<in> set xs" "stage y = ''apply-intent''"
    using assms(3) by (auto simp: has_intent_def)
  have "\<not> terminal_for (jrows (journal pl0) @ xs) e"
    using old assms(2) by (auto simp: terminal_for_iff open_rows_def is_terminal_def terminal_stages_def)
  moreover have "\<exists>s\<in>set (jrows (journal pl0) @ xs). row_experiment s = e \<and> stage s = ''snapshot''"
    using x new by (intro bexI [of _ x]) auto
  moreover have "\<exists>i\<in>set (jrows (journal pl0) @ xs). row_experiment i = e \<and>
      stage i = ''apply-intent'' \<and> row_provider i = man_id (manifest pl0)"
    using y new by (intro bexI [of _ y]) auto
  ultimately show ?thesis unfolding leaked_def by blast
qed

lemma started_decodes:
  assumes "started H P c pl0 e s xs" "\<forall>d. \<not> leaked pid (jrows (journal pl0)) d" "change_ok c"
    and "reads_back H (snapshot_json s)" "reads_back H (change_json c)"
    and "p \<in> set (unclosed_rows pid (jrows (journal pl0) @ xs))"
  shows "\<exists>u. unclosed_of (calm H) now p = Inr u \<and> un_snapshot u = s"
proof -
  obtain i x where p: "p = (i, x)" by fastforce
  have m: "i \<in> set (jrows (journal pl0) @ xs)" "x \<in> set (jrows (journal pl0) @ xs)"
    "stage i = ''apply-intent''" "stage x = ''snapshot''" "row_experiment x = row_experiment i"
    "leaked pid (jrows (journal pl0) @ xs) (row_experiment i)"
    using assms(6) unfolding p in_unclosed_rows by (auto simp: leaked_def)
  have "row_experiment i = e" using started_leaked [OF assms(1,2) m(6)] ..
  then have "i \<in> set xs" "x \<in> set xs"
    using m assms(1) by (auto simp: started_def)
  then have "snapshot_row H s x" "intent_row H c i"
    using assms(1) m by (auto simp: started_def experiment_rows_def snapshot_row_def)
  then show ?thesis
    using assms(3-5) unfolding p unclosed_of_Inr
    by (simp add: snapshot_row_def intent_row_def from_text_def reads_back_def
        snapshot_format.dec_enc change_format.dec_enc)
qed

lemma decode_rows_all:
  "\<forall>p\<in>set ps. \<exists>u. f p = Inr u \<and> Q u \<Longrightarrow> \<exists>us. decode_rows f ps = Inr us \<and> (\<forall>u\<in>set us. Q u)"
  by (induction ps) auto

lemma started_scan:
  assumes "grows pl0 xs pl" "started H P c pl0 e s xs"
    and "\<forall>d. \<not> leaked (man_id (manifest pl0)) (jrows (journal pl0)) d" "change_ok c"
    and "reads_back H (snapshot_json s)" "reads_back H (change_json c)"
  shows "\<exists>us w1. scan (calm H) (takes_over pl) = (Inr us, w1) \<and> (\<forall>u\<in>set us. un_snapshot u = s)"
proof -
  let ?ps = "unclosed_rows (man_id (manifest pl0)) (jrows (journal pl0) @ xs)"
  have "\<exists>us. decode_rows (unclosed_of (calm H) now) ?ps = Inr us \<and> (\<forall>u\<in>set us. un_snapshot u = s)" for now
    using started_decodes [OF assms(2-6)] by (intro decode_rows_all) blast
  moreover have "jtable (journal pl)" using assms(1,2) by (simp add: grows_def started_def)
  ultimately show ?thesis
    using assms(1)
    by (simp add: scan_def unclosed_experiments_def journal_ready_def query_def statement_def
        no_faults_tick grows_def)
qed


context restoring_provider
begin

lemma restore_state_back:
  assumes "inv p0" "inv p" "op_snapshot P p0 = Inr s"
  shows "\<exists>q. restore_state P s p = (Inr (), q) \<and> op_snapshot P q = Inr s \<and> inv q"
  using rollback_restores [OF assms] by (auto simp: restore_state_def)

lemma reclaim_each_back:
  assumes "inv p0" "op_snapshot P p0 = Inr s" "inv (w_provider w)" "\<forall>u\<in>set us. un_snapshot u = s"
    and "reclaim_each H P pol us w = (Inr rs, w')"
  shows "(\<forall>r\<in>set rs. rs_restored r) \<and> inv (w_provider w') \<and>
    (op_snapshot P (w_provider w) = Inr s \<or> rs \<noteq> [] \<longrightarrow> op_snapshot P (w_provider w') = Inr s)"
  using assms(3-5)
proof (induction us arbitrary: w rs)
  case (Cons u us)
  show ?case
  proof (cases "selected_by u pol")
    case True
    obtain r w1 where 1: "reclaim_one H P u w = (r, w1)" by fastforce
    with True Cons.prems obtain a rs' where a: "r = Inr a" "rs = a # rs'"
      "reclaim_each H P pol us w1 = (Inr rs', w')"
      by (auto split: sum.splits prod.splits)
    have s: "un_snapshot u = s" using Cons.prems by simp
    from 1 have w1: "rs_restored a \<and> op_snapshot P (w_provider w1) = Inr s \<and> inv (w_provider w1)"
    proof (cases rule: reclaim_one_cases)
      case (restored p xs)
      then show ?thesis using restore_state_back [OF assms(1) Cons.prems(1) assms(2)] s a by auto
    next
      case (failed er p xs)
      then show ?thesis using restore_state_back [OF assms(1) Cons.prems(1) assms(2)] s by auto
    qed
    with Cons.IH [of w1 rs'] Cons.prems(2) a show ?thesis by auto
  qed (use Cons in auto)
qed simp

lemma crash_then_recovery:
  assumes "inv (provider pl0)" "op_snapshot P (provider pl0) = Inr s" "crashed H P c pl0 (ph, pl)"
    and "\<forall>d. \<not> leaked (man_id (manifest pl0)) (jrows (journal pl0)) d"
    and "readable (calm H) (journal pl)" "\<forall>v. is_ok (of_text H (to_text H v))" "change_ok c"
    and "reads_back H (snapshot_json s)" "reads_back H (change_json c)"
  shows "\<exists>rs w'. reclaim (calm H) P AllUnclosed (takes_over pl) = (Inr rs, w') \<and>
    op_snapshot P (w_provider w') = Inr s \<and>
    (\<forall>e. \<not> leaked (man_id (manifest pl0)) (jrows (w_journal w')) e)"
proof -
  obtain xs where xs: "grows pl0 xs pl" "phase_ok H P c inv pl0 (provider pl) xs ph"
    using crashed_ok [OF assms(1,3)] by auto
  have m: "man_id (manifest pl) = man_id (manifest pl0)" "jtable (journal pl)"
    "jrows (journal pl) = jrows (journal pl0) @ xs"
    using xs(1) assms(5) by (simp_all add: grows_def readable_def)
  have ok: "inv (provider pl)" "xs = [] \<or> (\<exists>e. started H P c pl0 e s xs)"
    "op_snapshot P (provider pl) = Inr s \<or> (\<exists>e. started H P c pl0 e s xs \<and> open_rows xs \<and> has_intent xs)"
    using xs(2) assms(1,2) by (cases ph; auto simp: started_def)+
  obtain us w1 where sc: "scan (calm H) (takes_over pl) = (Inr us, w1)" "\<forall>u\<in>set us. un_snapshot u = s"
  proof (cases "xs = []")
    case True
    then show thesis
      using that [of "[]"] scan_no_leaks [of "calm H" "takes_over pl"] m assms(4) by auto
  next
    case False
    with ok(2) obtain e where "started H P c pl0 e s xs" by blast
    from started_scan [OF xs(1) this assms(4,7-9)] that show thesis by blast
  qed
  have w1: "w_provider w1 = provider pl" using sc(1) by (cases rule: scan_cases) auto
  have rd: "readable (calm H) (w_journal (takes_over pl))" "\<forall>v. is_ok (of_text (calm H) (to_text (calm H) v))"
    using assms(5,6) by simp_all
  obtain rs w' where e: "reclaim_each (calm H) P AllUnclosed us w1 = (Inr rs, w')"
    using reclaim_each_readable [OF scan_readable [OF rd(1) sc(1)] rd(2), of P AllUnclosed us] by blast
  note bk = reclaim_each_back [OF assms(1,2) ok(1) [folded w1] sc(2) e, unfolded w1]
  then have "\<forall>r\<in>set rs. rs_restored r" by blast
  note closed = closes_all [OF rd sc(1) e this]
  have "op_snapshot P (w_provider w') = Inr s"
  proof (cases "op_snapshot P (provider pl) = Inr s")
    case True
    then show ?thesis using bk by blast
  next
    case False
    then obtain e where "started H P c pl0 e s xs" "open_rows xs" "has_intent xs" using ok(3) by blast
    from intent_leaks [OF this] have "us \<noteq> []"
      using scan_experiments_readable [OF rd(1) sc(1)] m by auto
    then have "rs \<noteq> []" using closed by auto
    then show ?thesis using bk by blast
  qed
  with sc(1) e closed m show ?thesis
    by (intro exI [of _ rs] exI [of _ w']) (simp add: reclaim_def)
qed

end

text \<open>
  C1: A crash cannot lose the user's state.  Let the process die after any number of effects of a
  lifecycle on the mock provider, with any statement faults before; when the watchdog then takes over
  that provider and that journal and recovers all unclosed experiments with its statements working,
  the provider is back in the state it had before the lifecycle began and no experiment is leaked.
\<close>

theorem crash_then_recovery_restores:
  assumes "crashed H (mock_ops platform) c pl0 (ph, pl)"
    and "\<forall>d. \<not> leaked (man_id (manifest pl0)) (jrows (journal pl0)) d"
    and "readable (calm H) (journal pl0)" "\<forall>v. is_ok (of_text H (to_text H v))" "change_ok c"
    and "\<forall>s. mock_snapshot (provider pl0) = Inr s \<longrightarrow> reads_back H (snapshot_json s)"
    and "reads_back H (change_json c)"
  shows "\<exists>rs w'. reclaim (calm H) (mock_ops platform) AllUnclosed (takes_over pl) = (Inr rs, w') \<and>
    w_provider w' = provider pl0 \<and>
    (\<forall>e. \<not> leaked (man_id (manifest pl0)) (jrows (w_journal w')) e)"
proof -
  obtain s where s: "op_snapshot (mock_ops platform) (provider pl0) = Inr s"
    using mock.snapshot_ok by blast
  then have "mock_snapshot (provider pl0) = Inr s" by (simp add: mock_ops_def)
  with assms(6) have "reads_back H (snapshot_json s)" by blast
  moreover have "readable (calm H) (journal pl)"
    using crashed_printed [OF assms(1,4)] assms(3) by (simp add: readable_calm)
  ultimately obtain rs w' where
    r: "reclaim (calm H) (mock_ops platform) AllUnclosed (takes_over pl) = (Inr rs, w')"
      "op_snapshot (mock_ops platform) (w_provider w') = Inr s"
      "\<forall>e. \<not> leaked (man_id (manifest pl0)) (jrows (w_journal w')) e"
    using mock.crash_then_recovery [OF TrueI s assms(1,2) _ assms(4,5) _ assms(7)] by blast
  have "w_provider w' = provider pl0"
    using r(2) s by (cases "w_provider w'"; cases "provider pl0") (auto simp: mock_defs obj_single_eq)
  with r show ?thesis by blast
qed

text \<open>The process that dies right after its apply.\<close>

theorem crash_then_recovery_restores_witness:
  "\<exists>pl rs w'. snd (after_effects 6 plain_host (mock_ops ''linux'') demo_request (PStart, demo_plane)) = pl \<and>
     provider pl = \<lparr>mock_value = 7\<rparr> \<and>
     reclaim (calm plain_host) (mock_ops ''linux'') AllUnclosed (takes_over pl) = (Inr rs, w') \<and>
     w_provider w' = \<lparr>mock_value = 0\<rparr>"
proof -
  let ?st = "after_effects 6 plain_host (mock_ops ''linux'') demo_request (PStart, demo_plane)"
  have c: "crashed plain_host (mock_ops ''linux'') demo_request demo_plane (fst ?st, snd ?st)"
    using crashed_after [OF crashed_start, of plain_host "mock_ops ''linux''" demo_request demo_plane 6]
    by simp
  have p: "mock_value (provider (snd ?st)) = 7"
    by code_simp
  have "readable (calm plain_host) (journal demo_plane)"
    by (simp add: readable_def)
  moreover have "\<forall>d. \<not> leaked (man_id (manifest demo_plane)) (jrows (journal demo_plane)) d"
    by (simp add: leaked_def)
  ultimately obtain rs w' where
    "reclaim (calm plain_host) (mock_ops ''linux'') AllUnclosed (takes_over (snd ?st)) = (Inr rs, w')"
    "w_provider w' = provider demo_plane"
    using crash_then_recovery_restores [OF c] demo_request_ok by (auto simp: reads_back_def)
  with p(1) show ?thesis by (intro exI [of _ "snd ?st"] exI [of _ rs] exI [of _ w']) auto
qed

subsection \<open>A lifecycle that returns\<close>

lemma lifecycle_same_leaks:
  assumes "no_faults H" "run_lifecycle H P c pl = (r, pl')"
  shows "leaked pid (jrows (journal pl')) d \<longleftrightarrow> leaked pid (jrows (journal pl)) d"
proof -
  have closed: "leaked pid (rs @ xs) d \<longleftrightarrow> leaked pid rs d"
    if "\<forall>x\<in>set xs. row_experiment x = e" "\<forall>y\<in>set rs. row_experiment y < e"
      "\<exists>t\<in>set xs. stage t = ''completed'' \<or> stage t = ''failed''" for xs rs :: "'a jrow list" and e
  proof (cases "d = e")
    case True
    with that show ?thesis by (fastforce simp: leaked_def terminal_for_iff)
  next
    case False
    with that(1) show ?thesis by (auto simp: leaked_def terminal_for_iff)
  qed
  show ?thesis
    using assms(2)
  proof (cases rule: run_lifecycle_shape)
    case (refused er)
    then show ?thesis by (simp add: grows_def)
  next
    case (stopped s e x xs ts)
    have "ts \<noteq> []" using stopped(11) assms(1) by blast
    then have "\<exists>t\<in>set (x # xs @ ts). stage t = ''completed'' \<or> stage t = ''failed''"
      using stopped(10) by (cases ts) auto
    with stopped(5,7,8) show ?thesis
      by (simp only: grows_def) (rule closed [of _ e], auto simp: rows_of_def)
  next
    case (applied s e x y z as bs ts)
    have "ts \<noteq> []" using applied(13) assms(1) by blast
    then have "\<exists>t\<in>set ([x, y, z] @ as @ bs @ ts). stage t = ''completed'' \<or> stage t = ''failed''"
      using applied(12) by (cases ts) auto
    with applied(4,8,9) show ?thesis
      by (simp only: grows_def) (rule closed [of _ e], auto simp: rows_of_def)
  qed
qed

lemma closed_lifecycle_same_leaks:
  assumes run: "run_lifecycle H P c pl = (r, pl')"
    and last: "stmt_fault H (jclock (journal pl') - 1) = None"
  shows "leaked pid (jrows (journal pl')) d \<longleftrightarrow> leaked pid (jrows (journal pl)) d"
proof -
  from lifecycle_records [OF run] obtain e xs ts where *:
    "jrows (journal pl') = jrows (journal pl) @ xs @ ts"
    "\<forall>x\<in>set (xs @ ts). row_experiment x = e" "\<forall>y\<in>set (jrows (journal pl)). row_experiment y < e"
    "\<forall>x\<in>set xs. stage x \<noteq> ''completed'' \<and> stage x \<noteq> ''failed''"
    "map stage ts = [] \<or> map stage ts = [''completed''] \<or> map stage ts = [''failed''] \<and> is_err r"
    by (elim exE conjE) (rule that; assumption)
  have "ts = [] \<longrightarrow> xs = []"
    using unclosed_lifecycle [OF run, of xs] *(1,4) last by fastforce
  moreover have "ts \<noteq> [] \<longrightarrow> terminal_for (jrows (journal pl')) e"
    using *(1,2,5) by (cases ts) (auto simp: terminal_for_iff)
  moreover have "\<not> leaked pid (jrows (journal pl)) e"
    using *(3) by (auto simp: leaked_def)
  moreover have "leaked pid (jrows (journal pl')) d \<longleftrightarrow> leaked pid (jrows (journal pl)) d" if "d \<noteq> e"
    using that *(1,2) by (auto simp: leaked_def terminal_for_iff)
  ultimately show ?thesis
    using *(1) by (cases "ts = []"; cases "d = e") (auto simp: leaked_def)
qed

lemma scanned_leaks:
  assumes "scan H w = (Inr us, w')" "u \<in> set us"
  shows "leaked (w_provider_id w) (jrows (w_journal w)) (un_experiment u)"
  using assms(1)
proof (cases rule: scan_cases)
  case (rows now vs)
  with assms(2) show ?thesis using scan_experiments [of H now "w_provider_id w" "jrows (w_journal w)" us "un_experiment u"]
    by simp
qed (use assms(2) in simp_all)

text \<open>
  C35: A lifecycle whose last journal statement did not fail leaves nothing for the watchdog, whatever
  the provider did and whatever statement failed before: the leaked experiments after it are those
  from before, and a watchdog that later scans the journal it left reports only those.  This includes
  a lifecycle whose own restore failed: its terminal \<open>failed\<close> record closes the experiment, so no
  later recovery pass retries the restore although the provider is not back in its old state.
\<close>

theorem lifecycle_leaves_no_leak:
  assumes "run_lifecycle H P c pl = (r, pl')" "stmt_fault H (jclock (journal pl') - 1) = None"
  shows "(\<forall>pid d. leaked pid (jrows (journal pl')) d \<longleftrightarrow> leaked pid (jrows (journal pl)) d) \<and>
    (\<forall>K w us w'. jrows (w_journal w) = jrows (journal pl') \<and> scan K w = (Inr us, w') \<longrightarrow>
       (\<forall>u\<in>set us. leaked (w_provider_id w) (jrows (journal pl)) (un_experiment u)))"
  using closed_lifecycle_same_leaks [OF assms] scanned_leaks by metis

text \<open>The stuck provider: the value stays 7 and no experiment is leaked.\<close>

theorem lifecycle_leaves_no_leak_witness:
  "\<exists>r pl. run_lifecycle plain_host stuck_ops demo_request demo_plane = (r, pl) \<and>
     mock_value (provider pl) = 7 \<and> (\<forall>d. \<not> leaked ''mock'' (jrows (journal pl)) d)"
proof -
  obtain r pl where run: "run_lifecycle plain_host stuck_ops demo_request demo_plane = (r, pl)"
    by fastforce
  have "mock_value (provider (snd (run_lifecycle plain_host stuck_ops demo_request demo_plane))) = 7"
    by code_simp
  moreover have "stmt_fault plain_host (jclock (journal pl) - 1) = None"
    by (simp add: plain_host_def)
  note lifecycle_leaves_no_leak [OF run this, THEN conjunct1, rule_format, of "''mock''"]
  then have "\<forall>d. \<not> leaked ''mock'' (jrows (journal pl)) d" by (simp add: leaked_def)
  ultimately show ?thesis using run by auto
qed

end
