(* ===== verification/Shared.thy ===== *)
theory Shared
  imports Crash
begin

section \<open>A watchdog beside a live lifecycle\<close>

text \<open>
  \<open>Recovery\<close> and \<open>Crash\<close> treat the watchdog after the process it watches has died.  Here both live:
  the effects of one lifecycle are interleaved with the steady-state passes of a watchdog over the
  same provider and the same journal file.  A pass is not atomic: it scans, and later acts on what
  it saw then, one experiment at a time.  While nothing is overdue when it scans, the watchdog is
  invisible: the lifecycle does what it would do alone, on a journal whose faults and clock are those
  of the statements it issued.  What a scan sees stays in hand, though, and a lifecycle that overruns
  its lease can be acted on after it has finished.
\<close>

subsection \<open>The interleaving\<close>

datatype watch = Resting | Holding "unclosed_experiment list"

datatype move = Effect | Scan | Sweep

definition hand_back :: "('p, 't) watchdog \<Rightarrow> ('p, 't) plane \<Rightarrow> ('p, 't) plane" where
  "hand_back w pl = pl\<lparr>provider := w_provider w, journal := w_journal w\<rparr>"

text \<open>A scan that fails, or a record that cannot be written, ends the pass; the next one scans again.\<close>

definition scan_step ::
  "'t host \<Rightarrow> ('p, 't) plane \<Rightarrow> watch \<times> ('p, 't) plane" where
  "scan_step H pl =
     (case scan H (takes_over pl) of
        (Inl er, w) \<Rightarrow> (Resting, hand_back w pl)
      | (Inr us, w) \<Rightarrow> (Holding us, hand_back w pl))"

definition sweep_step ::
  "'t host \<Rightarrow> 'p provider_ops \<Rightarrow> reclaim_policy \<Rightarrow> unclosed_experiment list \<Rightarrow> ('p, 't) plane \<Rightarrow>
     watch \<times> ('p, 't) plane" where
  "sweep_step H P pol us pl =
     (case us of
        [] \<Rightarrow> (Resting, pl)
      | u # us' \<Rightarrow>
          if selected_by u pol
          then (case reclaim_one H P u (takes_over pl) of
                  (Inl er, w) \<Rightarrow> (Resting, hand_back w pl)
                | (Inr r, w) \<Rightarrow> (Holding us', hand_back w pl))
          else (Holding us', pl))"

fun shared_step ::
  "'t host \<Rightarrow> 'p provider_ops \<Rightarrow> change_request \<Rightarrow> reclaim_policy \<Rightarrow> move \<Rightarrow>
     phase \<times> watch \<times> ('p, 't) plane \<Rightarrow> phase \<times> watch \<times> ('p, 't) plane" where
  "shared_step H P c pol Effect (ph, wd, pl) =
     (case lifecycle_step H P c (ph, pl) of (ph1, pl1) \<Rightarrow> (ph1, wd, pl1))"
| "shared_step H P c pol Scan (ph, Resting, pl) = (ph, scan_step H pl)"
| "shared_step H P c pol Sweep (ph, Holding us, pl) = (ph, sweep_step H P pol us pl)"
| "shared_step H P c pol Scan (ph, Holding us, pl) = (ph, Holding us, pl)"
| "shared_step H P c pol Sweep (ph, Resting, pl) = (ph, Resting, pl)"

fun shared_run ::
  "'t host \<Rightarrow> 'p provider_ops \<Rightarrow> change_request \<Rightarrow> reclaim_policy \<Rightarrow> move list \<Rightarrow>
     phase \<times> watch \<times> ('p, 't) plane \<Rightarrow> phase \<times> watch \<times> ('p, 't) plane" where
  "shared_run H P c pol [] st = st"
| "shared_run H P c pol (m # ms) st = shared_run H P c pol ms (shared_step H P c pol m st)"

lemma shared_run_append:
  "shared_run H P c pol (ms @ ns) st = shared_run H P c pol ns (shared_run H P c pol ms st)"
  by (induction ms arbitrary: st) simp_all

subsection \<open>A pass that nothing interrupts is \<open>reclaim\<close>\<close>

lemma takes_over_hand_back [simp]:
  "w_provider_id w = man_id (manifest pl) \<Longrightarrow> takes_over (hand_back w pl) = w"
  by (simp add: takes_over_def hand_back_def)

lemma hand_back_again [simp]: "hand_back w (hand_back v pl) = hand_back w pl"
  by (simp add: hand_back_def)

lemma hand_back_takes_over [simp]: "hand_back (takes_over pl) pl = pl"
  by (simp add: takes_over_def hand_back_def)

lemma hand_back_manifest [simp]: "manifest (hand_back w pl) = manifest pl"
  by (simp add: hand_back_def)

lemma scan_keeps_id: "scan H w = (r, w') \<Longrightarrow> w_provider_id w' = w_provider_id w"
  by (auto simp: scan_def split: prod.splits)

lemma reclaim_one_keeps_id: "reclaim_one H P u w = (r, w') \<Longrightarrow> w_provider_id w' = w_provider_id w"
  by (auto simp: reclaim_one_def Let_def split: prod.splits sum.splits)

lemma resting_sweeps: "shared_run H P c pol (replicate n Sweep) (ph, Resting, pl) = (ph, Resting, pl)"
  by (induction n) simp_all

lemma sweeps_are_reclaim_each:
  "shared_run H P c pol (replicate (Suc (length us)) Sweep) (ph, Holding us, pl) =
     (ph, Resting, hand_back (snd (reclaim_each H P pol us (takes_over pl))) pl)"
proof (induction us arbitrary: pl)
  case (Cons u us)
  obtain r w where 1: "reclaim_one H P u (takes_over pl) = (r, w)" by fastforce
  have id: "w_provider_id w = man_id (manifest pl)" using reclaim_one_keeps_id [OF 1] by simp
  have go: "shared_run H P c pol (replicate (Suc (length (u # us))) Sweep) (ph, Holding (u # us), pl) =
      shared_run H P c pol (replicate (Suc (length us)) Sweep)
        (shared_step H P c pol Sweep (ph, Holding (u # us), pl))"
    by simp
  show ?case
  proof (cases "selected_by u pol")
    case False
    then have "shared_step H P c pol Sweep (ph, Holding (u # us), pl) = (ph, Holding us, pl)"
      by (simp add: sweep_step_def)
    then show ?thesis unfolding go using Cons [of pl] False by simp
  next
    case sel: True
    show ?thesis
    proof (cases r)
      case (Inl er)
      then have "shared_step H P c pol Sweep (ph, Holding (u # us), pl) = (ph, Resting, hand_back w pl)"
        using sel 1 by (simp add: sweep_step_def)
      then show ?thesis unfolding go using sel 1 Inl resting_sweeps by simp
    next
      case (Inr x)
      then have "shared_step H P c pol Sweep (ph, Holding (u # us), pl) = (ph, Holding us, hand_back w pl)"
        using sel 1 by (simp add: sweep_step_def)
      then show ?thesis
        unfolding go using sel 1 Inr Cons [of "hand_back w pl"] id
        by (auto split: sum.split prod.split)
    qed
  qed
qed (simp add: sweep_step_def)

lemma pass_is_reclaim:
  assumes "scan H (takes_over pl) = (Inr us, w)"
  shows "shared_run H P c pol (Scan # replicate (Suc (length us)) Sweep) (ph, Resting, pl) =
    (ph, Resting, hand_back (snd (reclaim H P pol (takes_over pl))) pl)"
proof -
  have "w_provider_id w = man_id (manifest pl)" using scan_keeps_id [OF assms] by simp
  then show ?thesis
    using assms sweeps_are_reclaim_each [of H P c pol us ph "hand_back w pl"]
    by (simp add: scan_step_def reclaim_def del: replicate.simps)
qed

subsection \<open>A lifecycle on the statements it issues\<close>

text \<open>
  The journal's faults and clock are indexed by the number of the statement.  \<open>renumber f H\<close> is the
  host that a process sees whose \<open>n\<close>-th statement is the \<open>f n\<close>-th of all.
\<close>

definition renumber :: "(nat \<Rightarrow> nat) \<Rightarrow> 't host \<Rightarrow> 't host" where
  "renumber f H = H\<lparr>stmt_fault := stmt_fault H \<circ> f, now_ms := now_ms H \<circ> f\<rparr>"

definition at_clock :: "nat \<Rightarrow> ('p, 't) plane \<Rightarrow> ('p, 't) plane" where
  "at_clock n pl = pl\<lparr>journal := (journal pl)\<lparr>jclock := n\<rparr>\<rparr>"

lemma at_clock_simps [simp]:
  "provider (at_clock n pl) = provider pl" "manifest (at_clock n pl) = manifest pl"
  "jrows (journal (at_clock n pl)) = jrows (journal pl)" "jtable (journal (at_clock n pl)) = jtable (journal pl)"
  "jtrials (journal (at_clock n pl)) = jtrials (journal pl)" "jclock (journal (at_clock n pl)) = n"
  "at_clock n pl\<lparr>provider := p\<rparr> = at_clock n (pl\<lparr>provider := p\<rparr>)"
  "at_clock (jclock (journal pl)) pl = pl" "at_clock m (at_clock n pl) = at_clock m pl"
  by (simp_all add: at_clock_def)

lemma renumber_simps [simp]:
  "to_text (renumber f H) = to_text H" "of_text (renumber f H) = of_text H"
  "shape_text (renumber f H) = shape_text H" "os (renumber f H) = os H"
  "stmt_fault (renumber f H) n = stmt_fault H (f n)" "now_ms (renumber f H) n = now_ms H (f n)"
  by (simp_all add: renumber_def)

lemma record_stage_renumber:
  assumes "f m = jclock (journal pl)" "record_stage H e st v pl = (r, pl')"
  shows "record_stage (renumber f H) e st v (at_clock m pl) = (r, at_clock (Suc m) pl')"
  using assms
  by (auto simp: record_stage_def insert_record_def statement_def append_rows_def stamp_def tick_def
      at_clock_def split: option.splits)

lemma begin_experiment_renumber:
  assumes "f m = jclock (journal pl)" "begin_experiment H s pl = (r, pl')"
  shows "begin_experiment (renumber f H) s (at_clock m pl) = (r, at_clock (Suc m) pl')"
  using assms
  by (auto simp: begin_experiment_def allocate_experiment_def statement_def append_rows_def stamp_def
      tick_def at_clock_def split: option.splits sum.splits)

lemma record_outcome_renumber:
  assumes "f m = jclock (journal pl)" "record_outcome H e out pl = (r, pl')"
  shows "record_outcome (renumber f H) e out (at_clock m pl) = (r, at_clock (Suc m) pl')"
proof (cases out)
  case (Inl f')
  obtain r1 pl1 where 1: "record_stage H e ''failed'' (failed_payload f') pl = (r1, pl1)" by fastforce
  show ?thesis
    using record_stage_renumber [where f = f, OF assms(1) 1] 1 Inl assms(2) by (simp add: record_outcome_def)
next
  case (Inr res)
  obtain r1 pl1 where 1: "record_stage H e ''completed'' (obj [(''verified'', Bool (verified res)),
      (''rolled_back'', Bool (rolled_back res))]) pl = (r1, pl1)" by fastforce
  show ?thesis
    using record_stage_renumber [where f = f, OF assms(1) 1] 1 Inr assms(2)
    by (auto simp: record_outcome_def split: sum.splits)
qed

text \<open>Whether the next effect of a phase is a statement.\<close>

fun issues_statement :: "phase \<Rightarrow> bool" where
  "issues_statement PStart = False"
| "issues_statement (POpen e s) = False"
| "issues_statement (PIntent e s d) = False"
| "issues_statement (PApplyLogged e s d) = False"
| "issues_statement (PObserved e s d ob) = False"
| "issues_statement (PRollbackLogged e s d ob) = False"
| "issues_statement (PDone r) = False"
| "issues_statement ph = True"

definition next_clock :: "phase \<Rightarrow> nat \<Rightarrow> nat" where
  "next_clock ph m = (if issues_statement ph then Suc m else m)"

lemma step_renumber:
  assumes "f m = jclock (journal pl)" "lifecycle_step H P c (ph, pl) = (ph', pl')"
  shows "lifecycle_step (renumber f H) P c (ph, at_clock m pl) = (ph', at_clock (next_clock ph m) pl')"
proof (cases ph)
  case (PSnapshot s)
  obtain r pl1 where 1: "begin_experiment H s pl = (r, pl1)" by fastforce
  from begin_experiment_renumber [where f = f, OF assms(1) 1] 1 PSnapshot assms(2) show ?thesis
    by (auto simp: next_clock_def split: sum.splits)
next
  case (PPreviewed e s d)
  obtain r pl1 where 1: "record_stage H e ''preview'' (obj [(''description'', Str d)]) pl = (r, pl1)"
    by fastforce
  from record_stage_renumber [where f = f, OF assms(1) 1] 1 PPreviewed assms(2) show ?thesis
    by (auto simp: next_clock_def split: sum.splits)
next
  case (PPreviewLogged e s d)
  obtain r pl1 where 1: "record_stage H e ''apply-intent'' (change_json c) pl = (r, pl1)" by fastforce
  from record_stage_renumber [where f = f, OF assms(1) 1] 1 PPreviewLogged assms(2) show ?thesis
    by (auto simp: next_clock_def split: sum.splits)
next
  case (PApplied e s d)
  obtain r pl1 where 1: "record_stage H e ''apply'' (obj [(''applied'', Bool True)]) pl = (r, pl1)"
    by fastforce
  from record_stage_renumber [where f = f, OF assms(1) 1] 1 PApplied assms(2) show ?thesis
    by (auto simp: next_clock_def split: sum.splits)
next
  case (PVerified e s d v)
  obtain r pl1 where 1: "record_stage H e ''verify'' (obj [(''verified'', Bool v)]) pl = (r, pl1)"
    by fastforce
  from record_stage_renumber [where f = f, OF assms(1) 1] 1 PVerified assms(2) show ?thesis
    by (auto simp: next_clock_def split: sum.splits)
next
  case (PRolledBack e s d ob)
  obtain r pl1 where 1: "record_stage H e ''rollback'' (snapshot_json s) pl = (r, pl1)" by fastforce
  from record_stage_renumber [where f = f, OF assms(1) 1] 1 PRolledBack assms(2) show ?thesis
    by (auto simp: next_clock_def split: sum.splits)
next
  case (PReread e s d ob same)
  obtain r pl1 where 1: "record_stage H e ''rollback-verify'' (obj [(''restored'', Bool same)]) pl = (r, pl1)"
    by fastforce
  from record_stage_renumber [where f = f, OF assms(1) 1] 1 PReread assms(2) show ?thesis
    by (auto simp: next_clock_def split: sum.splits)
next
  case (POutcome e s out)
  obtain r pl1 where 1: "record_outcome H e out pl = (r, pl1)" by fastforce
  from record_outcome_renumber [where f = f, OF assms(1) 1] 1 POutcome assms(2) show ?thesis
    by (auto simp: next_clock_def)
qed (use assms(2) in \<open>auto simp: next_clock_def split: sum.splits prod.splits\<close>)

lemma renumber_id [simp]: "renumber (\<lambda>n. n) H = H"
  by (simp add: renumber_def comp_def)

lemma step_clock:
  assumes "lifecycle_step H P c (ph, pl) = (ph', pl')"
  shows "jclock (journal pl') = next_clock ph (jclock (journal pl))"
proof -
  have "(ph', pl') = (ph', at_clock (next_clock ph (jclock (journal pl))) pl')"
    using step_renumber [where f = "\<lambda>n. n", OF refl assms] assms by simp
  then show ?thesis by (metis Pair_inject at_clock_simps(6))
qed

lemma step_silent:
  assumes "\<not> issues_statement ph" "lifecycle_step H P c (ph, pl) = (ph', pl')"
  shows "lifecycle_step (renumber f H) P c (ph, at_clock m pl) = (ph', at_clock m pl')"
  using assms by (cases ph) (auto split: sum.splits prod.splits)

lemma step_renumber_cong:
  assumes "f m = g m"
  shows "lifecycle_step (renumber f H) P c (ph, at_clock m pl) =
    lifecycle_step (renumber g H) P c (ph, at_clock m pl)"
proof -
  obtain ph' pl' where "lifecycle_step H P c (ph, at_clock (f m) pl) = (ph', pl')" by fastforce
  from step_renumber [where f = f, OF _ this] step_renumber [where f = g, OF _ this] assms
  show ?thesis by simp
qed

lemma effects_renumber_cong:
  assumes "\<forall>k\<ge>m. f k = g k"
  shows "after_effects n (renumber f H) P c (ph, at_clock m pl) =
    after_effects n (renumber g H) P c (ph, at_clock m pl)"
  using assms
proof (induction n arbitrary: ph m pl)
  case (Suc n)
  obtain ph' pl' where 1: "lifecycle_step H P c (ph, at_clock (f m) pl) = (ph', pl')" by fastforce
  have "lifecycle_step (renumber f H) P c (ph, at_clock m pl) = (ph', at_clock (next_clock ph m) pl')"
    using step_renumber [where f = f, OF _ 1] by simp
  moreover have "m \<le> next_clock ph m" by (simp add: next_clock_def)
  with Suc.prems have "\<forall>k\<ge>next_clock ph m. f k = g k" by auto
  moreover have "f m = g m" using Suc.prems by simp
  ultimately show ?case
    using Suc.IH [of "next_clock ph m"] step_renumber_cong [of f m g H P c ph pl] by simp
qed simp

subsection \<open>Passes that change nothing\<close>

text \<open>Along a run: each move of the watchdog leaves the plane as it was, but for the statement count.\<close>

fun undisturbed ::
  "'t host \<Rightarrow> 'p provider_ops \<Rightarrow> change_request \<Rightarrow> reclaim_policy \<Rightarrow> move list \<Rightarrow>
     phase \<times> watch \<times> ('p, 't) plane \<Rightarrow> bool" where
  "undisturbed H P c pol [] st = True"
| "undisturbed H P c pol (m # ms) st =
     ((m \<noteq> Effect \<longrightarrow> (let pl = snd (snd st); pl' = snd (snd (shared_step H P c pol m st)) in
         jclock (journal pl) \<le> jclock (journal pl') \<and> pl' = at_clock (jclock (journal pl')) pl)) \<and>
      undisturbed H P c pol ms (shared_step H P c pol m st))"

lemma strict_mono_splice:
  assumes "strict_mono f" "m \<le> n" "n < f (Suc m)"
  shows "strict_mono (\<lambda>k. if k \<le> m then n + k - m else f k)"
proof (rule strict_monoI)
  fix j k :: nat
  assume "j < k"
  moreover have "f (Suc m) \<le> f k" if "m < k" using that assms(1) by (simp add: strict_mono_less_eq)
  ultimately show "(if j \<le> m then n + j - m else f j) < (if k \<le> m then n + k - m else f k)"
    using assms by (auto simp: strict_mono_less)
qed

lemma undisturbed_alone:
  assumes "undisturbed H P c pol ms (ph, wd, pl)" "shared_run H P c pol ms (ph, wd, pl) = (ph', wd', pl')"
    and "m \<le> jclock (journal pl)"
  shows "\<exists>f n. strict_mono f \<and> jclock (journal pl) \<le> f m \<and>
    after_effects (count_list ms Effect) (renumber f H) P c (ph, at_clock m pl) = (ph', at_clock n pl')"
  using assms
proof (induction ms arbitrary: ph wd pl m)
  case Nil
  then show ?case
    by (intro exI [of _ "\<lambda>k. k + jclock (journal pl)"] exI [of _ m]) (auto intro: strict_monoI)
next
  case (Cons mv ms)
  obtain ph1 wd1 pl1 where st: "shared_step H P c pol mv (ph, wd, pl) = (ph1, wd1, pl1)"
    by (metis prod_cases3)
  have next_: "undisturbed H P c pol ms (ph1, wd1, pl1)"
    "shared_run H P c pol ms (ph1, wd1, pl1) = (ph', wd', pl')"
    using Cons.prems st by simp_all
  show ?case
  proof (cases "mv = Effect")
    case True
    then have 1: "lifecycle_step H P c (ph, pl) = (ph1, pl1)"
      using st by (auto split: prod.splits)
    show ?thesis
    proof (cases "issues_statement ph")
      case False
      have "jclock (journal pl1) = jclock (journal pl)"
        using step_clock [OF 1] False by (simp add: next_clock_def)
      then obtain f n where "strict_mono f" "jclock (journal pl) \<le> f m"
        "after_effects (count_list ms Effect) (renumber f H) P c (ph1, at_clock m pl1) = (ph', at_clock n pl')"
        using Cons.IH [OF next_, of m] Cons.prems(3) by auto
      then show ?thesis using True step_silent [OF False 1, of f m]
        by (intro exI [of _ f] exI [of _ n]) simp
    next
      case iss: True
      have ck: "jclock (journal pl1) = Suc (jclock (journal pl))"
        using step_clock [OF 1] iss by (simp add: next_clock_def)
      then obtain f n where f: "strict_mono f" "Suc (jclock (journal pl)) \<le> f (Suc m)"
        "after_effects (count_list ms Effect) (renumber f H) P c (ph1, at_clock (Suc m) pl1) = (ph', at_clock n pl')"
        using Cons.IH [OF next_, of "Suc m"] Cons.prems(3) by auto
      let ?g = "\<lambda>k. if k \<le> m then jclock (journal pl) + k - m else f k"
      have "strict_mono ?g" using f(1,2) Cons.prems(3) by (intro strict_mono_splice) auto
      moreover have "lifecycle_step (renumber ?g H) P c (ph, at_clock m pl) = (ph1, at_clock (Suc m) pl1)"
        using step_renumber [where f = ?g, OF _ 1, of m] iss by (simp add: next_clock_def)
      moreover have "after_effects (count_list ms Effect) (renumber ?g H) P c (ph1, at_clock (Suc m) pl1) =
          (ph', at_clock n pl')"
        using effects_renumber_cong [of "Suc m" ?g f "count_list ms Effect" H P c ph1 pl1] f(3) by simp
      ultimately show ?thesis using True by (intro exI [of _ ?g] exI [of _ n]) simp
    qed
  next
    case False
    then have same: "ph1 = ph" "jclock (journal pl) \<le> jclock (journal pl1)"
      "pl1 = at_clock (jclock (journal pl1)) pl"
      using Cons.prems(1) st by (cases mv; cases wd; simp add: Let_def)+
    then obtain f n where "strict_mono f" "jclock (journal pl1) \<le> f m"
      "after_effects (count_list ms Effect) (renumber f H) P c (ph, at_clock m pl1) = (ph', at_clock n pl')"
      using Cons.IH [OF next_, of m] Cons.prems(3) by auto
    moreover have "at_clock m pl1 = at_clock m pl" using same(3) by (metis at_clock_simps(9))
    ultimately show ?thesis using False same(2) by (intro exI [of _ f] exI [of _ n]) auto
  qed
qed

subsection \<open>Within the lease\<close>

text \<open>An open intent is older than the lease, on the clock a scan would read next.\<close>

definition overdue :: "'t host \<Rightarrow> change_request \<Rightarrow> 't journal \<Rightarrow> bool" where
  "overdue H c j \<longleftrightarrow> list_ex (\<lambda>x. stage x = ''apply-intent'' \<and> \<not> terminal_for (jrows j) (row_experiment x) \<and>
     lease_expired (age_seconds (now_ms H (Suc (jclock j))) x) (lease_seconds c)) (jrows j)"

text \<open>Along a run: nothing is overdue when the watchdog scans.\<close>

fun in_time ::
  "'t host \<Rightarrow> 'p provider_ops \<Rightarrow> change_request \<Rightarrow> reclaim_policy \<Rightarrow> move list \<Rightarrow>
     phase \<times> watch \<times> ('p, 't) plane \<Rightarrow> bool" where
  "in_time H P c pol [] st = True"
| "in_time H P c pol (m # ms) st =
     ((m = Scan \<longrightarrow> \<not> overdue H c (journal (snd (snd st)))) \<and> in_time H P c pol ms (shared_step H P c pol m st))"

lemma scan_now:
  assumes "scan H w = (Inr us, w')" "jtable (w_journal w)"
  shows "map (unclosed_of H (now_ms H (Suc (jclock (w_journal w)))))
    (unclosed_rows (w_provider_id w) (jrows (w_journal w))) = map Inr us"
proof -
  obtain r1 j1 where 1: "journal_ready H (w_journal w) = (r1, j1)" by fastforce
  then have j1: "jrows j1 = jrows (w_journal w)" "jclock j1 = Suc (jclock (w_journal w))"
    "r1 = Inr b \<Longrightarrow> b = jtable (w_journal w)" for b
    by (auto simp: journal_ready_def statement_def split: option.splits)
  obtain r2 j2 where 2: "query H (\<lambda>j'. unclosed_rows (w_provider_id w) (jrows j')) j1 = (r2, j2)"
    by fastforce
  have ready: "r1 = Inr True"
    using assms 1 j1(3) by (cases r1) (auto simp: scan_def unclosed_experiments_def)
  then obtain rs where rs: "r2 = Inr rs" "decode_rows (unclosed_of H (now_ms H (jclock j1))) rs = Inr us"
    using assms(1) 1 2 by (cases r2) (auto simp: scan_def unclosed_experiments_def)
  have "rs = unclosed_rows (w_provider_id w) (jrows (w_journal w))"
    using query_Inr [OF 2 [unfolded rs(1)]] j1(1) by simp
  with rs(2) have "decode_rows (unclosed_of H (now_ms H (jclock j1)))
      (unclosed_rows (w_provider_id w) (jrows (w_journal w))) = Inr us" by simp
  then show ?thesis using decode_rows_eq j1(2) by metis
qed

lemma query_clock: "query H sel j = (r, j') \<Longrightarrow> jclock j' = Suc (jclock j)"
  by (auto simp: query_def statement_def split: option.splits if_splits)

lemma journal_ready_clock: "journal_ready H j = (r, j') \<Longrightarrow> jclock j' = Suc (jclock j)"
  by (auto simp: journal_ready_def statement_def split: option.splits)

lemma scan_clock: "scan H w = (r, w') \<Longrightarrow> jclock (w_journal w) \<le> jclock (w_journal w')"
  by (auto simp: scan_def unclosed_experiments_def split: prod.splits sum.splits if_splits
      dest!: query_clock journal_ready_clock)

lemma journal_eqI:
  "jrows (j :: 't journal) = jrows k \<Longrightarrow> jtrials j = jtrials k \<Longrightarrow> jtable j = jtable k \<Longrightarrow> j = k\<lparr>jclock := jclock j\<rparr>"
  by (cases j; cases k) simp

lemma scan_changes_nothing:
  assumes "scan H (takes_over pl) = (r, w)"
  shows "hand_back w pl = at_clock (jclock (w_journal w)) pl"
proof -
  have "w_provider w = provider pl \<and> jrows (w_journal w) = jrows (journal pl) \<and>
      jtrials (w_journal w) = jtrials (journal pl) \<and> jtable (w_journal w) = jtable (journal pl)"
    using assms by (cases rule: scan_cases) simp_all
  then have "w_provider w = provider pl" "w_journal w = (journal pl)\<lparr>jclock := jclock (w_journal w)\<rparr>"
    by (blast, intro journal_eqI) blast+
  then show ?thesis by (cases pl) (simp add: at_clock_def hand_back_def)
qed

text \<open>The rows the lifecycle has written so far.\<close>

definition rows_so_far ::
  "'t host \<Rightarrow> 'p provider_ops \<Rightarrow> change_request \<Rightarrow> ('p, 't) plane \<Rightarrow> ('p, 't) plane \<Rightarrow> bool" where
  "rows_so_far H P c pl0 pl \<longleftrightarrow>
     (\<exists>xs. grows pl0 xs pl \<and> (xs = [] \<or> (\<exists>e s. started H P c pl0 e s xs)))"

lemma scan_in_time:
  assumes "rows_so_far H P c pl0 pl" "\<forall>d. \<not> leaked (man_id (manifest pl0)) (jrows (journal pl0)) d"
    and "change_ok c" "reads_back H (change_json c)" "\<not> overdue H c (journal pl)"
    and "scan H (takes_over pl) = (Inr us, w)" "u \<in> set us"
  shows "\<not> un_expired u"
proof -
  let ?pid = "man_id (manifest pl0)" and ?now = "now_ms H (Suc (jclock (journal pl)))"
  obtain xs where xs: "grows pl0 xs pl" "xs = [] \<or> (\<exists>e s. started H P c pl0 e s xs)"
    using assms(1) by (auto simp: rows_so_far_def)
  have m: "man_id (manifest pl) = ?pid" "jrows (journal pl) = jrows (journal pl0) @ xs"
    using xs(1) by (simp_all add: grows_def)
  have "jtable (journal pl)" using assms(6,7) by (cases rule: scan_cases) auto
  then have "map (unclosed_of H ?now) (unclosed_rows ?pid (jrows (journal pl))) = map Inr us"
    using scan_now [OF assms(6)] m by simp
  from in_unclosed [OF this, of u] assms(7) obtain i x where
    ix: "(i, x) \<in> set (unclosed_rows ?pid (jrows (journal pl)))" "unclosed_of H ?now (i, x) = Inr u"
    by auto
  then have i: "i \<in> set (jrows (journal pl))" "stage i = ''apply-intent''"
    "\<not> terminal_for (jrows (journal pl)) (row_experiment i)"
    and lk: "leaked ?pid (jrows (journal pl)) (row_experiment i)"
    by (auto simp: in_unclosed_rows leaked_def)
  then obtain e s where st: "started H P c pl0 e s xs" using xs(2) m(2) assms(2) by auto
  have "row_experiment i = e"
    using started_leaked [OF st assms(2)] lk m(2) by simp
  then have "i \<in> set xs" using st i(1) m(2) by (auto simp: started_def)
  then have "intent_row H c i"
    using st i(2) by (auto simp: started_def experiment_rows_def snapshot_row_def)
  then have "from_text H change_of_json (payload i) = Inr c"
    using assms(3,4) by (simp add: intent_row_def change_format.dec_enc)
  then have "un_expired u = lease_expired (age_seconds ?now i) (lease_seconds c)"
    using ix(2) by (auto simp: unclosed_of_Inr)
  then show ?thesis
    using i assms(5) by (auto simp: overdue_def list_ex_iff)
qed

definition none_expired :: "watch \<Rightarrow> bool" where
  "none_expired wd \<longleftrightarrow> (\<forall>us. wd = Holding us \<longrightarrow> (\<forall>u\<in>set us. \<not> un_expired u))"

lemma none_expired_simps [simp]:
  "none_expired Resting" "none_expired (Holding us) \<longleftrightarrow> (\<forall>u\<in>set us. \<not> un_expired u)"
  by (simp_all add: none_expired_def)

lemma grows_at_clock [simp]: "grows pl0 xs (at_clock n pl) = grows pl0 xs pl"
  by (simp add: grows_def)

lemma phase_ok_rows:
  "phase_ok H P c I pl0 p xs ph \<Longrightarrow> xs = [] \<or> (\<exists>e s. started H P c pl0 e s xs)"
  by (cases ph) auto

context restoring_provider
begin

lemma in_time_undisturbed:
  assumes "inv (provider pl0)" "\<forall>d. \<not> leaked (man_id (manifest pl0)) (jrows (journal pl0)) d"
    and "change_ok c" "reads_back H (change_json c)"
    and "in_time H P c ExpiredLeasesOnly ms (ph, wd, pl)"
    and "grows pl0 xs pl" "phase_ok H P c inv pl0 (provider pl) xs ph" "none_expired wd"
  shows "undisturbed H P c ExpiredLeasesOnly ms (ph, wd, pl)"
  using assms(5-8)
proof (induction ms arbitrary: ph wd pl xs)
  case (Cons m ms)
  show ?case
  proof (cases m)
    case Effect
    obtain ph1 pl1 where st: "lifecycle_step H P c (ph, pl) = (ph1, pl1)" by fastforce
    obtain ys where "grows pl0 ys pl1" "phase_ok H P c inv pl0 (provider pl1) ys ph1"
      using phase_ok_step [OF assms(1) Cons.prems(2,3) st] by blast
    then show ?thesis using Cons.IH [of ph1 wd pl1 ys] Cons.prems Effect st by simp
  next
    case Scan
    show ?thesis
    proof (cases wd)
      case (Holding us)
      then show ?thesis using Cons Scan by simp
    next
      case Resting
      obtain r w where sc: "scan H (takes_over pl) = (r, w)" by fastforce
      note same = scan_changes_nothing [OF sc]
      have "rows_so_far H P c pl0 pl"
        using Cons.prems(2) phase_ok_rows [OF Cons.prems(3)] by (auto simp: rows_so_far_def)
      then have "\<not> un_expired u" if "r = Inr us" "u \<in> set us" for us u
        using scan_in_time [OF _ assms(2-4)] sc that Cons.prems(1) Scan by auto
      then obtain wd' where step: "scan_step H pl = (wd', at_clock (jclock (w_journal w)) pl)"
        and quiet: "none_expired wd'"
        using sc same by (cases r) (auto simp: scan_step_def)
      have "jclock (journal pl) \<le> jclock (w_journal w)" using scan_clock [OF sc] by simp
      moreover have "undisturbed H P c ExpiredLeasesOnly ms (ph, wd', at_clock (jclock (w_journal w)) pl)"
        using Cons.IH [of ph wd' "at_clock (jclock (w_journal w)) pl" xs] Cons.prems Scan Resting
          quiet step by simp
      ultimately show ?thesis using Scan Resting step by (simp add: Let_def)
    qed
  next
    case Sweep
    show ?thesis
    proof (cases wd)
      case Resting
      then show ?thesis using Cons Sweep by simp
    next
      case (Holding us)
      have "\<exists>wd'. sweep_step H P ExpiredLeasesOnly us pl = (wd', pl) \<and> none_expired wd'"
        using Cons.prems(4) Holding by (cases us) (simp_all add: sweep_step_def)
      then obtain wd' where "sweep_step H P ExpiredLeasesOnly us pl = (wd', pl)" "none_expired wd'"
        by blast
      then show ?thesis using Cons.IH [of ph wd' pl xs] Cons.prems Sweep Holding by simp
    qed
  qed
qed simp

end

subsection \<open>Properties\<close>

text \<open>
  C12: A watchdog does not disturb a live lifecycle.  Interleave one lifecycle on the mock provider, effect
  by effect, with any number of steady-state passes over the same provider and journal, in any order
  and with any statement faults; if no open intent is older than the lease whenever the watchdog
  scans, the lifecycle is at every point exactly where it would be without the watchdog on a host that
  shows it, of the journal's faults and clock, its own statements: the same phase, provider, rows and
  result.  So every theorem about a lifecycle alone holds of it.
\<close>

theorem watchdog_leaves_a_live_lifecycle_alone:
  assumes "shared_run H (mock_ops platform) c ExpiredLeasesOnly ms (PStart, Resting, pl0) = (ph, wd, pl)"
    and "in_time H (mock_ops platform) c ExpiredLeasesOnly ms (PStart, Resting, pl0)"
    and "\<forall>d. \<not> leaked (man_id (manifest pl0)) (jrows (journal pl0)) d"
    and "change_ok c" "reads_back H (change_json c)"
  shows "\<exists>f n. strict_mono f \<and>
    after_effects (count_list ms Effect) (renumber f H) (mock_ops platform) c (PStart, at_clock 0 pl0) =
      (ph, at_clock n pl) \<and>
    (14 \<le> count_list ms Effect \<longrightarrow>
      ph = PDone (fst (run_lifecycle (renumber f H) (mock_ops platform) c (at_clock 0 pl0))) \<and>
      at_clock n pl = snd (run_lifecycle (renumber f H) (mock_ops platform) c (at_clock 0 pl0)))"
proof -
  have "undisturbed H (mock_ops platform) c ExpiredLeasesOnly ms (PStart, Resting, pl0)"
    using mock.in_time_undisturbed [OF TrueI assms(3-5,2), of "[]"] by simp
  from undisturbed_alone [OF this assms(1), of 0] obtain f n where
    f: "strict_mono f" "after_effects (count_list ms Effect) (renumber f H) (mock_ops platform) c
      (PStart, at_clock 0 pl0) = (ph, at_clock n pl)" by auto
  moreover have "ph = PDone (fst (run_lifecycle (renumber f H) (mock_ops platform) c (at_clock 0 pl0))) \<and>
      at_clock n pl = snd (run_lifecycle (renumber f H) (mock_ops platform) c (at_clock 0 pl0))"
    if "14 \<le> count_list ms Effect"
    using machine_runs [of "count_list ms Effect - 14" "renumber f H" "mock_ops platform" c
        "at_clock 0 pl0"] that f(2) by simp
  ultimately show ?thesis by blast
qed

text \<open>Scans before, amid and after the eight effects from the apply on.\<close>

theorem watchdog_leaves_a_live_lifecycle_alone_witness:
  "\<exists>f n ph wd pl. shared_run plain_host (mock_ops ''linux'') demo_request ExpiredLeasesOnly
       (Scan # replicate 7 Effect @ [Sweep, Scan, Sweep] @ replicate 7 Effect) (PStart, Resting, demo_plane) = (ph, wd, pl) \<and>
     at_clock n pl = snd (run_lifecycle (renumber f plain_host) (mock_ops ''linux'') demo_request
       (at_clock 0 demo_plane))"
proof -
  let ?ms = "Scan # replicate 7 Effect @ [Sweep, Scan, Sweep] @ replicate 7 Effect"
  obtain ph wd pl where r: "shared_run plain_host (mock_ops ''linux'') demo_request ExpiredLeasesOnly
       ?ms (PStart, Resting, demo_plane) = (ph, wd, pl)" by (metis prod_cases3)
  have t: "in_time plain_host (mock_ops ''linux'') demo_request ExpiredLeasesOnly ?ms (PStart, Resting, demo_plane)"
    by code_simp
  have "count_list ?ms Effect = 14" by (simp add: numeral_eq_Suc)
  moreover have "\<forall>d. \<not> leaked (man_id (manifest demo_plane)) (jrows (journal demo_plane)) d"
    by (simp add: leaked_def)
  ultimately show ?thesis
    using watchdog_leaves_a_live_lifecycle_alone [OF r t] demo_request_ok r by (auto simp: reads_back_def)
qed

text \<open>
  C27: A scan goes stale.  A candidate that was overdue when it was scanned is acted on whatever the
  journal says by then: the provider is set back to the candidate's snapshot in the middle of
  whatever lifecycle is under way, and a terminal \<open>failed\<close> record is written for its experiment, also
  when that has completed in the meantime.  In the witness a slow first lifecycle is scanned, completes,
  and a second one is between its apply and its verify when the watchdog moves the knob under it.
\<close>

theorem stale_candidate_is_acted_on:
  assumes "no_faults H" "jtable (journal pl)" "un_expired u"
    and "mock_snapshot \<lparr>mock_value = v\<rparr> = Inr (un_snapshot u)"
  shows "\<exists>x t pl'. shared_step H (mock_ops platform) c ExpiredLeasesOnly Sweep (ph, Holding (u # us), pl) =
      (ph, Holding us, pl') \<and> provider pl' = \<lparr>mock_value = v\<rparr> \<and>
    jrows (journal pl') = jrows (journal pl) @ [x, t] \<and>
    row_experiment t = un_experiment u \<and> stage t = ''failed''"
proof -
  have "op_snapshot (mock_ops platform) \<lparr>mock_value = v\<rparr> = Inr (un_snapshot u)"
    using assms(4) by (simp add: mock_ops_def)
  from mock.restore_state_back [OF TrueI TrueI this] obtain q where
    q: "restore_state (mock_ops platform) (un_snapshot u) (provider pl) = (Inr (), q)"
      "op_snapshot (mock_ops platform) q = Inr (un_snapshot u)" by blast
  then have "mock_snapshot q = mock_snapshot \<lparr>mock_value = v\<rparr>"
    using assms(4) by (simp add: mock_ops_def)
  then have v: "q = \<lparr>mock_value = v\<rparr>"
    by (cases q) (simp add: mock_snapshot_def obj_single_eq)
  obtain r j where s: "record_success H (un_experiment u) (man_id (manifest pl)) (reclaim_reason_of u)
      (un_snapshot u) (journal pl) = (r, j)" by fastforce
  then show ?thesis
  proof (cases rule: record_success_cases)
    case (stored x t)
    then have "shared_step H (mock_ops platform) c ExpiredLeasesOnly Sweep (ph, Holding (u # us), pl) =
        (ph, Holding us, pl\<lparr>provider := q, journal := j\<rparr>)"
      using assms(3) q s by (simp add: sweep_step_def reclaim_one_def Let_def hand_back_def)
    with stored v show ?thesis by simp
  qed (use assms in simp_all)
qed

definition slow_host :: "json host" where
  "slow_host = plain_host\<lparr>now_ms := \<lambda>n. int n * 40000\<rparr>"

definition overrun_state :: "phase \<times> watch \<times> (mock_provider, json) plane" where
  "overrun_state =
     (case shared_run slow_host (mock_ops ''linux'') demo_request ExpiredLeasesOnly
         (replicate 6 Effect @ [Scan] @ replicate 8 Effect) (PStart, Resting, demo_plane) of
        (_, wd, pl) \<Rightarrow> shared_run slow_host (mock_ops ''linux'') demo_request ExpiredLeasesOnly
          (replicate 7 Effect) (PStart, wd, pl))"

theorem stale_candidate_is_acted_on_witness:
  "\<exists>ph u us pl pl'. overrun_state = (ph, Holding (u # us), pl) \<and> un_experiment u = 1 \<and>
     map stage (filter (\<lambda>x. row_experiment x = 1) (jrows (journal pl))) =
       [''snapshot'', ''preview'', ''apply-intent'', ''apply'', ''verify'', ''rollback'', ''rollback-verify'',
        ''completed''] \<and>
     provider pl = \<lparr>mock_value = 7\<rparr> \<and>
     shared_step slow_host (mock_ops ''linux'') demo_request ExpiredLeasesOnly Sweep (ph, Holding (u # us), pl) =
       (ph, Holding us, pl') \<and> provider pl' = \<lparr>mock_value = 0\<rparr>"
proof -
  have ev: "case overrun_state of (ph, Holding (u # us), pl) \<Rightarrow> un_experiment u = 1 \<and> un_expired u \<and>
      mock_snapshot \<lparr>mock_value = 0\<rparr> = Inr (un_snapshot u) \<and> jtable (journal pl) \<and>
      mock_value (provider pl) = 7 \<and>
      map stage (filter (\<lambda>x. row_experiment x = 1) (jrows (journal pl))) =
        [''snapshot'', ''preview'', ''apply-intent'', ''apply'', ''verify'', ''rollback'', ''rollback-verify'',
         ''completed''] | _ \<Rightarrow> False"
    by code_simp
  obtain ph wd pl where o0: "overrun_state = (ph, wd, pl)" by (metis prod_cases3)
  note ev' = ev [unfolded o0 prod.case]
  obtain u us where "wd = Holding (u # us)"
  proof (cases wd)
    case (Holding vs)
    then show thesis using ev' that by (cases vs) simp_all
  qed (use ev' in simp)
  with o0 have o1: "overrun_state = (ph, Holding (u # us), pl)" by simp
  note facts = ev [unfolded o1, simplified]
  have "no_faults slow_host" by (simp add: no_faults_def slow_host_def plain_host_def)
  from stale_candidate_is_acted_on [OF this, of pl u 0 "''linux''" demo_request ph us] facts
  obtain pl' where "shared_step slow_host (mock_ops ''linux'') demo_request ExpiredLeasesOnly Sweep
      (ph, Holding (u # us), pl) = (ph, Holding us, pl')" "provider pl' = \<lparr>mock_value = 0\<rparr>"
    by blast
  with facts o1 show ?thesis
    by (intro exI [of _ ph] exI [of _ u] exI [of _ us] exI [of _ pl] exI [of _ pl']) simp
qed

end
