(* ===== verification/Poller.thy ===== *)
theory Poller
  imports Crash
begin

section \<open>The watchdog process (\<open>apps/watchdog/src/main.rs\<close>)\<close>

text \<open>
  The command around \<open>reclaim\<close>: one pass, or a pass after every interval for ever, whose errors are
  printed and retried.  The loop is \<open>polls\<close>, any number of its rounds; sleeping is left out.  The
  point of the loop is its last property: whatever fails for a while, once statements work the next
  round closes every leak whose lease has run out, and then it is quiet.
\<close>

subsection \<open>What is printed\<close>

datatype printed = Out string | Err string

fun reason_label :: "reclaim_reason \<Rightarrow> string" where
  "reason_label LeaseExpired = ''lease expired''"
| "reason_label CrashRecovery = ''crash recovery''"

fun policy_label :: "reclaim_policy \<Rightarrow> string" where
  "policy_label AllUnclosed = ''recovering all unclosed experiments''"
| "policy_label ExpiredLeasesOnly = ''reclaiming expired leases''"

definition report :: "restoration \<Rightarrow> printed" where
  "report r =
     (if rs_restored r
      then Out (''fpsmaxxing-watchdog: restored experiment '' @ show_int (rs_experiment r) @ '' ('' @
             reason_label (rs_reason r) @ '', lease '' @ show_word (rs_lease r) @ ''s)'')
      else Err (''fpsmaxxing-watchdog: could not restore experiment '' @ show_int (rs_experiment r) @
             '' ('' @ reason_label (rs_reason r) @ ''): '' @
             (case rs_error r of None \<Rightarrow> ''unknown error'' | Some e \<Rightarrow> e)))"

fun show_watchdog_error :: "watchdog_error \<Rightarrow> string" where
  "show_watchdog_error (WatchdogJournalFault s) = s"
| "show_watchdog_error (WatchdogSerialization s) = s"

subsection \<open>The command\<close>

text \<open>One round: what is printed, and the watchdog after it.\<close>

definition round_lines :: "(watchdog_error, restoration list) result \<Rightarrow> printed list" where
  "round_lines r =
     (case r of
        Inr rs \<Rightarrow> map report rs
      | Inl e \<Rightarrow> [Err (''fpsmaxxing-watchdog: reclaim failed, retrying next interval: '' @ show_watchdog_error e)])"

definition poll_round ::
  "'t host \<Rightarrow> 'p provider_ops \<Rightarrow> reclaim_policy \<Rightarrow> ('p, 't) watchdog \<times> printed list \<Rightarrow>
     ('p, 't) watchdog \<times> printed list" where
  "poll_round H P pol st =
     (case reclaim H P pol (fst st) of (r, w) \<Rightarrow> (w, snd st @ round_lines r))"

fun polls ::
  "'t host \<Rightarrow> 'p provider_ops \<Rightarrow> reclaim_policy \<Rightarrow> nat \<Rightarrow> ('p, 't) watchdog \<times> printed list \<Rightarrow>
     ('p, 't) watchdog \<times> printed list" where
  "polls H P pol 0 st = st"
| "polls H P pol (Suc n) st = poll_round H P pol (polls H P pol n st)"

definition banner :: "config \<Rightarrow> printed" where
  "banner cfg = Out (''fpsmaxxing-watchdog: polling '' @ journal_path cfg @ '' every '' @
     show_word (interval cfg) @ ''s ('' @ policy_label (config_policy cfg) @ '')'')"

text \<open>
  The result of \<open>main\<close>: \<open>Inl\<close> an error it returns, \<open>Inr None\<close> a single pass that succeeded, \<open>Inr (Some w)\<close> the
  watchdog after \<open>n\<close> rounds of the loop that never ends.
\<close>

definition watchdog_main ::
  "'t host \<Rightarrow> 'p provider_ops \<Rightarrow> 'p \<Rightarrow> (string \<Rightarrow> 't journal) \<Rightarrow> string option \<Rightarrow> string list \<Rightarrow> nat \<Rightarrow>
     (watchdog_error, ('p, 't) watchdog option) result \<times> printed list" where
  "watchdog_main H P p files env args n =
     (let cfg = config_from_args env args in
      case fst (open_watchdog H P p (files (journal_path cfg))) of
        Inl e \<Rightarrow> (Inl e, [])
      | Inr w \<Rightarrow>
          if once cfg
          then (case reclaim H P (config_policy cfg) w of
                  (Inl e, _) \<Rightarrow> (Inl e, [])
                | (Inr rs, _) \<Rightarrow> (Inr None, map report rs))
          else (case polls H P (config_policy cfg) n (w, [banner cfg]) of (w', out) \<Rightarrow> (Inr (Some w'), out)))"

subsection \<open>A round only adds the watchdog's rows\<close>

definition watch_row :: "'t host \<Rightarrow> 't jrow \<Rightarrow> bool" where
  "watch_row H x \<longleftrightarrow> (stage x = ''watchdog-restore'' \<or> stage x = ''failed'') \<and> (\<exists>v. payload x = to_text H v)"

definition wrote :: "'t host \<Rightarrow> ('p, 't) watchdog \<Rightarrow> ('p, 't) watchdog \<Rightarrow> bool" where
  "wrote H w w' \<longleftrightarrow> (\<exists>xs. wgrows w xs w' \<and> (\<forall>x\<in>set xs. watch_row H x))"

lemma wrote_refl [simp]: "wrote H w w"
  unfolding wrote_def by (rule exI [of _ "[]"]) simp

lemma wrote_trans: "wrote H w v \<Longrightarrow> wrote H v w' \<Longrightarrow> wrote H w w'"
  unfolding wrote_def using wgrows_trans by (metis Un_iff set_append)

lemma reclaim_one_wrote:
  assumes "reclaim_one H P u w = (r, w')"
  shows "wrote H w w'"
  using assms
proof (cases rule: reclaim_one_cases)
  case (restored p xs)
  have "stage x = ''watchdog-restore'' \<or> stage x = ''failed''" if "x \<in> set xs" for x
  proof -
    have "xs \<noteq> []" using that by auto
    then have "set (map stage xs) = {''watchdog-restore'', ''failed''}" using restored(5) by simp
    then show ?thesis using that by auto
  qed
  with restored(3,8) show ?thesis
    unfolding wrote_def watch_row_def by (intro exI [of _ xs]) blast
next
  case (failed er p xs)
  then show ?thesis by (auto simp: wrote_def watch_row_def)
qed

lemma reclaim_each_wrote: "reclaim_each H P pol us w = (r, w') \<Longrightarrow> wrote H w w'"
proof (induction us arbitrary: w r w')
  case (Cons u us)
  obtain r1 w1 where 1: "reclaim_one H P u w = (r1, w1)" by fastforce
  obtain r2 w2 where 2: "reclaim_each H P pol us w1 = (r2, w2)" by fastforce
  show ?case
  proof (cases "selected_by u pol")
    case True
    then have "w' = w1 \<or> w' = w2"
      using Cons.prems 1 2 by (auto split: sum.splits)
    then show ?thesis
      using reclaim_one_wrote [OF 1] Cons.IH [OF 2] wrote_trans by blast
  qed (use Cons in simp)
qed simp

lemma scan_wgrows: "scan H w = (r, w') \<Longrightarrow> wgrows w [] w' \<and> w_provider w' = w_provider w"
  by (cases rule: scan_cases) (auto simp: wgrows_def)

lemma reclaim_wrote:
  assumes "reclaim H P pol w = (r, w')"
  shows "wrote H w w'"
proof -
  obtain r1 w1 where 1: "scan H w = (r1, w1)" by fastforce
  have "wrote H w w1" using scan_wgrows [OF 1] by (auto simp: wrote_def intro: exI [of _ "[]"])
  moreover have "wrote H w1 w'"
    using assms 1 reclaim_each_wrote [of H P pol _ w1 r w'] by (cases r1) (auto simp: reclaim_def)
  ultimately show ?thesis by (rule wrote_trans)
qed

lemma polls_wrote: "polls H P pol n (w, out) = (w', out') \<Longrightarrow> wrote H w w'"
proof (induction n arbitrary: w' out')
  case (Suc n)
  obtain v o1 where 1: "polls H P pol n (w, out) = (v, o1)" by fastforce
  obtain r w1 where 2: "reclaim H P pol v = (r, w1)" by fastforce
  have "wrote H v w'" using reclaim_wrote [OF 2] 1 2 Suc.prems by (simp add: poll_round_def)
  with Suc.IH [OF 1] show ?case by (rule wrote_trans)
qed simp

subsection \<open>Statements that work from some point on\<close>

definition steady_from :: "nat \<Rightarrow> 't host \<Rightarrow> bool" where
  "steady_from N H \<longleftrightarrow> (\<forall>m\<ge>N. stmt_fault H m = None)"

lemma statement_calm:
  "steady_from N H \<Longrightarrow> N \<le> jclock j \<Longrightarrow> statement H body j = statement (calm H) body j"
  by (simp add: statement_def steady_from_def calm_def)

lemma calm_stamp [simp]: "stamp (calm H) j = stamp H j" "now_ms (calm H) = now_ms H"
  by (simp_all add: stamp_def calm_def)

lemma calm_text [simp]: "from_text (calm H) dec t = from_text H dec t"
  by (simp add: from_text_def split: sum.split)

lemma calm_unclosed [simp]: "unclosed_of (calm H) = unclosed_of H"
  by (simp add: unclosed_of_def fun_eq_iff split: prod.split sum.split)

lemma insert_record_calm:
  "steady_from N H \<Longrightarrow> N \<le> jclock j \<Longrightarrow> insert_record H e st pid t j = insert_record (calm H) e st pid t j"
  by (simp add: insert_record_def statement_calm)

lemma query_calm: "steady_from N H \<Longrightarrow> N \<le> jclock j \<Longrightarrow> query H sel j = query (calm H) sel j"
  by (simp add: query_def statement_calm)

lemma statement_clock:
  "statement H body j = (r, j') \<Longrightarrow> (\<And>k x k'. body k = (Inr x, k') \<Longrightarrow> jclock k' = jclock k) \<Longrightarrow>
   jclock j' = Suc (jclock j)"
  by (auto simp: statement_def split: option.splits sum.splits prod.splits)

lemma append_rows_clock: "append_rows rs x k = (Inr y, k') \<Longrightarrow> jclock k' = jclock k"
  by (auto simp: append_rows_def split: if_splits)

lemma record_success_calm:
  assumes "steady_from N H" "N \<le> jclock j"
  shows "record_success H e pid reason s j = record_success (calm H) e pid reason s j"
  by (simp add: record_success_def statement_calm [OF assms])

lemma record_success_clock: "record_success H e pid reason s j = (r, j') \<Longrightarrow> jclock j \<le> jclock j'"
  by (auto simp: record_success_def split: prod.splits dest!: statement_clock intro: append_rows_clock)

lemma last_failure_matches_clock:
  "last_failure_matches H e er j = (r, j') \<Longrightarrow> jclock j' = Suc (jclock j)"
  by (auto simp: last_failure_matches_def query_def split: prod.splits sum.splits option.splits
      dest!: statement_clock)

lemma record_failure_calm:
  assumes "steady_from N H" "N \<le> jclock j"
  shows "record_failure H e pid reason s er j = record_failure (calm H) e pid reason s er j"
proof -
  have 1: "last_failure_matches H e er j = last_failure_matches (calm H) e er j"
    by (simp add: last_failure_matches_def query_calm [OF assms] split: prod.split sum.split option.split)
  obtain r j1 where 2: "last_failure_matches H e er j = (r, j1)" by fastforce
  have "N \<le> jclock j1" using last_failure_matches_clock [OF 2] assms(2) by simp
  note same = insert_record_calm [OF assms(1) this]
  have 3: "last_failure_matches (calm H) e er j = (r, j1)" using 1 2 by simp
  show ?thesis
    by (simp add: record_failure_def 2 3 same split: sum.split bool.split)
qed

lemma record_failure_clock: "record_failure H e pid reason s er j = (r, j') \<Longrightarrow> jclock j \<le> jclock j'"
  by (auto simp: record_failure_def insert_record_def split: prod.splits sum.splits bool.splits
      dest!: last_failure_matches_clock statement_clock intro: append_rows_clock)

lemma reclaim_one_calm:
  assumes "steady_from N H" "N \<le> jclock (w_journal w)"
  shows "reclaim_one H P u w = reclaim_one (calm H) P u w"
  using record_success_calm [OF assms] record_failure_calm [OF assms]
  by (simp add: reclaim_one_def Let_def split: prod.split sum.split)

lemma reclaim_one_clock: "reclaim_one H P u w = (r, w') \<Longrightarrow> jclock (w_journal w) \<le> jclock (w_journal w')"
  by (auto simp: reclaim_one_def Let_def split: prod.splits sum.splits
      dest!: record_success_clock record_failure_clock)

lemma reclaim_each_calm:
  assumes "steady_from N H" "N \<le> jclock (w_journal w)"
  shows "reclaim_each H P pol us w = reclaim_each (calm H) P pol us w"
  using assms(2)
proof (induction us arbitrary: w)
  case (Cons u us)
  obtain r w1 where 1: "reclaim_one H P u w = (r, w1)" by fastforce
  then have "reclaim_one (calm H) P u w = (r, w1)" "N \<le> jclock (w_journal w1)"
    using reclaim_one_calm [OF assms(1) Cons.prems, of P u] reclaim_one_clock [OF 1] Cons.prems by simp_all
  with 1 Cons.IH [of w1] Cons.IH [of w] Cons.prems show ?case
    by (simp split: sum.split prod.split)
qed simp

lemma scan_calm:
  assumes "steady_from N H" "N \<le> jclock (w_journal w)"
  shows "scan H w = scan (calm H) w"
proof -
  have ready: "journal_ready H (w_journal w) = journal_ready (calm H) (w_journal w)"
    by (simp add: journal_ready_def statement_calm [OF assms])
  obtain r j1 where 1: "journal_ready H (w_journal w) = (r, j1)" by fastforce
  then have "jclock j1 = Suc (jclock (w_journal w))"
    by (auto simp: journal_ready_def dest!: statement_clock)
  then have "query H sel j1 = query (calm H) sel j1" for sel :: "'a journal \<Rightarrow> ('a jrow \<times> 'a jrow) list"
    using query_calm [OF assms(1), of j1 sel] assms(2) by simp
  with 1 ready [symmetric] show ?thesis
    by (cases r) (simp_all add: scan_def unclosed_experiments_def split: sum.split prod.split)
qed

lemma scan_ticks: "scan H w = (r, w') \<Longrightarrow> Suc (jclock (w_journal w)) \<le> jclock (w_journal w')"
  by (auto simp: scan_def unclosed_experiments_def journal_ready_def query_def
      split: prod.splits sum.splits if_splits dest!: statement_clock)

lemma reclaim_calm:
  assumes "steady_from N H" "N \<le> jclock (w_journal w)"
  shows "reclaim H P pol w = reclaim (calm H) P pol w"
proof -
  obtain r w1 where 1: "scan H w = (r, w1)" by fastforce
  have "N \<le> jclock (w_journal w1)" using scan_ticks [OF 1] assms(2) by simp
  then show ?thesis
    using 1 scan_calm [OF assms, symmetric] reclaim_each_calm [OF assms(1), of w1 P pol]
    by (simp add: reclaim_def split: sum.split)
qed

lemma reclaim_ticks: "reclaim H P pol w = (r, w') \<Longrightarrow> Suc (jclock (w_journal w)) \<le> jclock (w_journal w')"
proof -
  assume a: "reclaim H P pol w = (r, w')"
  obtain r1 w1 where 1: "scan H w = (r1, w1)" by fastforce
  have each: "reclaim_each H P pol us v = (r2, v') \<Longrightarrow> jclock (w_journal v) \<le> jclock (w_journal v')" for us v r2 v'
  proof (induction us arbitrary: v r2)
    case (Cons u us)
    then show ?case
      by (fastforce split: if_splits prod.splits sum.splits dest!: reclaim_one_clock)
  qed simp
  from a 1 scan_ticks [OF 1] show ?thesis
    by (auto simp: reclaim_def split: sum.splits dest!: each)
qed

lemma polls_ticks:
  "polls H P pol n (w, out) = (w', out') \<Longrightarrow> jclock (w_journal w) + n \<le> jclock (w_journal w')"
proof (induction n arbitrary: w' out')
  case (Suc n)
  obtain v o1 where 1: "polls H P pol n (w, out) = (v, o1)" by fastforce
  obtain r w1 where 2: "reclaim H P pol v = (r, w1)" by fastforce
  show ?case using Suc.IH [OF 1] reclaim_ticks [OF 2] 1 2 Suc.prems by (simp add: poll_round_def)
qed simp

subsection \<open>What the loop can recover\<close>

text \<open>
  Every open experiment decodes, can be restored, and is over its lease on every clock reading from
  statement \<open>N\<close> on.
\<close>

definition recoverable :: "'t host \<Rightarrow> 'p provider_ops \<Rightarrow> nat \<Rightarrow> ('p, 't) watchdog \<Rightarrow> bool" where
  "recoverable H P N w \<longleftrightarrow> readable (calm H) (w_journal w) \<and>
     (\<forall>(i, s)\<in>set (unclosed_rows (w_provider_id w) (jrows (w_journal w))). \<exists>snap c.
        from_text H snapshot_of_json (payload s) = Inr snap \<and> from_text H change_of_json (payload i) = Inr c \<and>
        (\<forall>p. fst (restore_state P snap p) = Inr ()) \<and>
        (\<forall>m\<ge>N. lease_expired (age_seconds (now_ms H m) i) (lease_seconds c)))"

lemma unclosed_rows_watch:
  assumes "\<forall>x\<in>set xs. watch_row H x"
  shows "set (unclosed_rows pid (rs @ xs)) \<subseteq> set (unclosed_rows pid rs)"
proof
  fix p
  assume p: "p \<in> set (unclosed_rows pid (rs @ xs))"
  obtain i s where is_: "p = (i, s)" by fastforce
  show "p \<in> set (unclosed_rows pid rs)"
    using p assms unfolding is_ in_unclosed_rows by (auto simp: terminal_for_iff watch_row_def)
qed

lemma recoverable_wrote:
  assumes "recoverable H P N w" "wrote H w v" "\<forall>t. is_ok (of_text H (to_text H t))"
  shows "recoverable H P N v"
proof -
  obtain xs where xs: "wgrows w xs v" "\<forall>x\<in>set xs. watch_row H x" using assms(2) by (auto simp: wrote_def)
  then have "readable (calm H) (w_journal v)"
    using assms(1,3) by (auto simp: recoverable_def readable_def wgrows_def watch_row_def)
  moreover have "set (unclosed_rows (w_provider_id v) (jrows (w_journal v))) \<subseteq>
      set (unclosed_rows (w_provider_id w) (jrows (w_journal w)))"
    using unclosed_rows_watch [OF xs(2)] xs(1) by (simp add: wgrows_def)
  ultimately show ?thesis using assms(1) unfolding recoverable_def by blast
qed

lemma recoverable_scan:
  assumes "recoverable H P N w" "N \<le> jclock (w_journal w)"
  shows "\<exists>us w1. scan (calm H) w = (Inr us, w1) \<and>
    (\<forall>u\<in>set us. un_expired u \<and> (\<forall>p. fst (restore_state P (un_snapshot u) p) = Inr ()))"
proof -
  let ?rs = "unclosed_rows (w_provider_id w) (jrows (w_journal w))"
    and ?now = "now_ms H (Suc (jclock (w_journal w)))"
  have "\<exists>u. unclosed_of H ?now q = Inr u \<and> un_expired u \<and> (\<forall>p. fst (restore_state P (un_snapshot u) p) = Inr ())"
    if "q \<in> set ?rs" for q
  proof -
    obtain i s where q: "q = (i, s)" by fastforce
    have "\<exists>snap c. from_text H snapshot_of_json (payload s) = Inr snap \<and>
        from_text H change_of_json (payload i) = Inr c \<and> (\<forall>p. fst (restore_state P snap p) = Inr ()) \<and>
        (\<forall>m\<ge>N. lease_expired (age_seconds (now_ms H m) i) (lease_seconds c))"
      using assms(1) that unfolding q recoverable_def by auto
    then show ?thesis using assms(2) unfolding q unclosed_of_Inr by auto
  qed
  then obtain us where "decode_rows (unclosed_of H ?now) ?rs = Inr us"
    "\<forall>u\<in>set us. un_expired u \<and> (\<forall>p. fst (restore_state P (un_snapshot u) p) = Inr ())"
    using decode_rows_all [of ?rs "unclosed_of H ?now"
        "\<lambda>u. un_expired u \<and> (\<forall>p. fst (restore_state P (un_snapshot u) p) = Inr ())"] by auto
  moreover have "jtable (w_journal w)" using assms(1) by (simp add: recoverable_def readable_def)
  ultimately show ?thesis
    by (simp add: scan_def unclosed_experiments_def journal_ready_def query_def statement_def
        no_faults_tick)
qed

lemma round_closes:
  assumes "steady_from N H" "recoverable H P N w" "N \<le> jclock (w_journal w)"
    and "\<forall>t. is_ok (of_text H (to_text H t))" "reclaim H P ExpiredLeasesOnly w = (r, w')"
  shows "is_ok r \<and> (\<forall>e. \<not> leaked (w_provider_id w) (jrows (w_journal w')) e)"
proof -
  obtain us w1 where us: "scan (calm H) w = (Inr us, w1)"
    "\<forall>u\<in>set us. un_expired u \<and> (\<forall>p. fst (restore_state P (un_snapshot u) p) = Inr ())"
    using recoverable_scan [OF assms(2,3)] by blast
  have rd: "readable (calm H) (w_journal w)" using assms(2) by (simp add: recoverable_def)
  have tx: "\<forall>v. is_ok (of_text (calm H) (to_text (calm H) v))" using assms(4) by simp
  obtain rs v where out: "reclaim (calm H) P ExpiredLeasesOnly w = (Inr rs, v)"
    "map rs_experiment rs = map un_experiment (filter (\<lambda>u. selected_by u ExpiredLeasesOnly) us)"
    "\<forall>e. leaked (w_provider_id w) (jrows (w_journal v)) e \<longleftrightarrow>
       leaked (w_provider_id w) (jrows (w_journal w)) e \<and> \<not> (\<exists>r\<in>set rs. rs_experiment r = e \<and> rs_restored r)"
    using pass_outcome [OF rd tx us(1), of P ExpiredLeasesOnly] by blast
  have all: "filter (\<lambda>u. selected_by u ExpiredLeasesOnly) us = us"
    using us(2) by simp
  have "reclaim_each (calm H) P ExpiredLeasesOnly us w1 = (Inr rs, v)"
    using out(1) us(1) by (simp add: reclaim_def)
  then have "\<forall>r\<in>set rs. rs_restored r"
    using us(2) by (intro reclaim_each_all_restored) auto
  moreover have "e \<in> rs_experiment ` set rs" if "leaked (w_provider_id w) (jrows (w_journal w)) e" for e
    using scan_experiments_readable [OF rd us(1)] that out(2) all by (metis list.set_map mem_Collect_eq)
  ultimately have "\<forall>e. \<not> leaked (w_provider_id w) (jrows (w_journal v)) e" using out(3) by fastforce
  then show ?thesis using out(1) assms(5) reclaim_calm [OF assms(1,3), of P ExpiredLeasesOnly] by auto
qed

lemma round_quiet:
  assumes "steady_from N H" "N \<le> jclock (w_journal w)" "jtable (w_journal w)"
    and "\<forall>e. \<not> leaked (w_provider_id w) (jrows (w_journal w)) e"
  shows "\<exists>w'. reclaim H P pol w = (Inr [], w') \<and> w_provider w' = w_provider w \<and>
    jrows (w_journal w') = jrows (w_journal w)"
proof -
  obtain w' where "scan (calm H) w = (Inr [], w')" "w_provider w' = w_provider w"
    "jrows (w_journal w') = jrows (w_journal w)"
    using scan_no_leaks [of "calm H" w] assms(3,4) by auto
  then show ?thesis
    using reclaim_calm [OF assms(1,2), of P pol] by (simp add: reclaim_def)
qed

subsection \<open>Property\<close>

text \<open>
  C13: The watchdog gets there in the end.  Let the statements on the journal fail in any way before some
  statement \<open>N\<close> and work from then on, and let every experiment left open decode, be restorable and be
  over its lease.  After more than \<open>N\<close> rounds of the steady-state loop no experiment of this provider is
  leaked, and every later round prints nothing, leaves the provider alone and writes nothing: a
  failing round is retried and never makes the loop stop or give up.
\<close>

theorem watchdog_loop_recovers:
  assumes "steady_from N H" "recoverable H P N w" "\<forall>t. is_ok (of_text H (to_text H t))"
    and "polls H P ExpiredLeasesOnly n (w, out) = (w', out')" "N < n"
  shows "(\<forall>e. \<not> leaked (w_provider_id w) (jrows (w_journal w')) e) \<and>
    (\<exists>w''. polls H P ExpiredLeasesOnly (n + k) (w, out) = (w'', out') \<and>
       w_provider w'' = w_provider w' \<and> jrows (w_journal w'') = jrows (w_journal w'))"
proof -
  obtain m where n: "n = Suc m" "N \<le> m" using assms(5) by (cases n) auto
  obtain v o1 where v: "polls H P ExpiredLeasesOnly m (w, out) = (v, o1)" by fastforce
  obtain r v' where r: "reclaim H P ExpiredLeasesOnly v = (r, v')" by fastforce
  have w': "w' = v'" using assms(4) v r n by (simp add: poll_round_def)
  have ck: "N \<le> jclock (w_journal v)" using polls_ticks [OF v] n(2) by simp
  have id: "w_provider_id v = w_provider_id w"
    using polls_wrote [OF v] by (auto simp: wrote_def wgrows_def)
  have rec: "recoverable H P N v" using recoverable_wrote [OF assms(2) polls_wrote [OF v] assms(3)] .
  have clean: "\<forall>e. \<not> leaked (w_provider_id w) (jrows (w_journal w')) e"
    using round_closes [OF assms(1) rec ck assms(3) r] id w' by simp
  have "\<exists>w''. polls H P ExpiredLeasesOnly (n + k) (w, out) = (w'', out') \<and>
      w_provider w'' = w_provider w' \<and> jrows (w_journal w'') = jrows (w_journal w')"
  proof (induction k)
    case (Suc k)
    then obtain u where u: "polls H P ExpiredLeasesOnly (n + k) (w, out) = (u, out')"
      "w_provider u = w_provider w'" "jrows (w_journal u) = jrows (w_journal w')" by blast
    have "jtable (w_journal u)" "w_provider_id u = w_provider_id w"
      using recoverable_wrote [OF assms(2) polls_wrote [OF u(1)] assms(3)] polls_wrote [OF u(1)]
      by (auto simp: recoverable_def readable_def wrote_def wgrows_def)
    moreover have "N \<le> jclock (w_journal u)" using polls_ticks [OF u(1)] assms(5) by simp
    ultimately obtain w'' where "reclaim H P ExpiredLeasesOnly u = (Inr [], w'')"
      "w_provider w'' = w_provider u" "jrows (w_journal w'') = jrows (w_journal u)"
      using round_quiet [OF assms(1), of u P ExpiredLeasesOnly] clean u(3) by auto
    with u show ?case by (simp add: poll_round_def round_lines_def)
  qed (use assms(4) in simp)
  with clean show ?thesis by blast
qed

text \<open>A journal whose first three statements fail, on a clock on which the lease has run out.\<close>

definition flaky_host :: "json host" where
  "flaky_host = plain_host\<lparr>stmt_fault := \<lambda>n. if n < 3 then Some (Sqlite_fault ''database is locked'') else None,
     now_ms := \<lambda>n. 60000\<rparr>"

theorem watchdog_loop_recovers_witness:
  "\<exists>w out. polls flaky_host (mock_ops ''linux'') ExpiredLeasesOnly 4 (leak_watchdog, []) = (w, out) \<and>
     (\<forall>e. \<not> leaked ''mock'' (jrows (w_journal w)) e)"
proof -
  obtain w out where p: "polls flaky_host (mock_ops ''linux'') ExpiredLeasesOnly 4 (leak_watchdog, []) = (w, out)"
    by fastforce
  have s: "steady_from 3 flaky_host" by (simp add: steady_from_def flaky_host_def)
  have "lease_expired (Some 60) (lease_seconds demo_request)"
    by (simp add: lease_expired_iff demo_request_def)
  moreover have "\<forall>x\<in>set (jrows leak_journal). is_ok (of_text flaky_host (payload x))"
    by (simp add: flaky_host_def plain_host_def)
  ultimately have rec: "recoverable flaky_host (mock_ops ''linux'') 3 leak_watchdog"
    using demo_restores [of "''linux''"]
    by (simp add: recoverable_def readable_def unclosed_rows_def terminal_for_def from_text_def
        snapshot_format.dec_enc change_format.dec_enc demo_request_ok age_seconds_def seconds_def
        flaky_host_def plain_host_def leak_journal_def)
  show ?thesis
    using watchdog_loop_recovers [OF s rec _ p] p by (simp add: flaky_host_def plain_host_def)
qed

end
