(* ===== verification/Experiment.thy ===== *)
theory Experiment
  imports Contracts
begin

section \<open>Experiment contracts (\<open>crates/contracts/src/lib.rs\<close>, second half)\<close>

text \<open>
  Measurements, their aggregates, the decision bounds with the policy envelope that limits
  them, the experiment specification an agent authors, and the evaluator's verdict.
\<close>

subsection \<open>Policy envelope\<close>

definition MAX_DECISION_TEMPERATURE_C :: f64 where
  "MAX_DECISION_TEMPERATURE_C = Fin 90"

definition MAX_DECISION_POWER_W :: f64 where
  "MAX_DECISION_POWER_W = Fin 250"

definition MAX_DECISION_ERRORS :: u64 where
  "MAX_DECISION_ERRORS = 0"

definition MAX_SAMPLES :: u32 where
  "MAX_SAMPLES = 10000"

definition MAX_HYPOTHESIS_CHARS :: u32 where
  "MAX_HYPOTHESIS_CHARS = 4096"

definition MIN_HYPOTHESIS_CHARS :: u32 where
  "MIN_HYPOTHESIS_CHARS = 1"

subsection \<open>Samples and summaries\<close>

record metric_sample =
  fps :: f64
  temperature_c :: f64
  power_w :: f64
  errors :: u64

record metric_summary =
  sum_samples :: u64
  mean_fps :: f64
  sum_temperature_c :: f64
  sum_power_w :: f64
  total_errors :: u64

definition sample_ok :: "metric_sample \<Rightarrow> bool" where
  "sample_ok s \<longleftrightarrow> f64_is_finite (fps s) \<and> f64_is_finite (temperature_c s) \<and>
     f64_is_finite (power_w s)"

definition summary_ok :: "metric_summary \<Rightarrow> bool" where
  "summary_ok s \<longleftrightarrow> f64_is_finite (mean_fps s) \<and> f64_is_finite (sum_temperature_c s) \<and>
     f64_is_finite (sum_power_w s)"

definition sample_json :: "metric_sample \<Rightarrow> json" where
  "sample_json s = obj
     [(''fps'', enc_f64 (fps s)), (''temperature_c'', enc_f64 (temperature_c s)),
      (''power_w'', enc_f64 (power_w s)), (''errors'', num (errors s))]"

definition sample_of_json :: "json \<Rightarrow> metric_sample option" where
  "sample_of_json v = do {
     m \<leftarrow> struct_fields [''fps'', ''temperature_c'', ''power_w'', ''errors''] v;
     f \<leftarrow> req m ''fps'' dec_f64;
     t \<leftarrow> req m ''temperature_c'' dec_f64;
     p \<leftarrow> req m ''power_w'' dec_f64;
     e \<leftarrow> req m ''errors'' as_u64;
     Some \<lparr>fps = f, temperature_c = t, power_w = p, errors = e\<rparr>
   }"

definition summary_json :: "metric_summary \<Rightarrow> json" where
  "summary_json s = obj
     [(''samples'', num (sum_samples s)), (''mean_fps'', enc_f64 (mean_fps s)),
      (''max_temperature_c'', enc_f64 (sum_temperature_c s)),
      (''max_power_w'', enc_f64 (sum_power_w s)), (''total_errors'', num (total_errors s))]"

definition summary_of_json :: "json \<Rightarrow> metric_summary option" where
  "summary_of_json v = do {
     m \<leftarrow> struct_fields
       [''samples'', ''mean_fps'', ''max_temperature_c'', ''max_power_w'', ''total_errors''] v;
     n \<leftarrow> req m ''samples'' as_u64;
     f \<leftarrow> req m ''mean_fps'' dec_f64;
     t \<leftarrow> req m ''max_temperature_c'' dec_f64;
     p \<leftarrow> req m ''max_power_w'' dec_f64;
     e \<leftarrow> req m ''total_errors'' as_u64;
     Some \<lparr>sum_samples = n, mean_fps = f, sum_temperature_c = t, sum_power_w = p,
           total_errors = e\<rparr>
   }"

interpretation sample_format: wire_format sample_json sample_of_json sample_ok
  by unfold_locales (simp add: sample_json_def sample_of_json_def sample_ok_def)

interpretation summary_format: wire_format summary_json summary_of_json summary_ok
  by unfold_locales (simp add: summary_json_def summary_of_json_def summary_ok_def)

interpretation sample_list: wire_list sample_json sample_of_json sample_ok
  by unfold_locales

subsection \<open>Bounds and specifications\<close>

record decision_bounds =
  min_samples :: u32
  min_fps_improvement :: f64
  max_temperature_c :: f64
  max_power_w :: f64
  max_errors :: u64

record experiment_spec =
  hypothesis :: string
  target :: change_request
  warmup_samples :: u32
  baseline_samples :: u32
  candidate_samples :: u32
  bounds :: decision_bounds

definition bounds_ok :: "decision_bounds \<Rightarrow> bool" where
  "bounds_ok b \<longleftrightarrow> min_samples b \<noteq> 0 \<and> f64_is_finite (min_fps_improvement b) \<and>
     f64_is_finite (max_temperature_c b) \<and> f64_is_finite (max_power_w b)"

definition spec_ok :: "experiment_spec \<Rightarrow> bool" where
  "spec_ok s \<longleftrightarrow> change_ok (target s) \<and> baseline_samples s \<noteq> 0 \<and> candidate_samples s \<noteq> 0 \<and>
     bounds_ok (bounds s)"

definition bounds_json :: "decision_bounds \<Rightarrow> json" where
  "bounds_json b = obj
     [(''min_samples'', enc_u32 (min_samples b)),
      (''min_fps_improvement'', enc_f64 (min_fps_improvement b)),
      (''max_temperature_c'', enc_f64 (max_temperature_c b)),
      (''max_power_w'', enc_f64 (max_power_w b)), (''max_errors'', num (max_errors b))]"

definition bounds_of_json :: "json \<Rightarrow> decision_bounds option" where
  "bounds_of_json v = do {
     m \<leftarrow> struct_fields [''min_samples'', ''min_fps_improvement'', ''max_temperature_c'',
       ''max_power_w'', ''max_errors''] v;
     n \<leftarrow> req m ''min_samples'' dec_nonzero_u32;
     f \<leftarrow> req m ''min_fps_improvement'' dec_f64;
     t \<leftarrow> req m ''max_temperature_c'' dec_f64;
     p \<leftarrow> req m ''max_power_w'' dec_f64;
     e \<leftarrow> req m ''max_errors'' as_u64;
     Some \<lparr>min_samples = n, min_fps_improvement = f, max_temperature_c = t, max_power_w = p,
           max_errors = e\<rparr>
   }"

definition spec_json :: "experiment_spec \<Rightarrow> json" where
  "spec_json s = obj
     [(''hypothesis'', Str (hypothesis s)), (''target'', change_json (target s)),
      (''warmup_samples'', enc_u32 (warmup_samples s)),
      (''baseline_samples'', enc_u32 (baseline_samples s)),
      (''candidate_samples'', enc_u32 (candidate_samples s)),
      (''bounds'', bounds_json (bounds s))]"

definition spec_of_json :: "json \<Rightarrow> experiment_spec option" where
  "spec_of_json v = do {
     m \<leftarrow> struct_fields [''hypothesis'', ''target'', ''warmup_samples'', ''baseline_samples'',
       ''candidate_samples'', ''bounds''] v;
     h \<leftarrow> req m ''hypothesis'' as_str;
     t \<leftarrow> req m ''target'' change_of_json;
     w \<leftarrow> req m ''warmup_samples'' dec_u32;
     b \<leftarrow> req m ''baseline_samples'' dec_nonzero_u32;
     c \<leftarrow> req m ''candidate_samples'' dec_nonzero_u32;
     d \<leftarrow> req m ''bounds'' bounds_of_json;
     Some \<lparr>hypothesis = h, target = t, warmup_samples = w, baseline_samples = b,
           candidate_samples = c, bounds = d\<rparr>
   }"

interpretation bounds_format: wire_format bounds_json bounds_of_json bounds_ok
  by unfold_locales (simp add: bounds_json_def bounds_of_json_def bounds_ok_def)

interpretation spec_format: wire_format spec_json spec_of_json spec_ok
  by unfold_locales
    (simp add: spec_json_def spec_of_json_def spec_ok_def change_format.dec_enc
      bounds_format.dec_enc)

subsection \<open>Verdicts\<close>

record verdict =
  decision :: decision
  reason :: verdict_reason
  fps_improvement :: f64
  v_baseline :: metric_summary
  v_candidate :: metric_summary

definition verdict_ok :: "verdict \<Rightarrow> bool" where
  "verdict_ok v \<longleftrightarrow> f64_is_finite (fps_improvement v) \<and> summary_ok (v_baseline v) \<and>
     summary_ok (v_candidate v)"

definition verdict_json :: "verdict \<Rightarrow> json" where
  "verdict_json v = obj
     [(''decision'', enum_enc decision_wire (decision v)),
      (''reason'', enum_enc reason_wire (reason v)),
      (''fps_improvement'', enc_f64 (fps_improvement v)),
      (''baseline'', summary_json (v_baseline v)), (''candidate'', summary_json (v_candidate v))]"

definition verdict_of_json :: "json \<Rightarrow> verdict option" where
  "verdict_of_json v = do {
     m \<leftarrow> struct_fields [''decision'', ''reason'', ''fps_improvement'', ''baseline'',
       ''candidate''] v;
     d \<leftarrow> req m ''decision'' (enum_dec decision_wire decision_variants);
     r \<leftarrow> req m ''reason'' (enum_dec reason_wire reason_variants);
     f \<leftarrow> req m ''fps_improvement'' dec_f64;
     b \<leftarrow> req m ''baseline'' summary_of_json;
     c \<leftarrow> req m ''candidate'' summary_of_json;
     Some \<lparr>decision = d, reason = r, fps_improvement = f, v_baseline = b, v_candidate = c\<rparr>
   }"

interpretation verdict_format: wire_format verdict_json verdict_of_json verdict_ok
  by unfold_locales
    (simp add: verdict_json_def verdict_of_json_def verdict_ok_def decision_format.dec_enc
      reason_format.dec_enc summary_format.dec_enc)

text \<open>
  \<open>PartialEq\<close> is derived, so it compares floats with \<open>==\<close>: a verdict holding a \<open>NaN\<close>
  is not equal to itself.
\<close>

definition summary_eq :: "metric_summary \<Rightarrow> metric_summary \<Rightarrow> bool" where
  "summary_eq a b \<longleftrightarrow>
     sum_samples a = sum_samples b \<and> f64_eq (mean_fps a) (mean_fps b) \<and>
     f64_eq (sum_temperature_c a) (sum_temperature_c b) \<and>
     f64_eq (sum_power_w a) (sum_power_w b) \<and> total_errors a = total_errors b"

definition verdict_eq :: "verdict \<Rightarrow> verdict \<Rightarrow> bool" where
  "verdict_eq a b \<longleftrightarrow>
     decision a = decision b \<and> reason a = reason b \<and>
     f64_eq (fps_improvement a) (fps_improvement b) \<and>
     summary_eq (v_baseline a) (v_baseline b) \<and> summary_eq (v_candidate a) (v_candidate b)"

lemma f64_is_finite_not_NaN: "f64_is_finite x \<Longrightarrow> f64_eq x x"
  by (auto simp: f64_eq_def f64_is_finite_def)

lemma verdict_eq_refl: "verdict_ok v \<Longrightarrow> verdict_eq v v"
  by (simp add: verdict_eq_def summary_eq_def verdict_ok_def summary_ok_def f64_is_finite_not_NaN)

lemma verdict_eq_imp_eq: "verdict_eq a b \<Longrightarrow> a = b"
  by (simp add: verdict_eq_def summary_eq_def f64_eq_def)

end
