(* ===== verification/Evaluator.thy ===== *)
theory Evaluator
  imports Experiment
begin

section \<open>The immutable evaluator and the measurement model (\<open>apps/experiment-runner\<close>)\<close>

text \<open>
  \<open>evaluator.rs\<close>: the aggregation of samples and the ordered decision rule.  \<open>model.rs\<close>: the
  deterministic stand-in for telemetry.  Both are pure; the loops are folds over the samples and
  over the range of indices, in the order the code runs them.
\<close>

subsection \<open>Aggregation\<close>

definition saturating_add :: "u64 \<Rightarrow> u64 \<Rightarrow> u64" where
  "saturating_add a b = (if unat a + unat b < 2 ^ 64 then a + b else - 1)"

definition saturating_sub :: "u64 \<Rightarrow> u64 \<Rightarrow> u64" where
  "saturating_sub a b = (if b \<le> a then a - b else 0)"

record accumulator =
  acc_sum_fps :: f64
  acc_divisor :: f64
  acc_temperature_c :: f64
  acc_power_w :: f64
  acc_errors :: u64

definition accumulate :: "accumulator \<Rightarrow> metric_sample \<Rightarrow> accumulator" where
  "accumulate a s =
     \<lparr>acc_sum_fps = acc_sum_fps a + fps s, acc_divisor = acc_divisor a + Fin 1,
      acc_temperature_c = f64_max (acc_temperature_c a) (temperature_c s),
      acc_power_w = f64_max (acc_power_w a) (power_w s),
      acc_errors = saturating_add (acc_errors a) (errors s)\<rparr>"

definition summarize :: "metric_sample list \<Rightarrow> metric_summary" where
  "summarize samples =
     (if samples = []
      then \<lparr>sum_samples = 0, mean_fps = 0, sum_temperature_c = 0, sum_power_w = 0, total_errors = 0\<rparr>
      else let a = foldl accumulate
                 \<lparr>acc_sum_fps = 0, acc_divisor = 0, acc_temperature_c = NInf, acc_power_w = NInf,
                  acc_errors = 0\<rparr> samples
           in \<lparr>sum_samples = of_nat (length samples), mean_fps = acc_sum_fps a / acc_divisor a,
               sum_temperature_c = acc_temperature_c a, sum_power_w = acc_power_w a,
               total_errors = acc_errors a\<rparr>)"

subsection \<open>The decision rule\<close>

definition evaluate :: "metric_sample list \<Rightarrow> metric_sample list \<Rightarrow> decision_bounds \<Rightarrow> verdict" where
  "evaluate baseline candidate b =
     (let bs = summarize baseline; cs = summarize candidate;
          improvement = mean_fps cs - mean_fps bs;
          min = (ucast (min_samples b) :: u64);
          reason =
            (if sum_samples bs < min \<or> sum_samples cs < min then InsufficientSamples
             else if max_temperature_c b < sum_temperature_c cs then TemperatureExceeded
             else if max_power_w b < sum_power_w cs then PowerExceeded
             else if max_errors b < total_errors cs then ErrorsExceeded
             else if min_fps_improvement b \<le> improvement then Promoted
             else InsufficientImprovement)
      in \<lparr>decision = (if reason = Promoted then Promote else Reject), reason = reason,
          fps_improvement = improvement, v_baseline = bs, v_candidate = cs\<rparr>)"

subsection \<open>The measurement model\<close>

definition MODELED_CAPABILITY_ID :: string where
  "MODELED_CAPABILITY_ID = ''mock.value''"

definition MODELED_PARAMETERS :: "string list" where
  "MODELED_PARAMETERS = [''value'']"

definition COLD_FPS :: f64 where
  "COLD_FPS = Fin 60"

definition BASE_FPS :: f64 where
  "BASE_FPS = Fin 60"

definition FPS_GAIN_PER_UNIT :: f64 where
  "FPS_GAIN_PER_UNIT = Fin 1"

definition BASE_TEMPERATURE_C :: f64 where
  "BASE_TEMPERATURE_C = Fin 50"

definition TEMPERATURE_C_PER_UNIT :: f64 where
  "TEMPERATURE_C_PER_UNIT = Fin (1 / 2)"

definition BASE_POWER_W :: f64 where
  "BASE_POWER_W = Fin 100"

definition POWER_W_PER_UNIT :: f64 where
  "POWER_W_PER_UNIT = Fin 1"

definition ERROR_ONSET :: u64 where
  "ERROR_ONSET = 90"

definition knob_to_setting :: "u64 \<Rightarrow> f64" where
  "knob_to_setting v = f64_of_u32 (if unat v < 2 ^ 32 then ucast v else - 1)"

definition sample_at :: "f64 \<Rightarrow> u64 \<Rightarrow> bool \<Rightarrow> metric_sample" where
  "sample_at setting v warming =
     \<lparr>fps = (if warming then COLD_FPS else BASE_FPS + FPS_GAIN_PER_UNIT * setting),
      temperature_c = BASE_TEMPERATURE_C + TEMPERATURE_C_PER_UNIT * setting,
      power_w = BASE_POWER_W + POWER_W_PER_UNIT * setting,
      errors = saturating_sub v ERROR_ONSET\<rparr>"

definition measure_samples :: "u64 \<Rightarrow> u32 \<Rightarrow> u32 \<Rightarrow> metric_sample list" where
  "measure_samples v warmup counted =
     (let setting = knob_to_setting v; w = (ucast warmup :: u64)
      in List.map_filter (\<lambda>(i, s). if w \<le> i then Some s else None)
           (map (\<lambda>n. let i = of_nat n in (i, sample_at setting v (i < w)))
              [0..<unat (w + ucast counted)]))"

lemmas model_defs = COLD_FPS_def BASE_FPS_def FPS_GAIN_PER_UNIT_def BASE_TEMPERATURE_C_def
  TEMPERATURE_C_PER_UNIT_def BASE_POWER_W_def POWER_W_PER_UNIT_def ERROR_ONSET_def

subsection \<open>Facts about aggregates\<close>

lemma unat_saturating_add: "unat (saturating_add a b) = min (unat a + unat b) (2 ^ 64 - 1)"
  by (auto simp: saturating_add_def unat_word_ariths unsigned_minus_1_eq_mask mask_eq_exp_minus_1)

lemma accumulate_temperature:
  "acc_temperature_c (foldl accumulate a xs) =
     foldl f64_max (acc_temperature_c a) (map temperature_c xs)"
  by (induction xs arbitrary: a) (simp_all add: accumulate_def)

lemma accumulate_power:
  "acc_power_w (foldl accumulate a xs) = foldl f64_max (acc_power_w a) (map power_w xs)"
  by (induction xs arbitrary: a) (simp_all add: accumulate_def)

lemma accumulate_errors:
  "unat (acc_errors (foldl accumulate a xs)) =
     min (unat (acc_errors a) + sum_list (map (unat \<circ> errors) xs)) (2 ^ 64 - 1)"
proof (induction xs arbitrary: a)
  case Nil
  have "unat (acc_errors a) < 2 ^ 64" using unsigned_less [of "acc_errors a"] by simp
  then show ?case by simp
next
  case (Cons x xs)
  show ?case
    by (simp only: foldl_Cons Cons.IH) (simp add: accumulate_def unat_saturating_add)
qed

text \<open>The fold of \<open>max\<close> is the worst value that is not a \<open>NaN\<close>.\<close>

lemma foldl_f64_max:
  "foldl f64_max a xs \<in> insert a (set xs) \<and>
   (\<forall>x\<in>insert a (set xs). x = NaN \<or> x \<le> foldl f64_max a xs)"
proof (induction xs arbitrary: a)
  case Nil
  then show ?case by auto
next
  case (Cons x xs)
  let ?m = "foldl f64_max (f64_max a x) xs"
  have "?m \<in> insert a (set (x # xs))"
    using Cons.IH [of "f64_max a x"] f64_max_cases [of a x] by auto
  moreover have "a = NaN \<or> a \<le> ?m"
    using Cons.IH [of "f64_max a x"] f64_max_ge1 [of a x]
    by (metis f64_le_trans f64_max_eq_NaN insertI1)
  moreover have "x = NaN \<or> x \<le> ?m"
    using Cons.IH [of "f64_max a x"] f64_max_ge2 [of x a]
    by (metis f64_le_trans f64_max_eq_NaN insertI1)
  ultimately show ?case using Cons.IH [of "f64_max a x"] by simp
qed

text \<open>
  The aggregate states only what the samples hold: the reported worst temperature and worst
  power of a non-empty set are values of a sample and no sample that is a number exceeds them (an
  all-negative set keeps its negative worst), the error total is the sum of the samples' errors
  capped at the largest \<open>u64\<close> instead of wrapping, and the count is the number of samples.
\<close>

theorem summarize_is_worst_case:
  assumes "samples \<noteq> []" "\<forall>s\<in>set samples. temperature_c s \<noteq> NaN \<and> power_w s \<noteq> NaN"
  shows "sum_temperature_c (summarize samples) \<in> temperature_c ` set samples \<and>
    (\<forall>s\<in>set samples. temperature_c s \<le> sum_temperature_c (summarize samples)) \<and>
    sum_power_w (summarize samples) \<in> power_w ` set samples \<and>
    (\<forall>s\<in>set samples. power_w s \<le> sum_power_w (summarize samples)) \<and>
    unat (total_errors (summarize samples)) =
      min (sum_list (map (unat \<circ> errors) samples)) (2 ^ 64 - 1) \<and>
    sum_samples (summarize samples) = of_nat (length samples)"
proof -
  have worst: "foldl f64_max NInf (map g samples) \<in> g ` set samples \<and>
      (\<forall>s\<in>set samples. g s \<le> foldl f64_max NInf (map g samples))"
    if "\<forall>s\<in>set samples. g s \<noteq> NaN" for g :: "metric_sample \<Rightarrow> f64"
  proof -
    obtain s rest where s: "samples = s # rest" using assms(1) by (cases samples) auto
    have "foldl f64_max NInf (map g samples) = foldl f64_max (g s) (map g rest)"
      using that s by simp
    then show ?thesis
      using foldl_f64_max [of "g s" "map g rest"] that s by auto
  qed
  show ?thesis
    using assms worst [of temperature_c] worst [of power_w]
      accumulate_errors [of "\<lparr>acc_sum_fps = 0, acc_divisor = 0, acc_temperature_c = NInf,
        acc_power_w = NInf, acc_errors = 0\<rparr>" samples]
    by (simp add: summarize_def Let_def accumulate_temperature accumulate_power)
qed

theorem summarize_is_worst_case_witness:
  "sum_temperature_c (summarize
     [\<lparr>fps = Fin 60, temperature_c = Fin (- 5), power_w = Fin 1, errors = - 1\<rparr>,
      \<lparr>fps = Fin 60, temperature_c = Fin (- 9), power_w = Fin 1, errors = 3\<rparr>]) \<in> {Fin (- 5), Fin (- 9)}"
  using summarize_is_worst_case
    [of "[\<lparr>fps = Fin 60, temperature_c = Fin (- 5), power_w = Fin 1, errors = - 1\<rparr>,
      \<lparr>fps = Fin 60, temperature_c = Fin (- 9), power_w = Fin 1, errors = 3\<rparr>]"]
  by simp

text \<open>
  C34: The decision rule.  A verdict promotes exactly when both sets hold the minimum number of
  samples, the candidate stays within the three ceilings and its mean gain is at least the required
  one; otherwise it rejects with the first criterion violated in the fixed order samples,
  temperature, power, errors, improvement.  The verdict carries the two aggregates it used.
\<close>

theorem evaluate_decision_rule:
  fixes baseline candidate b
  defines "bs \<equiv> summarize baseline" and "cs \<equiv> summarize candidate"
    and "v \<equiv> evaluate baseline candidate b"
  shows "(decision v = Promote \<longleftrightarrow>
      ucast (min_samples b) \<le> sum_samples bs \<and> ucast (min_samples b) \<le> sum_samples cs \<and>
      \<not> max_temperature_c b < sum_temperature_c cs \<and> \<not> max_power_w b < sum_power_w cs \<and>
      total_errors cs \<le> max_errors b \<and> min_fps_improvement b \<le> mean_fps cs - mean_fps bs) \<and>
    (reason v = InsufficientSamples \<longleftrightarrow>
      sum_samples bs < ucast (min_samples b) \<or> sum_samples cs < ucast (min_samples b)) \<and>
    (reason v = TemperatureExceeded \<longleftrightarrow> reason v \<noteq> InsufficientSamples \<and>
      max_temperature_c b < sum_temperature_c cs) \<and>
    (reason v = PowerExceeded \<longleftrightarrow> reason v \<notin> {InsufficientSamples, TemperatureExceeded} \<and>
      max_power_w b < sum_power_w cs) \<and>
    (reason v = ErrorsExceeded \<longleftrightarrow>
      reason v \<notin> {InsufficientSamples, TemperatureExceeded, PowerExceeded} \<and>
      max_errors b < total_errors cs) \<and>
    (decision v = Promote \<longleftrightarrow> reason v = Promoted) \<and>
    v_baseline v = bs \<and> v_candidate v = cs \<and> fps_improvement v = mean_fps cs - mean_fps bs"
  unfolding v_def bs_def cs_def
  by (auto simp: evaluate_def Let_def not_less not_le)


subsection \<open>What the model measures\<close>

lemma unat_widened_sum: "unat (ucast (a :: u32) + ucast (b :: u32) :: u64) = unat a + unat b"
proof -
  have "unat a + unat b < 2 ^ 64"
    by (rule le_less_trans [OF less_imp_le [OF add_strict_mono [OF unat_u32_less(2) unat_u32_less(2)]]]) simp
  then show ?thesis by (simp add: unat_word_ariths)
qed

lemma filter_upt: "filter (\<lambda>n. w \<le> n) [0..<w + k] = [w..<w + k]"
proof -
  have "[0..<w + k] = [0..<w] @ [w..<w + k]" by (rule upt_add_eq_append) simp
  moreover have "filter (\<lambda>n. w \<le> n) [0..<w] = []" by (simp add: filter_empty_conv)
  moreover have "filter (\<lambda>n. w \<le> n) [w..<w + k] = [w..<w + k]" by (simp add: filter_id_conv)
  ultimately show ?thesis by simp
qed

lemma map_filter_guard:
  "List.map_filter (\<lambda>x. if P x then Some (f x) else None) xs = map f (filter P xs)"
  by (induction xs) (simp_all add: List.map_filter_def)

lemma steady_measure:
  "measure_samples v warmup counted =
     replicate (unat counted) (sample_at (knob_to_setting v) v False)"
proof -
  define w where "w = (ucast warmup :: u64)"
  have lt: "unat warmup + unat counted < 2 ^ 64"
    by (rule le_less_trans [OF less_imp_le [OF add_strict_mono [OF unat_u32_less(2) unat_u32_less(2)]]]) simp
  have le: "w \<le> of_nat n \<longleftrightarrow> unat warmup \<le> n" if "n < unat warmup + unat counted" for n
    using that lt by (simp add: w_def word_le_nat_alt unat_of_nat)
  have "measure_samples v warmup counted =
      List.map_filter (\<lambda>n. if w \<le> of_nat n then Some (sample_at (knob_to_setting v) v (of_nat n < w)) else None)
        [0..<unat warmup + unat counted]"
    by (simp add: measure_samples_def Let_def unat_widened_sum List.map_filter_def comp_def
        split_def filter_map w_def)
  also have "\<dots> = map (\<lambda>n. sample_at (knob_to_setting v) v (of_nat n < w))
      (filter (\<lambda>n. w \<le> of_nat n) [0..<unat warmup + unat counted])"
    by (rule map_filter_guard)
  also have "filter (\<lambda>n. w \<le> of_nat n) [0..<unat warmup + unat counted] =
      [unat warmup..<unat warmup + unat counted]"
    using le by (subst filter_upt [symmetric]) (auto intro!: filter_cong)
  also have "map (\<lambda>n. sample_at (knob_to_setting v) v (of_nat n < w)) \<dots> =
      map (\<lambda>_. sample_at (knob_to_setting v) v False) [unat warmup..<unat warmup + unat counted]"
    using le by (intro map_cong) (auto simp: not_less [symmetric])
  finally show ?thesis by (simp add: map_replicate_const)
qed

text \<open>
  However long the warmup, the model returns exactly the requested number of samples and every
  one is the steady-state sample of the knob value: no cold-start sample is ever counted.
\<close>

theorem measure_is_steady:
  "measure_samples v warmup counted =
     replicate (unat counted) (sample_at (knob_to_setting v) v False)"
  by (rule steady_measure)

definition steady :: "u64 \<Rightarrow> metric_sample" where
  "steady v = \<lparr>fps = Fin (of_nat (60 + unat v)), temperature_c = Fin (50 + of_nat (unat v) / 2),
     power_w = Fin (of_nat (100 + unat v)), errors = saturating_sub v 90\<rparr>"

lemma f64_nat: "k < 2 ^ 52 \<Longrightarrow> round_f64 (of_nat k) = Fin (of_nat k)"
  using round_f64_exact [OF representable_of_int [of "int k"]] by simp

lemma sample_at_policy:
  assumes "v \<le> 100"
  shows "sample_at (knob_to_setting v) v False = steady v"
proof -
  have v: "unat v \<le> 100" using assms by (simp add: word_le_nat_alt)
  have half: "round_f64 (of_int k / 2) = Fin (of_int k / 2)" if "\<bar>k\<bar> < 1000" for k :: int
  proof -
    have "\<bar>k\<bar> < 2 ^ 53" using that by (rule less_trans) simp
    then show ?thesis by (intro round_f64_exact representable_half_int) simp_all
  qed
  have s: "knob_to_setting v = Fin (of_nat (unat v))"
    using v by (simp add: knob_to_setting_def f64_of_u32_def unsigned_ucast_eq take_bit_nat_eq_self)
  have nat: "round_f64 (of_nat (unat v)) = Fin (of_nat (unat v))"
    "round_f64 (60 + of_nat (unat v)) = Fin (60 + of_nat (unat v))"
    "round_f64 (100 + of_nat (unat v)) = Fin (100 + of_nat (unat v))"
    using v f64_nat [of "unat v"] f64_nat [of "60 + unat v"] f64_nat [of "100 + unat v"] by simp_all
  have "int (unat v) < 900" using v by linarith
  then have "uint v < 900" by simp
  then have "round_f64 (of_nat (unat v) / 2) = Fin (of_nat (unat v) / 2)"
    "round_f64 (50 + of_nat (unat v) / 2) = Fin (50 + of_nat (unat v) / 2)"
    using half [of "uint v"] half [of "100 + uint v"] by (simp_all add: add_divide_distrib)
  then show ?thesis
    using nat by (simp add: sample_at_def s model_defs steady_def f64_ops)
qed

lemma foldl_steady:
  assumes "unat v \<le> 100" "m + n \<le> 10000"
  shows "foldl accumulate \<lparr>acc_sum_fps = Fin (of_nat (m * (60 + unat v))), acc_divisor = Fin (of_nat m),
      acc_temperature_c = t, acc_power_w = p, acc_errors = k\<rparr> (replicate n (steady v)) =
    \<lparr>acc_sum_fps = Fin (of_nat ((m + n) * (60 + unat v))), acc_divisor = Fin (of_nat (m + n)),
      acc_temperature_c = (if n = 0 then t else f64_max t (temperature_c (steady v))),
      acc_power_w = (if n = 0 then p else f64_max p (power_w (steady v))),
      acc_errors = ((\<lambda>e. saturating_add e (errors (steady v))) ^^ n) k\<rparr>"
  using assms(2)
proof (induction n arbitrary: m t p k)
  case (Suc n)
  have "Suc m * (60 + unat v) \<le> 10000 * 160"
    using Suc.prems assms(1) by (intro mult_le_mono) auto
  then have "Suc m * (60 + unat v) < 2 ^ 52" by (rule le_less_trans) simp
  note sum = f64_nat [OF this]
  have "Suc m < 2 ^ 52" using Suc.prems by (intro le_less_trans [of "Suc m" 10000]) simp_all
  note count = f64_nat [OF this]
  have step: "accumulate \<lparr>acc_sum_fps = Fin (of_nat (m * (60 + unat v))), acc_divisor = Fin (of_nat m),
      acc_temperature_c = t, acc_power_w = p, acc_errors = k\<rparr> (steady v) =
    \<lparr>acc_sum_fps = Fin (of_nat (Suc m * (60 + unat v))), acc_divisor = Fin (of_nat (Suc m)),
      acc_temperature_c = f64_max t (temperature_c (steady v)),
      acc_power_w = f64_max p (power_w (steady v)), acc_errors = saturating_add k (errors (steady v))\<rparr>"
    using sum count by (simp add: accumulate_def steady_def f64_ops algebra_simps)
  have idem: "f64_max (f64_max a b) b = f64_max a b" for a b
    by (cases a; cases b) (auto simp: f64_max_def)
  have "foldl accumulate \<lparr>acc_sum_fps = Fin (of_nat (Suc m * (60 + unat v))), acc_divisor = Fin (of_nat (Suc m)),
      acc_temperature_c = f64_max t (temperature_c (steady v)),
      acc_power_w = f64_max p (power_w (steady v)), acc_errors = saturating_add k (errors (steady v))\<rparr>
      (replicate n (steady v)) =
    \<lparr>acc_sum_fps = Fin (of_nat ((Suc m + n) * (60 + unat v))), acc_divisor = Fin (of_nat (Suc m + n)),
      acc_temperature_c = f64_max t (temperature_c (steady v)),
      acc_power_w = f64_max p (power_w (steady v)),
      acc_errors = ((\<lambda>e. saturating_add e (errors (steady v))) ^^ Suc n) k\<rparr>"
    using Suc.prems by (subst Suc.IH) (simp, simp add: idem
        funpow_swap1 [of "\<lambda>e. saturating_add e (errors (steady v))", symmetric, simplified])
  then show ?case
    by (simp only: replicate_Suc foldl_Cons step add_Suc add_Suc_right nat.simps if_False)
qed simp

lemma errors_zero:
  assumes "unat v \<le> 100" "0 < n" "n \<le> 10000"
  shows "((\<lambda>e. saturating_add e (errors (steady v))) ^^ n) 0 = 0 \<longleftrightarrow> v \<le> 90"
proof -
  have "unat (((\<lambda>e. saturating_add e (errors (steady v))) ^^ n) k) =
      min (unat k + n * unat (errors (steady v))) (2 ^ 64 - 1)" for k
  proof (induction n)
    case 0
    have "unat k < 2 ^ 64" using unsigned_less [of k] by simp
    then show ?case by simp
  next
    case (Suc n)
    then show ?case by (simp add: unat_saturating_add)
  qed
  from this [of 0] have "((\<lambda>e. saturating_add e (errors (steady v))) ^^ n) 0 = 0 \<longleftrightarrow>
      n * unat (errors (steady v)) = 0"
    by (cases "n * unat (errors (steady v)) = 0")
      (auto simp: unat_eq_zero [symmetric] simp del: unat_eq_zero)
  also have "\<dots> \<longleftrightarrow> errors (steady v) = 0" using assms(2) by (simp add: unat_eq_0)
  also have "\<dots> \<longleftrightarrow> v \<le> 90"
    by (auto simp: steady_def saturating_sub_def)
  finally show ?thesis .
qed

lemma summarize_steady:
  assumes "v \<le> 100" "0 < n" "n \<le> 10000"
  shows "\<exists>e. summarize (replicate n (steady v)) =
    \<lparr>sum_samples = of_nat n, mean_fps = Fin (of_nat (60 + unat v)),
     sum_temperature_c = Fin (50 + of_nat (unat v) / 2), sum_power_w = Fin (of_nat (100 + unat v)),
     total_errors = e\<rparr> \<and> (e = 0 \<longleftrightarrow> v \<le> 90)"
proof -
  have v: "unat v \<le> 100" using assms by (simp add: word_le_nat_alt)
  have "(of_nat (n * (60 + unat v)) :: rat) / of_nat n = of_nat (60 + unat v)"
    using assms(2) by simp
  then have q: "Fin (of_nat (n * (60 + unat v))) / Fin (of_nat n) = Fin (of_nat (60 + unat v))"
    using assms(2) v f64_nat [of "60 + unat v"] by (simp add: f64_ops del: of_nat_mult of_nat_add)
  show ?thesis
    using assms foldl_steady [OF v, of 0 n NInf NInf 0] q errors_zero [OF v assms(2,3)]
    by (simp add: summarize_def Let_def f64_ops steady_def)
qed

end
