(* ===== verification/Runner.thy ===== *)
theory Runner
  imports Evaluator Control_Plane
begin

section \<open>The experiment runner (\<open>apps/experiment-runner/src/runner.rs\<close>, \<open>main.rs\<close>)\<close>

text \<open>
  The policy gate over a specification, one trial from measurement to its single journal row, the
  replay of a journaled trial, and the demonstration \<open>main\<close>.  The state is the control plane's.
  An error text that prints a floating-point number or quotes a string is kept as its list of
  fragments, since how those are printed is the standard library's.
\<close>

subsection \<open>Errors and records\<close>

datatype fragment = Text string | Number_f64 f64 | Quoted string

type_synonym message = "fragment list"

definition TRIAL_RECORD_VERSION :: u32 where
  "TRIAL_RECORD_VERSION = 1"

record lifecycle_outcome =
  lo_provider :: string
  lo_preview :: string
  lo_verified :: bool
  lo_rolled_back :: bool

record lifecycle_failure =
  lf_kind :: string
  lf_error :: string

definition outcome_of :: "lifecycle_result \<Rightarrow> lifecycle_outcome" where
  "outcome_of r = \<lparr>lo_provider = res_provider r, lo_preview = res_preview r,
     lo_verified = verified r, lo_rolled_back = rolled_back r\<rparr>"

definition failure_of :: "cp_error \<Rightarrow> lifecycle_failure" where
  "failure_of e = \<lparr>lf_kind = kind e, lf_error = show_cp_error e\<rparr>"

datatype runner_error =
    RunControlPlane cp_error
  | LifecycleFailed "int option" "cp_error option" cp_error
  | TrialNotJournaled "lifecycle_outcome option" cp_error
  | InvalidSpec message
  | InvalidTarget
  | InvalidBaseline
  | BaselineOutOfPolicy u64
  | InconsistentRecord message
  | UnsupportedRecordVersion u32
  | MalformedRecordVersion
  | Decode string

definition trial_lost :: "bool \<Rightarrow> string" where
  "trial_lost applied =
     (if applied then ''trial record was lost after its promotion completed the lifecycle''
      else ''trial record was lost'')"

fun journaled_as :: "int option \<Rightarrow> cp_error option \<Rightarrow> string" where
  "journaled_as (Some i) _ = ''journaling trial '' @ show_int i"
| "journaled_as None (Some e) = ''failing to journal its trial: '' @ show_cp_error e"
| "journaled_as None None = ''failing to journal its trial''"

fun show_runner_error :: "runner_error \<Rightarrow> message" where
  "show_runner_error (RunControlPlane e) = [Text (show_cp_error e)]"
| "show_runner_error (LifecycleFailed i j e) =
     [Text (''lifecycle failed after '' @ journaled_as i j @ '': '' @ show_cp_error e)]"
| "show_runner_error (TrialNotJournaled l e) =
     [Text (trial_lost (l \<noteq> None) @ '': '' @ show_cp_error e)]"
| "show_runner_error (InvalidSpec m) = Text ''experiment spec rejected: '' # m"
| "show_runner_error InvalidTarget = [Text ''experiment target is missing an unsigned mock value'']"
| "show_runner_error InvalidBaseline = [Text ''provider snapshot is missing an unsigned mock value'']"
| "show_runner_error (BaselineOutOfPolicy v) =
     [Text (''provider snapshot value is '' @ show_word v @ '', above the '' @
        show_word MAX_MOCK_VALUE @ '' the policy allows'')]"
| "show_runner_error (InconsistentRecord m) = Text ''journaled trial contradicts its own spec: '' # m"
| "show_runner_error (UnsupportedRecordVersion v) =
     [Text (''journaled trial uses unsupported record version '' @ show_word v)]"
| "show_runner_error MalformedRecordVersion =
     [Text ''journaled trial does not carry a readable record version'']"
| "show_runner_error (Decode s) = [Text s]"

record trial_record =
  schema_version :: u32
  tr_spec :: experiment_spec
  baseline_value :: u64
  candidate_value :: u64
  tr_baseline_samples :: "metric_sample list"
  tr_candidate_samples :: "metric_sample list"
  tr_verdict :: verdict
  lifecycle :: "lifecycle_outcome option"
  lifecycle_error :: "lifecycle_failure option"

record stored_trial =
  st_id :: int
  st_record :: trial_record

record replay_outcome =
  ro_trial :: int
  recorded :: verdict
  recomputed :: verdict
  policy_legal :: bool
  policy_reason :: "message option"

definition is_consistent :: "replay_outcome \<Rightarrow> bool" where
  "is_consistent r = verdict_eq (recorded r) (recomputed r)"

subsection \<open>Wire form of the record\<close>

definition outcome_json :: "lifecycle_outcome \<Rightarrow> json" where
  "outcome_json l = obj [(''provider_id'', Str (lo_provider l)), (''preview'', Str (lo_preview l)),
     (''verified'', Bool (lo_verified l)), (''rolled_back'', Bool (lo_rolled_back l))]"

definition outcome_of_json :: "json \<Rightarrow> lifecycle_outcome option" where
  "outcome_of_json v = do {
     m \<leftarrow> struct_fields [''provider_id'', ''preview'', ''verified'', ''rolled_back''] v;
     p \<leftarrow> req m ''provider_id'' as_str;
     d \<leftarrow> req m ''preview'' as_str;
     a \<leftarrow> req m ''verified'' as_bool;
     b \<leftarrow> req m ''rolled_back'' as_bool;
     Some \<lparr>lo_provider = p, lo_preview = d, lo_verified = a, lo_rolled_back = b\<rparr>
   }"

definition lifecycle_failure_json :: "lifecycle_failure \<Rightarrow> json" where
  "lifecycle_failure_json f = obj [(''kind'', Str (lf_kind f)), (''error'', Str (lf_error f))]"

definition lifecycle_failure_of_json :: "json \<Rightarrow> lifecycle_failure option" where
  "lifecycle_failure_of_json v = do {
     m \<leftarrow> struct_fields [''kind'', ''error''] v;
     k \<leftarrow> req m ''kind'' as_str;
     e \<leftarrow> req m ''error'' as_str;
     Some \<lparr>lf_kind = k, lf_error = e\<rparr>
   }"

definition trial_json :: "trial_record \<Rightarrow> json" where
  "trial_json r = obj
     [(''schema_version'', enc_u32 (schema_version r)), (''spec'', spec_json (tr_spec r)),
      (''baseline_value'', num (baseline_value r)), (''candidate_value'', num (candidate_value r)),
      (''baseline_samples'', list_enc sample_json (tr_baseline_samples r)),
      (''candidate_samples'', list_enc sample_json (tr_candidate_samples r)),
      (''verdict'', verdict_json (tr_verdict r)),
      (''lifecycle'', option_json outcome_json (lifecycle r)),
      (''lifecycle_error'', option_json lifecycle_failure_json (lifecycle_error r))]"

definition trial_of_json :: "json \<Rightarrow> trial_record option" where
  "trial_of_json v = do {
     m \<leftarrow> struct_fields [''schema_version'', ''spec'', ''baseline_value'', ''candidate_value'',
       ''baseline_samples'', ''candidate_samples'', ''verdict'', ''lifecycle'', ''lifecycle_error''] v;
     n \<leftarrow> req m ''schema_version'' dec_u32;
     s \<leftarrow> req m ''spec'' spec_of_json;
     b \<leftarrow> req m ''baseline_value'' as_u64;
     c \<leftarrow> req m ''candidate_value'' as_u64;
     bs \<leftarrow> req m ''baseline_samples'' (list_dec sample_of_json);
     cs \<leftarrow> req m ''candidate_samples'' (list_dec sample_of_json);
     w \<leftarrow> req m ''verdict'' verdict_of_json;
     l \<leftarrow> opt m ''lifecycle'' outcome_of_json;
     e \<leftarrow> opt m ''lifecycle_error'' lifecycle_failure_of_json;
     Some \<lparr>schema_version = n, tr_spec = s, baseline_value = b, candidate_value = c,
           tr_baseline_samples = bs, tr_candidate_samples = cs, tr_verdict = w, lifecycle = l,
           lifecycle_error = e\<rparr>
   }"

definition trial_ok :: "trial_record \<Rightarrow> bool" where
  "trial_ok r \<longleftrightarrow> spec_ok (tr_spec r) \<and> list_all sample_ok (tr_baseline_samples r) \<and>
     list_all sample_ok (tr_candidate_samples r) \<and> verdict_ok (tr_verdict r)"

interpretation outcome_format: wire_option outcome_json outcome_of_json any
  by unfold_locales (simp_all add: outcome_json_def outcome_of_json_def)

interpretation failure_format: wire_option lifecycle_failure_json lifecycle_failure_of_json any
  by unfold_locales (simp_all add: lifecycle_failure_json_def lifecycle_failure_of_json_def)

interpretation trial_format: wire_format trial_json trial_of_json trial_ok
  by unfold_locales
    (simp add: trial_json_def trial_of_json_def trial_ok_def spec_format.dec_enc
      verdict_format.dec_enc sample_list.lst.dec_enc outcome_format.option_json_cases
      failure_format.option_json_cases)

subsection \<open>The policy gate\<close>

definition spec_error :: "string \<Rightarrow> runner_error" where
  "spec_error s = InvalidSpec [Text s]"

text \<open>The first element of a list of checks that fails, as the early returns of a loop.\<close>

fun first_error :: "'e option list \<Rightarrow> ('e, unit) result" where
  "first_error [] = Inr ()"
| "first_error (None # es) = first_error es"
| "first_error (Some e # es) = Inl e"

definition check_ceiling :: "string \<times> f64 \<times> f64 \<Rightarrow> runner_error option" where
  "check_ceiling x = (case x of (label, bound, limit) \<Rightarrow>
     if \<not> f64_is_finite bound \<or> bound \<le> 0 \<or> limit < bound
     then Some (InvalidSpec [Text label, Text '' is '', Number_f64 bound,
            Text '', outside the 0 exclusive to '', Number_f64 limit,
            Text '' inclusive the policy allows''])
     else None)"

definition validate_bounds :: "decision_bounds \<Rightarrow> (runner_error, unit) result" where
  "validate_bounds b =
     (if MAX_SAMPLES < min_samples b
      then Inl (spec_error (''min_samples is '' @ show_word (min_samples b) @ '', above the '' @
             show_word MAX_SAMPLES @ '' ceiling''))
      else case first_error (map check_ceiling
             [(''max_temperature_c'', max_temperature_c b, MAX_DECISION_TEMPERATURE_C),
              (''max_power_w'', max_power_w b, MAX_DECISION_POWER_W)]) of
        Inl e \<Rightarrow> Inl e
      | Inr _ \<Rightarrow>
          if \<not> f64_is_finite (min_fps_improvement b) \<or> min_fps_improvement b < 0
          then Inl (InvalidSpec [Text ''min_fps_improvement is '', Number_f64 (min_fps_improvement b),
                 Text '', but the policy requires a finite gain of at least 0''])
          else if MAX_DECISION_ERRORS < max_errors b
          then Inl (spec_error (''max_errors is '' @ show_word (max_errors b) @ '', above the '' @
                 show_word MAX_DECISION_ERRORS @ '' the policy allows''))
          else Inr ())"

text \<open>The keys come in the order of the map, which is sorted by bytes.\<close>

definition validate_parameters :: "json \<Rightarrow> (runner_error, unit) result" where
  "validate_parameters v =
     (case as_object v of
        None \<Rightarrow> Inl InvalidTarget
      | Some m \<Rightarrow>
          first_error (map (\<lambda>k. if k \<in> set MODELED_PARAMETERS then None
             else Some (InvalidSpec [Text ''target parameter '', Quoted k,
                    Text ('' is not one '' @ MODELED_CAPABILITY_ID @ '' takes'')]))
            (sorted_list_of_fset (fmdom m))))"

definition spec_candidate_value :: "experiment_spec \<Rightarrow> (runner_error, u64) result" where
  "spec_candidate_value s = ok_or InvalidTarget (get_u64 ''value'' (parameters (target s)))"

definition validate_counts :: "experiment_spec \<Rightarrow> (runner_error, unit) result" where
  "validate_counts s =
     first_error
       (map (\<lambda>(label, count). if MAX_SAMPLES < count
           then Some (spec_error (label @ '' is '' @ show_word count @ '', above the '' @
                  show_word MAX_SAMPLES @ '' ceiling'')) else None)
          [(''warmup_samples'', warmup_samples s), (''baseline_samples'', baseline_samples s),
           (''candidate_samples'', candidate_samples s)] @
        map (\<lambda>(label, count). if count < min_samples (bounds s)
           then Some (spec_error (label @ '' is '' @ show_word count @ '', below the '' @
                  show_word (min_samples (bounds s)) @ '' the bounds require'')) else None)
          [(''baseline_samples'', baseline_samples s), (''candidate_samples'', candidate_samples s)])"

definition validate_spec :: "experiment_spec \<Rightarrow> (runner_error, u64) result" where
  "validate_spec s =
     (if capability_id (target s) \<noteq> MODELED_CAPABILITY_ID
      then Inl (RunControlPlane (UnknownCapability (capability_id (target s))))
      else case validate_bounds (bounds s) of Inl e \<Rightarrow> Inl e | Inr _ \<Rightarrow>
      (let n = char_count (hypothesis s) in
       if n < unat MIN_HYPOTHESIS_CHARS
       then Inl (spec_error (''hypothesis is '' @ show_nat n @ '' characters, below the '' @
              show_word MIN_HYPOTHESIS_CHARS @ '' the schema requires''))
       else if unat MAX_HYPOTHESIS_CHARS < n
       then Inl (spec_error (''hypothesis is '' @ show_nat n @ '' characters, above the '' @
              show_word MAX_HYPOTHESIS_CHARS @ '' ceiling''))
       else case validate_counts s of Inl e \<Rightarrow> Inl e | Inr _ \<Rightarrow>
      (case validate_parameters (parameters (target s)) of Inl e \<Rightarrow> Inl e | Inr _ \<Rightarrow>
      (case spec_candidate_value s of Inl e \<Rightarrow> Inl e | Inr v \<Rightarrow>
       if MAX_MOCK_VALUE < v
       then Inl (spec_error (''target value is '' @ show_word v @ '', above the '' @
              show_word MAX_MOCK_VALUE @ '' the policy allows''))
       else if MAX_LEASE_SECONDS < lease_seconds (target s)
       then Inl (spec_error (''lease_seconds is '' @ show_word (lease_seconds (target s)) @
              '', above the '' @ show_word MAX_LEASE_SECONDS @ '' the policy allows''))
       else Inr v))))"

definition runner_validate :: "provider_manifest \<Rightarrow> experiment_spec \<Rightarrow> (runner_error, u64) result" where
  "runner_validate man s =
     (if \<not> list_ex (\<lambda>c. cap_id c = capability_id (target s)) (capabilities man)
      then Inl (RunControlPlane (UnknownCapability (capability_id (target s))))
      else validate_spec s)"

definition plane_baseline_value ::
  "'p provider_ops \<Rightarrow> ('p, 't) plane \<Rightarrow> (runner_error, u64) result" where
  "plane_baseline_value P pl =
     (case plane_snapshot P pl of
        Inl e \<Rightarrow> Inl (RunControlPlane e)
      | Inr s \<Rightarrow> (case get_u64 ''value'' (snap_state s) of
          None \<Rightarrow> Inl InvalidBaseline
        | Some v \<Rightarrow> if MAX_MOCK_VALUE < v then Inl (BaselineOutOfPolicy v) else Inr v))"

subsection \<open>One trial\<close>

definition result_of :: "('e, 'a) result option \<Rightarrow> 'a option" where
  "result_of r = Option.bind r result_ok"

definition error_of :: "('e, 'a) result option \<Rightarrow> 'e option" where
  "error_of r = Option.bind r result_err"

definition run_trial ::
  "'t host \<Rightarrow> 'p provider_ops \<Rightarrow> experiment_spec \<Rightarrow> ('p, 't) plane \<Rightarrow>
     (runner_error, stored_trial) result \<times> ('p, 't) plane" where
  "run_trial H P s pl =
     (case runner_validate (manifest pl) s of Inl e \<Rightarrow> (Inl e, pl) | Inr cv \<Rightarrow>
     (case plane_baseline_value P pl of Inl e \<Rightarrow> (Inl e, pl) | Inr bv \<Rightarrow>
     (let bs = measure_samples bv (warmup_samples s) (baseline_samples s);
          cs = measure_samples cv (warmup_samples s) (candidate_samples s);
          v = evaluate bs cs (bounds s) in
      case (case decision v of
              Promote \<Rightarrow> (case run_lifecycle H P (target s) pl of (r, pl1) \<Rightarrow> (Some r, pl1))
            | Reject \<Rightarrow> (None, pl)) of
        (outcome, pl1) \<Rightarrow>
     (let rec = \<lparr>schema_version = TRIAL_RECORD_VERSION, tr_spec = s, baseline_value = bv,
                 candidate_value = cv, tr_baseline_samples = bs, tr_candidate_samples = cs,
                 tr_verdict = v, lifecycle = map_option outcome_of (result_of outcome),
                 lifecycle_error = map_option failure_of (error_of outcome)\<rparr> in
      case record_trial H (trial_json rec) pl1 of
        (journaled, pl2) \<Rightarrow>
          (case error_of outcome of
             Some source \<Rightarrow>
               (Inl (LifecycleFailed (result_ok journaled) (result_err journaled) source), pl2)
           | None \<Rightarrow>
               (case journaled of
                  Inl source \<Rightarrow> (Inl (TrialNotJournaled (lifecycle rec) source), pl2)
                | Inr i \<Rightarrow> (Inr \<lparr>st_id = i, st_record = rec\<rparr>, pl2)))))))"

subsection \<open>Replay\<close>

definition presence :: "bool \<Rightarrow> string" where
  "presence there = (if there then ''present'' else ''absent'')"

definition holds_declared_count :: "metric_sample list \<Rightarrow> u32 \<Rightarrow> bool" where
  "holds_declared_count samples declared \<longleftrightarrow>
     length samples < 2 ^ 32 \<and> of_nat (length samples) = declared"

fun show_decision :: "decision \<Rightarrow> string" where
  "show_decision Promote = ''Promote''"
| "show_decision Reject = ''Reject''"

definition show_bool :: "bool \<Rightarrow> string" where
  "show_bool b = (if b then ''true'' else ''false'')"

definition record_error :: "string \<Rightarrow> runner_error" where
  "record_error s = InconsistentRecord [Text s]"

definition check_policy :: "trial_record \<Rightarrow> (runner_error, unit) result" where
  "check_policy r =
     (case validate_spec (tr_spec r) of Inl e \<Rightarrow> Inl e | Inr cv \<Rightarrow>
      if cv \<noteq> candidate_value r
      then Inl (record_error (''candidate_value is '' @ show_word (candidate_value r) @
             '', but its spec asks for '' @ show_word cv))
      else if MAX_MOCK_VALUE < baseline_value r
      then Inl (record_error (''baseline_value is '' @ show_word (baseline_value r) @
             '', above the '' @ show_word MAX_MOCK_VALUE @ '' the policy allows''))
      else case first_error (map (\<lambda>(label, samples, declared).
             if holds_declared_count samples declared then None
             else Some (record_error (label @ '' holds '' @ show_nat (length samples) @
                    '' samples, but its spec declares '' @ show_word declared)))
           [(''baseline_samples'', tr_baseline_samples r, baseline_samples (tr_spec r)),
            (''candidate_samples'', tr_candidate_samples r, candidate_samples (tr_spec r))]) of
        Inl e \<Rightarrow> Inl e
      | Inr _ \<Rightarrow>
     (let recorded_lifecycle = (lifecycle r \<noteq> None); recorded_failure = (lifecycle_error r \<noteq> None);
          holds = (case decision (tr_verdict r) of
              Promote \<Rightarrow> recorded_lifecycle \<noteq> recorded_failure
            | Reject \<Rightarrow> \<not> recorded_lifecycle \<and> \<not> recorded_failure) in
      if \<not> holds
      then Inl (record_error (''verdict is '' @ show_decision (decision (tr_verdict r)) @
             '' with lifecycle '' @ presence recorded_lifecycle @ '' and lifecycle_error '' @
             presence recorded_failure @
             '', but a promotion records exactly one of the two and a rejection neither''))
      else case lifecycle r of None \<Rightarrow> Inr () | Some l \<Rightarrow>
        if \<not> (lo_verified l \<and> lo_rolled_back l)
        then Inl (record_error (''lifecycle records verified '' @ show_bool (lo_verified l) @
               '' and rolled_back '' @ show_bool (lo_rolled_back l) @
               '', but a completed lifecycle observes the applied value and restores the captured baseline''))
        else Inr ()))"

definition replay_trial ::
  "'t host \<Rightarrow> int \<Rightarrow> ('p, 't) plane \<Rightarrow> (runner_error, replay_outcome) result \<times> ('p, 't) plane" where
  "replay_trial H i pl =
     (case read_trial H i pl of
        (Inl e, pl1) \<Rightarrow> (Inl (RunControlPlane e), pl1)
      | (Inr v, pl1) \<Rightarrow>
     (case Option.bind (get ''schema_version'' v) dec_u32 of
        None \<Rightarrow> (Inl MalformedRecordVersion, pl1)
      | Some version \<Rightarrow>
          if version \<noteq> TRIAL_RECORD_VERSION then (Inl (UnsupportedRecordVersion version), pl1)
          else case trial_of_json v of
            None \<Rightarrow> (Inl (Decode (shape_text H v)), pl1)
          | Some r \<Rightarrow>
              (let rejection = result_err (check_policy r) in
               (Inr \<lparr>ro_trial = i, recorded = tr_verdict r,
                     recomputed = evaluate (tr_baseline_samples r) (tr_candidate_samples r)
                       (bounds (tr_spec r)),
                     policy_legal = (rejection = None),
                     policy_reason = map_option show_runner_error rejection\<rparr>, pl1))))"

subsection \<open>The demonstration\<close>

definition demo_spec :: experiment_spec where
  "demo_spec =
     \<lparr>hypothesis = ''raising mock.value from 10 to 40 improves FPS within thermal and power limits'',
      target = \<lparr>capability_id = ''mock.value'', parameters = obj [(''value'', num 40)],
        lease_seconds = 30\<rparr>,
      warmup_samples = 2, baseline_samples = 5, candidate_samples = 5,
      bounds = \<lparr>min_samples = 3, min_fps_improvement = Fin 5, max_temperature_c = Fin 80,
        max_power_w = Fin 200, max_errors = 0\<rparr>\<rparr>"

text \<open>\<open>main\<close> over a fresh journal; the value is whether the exit code is success.\<close>

definition runner_main :: "'t host \<Rightarrow> 't journal \<Rightarrow> (runner_error, bool) result" where
  "runner_main H j =
     (case open_plane H (mock_ops (os H)) \<lparr>mock_value = 10\<rparr> j of
        (Inl e, _) \<Rightarrow> Inl (RunControlPlane e)
      | (Inr pl, _) \<Rightarrow>
     (case run_trial H (mock_ops (os H)) demo_spec pl of
        (Inl (LifecycleFailed _ _ _), _) \<Rightarrow> Inr False
      | (Inl (TrialNotJournaled _ _), _) \<Rightarrow> Inr False
      | (Inl e, _) \<Rightarrow> Inl e
      | (Inr trial, pl1) \<Rightarrow>
     (case replay_trial H (st_id trial) pl1 of
        (Inl e, _) \<Rightarrow> Inl e
      | (Inr r, _) \<Rightarrow> Inr (is_consistent r \<and> policy_legal r))))"

end
