(* ===== verification/Trials.thy ===== *)
theory Trials
  imports Runner Lifecycle
begin

section \<open>What the experiment runner guarantees\<close>

text \<open>
  The gate as an explicit envelope, one trial as at most one lifecycle and one journal row, the
  verdict of an admitted trial in numbers, and the replay of a stored trial.
\<close>

lemma first_error_Inr: "first_error xs = Inr u \<longleftrightarrow> (\<forall>e\<in>set xs. e = None)"
  by (induction xs rule: first_error.induct) auto

lemma first_error_cases: "is_err (first_error xs) \<longleftrightarrow> (\<exists>e\<in>set xs. e \<noteq> None)"
  by (induction xs rule: first_error.induct) auto

subsection \<open>The gate\<close>

text \<open>The policy envelope of the decision bounds.\<close>

definition bounds_in_envelope :: "decision_bounds \<Rightarrow> bool" where
  "bounds_in_envelope b \<longleftrightarrow>
     min_samples b \<le> 10000 \<and>
     f64_is_finite (max_temperature_c b) \<and> 0 < max_temperature_c b \<and> max_temperature_c b \<le> Fin 90 \<and>
     f64_is_finite (max_power_w b) \<and> 0 < max_power_w b \<and> max_power_w b \<le> Fin 250 \<and>
     f64_is_finite (min_fps_improvement b) \<and> 0 \<le> min_fps_improvement b \<and> max_errors b = 0"

lemma validate_bounds_iff: "validate_bounds b = Inr u \<longleftrightarrow> bounds_in_envelope b"
proof -
  have ceiling: "check_ceiling (l, x, Fin q) = None \<longleftrightarrow> f64_is_finite x \<and> 0 < x \<and> x \<le> Fin q" for l x q
    by (cases x) (auto simp: check_ceiling_def f64_is_finite_def zero_f64_def)
  have gain: "\<not> (\<not> f64_is_finite y \<or> y < 0) \<longleftrightarrow> f64_is_finite y \<and> 0 \<le> y" for y :: f64
    by (cases y) (auto simp: f64_is_finite_def zero_f64_def)
  show ?thesis
    by (cases "first_error (map check_ceiling
             [(''max_temperature_c'', max_temperature_c b, MAX_DECISION_TEMPERATURE_C),
              (''max_power_w'', max_power_w b, MAX_DECISION_POWER_W)])")
      (insert first_error_Inr [of "map check_ceiling
             [(''max_temperature_c'', max_temperature_c b, MAX_DECISION_TEMPERATURE_C),
              (''max_power_w'', max_power_w b, MAX_DECISION_POWER_W)]"] gain [of "min_fps_improvement b"],
       auto simp: validate_bounds_def bounds_in_envelope_def ceiling MAX_SAMPLES_def
         MAX_DECISION_TEMPERATURE_C_def MAX_DECISION_POWER_W_def MAX_DECISION_ERRORS_def not_less)
qed

lemma validate_parameters_iff:
  "validate_parameters v = Inr u \<longleftrightarrow> (\<exists>m. v = Obj m \<and> fset (fmdom m) \<subseteq> {''value''})"
  by (cases v)
    (auto simp: validate_parameters_def as_object_def first_error_Inr MODELED_PARAMETERS_def)

lemma validate_counts_iff:
  "validate_counts s = Inr u \<longleftrightarrow>
     warmup_samples s \<le> 10000 \<and> baseline_samples s \<le> 10000 \<and> candidate_samples s \<le> 10000 \<and>
     min_samples (bounds s) \<le> baseline_samples s \<and> min_samples (bounds s) \<le> candidate_samples s"
  by (auto simp: validate_counts_def first_error_Inr MAX_SAMPLES_def not_less)

lemma validate_spec_gate:
  "validate_spec s = Inr v \<longleftrightarrow>
     capability_id (target s) = ''mock.value'' \<and> bounds_in_envelope (bounds s) \<and>
     1 \<le> char_count (hypothesis s) \<and> char_count (hypothesis s) \<le> 4096 \<and>
     warmup_samples s \<le> 10000 \<and> baseline_samples s \<le> 10000 \<and> candidate_samples s \<le> 10000 \<and>
     min_samples (bounds s) \<le> baseline_samples s \<and> min_samples (bounds s) \<le> candidate_samples s \<and>
     (\<exists>m. parameters (target s) = Obj m \<and> fset (fmdom m) \<subseteq> {''value''}) \<and>
     get_u64 ''value'' (parameters (target s)) = Some v \<and> v \<le> 100 \<and> lease_seconds (target s) \<le> 300"
  using validate_bounds_iff [of "bounds s"] validate_counts_iff [of s]
    validate_parameters_iff [of "parameters (target s)"]
  by (cases "validate_bounds (bounds s)"; cases "validate_counts s";
      cases "validate_parameters (parameters (target s))")
    (auto simp: validate_spec_def spec_candidate_value_def MODELED_CAPABILITY_ID_def Let_def not_less
      MIN_HYPOTHESIS_CHARS_def MAX_HYPOTHESIS_CHARS_def MAX_MOCK_VALUE_def MAX_LEASE_SECONDS_def
      split: option.splits if_splits sum.splits)

text \<open>
  C32: The runner's gate.  A specification is accepted, with the candidate value it names, exactly
  when its target is the modelled capability with no parameter beside \<open>value\<close>, an unsigned value of
  at most 100 and a lease of at most 300 seconds; its decision bounds lie in the policy envelope
  (a spec may tighten a bound, never loosen it, and none is a \<open>NaN\<close> or an infinity); the hypothesis
  has 1 to 4096 characters; and every sample count is at most 10000 and covers the minimum its own
  bounds require.
\<close>

theorem validate_spec_accepts_iff:
  "validate_spec s = Inr v \<longleftrightarrow>
     capability_id (target s) = ''mock.value'' \<and> bounds_in_envelope (bounds s) \<and>
     1 \<le> char_count (hypothesis s) \<and> char_count (hypothesis s) \<le> 4096 \<and>
     warmup_samples s \<le> 10000 \<and> baseline_samples s \<le> 10000 \<and> candidate_samples s \<le> 10000 \<and>
     min_samples (bounds s) \<le> baseline_samples s \<and> min_samples (bounds s) \<le> candidate_samples s \<and>
     (\<exists>m. parameters (target s) = Obj m \<and> fset (fmdom m) \<subseteq> {''value''}) \<and>
     get_u64 ''value'' (parameters (target s)) = Some v \<and> v \<le> 100 \<and> lease_seconds (target s) \<le> 300"
  by (rule validate_spec_gate)

lemma check_policy_iff:
  "check_policy r = Inr u \<longleftrightarrow>
     validate_spec (tr_spec r) = Inr (candidate_value r) \<and> baseline_value r \<le> 100 \<and>
     holds_declared_count (tr_baseline_samples r) (baseline_samples (tr_spec r)) \<and>
     holds_declared_count (tr_candidate_samples r) (candidate_samples (tr_spec r)) \<and>
     (case decision (tr_verdict r) of
        Promote \<Rightarrow> (lifecycle r \<noteq> None) \<noteq> (lifecycle_error r \<noteq> None)
      | Reject \<Rightarrow> lifecycle r = None \<and> lifecycle_error r = None) \<and>
     (\<forall>l. lifecycle r = Some l \<longrightarrow> lo_verified l \<and> lo_rolled_back l)"
proof (cases "validate_spec (tr_spec r)")
  case (Inr cv)
  let ?counts = "map (\<lambda>(label, samples, declared).
             if holds_declared_count samples declared then None
             else Some (record_error (label @ '' holds '' @ show_nat (length samples) @
                    '' samples, but its spec declares '' @ show_word declared)))
           [(''baseline_samples'', tr_baseline_samples r, baseline_samples (tr_spec r)),
            (''candidate_samples'', tr_candidate_samples r, candidate_samples (tr_spec r))]"
  have counts: "first_error ?counts = Inr v \<longleftrightarrow>
      holds_declared_count (tr_baseline_samples r) (baseline_samples (tr_spec r)) \<and>
      holds_declared_count (tr_candidate_samples r) (candidate_samples (tr_spec r))" for v
    unfolding first_error_Inr by simp
  show ?thesis
  proof (cases "first_error ?counts")
    case (Inl e)
    with counts Inr show ?thesis by (auto simp: check_policy_def)
  next
    case ok: (Inr x)
    then show ?thesis
      using Inr counts [of x]
      by (cases "decision (tr_verdict r)"; cases "lifecycle r"; cases "lifecycle_error r")
        (auto simp: check_policy_def Let_def MAX_MOCK_VALUE_def not_less)
  qed
qed (simp add: check_policy_def)


subsection \<open>A trial\<close>

lemma record_trial_unchanged:
  "record_trial H v pl = (r, pl') \<Longrightarrow>
     provider pl' = provider pl \<and> manifest pl' = manifest pl \<and> jrows (journal pl') = jrows (journal pl)"
  by (auto simp: record_trial_def insert_trial_def statement_def Let_def
      split: option.splits if_splits)

lemma run_lifecycle_trials: "jtrials (journal (snd (run_lifecycle H P c pl))) = jtrials (journal pl)"
proof -
  obtain r pl' where run: "run_lifecycle H P c pl = (r, pl')" by fastforce
  then have "jtrials (journal pl') = jtrials (journal pl)"
    by (cases rule: run_lifecycle_shape) (simp_all add: grows_def)
  with run show ?thesis by simp
qed

text \<open>The trial the gate lets through, before any lifecycle.\<close>

definition measured ::
  "'p provider_ops \<Rightarrow> experiment_spec \<Rightarrow> ('p, 't) plane \<Rightarrow> u64 \<Rightarrow> u64 \<Rightarrow> verdict \<Rightarrow> bool" where
  "measured P s pl bv cv v \<longleftrightarrow>
     runner_validate (manifest pl) s = Inr cv \<and> plane_baseline_value P pl = Inr bv \<and>
     v = evaluate (measure_samples bv (warmup_samples s) (baseline_samples s))
           (measure_samples cv (warmup_samples s) (candidate_samples s)) (bounds s)"

text \<open>The two errors that only a trial that was measured can report.\<close>

fun after_measurement :: "runner_error \<Rightarrow> bool" where
  "after_measurement (LifecycleFailed _ _ _) = True"
| "after_measurement (TrialNotJournaled _ _) = True"
| "after_measurement _ = False"

lemma first_error_Inl: "first_error xs = Inl e \<Longrightarrow> Some e \<in> set xs"
  by (induction xs rule: first_error.induct) auto

lemma validate_error:
  assumes "runner_validate man s = Inl e"
  shows "\<not> after_measurement e"
  using assms
  by (auto simp: runner_validate_def validate_spec_def validate_bounds_def validate_counts_def
      validate_parameters_def spec_candidate_value_def check_ceiling_def spec_error_def Let_def
      dest!: first_error_Inl split: if_splits sum.splits option.splits prod.splits)

lemma baseline_error:
  assumes "plane_baseline_value P pl = Inl e"
  shows "\<not> after_measurement e"
  using assms by (auto simp: plane_baseline_value_def split: sum.splits option.splits if_splits)

lemma run_trial_cases [consumes 1, case_names refused measured]:
  assumes "run_trial H P s pl = (r, pl')"
  obtains e where "r = Inl e" "pl' = pl" "\<not> (\<exists>bv cv v. measured P s pl bv cv v)"
      "\<not> after_measurement e"
  | bv cv v out pl1 rec j where "measured P s pl bv cv v"
      "(out, pl1) = (if decision v = Promote
         then (case run_lifecycle H P (target s) pl of (r, pl1) \<Rightarrow> (Some r, pl1)) else (None, pl))"
      "rec = \<lparr>schema_version = TRIAL_RECORD_VERSION, tr_spec = s, baseline_value = bv,
         candidate_value = cv,
         tr_baseline_samples = measure_samples bv (warmup_samples s) (baseline_samples s),
         tr_candidate_samples = measure_samples cv (warmup_samples s) (candidate_samples s),
         tr_verdict = v, lifecycle = map_option outcome_of (result_of out),
         lifecycle_error = map_option failure_of (error_of out)\<rparr>"
      "record_trial H (trial_json rec) pl1 = (j, pl')"
      "r = (case error_of out of
          Some source \<Rightarrow> Inl (LifecycleFailed (result_ok j) (result_err j) source)
        | None \<Rightarrow> (case j of Inl source \<Rightarrow> Inl (TrialNotJournaled (lifecycle rec) source)
            | Inr i \<Rightarrow> Inr \<lparr>st_id = i, st_record = rec\<rparr>))"
proof (cases "runner_validate (manifest pl) s")
  case (Inl e)
  with assms validate_error [OF Inl] show thesis
    by (intro that(1) [of e]) (auto simp: run_trial_def measured_def)
next
  case cv: (Inr cv)
  show thesis
  proof (cases "plane_baseline_value P pl")
    case (Inl e)
    with cv assms baseline_error [OF Inl] show thesis
      by (intro that(1) [of e]) (auto simp: run_trial_def measured_def)
  next
    case bv: (Inr bv)
    define v where "v = evaluate (measure_samples bv (warmup_samples s) (baseline_samples s))
           (measure_samples cv (warmup_samples s) (candidate_samples s)) (bounds s)"
    obtain out pl1 where out: "(out, pl1) = (if decision v = Promote
         then (case run_lifecycle H P (target s) pl of (r, pl1) \<Rightarrow> (Some r, pl1)) else (None, pl))"
      by (metis surj_pair)
    have sel: "(case decision v of
              Promote \<Rightarrow> (case run_lifecycle H P (target s) pl of (r, pl1) \<Rightarrow> (Some r, pl1))
            | Reject \<Rightarrow> (None, pl)) = (out, pl1)"
      unfolding out by (cases "decision v") auto
    define rec where "rec = \<lparr>schema_version = TRIAL_RECORD_VERSION, tr_spec = s, baseline_value = bv,
         candidate_value = cv,
         tr_baseline_samples = measure_samples bv (warmup_samples s) (baseline_samples s),
         tr_candidate_samples = measure_samples cv (warmup_samples s) (candidate_samples s),
         tr_verdict = v, lifecycle = map_option outcome_of (result_of out),
         lifecycle_error = map_option failure_of (error_of out)\<rparr>"
    obtain j pl2 where j: "record_trial H (trial_json rec) pl1 = (j, pl2)" by fastforce
    have run: "run_trial H P s pl = (case error_of out of
          Some source \<Rightarrow> Inl (LifecycleFailed (result_ok j) (result_err j) source)
        | None \<Rightarrow> (case j of Inl source \<Rightarrow> Inl (TrialNotJournaled (lifecycle rec) source)
            | Inr i \<Rightarrow> Inr \<lparr>st_id = i, st_record = rec\<rparr>), pl2)"
      using cv bv sel j unfolding rec_def
      by (cases "error_of out"; cases j) (simp_all add: run_trial_def Let_def v_def [symmetric])
    have "measured P s pl bv cv v" using cv bv by (simp add: measured_def v_def)
    from that(2) [OF this out rec_def] j run assms show thesis by simp
  qed
qed

lemma outcome_cases:
  "result_of None = None" "error_of None = None" "result_of (Some (Inr x)) = Some x"
  "error_of (Some (Inr x)) = None" "result_of (Some (Inl e)) = None" "error_of (Some (Inl e)) = Some e"
  by (simp_all add: result_of_def error_of_def)

text \<open>
  C21: Only a promotion reaches the provider.  A trial writes the lifecycle journal or changes the
  provider only if its specification passed the gate, the provider sits inside the policy envelope
  and the immutable evaluator promoted the two measurement sets; and then it is exactly the run of
  \<open>run_lifecycle\<close> on the specification's target.  A trial adds at most one trial row.
\<close>

theorem only_a_promotion_reaches_the_provider:
  assumes "run_trial H P s pl = (r, pl')"
  shows "(provider pl' = provider pl \<and> jrows (journal pl') = jrows (journal pl) \<or>
      (\<exists>bv cv v. measured P s pl bv cv v \<and> decision v = Promote \<and>
         provider pl' = provider (snd (run_lifecycle H P (target s) pl)) \<and>
         jrows (journal pl') = jrows (journal (snd (run_lifecycle H P (target s) pl))))) \<and>
    (\<exists>ts. jtrials (journal pl') = jtrials (journal pl) @ ts \<and> length ts \<le> 1)"
  using assms
proof (cases rule: run_trial_cases)
  case (refused e)
  then show ?thesis by simp
next
  case (measured bv cv v out pl1 rec j)
  have pl1: "pl1 = (if decision v = Promote then snd (run_lifecycle H P (target s) pl) else pl)"
    using measured(2) by (auto simp: split_def split: if_splits)
  have "jtrials (journal pl1) = jtrials (journal pl)"
    using pl1 run_lifecycle_trials [of H P "target s" pl] by (auto split: if_splits)
  moreover have "\<exists>ts. jtrials (journal pl') = jtrials (journal pl1) @ ts \<and> length ts \<le> 1"
    using measured(4) by (cases rule: record_trial_cases) auto
  ultimately show ?thesis
    using record_trial_unchanged [OF measured(4)] pl1 measured(1) by (auto split: if_splits)
qed


text \<open>
  A promotion the broker refuses still leaves its measurements.  When a trial reports that its
  lifecycle failed, the reported error is the lifecycle's, and either the last trial row, under the
  reported id, holds the record with the promoting verdict and that failure in place of an outcome,
  or the journal refused the row, no trial was added, and the error carries the reason; never both
  and never neither.
\<close>

theorem failed_lifecycle_is_recorded:
  assumes "run_trial H P s pl = (Inl (LifecycleFailed a b e), pl')"
  shows "fst (run_lifecycle H P (target s) pl) = Inl e \<and>
    ((\<exists>i rec. a = Some i \<and> b = None \<and>
        jtrials (journal pl') = jtrials (journal pl) @ [\<lparr>trial_id = i, trial_payload = to_text H (trial_json rec)\<rparr>] \<and>
        tr_spec rec = s \<and> decision (tr_verdict rec) = Promote \<and> lifecycle rec = None \<and>
        lifecycle_error rec = Some \<lparr>lf_kind = kind e, lf_error = show_cp_error e\<rparr>) \<or>
     (\<exists>j. a = None \<and> b = Some j \<and> jtrials (journal pl') = jtrials (journal pl)))"
  using assms
proof (cases rule: run_trial_cases)
  case (refused e')
  then show ?thesis by auto
next
  case (measured bv cv v out pl1 rec j)
  obtain src where src: "error_of out = Some src" "a = result_ok j" "b = result_err j" "e = src"
    using measured(5) by (cases "error_of out"; cases j) auto
  have prom: "decision v = Promote" "out = Some (fst (run_lifecycle H P (target s) pl))"
    "pl1 = snd (run_lifecycle H P (target s) pl)"
    using measured(2) src(1) by (auto simp: outcome_cases split_def split: if_splits)
  have life: "fst (run_lifecycle H P (target s) pl) = Inl e"
    using src prom(2) by (cases "fst (run_lifecycle H P (target s) pl)") (auto simp: outcome_cases)
  have tr: "jtrials (journal pl1) = jtrials (journal pl)"
    using prom(3) run_lifecycle_trials by simp
  from measured(4) show ?thesis
  proof (cases rule: record_trial_cases)
    case (fault er)
    with src life tr show ?thesis by auto
  next
    case (stored i)
    with src life tr prom measured(3) show ?thesis
      by (auto simp: outcome_cases failure_of_def)
  qed
qed


lemma ucast_le_u32: "ucast (a :: u32) \<le> (of_nat (unat b) :: u64) \<longleftrightarrow> a \<le> (b :: u32)"
  by (simp add: word_le_nat_alt)

lemma read_back_trial:
  assumes "no_faults H" "record_trial H v pl = (Inr i, pl')" "reads_back H v"
  shows "fst (read_trial H i pl') = Inr v"
  using assms(2)
proof (cases rule: record_trial_cases)
  case (stored n)
  have "List.find (\<lambda>t. trial_id t = n) (jtrials (journal pl)) = None"
    using stored next_trial_fresh [of _ "jtrials (journal pl)"] by (force simp: find_None_iff)
  with stored assms show ?thesis
    by (simp add: read_trial_no_faults find_append reads_back_def)
qed simp

subsection \<open>What the policy admits is measured exactly\<close>

lemma measured_policy:
  assumes "measured P s pl bv cv v"
  shows "bv \<le> 100 \<and> cv \<le> 100 \<and> validate_spec s = Inr cv \<and>
    baseline_samples s \<le> 10000 \<and> candidate_samples s \<le> 10000 \<and>
    min_samples (bounds s) \<le> baseline_samples s \<and> min_samples (bounds s) \<le> candidate_samples s \<and>
    v = evaluate (replicate (unat (baseline_samples s)) (steady bv))
          (replicate (unat (candidate_samples s)) (steady cv)) (bounds s)"
proof -
  have val: "validate_spec s = Inr cv"
    using assms by (auto simp: measured_def runner_validate_def split: if_splits)
  have bv: "bv \<le> 100"
    using assms by (auto simp: measured_def plane_baseline_value_def MAX_MOCK_VALUE_def not_less
        split: sum.splits option.splits if_splits)
  note gate = val [unfolded validate_spec_gate]
  with bv val show ?thesis
    using assms sample_at_policy [of bv] sample_at_policy [of cv]
    by (simp add: measured_def steady_measure)
qed

lemma nat_diff_exact:
  assumes "a \<le> 1000" "b \<le> 1000"
  shows "Fin (of_nat a) - Fin (of_nat b) = Fin (of_int (int a - int b))"
proof -
  have "\<bar>int a - int b\<bar> < 2 ^ 52"
    using assms by (intro le_less_trans [of "\<bar>int a - int b\<bar>" 1000]) simp_all
  from round_f64_exact [OF representable_of_int [OF this]] show ?thesis by (simp add: f64_ops)
qed

lemma policy_verdict:
  assumes "bv \<le> 100" "cv \<le> 100" "0 < nb" "nb \<le> 10000" "0 < nc" "nc \<le> 10000"
    and "v = evaluate (replicate nb (steady bv)) (replicate nc (steady cv)) b"
  shows "verdict_ok v \<and> fps_improvement v = Fin (of_int (int (unat cv) - int (unat bv))) \<and>
    (decision v = Promote \<longleftrightarrow>
       ucast (min_samples b) \<le> (of_nat nb :: u64) \<and> ucast (min_samples b) \<le> (of_nat nc :: u64) \<and>
       \<not> max_temperature_c b < Fin (50 + of_nat (unat cv) / 2) \<and>
       \<not> max_power_w b < Fin (of_nat (100 + unat cv)) \<and>
       total_errors (v_candidate v) \<le> max_errors b \<and>
       min_fps_improvement b \<le> Fin (of_int (int (unat cv) - int (unat bv)))) \<and>
    (total_errors (v_candidate v) = 0 \<longleftrightarrow> cv \<le> 90)"
proof -
  obtain e1 where e1: "summarize (replicate nb (steady bv)) =
    \<lparr>sum_samples = of_nat nb, mean_fps = Fin (of_nat (60 + unat bv)),
     sum_temperature_c = Fin (50 + of_nat (unat bv) / 2), sum_power_w = Fin (of_nat (100 + unat bv)),
     total_errors = e1\<rparr>"
    using summarize_steady [OF assms(1,3,4)] by blast
  obtain e2 where e2: "summarize (replicate nc (steady cv)) =
    \<lparr>sum_samples = of_nat nc, mean_fps = Fin (of_nat (60 + unat cv)),
     sum_temperature_c = Fin (50 + of_nat (unat cv) / 2), sum_power_w = Fin (of_nat (100 + unat cv)),
     total_errors = e2\<rparr>" "e2 = 0 \<longleftrightarrow> cv \<le> 90"
    using summarize_steady [OF assms(2,5,6)] by blast
  have "unat bv \<le> 100" "unat cv \<le> 100" using assms(1,2) by (simp_all add: word_le_nat_alt)
  then have d: "Fin (of_nat (60 + unat cv)) - Fin (of_nat (60 + unat bv)) =
      Fin (of_int (int (unat cv) - int (unat bv)))"
    using nat_diff_exact [of "60 + unat cv" "60 + unat bv"] by simp
  show ?thesis
    unfolding assms(7) evaluate_def e1 e2 Let_def
    using e2(2) d
    by (auto simp: verdict_ok_def summary_ok_def f64_is_finite_def not_less not_le
        simp del: of_nat_add)
qed


text \<open>
  The gate on the mock provider, in numbers.  For an admitted trial the verdict's gain is the
  exact difference of the two knob values, and it promotes exactly when the candidate value is at
  most 90 (no fault is modelled there), its modelled temperature 50 + v/2 and power 100 + v do not
  exceed the ceilings, and the gain reaches the required one.
\<close>

theorem trial_decision_in_numbers:
  assumes "measured P s pl bv cv v" "spec_ok s"
  shows "fps_improvement v = Fin (of_int (int (unat cv) - int (unat bv))) \<and>
    (decision v = Promote \<longleftrightarrow> cv \<le> 90 \<and>
       Fin (50 + of_nat (unat cv) / 2) \<le> max_temperature_c (bounds s) \<and>
       Fin (of_nat (100 + unat cv)) \<le> max_power_w (bounds s) \<and>
       min_fps_improvement (bounds s) \<le> Fin (of_int (int (unat cv) - int (unat bv))))"
proof -
  note m = measured_policy [OF assms(1)]
  have n: "0 < unat (baseline_samples s)" "0 < unat (candidate_samples s)"
    "unat (baseline_samples s) \<le> 10000" "unat (candidate_samples s) \<le> 10000"
    using assms(2) m by (auto simp: spec_ok_def unat_gt_0 word_le_nat_alt)
  have "bounds_in_envelope (bounds s)" using m validate_spec_gate by blast
  then have b: "max_errors (bounds s) = 0" "max_temperature_c (bounds s) \<noteq> NaN"
    "max_power_w (bounds s) \<noteq> NaN"
    by (auto simp: bounds_in_envelope_def f64_is_finite_def)
  have c: "ucast (min_samples (bounds s)) \<le> (of_nat (unat (baseline_samples s)) :: u64)"
    "ucast (min_samples (bounds s)) \<le> (of_nat (unat (candidate_samples s)) :: u64)"
    using m ucast_le_u32 by blast+
  have lim: "\<not> t < Fin x \<longleftrightarrow> Fin x \<le> t" if "t \<noteq> NaN" for t x
    using that by (cases t) auto
  have v: "v = evaluate (replicate (unat (baseline_samples s)) (steady bv))
      (replicate (unat (candidate_samples s)) (steady cv)) (bounds s)"
    using m by blast
  have le: "bv \<le> 100" "cv \<le> 100" using m by blast+
  note p = policy_verdict [OF le n(1,3) n(2,4) v]
  have gain: "fps_improvement v = Fin (of_int (int (unat cv) - int (unat bv)))"
    and errs: "total_errors (v_candidate v) = 0 \<longleftrightarrow> cv \<le> 90"
    using p by blast+
  have "decision v = Promote \<longleftrightarrow>
       \<not> max_temperature_c (bounds s) < Fin (50 + of_nat (unat cv) / 2) \<and>
       \<not> max_power_w (bounds s) < Fin (of_nat (100 + unat cv)) \<and>
       total_errors (v_candidate v) \<le> max_errors (bounds s) \<and>
       min_fps_improvement (bounds s) \<le> Fin (of_int (int (unat cv) - int (unat bv)))"
    using p c by blast
  also have "total_errors (v_candidate v) \<le> max_errors (bounds s) \<longleftrightarrow> cv \<le> 90"
    unfolding b(1) errs [symmetric] by simp
  finally show ?thesis
    unfolding lim [OF b(2)] lim [OF b(3)] using gain by blast
qed

subsection \<open>Replay\<close>

lemma run_lifecycle_Inr:
  "run_lifecycle H P c pl = (Inr res, pl') \<Longrightarrow> verified res \<and> rolled_back res"
  by (cases rule: run_lifecycle_shape) (auto simp: served_def)

lemma holds_declared: "holds_declared_count (replicate (unat n) x) n"
  by (simp add: holds_declared_count_def)

lemma stored_verdict_ok:
  assumes "spec_ok s" "measured P s pl bv cv v"
  shows "verdict_ok v"
proof -
  note m = measured_policy [OF assms(2)]
  have n: "0 < unat (baseline_samples s)" "0 < unat (candidate_samples s)"
    "unat (baseline_samples s) \<le> 10000" "unat (candidate_samples s) \<le> 10000"
    using assms(1) m by (auto simp: spec_ok_def unat_gt_0 word_le_nat_alt)
  show ?thesis using policy_verdict [of bv cv, OF _ _ n(1,3) n(2,4)] m by blast
qed

lemma stored_record:
  assumes "no_faults H" "run_trial H P s pl = (Inr st, pl')" "spec_ok s"
    and "reads_back H (trial_json (st_record st))"
  shows "fst (read_trial H (st_id st) pl') = Inr (trial_json (st_record st)) \<and>
    trial_of_json (trial_json (st_record st)) = Some (st_record st) \<and>
    schema_version (st_record st) = TRIAL_RECORD_VERSION"
  using assms(2)
proof (cases rule: run_trial_cases)
  case (measured bv cv v out pl1 rec j)
  note m = measured_policy [OF measured(1)]
  obtain i where i: "j = Inr i" "st = \<lparr>st_id = i, st_record = rec\<rparr>" "error_of out = None"
    using measured(5) by (auto split: option.splits sum.splits)
  have samples: "tr_baseline_samples rec = replicate (unat (baseline_samples s)) (steady bv)"
    "tr_candidate_samples rec = replicate (unat (candidate_samples s)) (steady cv)"
    using measured(3) m by (simp_all add: steady_measure sample_at_policy)
  have v: "verdict_ok v" using stored_verdict_ok [OF assms(3) measured(1)] .
  have "sample_ok (steady w)" for w by (simp add: sample_ok_def steady_def f64_is_finite_def)
  then have "trial_ok rec"
    using v assms(3) samples measured(3) by (simp add: trial_ok_def list_all_iff)
  moreover have "fst (read_trial H i pl') = Inr (trial_json rec)"
    using read_back_trial [OF assms(1)] measured(4) i assms(4) by simp
  ultimately show ?thesis using i measured(3) by (simp add: trial_format.dec_enc)
qed simp

lemma stored_replay:
  assumes "no_faults H" "run_trial H P s pl = (Inr st, pl')" "spec_ok s"
    and "reads_back H (trial_json (st_record st))"
  shows "\<exists>r. fst (replay_trial H (st_id st) pl') = Inr r \<and>
    recorded r = tr_verdict (st_record st) \<and> recomputed r = tr_verdict (st_record st) \<and>
    is_consistent r \<and> policy_legal r \<and> policy_reason r = None"
  using assms(2)
proof (cases rule: run_trial_cases)
  case (measured bv cv v out pl1 rec j)
  note m = measured_policy [OF measured(1)]
  obtain i where i: "j = Inr i" "st = \<lparr>st_id = i, st_record = rec\<rparr>" "error_of out = None"
    using measured(5) by (auto split: option.splits sum.splits)
  have samples: "tr_baseline_samples rec = replicate (unat (baseline_samples s)) (steady bv)"
    "tr_candidate_samples rec = replicate (unat (candidate_samples s)) (steady cv)"
    using measured(3) m by (simp_all add: steady_measure sample_at_policy)
  have read: "fst (read_trial H i pl') = Inr (trial_json rec)" "trial_of_json (trial_json rec) = Some rec"
    using stored_record [OF assms] i by simp_all
  have v: "verdict_ok v"
    using stored_verdict_ok [OF assms(3) measured(1)] .
  have shape: "(case decision v of
        Promote \<Rightarrow> (lifecycle rec \<noteq> None) \<noteq> (lifecycle_error rec \<noteq> None)
      | Reject \<Rightarrow> lifecycle rec = None \<and> lifecycle_error rec = None) \<and>
     (\<forall>l. lifecycle rec = Some l \<longrightarrow> lo_verified l \<and> lo_rolled_back l)"
  proof (cases "decision v")
    case Promote
    obtain res where run: "out = Some (Inr res)" "fst (run_lifecycle H P (target s) pl) = Inr res"
      using measured(2) Promote i(3)
      by (cases "fst (run_lifecycle H P (target s) pl)") (auto simp: outcome_cases split_def)
    then have "verified res \<and> rolled_back res"
      using run_lifecycle_Inr [of H P "target s" pl res] by (cases "run_lifecycle H P (target s) pl") auto
    with run Promote measured(3) show ?thesis by (simp add: outcome_cases outcome_of_def)
  next
    case Reject
    with measured(2,3) show ?thesis by (simp add: outcome_cases)
  qed
  have legal: "check_policy rec = Inr ()"
    using shape m measured(3) samples unfolding check_policy_iff by (simp add: holds_declared)
  have ver: "Option.bind (get ''schema_version'' (trial_json rec)) dec_u32 = Some TRIAL_RECORD_VERSION"
    using measured(3) by (simp add: trial_json_def)
  have again: "evaluate (tr_baseline_samples rec) (tr_candidate_samples rec) (bounds (tr_spec rec)) = v"
    using samples measured(3) m by simp
  obtain pl2 where "read_trial H i pl' = (Inr (trial_json rec), pl2)"
    using read(1) by (cases "read_trial H i pl'") auto
  then have "fst (replay_trial H i pl') = Inr \<lparr>ro_trial = i, recorded = v, recomputed = v,
      policy_legal = True, policy_reason = None\<rparr>"
    using ver legal again read(2) measured(3)
    by (simp add: replay_trial_def Let_def)
  with i measured(3) v show ?thesis by (simp add: is_consistent_def verdict_eq_refl)
qed simp

text \<open>
  C37: What the runner writes, replay accepts.  A stored trial, read back from the journal alone,
  replays with the verdict that was recorded, recomputes the same one, and passes the policy gate
  re-applied to it: the recorded verdict is the evaluator's, for rejections and for promotions whose
  lifecycle completed.
\<close>

theorem stored_trial_replays:
  assumes "no_faults H" "run_trial H P s pl = (Inr st, pl')" "spec_ok s"
    and "reads_back H (trial_json (st_record st))"
  shows "\<exists>r. fst (replay_trial H (st_id st) pl') = Inr r \<and>
    recorded r = tr_verdict (st_record st) \<and> recomputed r = tr_verdict (st_record st) \<and>
    is_consistent r \<and> policy_legal r \<and> policy_reason r = None"
  by (rule stored_replay [OF assms])

text \<open>
  Replay detects what its gate covers.  On a readable row of the current version, replay reports
  the record as policy legal exactly when its specification still passes the whole gate with the
  recorded candidate value, the recorded baseline value is at most 100, both sample sets have their
  declared size, and the lifecycle fields fit the decision: a promotion carries exactly one of
  outcome and failure, a rejection neither, and an outcome is verified and rolled back.
\<close>

theorem replay_legality:
  assumes "fst (read_trial H i pl) = Inr v" "trial_of_json v = Some rec"
    and "get ''schema_version'' v = Some (num 1)"
  shows "\<exists>r. fst (replay_trial H i pl) = Inr r \<and>
    recomputed r = evaluate (tr_baseline_samples rec) (tr_candidate_samples rec) (bounds (tr_spec rec)) \<and>
    (policy_legal r \<longleftrightarrow> policy_reason r = None) \<and>
    (policy_legal r \<longleftrightarrow>
       validate_spec (tr_spec rec) = Inr (candidate_value rec) \<and> baseline_value rec \<le> 100 \<and>
       holds_declared_count (tr_baseline_samples rec) (baseline_samples (tr_spec rec)) \<and>
       holds_declared_count (tr_candidate_samples rec) (candidate_samples (tr_spec rec)) \<and>
       (case decision (tr_verdict rec) of
          Promote \<Rightarrow> (lifecycle rec \<noteq> None) \<noteq> (lifecycle_error rec \<noteq> None)
        | Reject \<Rightarrow> lifecycle rec = None \<and> lifecycle_error rec = None) \<and>
       (\<forall>l. lifecycle rec = Some l \<longrightarrow> lo_verified l \<and> lo_rolled_back l))"
proof -
  obtain pl1 where read: "read_trial H i pl = (Inr v, pl1)"
    using assms(1) by (cases "read_trial H i pl") auto
  have ver: "Option.bind (get ''schema_version'' v) dec_u32 = Some TRIAL_RECORD_VERSION"
    using assms(3) by (simp add: dec_u32_def TRIAL_RECORD_VERSION_def)
  let ?r = "\<lparr>ro_trial = i, recorded = tr_verdict rec,
    recomputed = evaluate (tr_baseline_samples rec) (tr_candidate_samples rec) (bounds (tr_spec rec)),
    policy_legal = (result_err (check_policy rec) = None),
    policy_reason = map_option show_runner_error (result_err (check_policy rec))\<rparr>"
  have run: "fst (replay_trial H i pl) = Inr ?r"
    using read ver assms(2) by (simp add: replay_trial_def Let_def)
  have "result_err (check_policy rec) = None \<longleftrightarrow> check_policy rec = Inr ()"
    by (cases "check_policy rec") simp_all
  with run show ?thesis unfolding check_policy_iff by (intro exI [of _ ?r]) simp
qed


subsection \<open>The demonstration\<close>

lemma demo_gate: "validate_spec demo_spec = Inr 40"
proof -
  have "char_count (hypothesis demo_spec) = 77" by (simp add: demo_spec_def) code_simp
  then show ?thesis
    unfolding validate_spec_gate
    by (simp add: demo_spec_def bounds_in_envelope_def f64_is_finite_def zero_f64_def obj_def
        get_u64_def)
qed

lemma demo_spec_ok: "spec_ok demo_spec"
  by (simp add: spec_ok_def demo_spec_def change_ok_def bounds_ok_def f64_is_finite_def)

lemma demo_promotes:
  assumes "manifest pl = mock_manifest platform p"
    and "op_snapshot P (provider pl) = Inr s" "get_u64 ''value'' (snap_state s) = Some bv" "bv \<le> 35"
  shows "\<exists>v. measured P demo_spec pl bv 40 v \<and> decision v = Promote"
proof -
  have bv: "bv \<le> 100" "unat bv \<le> 35" using assms(4) by (simp_all add: word_le_nat_alt)
  define v where "v = evaluate (measure_samples bv (warmup_samples demo_spec) (baseline_samples demo_spec))
           (measure_samples 40 (warmup_samples demo_spec) (candidate_samples demo_spec)) (bounds demo_spec)"
  have "capability_id (target demo_spec) = ''mock.value''" by (simp add: demo_spec_def)
  then have m: "measured P demo_spec pl bv 40 v"
    using assms bv(1)
    by (simp add: measured_def v_def runner_validate_def mock_manifest_def demo_gate
        plane_baseline_value_def plane_snapshot_def MAX_MOCK_VALUE_def not_less [symmetric])
  have counts: "baseline_samples demo_spec = 5" "candidate_samples demo_spec = 5"
    by (simp_all add: demo_spec_def)
  have v: "v = evaluate (replicate 5 (steady bv)) (replicate 5 (steady 40)) (bounds demo_spec)"
    using measured_policy [OF m] counts by simp
  have "int (unat bv) \<le> 35" using bv(2) by linarith
  then have gain: "Fin 5 \<le> Fin (of_int (int (unat (40 :: u64)) - int (unat bv)))"
  proof -
    have "5 \<le> int (unat (40 :: u64)) - int (unat bv)" using \<open>int (unat bv) \<le> 35\<close> by simp
    then have "(of_int 5 :: rat) \<le> of_int (int (unat (40 :: u64)) - int (unat bv))"
      by (simp only: of_int_le_iff)
    then show ?thesis by simp
  qed
  have "decision v = Promote"
    using policy_verdict [OF bv(1) _ _ _ _ _ v] gain
    by (simp add: demo_spec_def del: of_int_diff)
  with m show ?thesis by blast
qed

lemma demo_trial_succeeds:
  assumes "no_faults H" "jtable (journal pl)" "max_experiment (jrows (journal pl)) + 1 < 2 ^ 63"
    and "manifest pl = mock_manifest platform p" "mock_value (provider pl) \<le> 35"
  shows "\<exists>st pl'. run_trial H (mock_ops platform) demo_spec pl = (Inr st, pl') \<and>
    tr_spec (st_record st) = demo_spec \<and> decision (tr_verdict (st_record st)) = Promote"
proof -
  let ?P = "mock_ops platform"
  obtain v where v: "measured ?P demo_spec pl (mock_value (provider pl)) 40 v" "decision v = Promote"
    using demo_promotes [OF assms(4), of ?P _ "mock_value (provider pl)"] assms(5)
    by (auto simp: mock_defs)
  have val: "validate (manifest pl) (target demo_spec) = Inr ()"
    by (simp add: assms(4) validate_def mock_manifest_def demo_spec_def MAX_LEASE_SECONDS_def
        MAX_MOCK_VALUE_def)
  have "mock_accepts (target demo_spec)" by (simp add: mock_accepts_def demo_spec_def)
  from mock.lifecycle_succeeds [OF assms(1-3) TrueI this val] obtain res pl1 where
    life: "run_lifecycle H ?P (target demo_spec) pl = (Inr res, pl1)"
    by blast
  have tab: "jtable (journal pl1)"
    using life assms(2) by (cases rule: run_lifecycle_shape) (auto simp: grows_def)
  obtain r pl' where run: "run_trial H ?P demo_spec pl = (r, pl')" by fastforce
  then show ?thesis
  proof (cases rule: run_trial_cases)
    case (refused e)
    with v(1) show ?thesis by blast
  next
    case (measured bv cv w out pl2 rec j)
    have w: "w = v" using measured(1) v(1) by (simp add: measured_def)
    then have out: "out = Some (Inr res)" "pl2 = pl1" using measured(2) v(2) life by simp_all
    obtain i where "j = Inr i"
      using measured(4) tab assms(1) out(2)
      by (auto simp: record_trial_def insert_trial_def statement_def no_faults_tick Let_def)
    with measured(3,5) out w v(2) run show ?thesis by (simp add: outcome_cases)
  qed
qed

text \<open>
  The demonstration succeeds: on a host whose statements work and whose journal reads the trial
  back as it was written, \<open>main\<close> promotes the trial from 10 to 40, replays it, finds it consistent and
  policy legal, and exits with success.
\<close>

theorem demonstration_succeeds:
  assumes "no_faults H" "\<forall>r. tr_spec r = demo_spec \<longrightarrow> reads_back H (trial_json r)"
  shows "runner_main H empty_journal = Inr True"
proof -
  let ?P = "mock_ops (os H)"
  obtain pl j where pl: "open_plane H ?P \<lparr>mock_value = 10\<rparr> empty_journal = (Inr pl, j)"
    "provider pl = \<lparr>mock_value = 10\<rparr>" "jtable (journal pl)" "jrows (journal pl) = []"
    "manifest pl = mock_manifest (os H) \<lparr>mock_value = 10\<rparr>"
    using assms(1)
    by (simp add: open_plane_def mock_defs statement_def no_faults_tick empty_journal_def Let_def)
  obtain st pl' where st: "run_trial H ?P demo_spec pl = (Inr st, pl')" "tr_spec (st_record st) = demo_spec"
    using demo_trial_succeeds [of H pl "os H" "\<lparr>mock_value = 10\<rparr>"] assms(1) pl by (auto simp: max_experiment_def)
  obtain r where r: "fst (replay_trial H (st_id st) pl') = Inr r" "is_consistent r" "policy_legal r"
    using stored_replay [OF assms(1) st(1) demo_spec_ok] assms(2) st(2) by blast
  then obtain pl2 where "replay_trial H (st_id st) pl' = (Inr r, pl2)"
    by (cases "replay_trial H (st_id st) pl'") auto
  with pl(1) st(1) r show ?thesis by (simp add: runner_main_def)
qed

theorem demonstration_succeeds_witness: "runner_main plain_host empty_journal = Inr True"
  using demonstration_succeeds [of plain_host] by (simp add: reads_back_def)

subsection \<open>Concrete trials\<close>

lemma demo_trial: "\<exists>st pl'. run_trial plain_host (mock_ops ''linux'') demo_spec demo_plane = (Inr st, pl') \<and>
    decision (tr_verdict (st_record st)) = Promote"
  using demo_trial_succeeds [of plain_host demo_plane "''linux''" "\<lparr>mock_value = 0\<rparr>"]
  by (auto simp: max_experiment_def)

theorem only_a_promotion_reaches_the_provider_witness:
  "\<exists>st pl' ts. run_trial plain_host (mock_ops ''linux'') demo_spec demo_plane = (Inr st, pl') \<and>
     jtrials (journal pl') = jtrials (journal demo_plane) @ ts \<and> length ts \<le> 1"
proof -
  obtain st pl' where run: "run_trial plain_host (mock_ops ''linux'') demo_spec demo_plane = (Inr st, pl')"
    using demo_trial by blast
  with only_a_promotion_reaches_the_provider [OF run] show ?thesis by blast
qed

theorem stored_trial_replays_witness:
  "\<exists>st pl' r. run_trial plain_host (mock_ops ''linux'') demo_spec demo_plane = (Inr st, pl') \<and>
     fst (replay_trial plain_host (st_id st) pl') = Inr r \<and> is_consistent r \<and> policy_legal r"
proof -
  obtain st pl' where run: "run_trial plain_host (mock_ops ''linux'') demo_spec demo_plane = (Inr st, pl')"
    using demo_trial by blast
  have "reads_back plain_host (trial_json (st_record st))" by (simp add: reads_back_def)
  from stored_trial_replays [OF plain_no_faults run demo_spec_ok this] run show ?thesis by blast
qed

theorem trial_decision_in_numbers_witness:
  "\<exists>v. measured (mock_ops ''linux'') demo_spec demo_plane 0 40 v \<and> fps_improvement v = Fin 40"
proof -
  have "op_snapshot (mock_ops ''linux'') (provider demo_plane) =
      Inr \<lparr>snap_provider = ''mock'', snap_state = obj [(''value'', num 0)]\<rparr>"
    by (simp add: mock_defs)
  from demo_promotes [OF demo_simps(3) this] obtain v where
    v: "measured (mock_ops ''linux'') demo_spec demo_plane 0 40 v" by auto
  with trial_decision_in_numbers [OF v demo_spec_ok] show ?thesis by auto
qed

theorem failed_lifecycle_is_recorded_witness:
  "\<exists>a b e pl'. run_trial plain_host stuck_ops demo_spec demo_plane = (Inl (LifecycleFailed a b e), pl') \<and>
     fst (run_lifecycle plain_host stuck_ops (target demo_spec) demo_plane) = Inl e"
proof -
  obtain r pl' where run: "run_trial plain_host stuck_ops demo_spec demo_plane = (r, pl')" by fastforce
  obtain e pl1 where life: "run_lifecycle plain_host stuck_ops (target demo_spec) demo_plane = (Inl e, pl1)"
  proof (cases "run_lifecycle plain_host stuck_ops (target demo_spec) demo_plane")
    case (Pair res pl1)
    have "\<not> (\<exists>x. res = Inr x)"
    proof
      assume "\<exists>x. res = Inr x"
      then obtain x where "run_lifecycle plain_host stuck_ops (target demo_spec) demo_plane = (Inr x, pl1)"
        using Pair by blast
      then show False
        by (cases rule: run_lifecycle_shape) (auto simp: served_def stuck_ops_def)
    qed
    with Pair that show thesis by (cases res) auto
  qed
  have "op_snapshot stuck_ops (provider demo_plane) =
      Inr \<lparr>snap_provider = ''mock'', snap_state = obj [(''value'', num 0)]\<rparr>"
    by (simp add: stuck_ops_def mock_defs)
  from demo_promotes [OF demo_simps(3) this] obtain v where
    v: "measured stuck_ops demo_spec demo_plane 0 40 v" "decision v = Promote" by auto
  from run have "\<exists>a b. r = Inl (LifecycleFailed a b e)"
  proof (cases rule: run_trial_cases)
    case (measured bv cv w out pl2 rec j)
    have "w = v" using measured(1) v(1) by (simp add: measured_def)
    with measured(2,5) v(2) life show ?thesis by (simp add: outcome_cases)
  qed (use v in blast)
  then obtain a b where "run_trial plain_host stuck_ops demo_spec demo_plane = (Inl (LifecycleFailed a b e), pl')"
    using run by blast
  with failed_lifecycle_is_recorded [OF this] show ?thesis by blast
qed

theorem replay_legality_witness:
  "\<exists>st pl' r. run_trial plain_host (mock_ops ''linux'') demo_spec demo_plane = (Inr st, pl') \<and>
     fst (replay_trial plain_host (st_id st) pl') = Inr r \<and>
     (policy_legal r \<longleftrightarrow> policy_reason r = None)"
proof -
  obtain st pl' where run: "run_trial plain_host (mock_ops ''linux'') demo_spec demo_plane = (Inr st, pl')"
    using demo_trial by blast
  have "reads_back plain_host (trial_json (st_record st))" by (simp add: reads_back_def)
  note stored = stored_record [OF plain_no_faults run demo_spec_ok this]
  have ver: "get ''schema_version'' (trial_json (st_record st)) = Some (num 1)"
    using stored by (simp add: trial_json_def enc_u32_def TRIAL_RECORD_VERSION_def)
  from replay_legality [OF stored [THEN conjunct1] stored [THEN conjunct2, THEN conjunct1] ver]
  show ?thesis
  proof (elim exE conjE)
    fix r
    assume "fst (replay_trial plain_host (st_id st) pl') = Inr r"
      "policy_legal r \<longleftrightarrow> policy_reason r = None"
    with run show ?thesis
      by (intro exI [of _ st] exI [of _ pl'] exI [of _ r] conjI) assumption+
  qed
qed

end
