(* ===== verification/Ipc.thy ===== *)
theory Ipc
  imports Contracts
begin

section \<open>The broker's wire contract (\<open>crates/contracts/src/ipc.rs\<close>)\<close>

text \<open>
  Requests and responses of the local IPC boundary with the wire form their derives give them: a
  request leaves out the fields it does not carry, a response is one object whose \<open>outcome\<close> names the
  one payload beside it, and both refuse any other key.  Every type interprets \<open>wire_format\<close>.
\<close>

subsection \<open>Requests\<close>

datatype broker_op = Discover | RunLifecycle

fun broker_op_wire :: "broker_op \<Rightarrow> string" where
  "broker_op_wire Discover = ''discover''"
| "broker_op_wire RunLifecycle = ''run-lifecycle''"

definition broker_op_variants :: "broker_op list" where
  "broker_op_variants = [Discover, RunLifecycle]"

record broker_request =
  rq_op :: broker_op
  rq_owner :: "string option"
  rq_change :: "change_request option"

definition discover_request :: broker_request where
  "discover_request = \<lparr>rq_op = Discover, rq_owner = None, rq_change = None\<rparr>"

definition run_lifecycle_request :: "string \<Rightarrow> change_request \<Rightarrow> broker_request" where
  "run_lifecycle_request owner c =
     \<lparr>rq_op = RunLifecycle, rq_owner = Some owner, rq_change = Some c\<rparr>"

text \<open>\<open>skip_serializing_if\<close>: an absent field is not printed.\<close>

definition skip_none :: "string \<Rightarrow> ('a \<Rightarrow> json) \<Rightarrow> 'a option \<Rightarrow> (string \<times> json) list" where
  "skip_none k enc x = (case x of None \<Rightarrow> [] | Some y \<Rightarrow> [(k, enc y)])"

definition request_json :: "broker_request \<Rightarrow> json" where
  "request_json r = obj
     ((''op'', enum_enc broker_op_wire (rq_op r)) #
      skip_none ''owner'' Str (rq_owner r) @ skip_none ''change'' change_json (rq_change r))"

text \<open>The owner and the change have a serde default, so an array may end after the operation.\<close>

definition request_of_json :: "json \<Rightarrow> broker_request option" where
  "request_of_json v = do {
     m \<leftarrow> struct_fields_from 1 [''op'', ''owner'', ''change''] v;
     p \<leftarrow> req m ''op'' (enum_dec broker_op_wire broker_op_variants);
     w \<leftarrow> opt m ''owner'' as_str;
     c \<leftarrow> opt m ''change'' change_of_json;
     Some \<lparr>rq_op = p, rq_owner = w, rq_change = c\<rparr>
   }"

definition request_ok :: "broker_request \<Rightarrow> bool" where
  "request_ok r \<longleftrightarrow> (case rq_change r of None \<Rightarrow> True | Some c \<Rightarrow> change_ok c)"

subsection \<open>Responses\<close>

record lifecycle_report =
  rp_provider :: string
  rp_preview :: string
  rp_verified :: bool
  rp_rolled_back :: bool

datatype broker_error_kind =
    Unauthenticated | Malformed | UnknownCapabilityKind | PolicyDeniedKind | OwnerConflictKind
  | LifecycleFailedKind | Internal

fun error_kind_wire :: "broker_error_kind \<Rightarrow> string" where
  "error_kind_wire Unauthenticated = ''unauthenticated''"
| "error_kind_wire Malformed = ''malformed''"
| "error_kind_wire UnknownCapabilityKind = ''unknown-capability''"
| "error_kind_wire PolicyDeniedKind = ''policy-denied''"
| "error_kind_wire OwnerConflictKind = ''owner-conflict''"
| "error_kind_wire LifecycleFailedKind = ''lifecycle-failed''"
| "error_kind_wire Internal = ''internal''"

definition error_kind_variants :: "broker_error_kind list" where
  "error_kind_variants = [Unauthenticated, Malformed, UnknownCapabilityKind, PolicyDeniedKind,
     OwnerConflictKind, LifecycleFailedKind, Internal]"

record broker_error_body =
  eb_kind :: broker_error_kind
  eb_message :: string

datatype broker_response =
    CapabilitiesResponse provider_manifest
  | LifecycleResponse lifecycle_report
  | ErrorResponse broker_error_body

datatype broker_outcome = CapabilitiesOutcome | LifecycleOutcome | ErrorOutcome

fun outcome :: "broker_response \<Rightarrow> broker_outcome" where
  "outcome (CapabilitiesResponse _) = CapabilitiesOutcome"
| "outcome (LifecycleResponse _) = LifecycleOutcome"
| "outcome (ErrorResponse _) = ErrorOutcome"

fun outcome_wire :: "broker_outcome \<Rightarrow> string" where
  "outcome_wire CapabilitiesOutcome = ''capabilities''"
| "outcome_wire LifecycleOutcome = ''lifecycle''"
| "outcome_wire ErrorOutcome = ''error''"

definition outcome_variants :: "broker_outcome list" where
  "outcome_variants = [CapabilitiesOutcome, LifecycleOutcome, ErrorOutcome]"

definition error_response :: "broker_error_kind \<Rightarrow> string \<Rightarrow> broker_response" where
  "error_response k msg = ErrorResponse \<lparr>eb_kind = k, eb_message = msg\<rparr>"

definition report_json :: "lifecycle_report \<Rightarrow> json" where
  "report_json r = obj [(''provider_id'', Str (rp_provider r)), (''preview'', Str (rp_preview r)),
     (''verified'', Bool (rp_verified r)), (''rolled_back'', Bool (rp_rolled_back r))]"

definition report_of_json :: "json \<Rightarrow> lifecycle_report option" where
  "report_of_json v = do {
     m \<leftarrow> struct_fields [''provider_id'', ''preview'', ''verified'', ''rolled_back''] v;
     p \<leftarrow> req m ''provider_id'' as_str;
     d \<leftarrow> req m ''preview'' as_str;
     a \<leftarrow> req m ''verified'' as_bool;
     b \<leftarrow> req m ''rolled_back'' as_bool;
     Some \<lparr>rp_provider = p, rp_preview = d, rp_verified = a, rp_rolled_back = b\<rparr>
   }"

definition error_body_json :: "broker_error_body \<Rightarrow> json" where
  "error_body_json e =
     obj [(''kind'', enum_enc error_kind_wire (eb_kind e)), (''message'', Str (eb_message e))]"

definition error_body_of_json :: "json \<Rightarrow> broker_error_body option" where
  "error_body_of_json v = do {
     m \<leftarrow> struct_fields [''kind'', ''message''] v;
     k \<leftarrow> req m ''kind'' (enum_dec error_kind_wire error_kind_variants);
     s \<leftarrow> req m ''message'' as_str;
     Some \<lparr>eb_kind = k, eb_message = s\<rparr>
   }"

text \<open>
  Internally tagged: the tag and the payload it names are fields of one object.  The derive also takes
  an array of the tag and the payload, but the tag only as a string.  (For such a type serde buffers
  the payload first, and in a buffered payload an empty object is as good as the null of a variant
  written as an object; the broker writes neither.)
\<close>

definition tag_field :: "string \<Rightarrow> json \<Rightarrow> json option" where
  "tag_field k v = (case v of Arr (x # _) \<Rightarrow> Some x | _ \<Rightarrow> get k v)"

lemma tag_field_obj [simp]: "tag_field k (obj kvs) = map_of kvs k"
  by (simp add: tag_field_def obj_def get_def fmlookup_of_list)

fun response_json :: "broker_response \<Rightarrow> json" where
  "response_json (CapabilitiesResponse p) =
     obj [(''outcome'', Str ''capabilities''), (''capabilities'', manifest_json p)]"
| "response_json (LifecycleResponse r) =
     obj [(''outcome'', Str ''lifecycle''), (''lifecycle'', report_json r)]"
| "response_json (ErrorResponse e) =
     obj [(''outcome'', Str ''error''), (''error'', error_body_json e)]"

definition response_of_json :: "json \<Rightarrow> broker_response option" where
  "response_of_json v = do {
     t \<leftarrow> tag_field ''outcome'' v;
     tag \<leftarrow> Option.bind (as_str t) (\<lambda>s. List.find (\<lambda>x. outcome_wire x = s) outcome_variants);
     (case tag of
        CapabilitiesOutcome \<Rightarrow> do {
          m \<leftarrow> struct_fields [''outcome'', ''capabilities''] v;
          p \<leftarrow> req m ''capabilities'' manifest_of_json;
          Some (CapabilitiesResponse p) }
      | LifecycleOutcome \<Rightarrow> do {
          m \<leftarrow> struct_fields [''outcome'', ''lifecycle''] v;
          r \<leftarrow> req m ''lifecycle'' report_of_json;
          Some (LifecycleResponse r) }
      | ErrorOutcome \<Rightarrow> do {
          m \<leftarrow> struct_fields [''outcome'', ''error''] v;
          e \<leftarrow> req m ''error'' error_body_of_json;
          Some (ErrorResponse e) })
   }"

fun response_ok :: "broker_response \<Rightarrow> bool" where
  "response_ok (CapabilitiesResponse p) = manifest_ok p"
| "response_ok _ = True"

subsection \<open>The formats\<close>

lemmas ipc_variants = broker_op_variants_def error_kind_variants_def outcome_variants_def

interpretation broker_op_format:
  wire_format "enum_enc broker_op_wire" "enum_dec broker_op_wire broker_op_variants" any
  by unfold_locales (rename_tac x, case_tac x; simp add: enum_enc_def enum_dec_def ipc_variants)

interpretation error_kind_format:
  wire_format "enum_enc error_kind_wire" "enum_dec error_kind_wire error_kind_variants" any
  by unfold_locales (rename_tac x, case_tac x; simp add: enum_enc_def enum_dec_def ipc_variants)

interpretation report_format: wire_format report_json report_of_json any
  by unfold_locales (simp add: report_json_def report_of_json_def)

interpretation error_body_format: wire_format error_body_json error_body_of_json any
  by unfold_locales (simp add: error_body_json_def error_body_of_json_def error_kind_format.dec_enc)

lemma change_field [simp]:
  "change_ok c \<Longrightarrow>
   (case change_json c of Null \<Rightarrow> Some None
    | _ \<Rightarrow> map_option Some (change_of_json (change_json c))) = Some (Some c)"
  using change_format.dec_enc [of c]
  by (cases "change_json c") (simp_all add: change_json_def obj_def)

interpretation request_format: wire_format request_json request_of_json request_ok
proof
  fix r assume "request_ok r"
  then show "request_of_json (request_json r) = Some r"
    by (cases "rq_owner r"; cases "rq_change r")
      (simp_all add: request_json_def request_of_json_def request_ok_def skip_none_def
        broker_op_format.dec_enc)
qed

interpretation response_format: wire_format response_json response_of_json response_ok
proof
  fix r assume "response_ok r"
  then show "response_of_json (response_json r) = Some r"
    by (cases r)
      (simp_all add: response_of_json_def enum_dec_def ipc_variants manifest_format.dec_enc
        report_format.dec_enc error_body_format.dec_enc)
qed

subsection \<open>What decodes\<close>

lemma struct_fields_Some:
  "struct_fields names v = Some m \<longleftrightarrow>
     v = Obj m \<and> fmdom m |\<subseteq>| fset_of_list names \<or>
     (\<exists>xs. v = Arr xs \<and> length xs = length names \<and> m = fmap_of_list (zip names xs))"
  by (auto simp: struct_fields_def struct_fields_from_def fields_within_def split: json.splits)

lemma req_Some: "req m k dec = Some x \<longleftrightarrow> (\<exists>v. fmlookup m k = Some v \<and> dec v = Some x)"
  by (auto simp: req_def split: bind_splits)

lemma change_of_json_ok: "change_of_json v = Some c \<Longrightarrow> change_ok c"
  by (auto simp: change_of_json_def change_ok_def object_parameters_def dec_object_def
      dec_nonzero_u64_def req_Some split: bind_splits if_splits)

lemma request_of_json_ok: "request_of_json v = Some r \<Longrightarrow> request_ok r"
  by (auto simp: request_of_json_def request_ok_def opt_def dest: change_of_json_ok
      split: bind_splits option.splits json.splits)

text \<open>
  The wire contract loses nothing: a request or response that the types can hold is decoded back from
  what it is printed as.  A response that decodes carries exactly its tag and the one payload that the
  tag names, as an object or as an array of the two.
\<close>

lemma response_decodes:
  assumes "response_of_json v = Some r"
  shows "(\<exists>m. v = Obj m \<and> fmdom m = {|''outcome'', outcome_wire (outcome r)|} \<and>
      fmlookup m ''outcome'' = Some (Str (outcome_wire (outcome r)))) \<or>
    (\<exists>p. v = Arr [Str (outcome_wire (outcome r)), p])"
proof -
  obtain t tag where t: "tag_field ''outcome'' v = Some t"
      "Option.bind (as_str t) (\<lambda>s. List.find (\<lambda>x. outcome_wire x = s) outcome_variants) = Some tag"
    and body: "(case tag of
        CapabilitiesOutcome \<Rightarrow> Option.bind (struct_fields [''outcome'', ''capabilities''] v) (\<lambda>m.
          Option.bind (req m ''capabilities'' manifest_of_json) (\<lambda>p. Some (CapabilitiesResponse p)))
      | LifecycleOutcome \<Rightarrow> Option.bind (struct_fields [''outcome'', ''lifecycle''] v) (\<lambda>m.
          Option.bind (req m ''lifecycle'' report_of_json) (\<lambda>r. Some (LifecycleResponse r)))
      | ErrorOutcome \<Rightarrow> Option.bind (struct_fields [''outcome'', ''error''] v) (\<lambda>m.
          Option.bind (req m ''error'' error_body_of_json) (\<lambda>e. Some (ErrorResponse e)))) = Some r"
    using assms unfolding response_of_json_def by (auto split: bind_splits)
  have tag: "t = Str (outcome_wire tag)"
    using t(2) by (auto simp: as_str_def split: bind_splits json.splits dest: find_Some_in_set)
  have "outcome r = tag \<and> ((\<exists>m. v = Obj m \<and> fmdom m |\<subseteq>| {|''outcome'', outcome_wire tag|} \<and>
      outcome_wire tag |\<in>| fmdom m) \<or> (\<exists>xs. v = Arr xs \<and> length xs = 2))"
    using body by (cases tag) (auto simp: struct_fields_Some req_Some split: bind_splits intro: fmdomI)
  then show ?thesis
    using t(1) tag by (fastforce simp: tag_field_def length_Suc_conv numeral_2_eq_2 intro: fmdomI)
qed

end
