(* ===== verification/Ownership.thy ===== *)
theory Ownership
  imports Prelude
begin

section \<open>Single owner per knob (\<open>apps/broker/src/ownership.rs\<close>)\<close>

text \<open>
  The ledger is a map from capability ids to owners, read and written under its lock, so every
  operation is one step.  A guard is the right to one knob: \<open>acquire\<close> gives it out, dropping it
  releases the knob.  \<open>exclusive_ledger\<close> is the contract a user of the ledger relies on.
\<close>

subsection \<open>Operations\<close>

type_synonym ledger = "string \<Rightarrow> string option"

record owner_conflict =
  oc_capability :: string
  oc_held_by :: string

record ownership_guard =
  guard_capability :: string

definition show_conflict :: "owner_conflict \<Rightarrow> string" where
  "show_conflict e =
     ''capability '' @ oc_capability e @ '' is already owned by '' @ oc_held_by e"

definition new_ledger :: ledger where
  "new_ledger = Map.empty"

definition acquire ::
  "string \<Rightarrow> string \<Rightarrow> ledger \<Rightarrow> (owner_conflict, ownership_guard) result \<times> ledger" where
  "acquire c owner L =
     (case L c of
        Some held_by \<Rightarrow> (Inl \<lparr>oc_capability = c, oc_held_by = held_by\<rparr>, L)
      | None \<Rightarrow> (Inr \<lparr>guard_capability = c\<rparr>, L(c \<mapsto> owner)))"

definition owner_of :: "string \<Rightarrow> ledger \<Rightarrow> string option" where
  "owner_of c L = L c"

definition drop_guard :: "ownership_guard \<Rightarrow> ledger \<Rightarrow> ledger" where
  "drop_guard g L = L(guard_capability g := None)"

subsection \<open>Contract\<close>

locale exclusive_ledger =
  fixes acq :: "'c \<Rightarrow> 'o \<Rightarrow> 'l \<Rightarrow> ('e, 'g) result \<times> 'l"
    and rel :: "'g \<Rightarrow> 'l \<Rightarrow> 'l"
    and own :: "'c \<Rightarrow> 'l \<Rightarrow> 'o option"
    and knob :: "'g \<Rightarrow> 'c"
  assumes acq_free: "own c L = None \<Longrightarrow>
      \<exists>g L'. acq c w L = (Inr g, L') \<and> knob g = c \<and> own c L' = Some w \<and>
        (\<forall>d. d \<noteq> c \<longrightarrow> own d L' = own d L)"
    and acq_held: "own c L = Some h \<Longrightarrow> \<exists>e. acq c w L = (Inl e, L)"
    and rel_own: "own d (rel g L) = (if d = knob g then None else own d L)"
begin

lemma acq_Inr:
  assumes "acq c w L = (Inr g, L')"
  shows "own c L = None" "knob g = c" "own d L' = (if d = c then Some w else own d L)"
  using assms acq_free [of c L w] acq_held [of c L _ w] by (cases "own c L"; force)+

lemma acq_Inl: "acq c w L = (Inl e, L') \<Longrightarrow> L' = L \<and> own c L \<noteq> None"
  using acq_free [of c L w] acq_held [of c L _ w] by (cases "own c L"; force)

lemma release_restores:
  "acq c w L = (Inr g, L') \<Longrightarrow> own d (rel g L') = own d L"
  using acq_Inr [of c w L g L'] by (simp add: rel_own)

end

interpretation ledger: exclusive_ledger acquire drop_guard owner_of guard_capability
  by unfold_locales (auto simp: acquire_def owner_of_def drop_guard_def)

subsection \<open>Any interleaving of owners\<close>

text \<open>
  What several threads that share the ledger can do to it: acquire, be refused, and drop a guard
  they hold.  The second component lists the guards that are alive, with the owner each was given to.
\<close>

inductive ledger_run :: "ledger \<Rightarrow> (string \<times> string) list \<Rightarrow> bool" where
  start: "ledger_run new_ledger []"
| granted: "ledger_run L live \<Longrightarrow> acquire c w L = (Inr g, L') \<Longrightarrow>
    ledger_run L' ((guard_capability g, w) # live)"
| refused: "ledger_run L live \<Longrightarrow> acquire c w L = (Inl e, L') \<Longrightarrow> ledger_run L' live"
| dropped: "ledger_run L live \<Longrightarrow> (c, w) \<in> set live \<Longrightarrow>
    ledger_run (drop_guard \<lparr>guard_capability = c\<rparr> L) (remove1 (c, w) live)"

lemma map_of_remove1:
  "distinct (map fst xs) \<Longrightarrow> (c, w) \<in> set xs \<Longrightarrow> map_of (remove1 (c, w) xs) = (map_of xs)(c := None)"
proof (induction xs)
  case (Cons x xs)
  show ?case
  proof (cases "x = (c, w)")
    case True
    then have "map_of xs c = None"
      using Cons.prems by (simp add: map_of_eq_None_iff)
    then show ?thesis using True by (auto simp: fun_eq_iff)
  next
    case False
    then have "c \<in> fst ` set xs" using Cons.prems by force
    then have "fst x \<noteq> c" using Cons.prems by auto
    then show ?thesis using Cons False by (cases x) (auto simp: fun_upd_twist)
  qed
qed simp

lemma distinct_fst_remove1: "distinct (map fst xs) \<Longrightarrow> distinct (map fst (remove1 x xs))"
  by (induction xs) (force dest: set_remove1_subset [THEN subsetD])+

text \<open>
  At every moment of every interleaving the ledger is exactly the set of guards that are alive:
  no knob has two live guards, a knob has an owner in the ledger exactly when a guard for it is
  alive, and it is the owner that guard was given to.  A second owner, or the same owner a second
  time, is refused while the guard lives, and granted once it is dropped.
\<close>

theorem ledger_is_the_live_guards:
  assumes "ledger_run L live"
  shows "distinct (map fst live) \<and> (\<forall>c. owner_of c L = map_of live c) \<and>
    (\<forall>c w. is_err (fst (acquire c w L)) \<longleftrightarrow> c \<in> fst ` set live)"
proof -
  have "distinct (map fst live) \<and> L = map_of live"
    using assms
  proof induction
    case (granted L live c w g L')
    then have c: "guard_capability g = c" "L c = None" "L' = L(c \<mapsto> w)"
      by (auto simp: acquire_def split: option.splits)
    then show ?case using granted by (auto simp: map_of_eq_None_iff)
  next
    case (dropped L live c w)
    then show ?case by (simp add: drop_guard_def map_of_remove1 distinct_fst_remove1)
  qed (auto simp: new_ledger_def acquire_def split: option.splits)
  then show ?thesis
    by (auto simp: owner_of_def acquire_def split: option.splits
        dest: map_of_SomeD intro: rev_image_eqI dest!: map_of_eq_None_iff [THEN iffD1])
qed

text \<open>A run with a conflict: a second owner is refused, and served after the release.\<close>

theorem ledger_is_the_live_guards_witness:
  "\<exists>L. ledger_run L [(''mock.value'', ''b'')] \<and> owner_of ''mock.value'' L = Some ''b'' \<and>
     is_err (fst (acquire ''mock.value'' ''a'' L))"
proof -
  let ?c = "''mock.value''"
  let ?A = "new_ledger(?c \<mapsto> ''a'')" and ?B = "new_ledger(?c \<mapsto> ''b'')"
  have "ledger_run ?A [(?c, ''a'')]"
    using granted [OF start, of ?c "''a''" "\<lparr>guard_capability = ?c\<rparr>" ?A]
    by (simp add: acquire_def new_ledger_def)
  then have "ledger_run ?A [(?c, ''a'')]"
    by (rule refused [of _ _ ?c "''b''" "\<lparr>oc_capability = ?c, oc_held_by = ''a''\<rparr>"])
      (simp add: acquire_def)
  from dropped [OF this, of ?c "''a''"] have "ledger_run new_ledger []"
    by (simp add: drop_guard_def new_ledger_def)
  from granted [OF this, of ?c "''b''" "\<lparr>guard_capability = ?c\<rparr>" ?B]
  have run: "ledger_run ?B [(?c, ''b'')]"
    by (simp add: acquire_def new_ledger_def)
  show ?thesis
    using ledger_is_the_live_guards [OF run] run
    by (intro exI [of _ ?B]) (auto simp: acquire_def owner_of_def)
qed

end
