(* ===== verification/Files.thy ===== *)
theory Files
  imports Prelude
begin

section \<open>Io errors, paths and the file system\<close>

text \<open>
  What the socket transport and the broker's start-up use of \<open>std::path\<close> and \<open>std::fs\<close>.  A path is
  its components; a file system maps paths to their metadata.  The record \<open>kernel\<close> holds what the
  program does not decide: which call fails and how, the identity of a new file, the umask and the
  uid.  Symbolic links are followed at the last component, forty deep, where the call does so.
\<close>

subsection \<open>Io errors\<close>

datatype io_kind = NotFound | AlreadyExists | PermissionDenied | AddrInUse | ConnectionAborted
  | Interrupted | OtherIo string

record io_error =
  io_kind :: io_kind
  io_text :: string

definition io_error_new :: "io_kind \<Rightarrow> string \<Rightarrow> io_error" where
  "io_error_new k s = \<lparr>io_kind = k, io_text = s\<rparr>"

definition io_error_other :: "string \<Rightarrow> io_error" where
  "io_error_other s = io_error_new (OtherIo ''other'') s"

lemma io_error_new_kind [simp]: "io_kind (io_error_new k s) = k"
  by (simp add: io_error_new_def)

subsection \<open>Paths\<close>

datatype path = Path (is_absolute: bool) (parts: "string list")

fun split_at :: "char \<Rightarrow> string \<Rightarrow> string list" where
  "split_at sep [] = [[]]"
| "split_at sep (c # cs) =
     (if c = sep then [] # split_at sep cs
      else case split_at sep cs of [] \<Rightarrow> [[c]] | w # ws \<Rightarrow> (c # w) # ws)"

text \<open>Empty components and, but for a leading one, \<open>.\<close> are skipped; \<open>..\<close> stays.\<close>

definition path_of :: "string \<Rightarrow> path" where
  "path_of s =
     (let cs = split_at CHR ''/'' s; abs = (s \<noteq> [] \<and> hd s = CHR ''/'');
          keep = (\<lambda>c. c \<noteq> [] \<and> c \<noteq> ''.'')
      in Path abs (if \<not> abs \<and> hd cs = ''.'' then ''.'' # filter keep cs else filter keep cs))"

definition show_path :: "path \<Rightarrow> string" where
  "show_path p = (if is_absolute p then ''/'' else []) @
     concat (case parts p of [] \<Rightarrow> [] | c # cs \<Rightarrow> c # map (\<lambda>d. ''/'' @ d) cs)"

definition parent :: "path \<Rightarrow> path option" where
  "parent p = (if parts p = [] then None else Some (Path (is_absolute p) (butlast (parts p))))"

definition join :: "path \<Rightarrow> string \<Rightarrow> path" where
  "join p name = Path (is_absolute p) (parts p @ [name])"

text \<open>The path itself, its parent, and so on to the root (or to the empty relative path).\<close>

definition ancestors :: "path \<Rightarrow> path list" where
  "ancestors p = map (\<lambda>n. Path (is_absolute p) (take n (parts p))) (rev [0..<Suc (length (parts p))])"

definition with_suffix :: "path \<Rightarrow> string \<Rightarrow> path" where
  "with_suffix p s =
     (case rev (parts p) of [] \<Rightarrow> Path (is_absolute p) [s]
      | c # cs \<Rightarrow> Path (is_absolute p) (rev cs @ [c @ s]))"

lemma parent_join [simp]: "parent (join p n) = Some p"
  by (cases p) (simp add: parent_def join_def)

lemma join_neq [simp]: "join p n \<noteq> p" "p \<noteq> join p n"
  by (cases p; simp add: join_def)+

lemma join_not_ancestor: "q \<in> set (ancestors p) \<Longrightarrow> q \<noteq> join p n"
proof
  assume q: "q \<in> set (ancestors p)" "q = join p n"
  then obtain k where "q = Path (is_absolute p) (take k (parts p))"
    by (auto simp: ancestors_def simp del: upt_Suc)
  then have "parts p @ [n] = take k (parts p)" using q(2) by (simp add: join_def)
  then have "length (parts p @ [n]) = length (take k (parts p))" by simp
  then show False by simp
qed

lemma self_ancestor [simp]: "p \<in> set (ancestors p)"
  by (cases p) (auto simp: ancestors_def image_iff intro!: bexI [of _ "length (parts p)"])

subsection \<open>The file system\<close>

unbundle bit_operations_syntax

datatype entry_kind = Directory | SocketFile | RegularFile | Symlink path

record meta =
  m_kind :: entry_kind
  m_uid :: u32
  m_mode :: u32
  m_dev :: u64
  m_ino :: u64

record files =
  f_entry :: "path \<Rightarrow> meta option"
  f_locks :: "(u64 \<times> u64) list" \<comment> \<open>files under an exclusive advisory lock\<close>
  f_calls :: nat

record kernel =
  k_fault :: "nat \<Rightarrow> io_error option"
  k_new :: "nat \<Rightarrow> u64 \<times> u64"
  k_umask :: u32
  k_uid :: u32

type_synonym 'a syscall = "files \<Rightarrow> (io_error, 'a) result \<times> files"

definition system_call :: "kernel \<Rightarrow> (files \<Rightarrow> (io_error, 'a) result \<times> files) \<Rightarrow> 'a syscall" where
  "system_call K body F =
     (let F' = F\<lparr>f_calls := Suc (f_calls F)\<rparr> in
      case k_fault K (f_calls F) of Some e \<Rightarrow> (Inl e, F') | None \<Rightarrow> body F')"

definition not_found :: io_error where
  "not_found = io_error_new NotFound ''No such file or directory (os error 2)''"

definition file_exists :: io_error where
  "file_exists = io_error_new AlreadyExists ''File exists (os error 17)''"

definition symlink_metadata :: "kernel \<Rightarrow> path \<Rightarrow> meta syscall" where
  "symlink_metadata K p = system_call K (\<lambda>F. (ok_or not_found (f_entry F p), F))"

definition remove_file :: "kernel \<Rightarrow> path \<Rightarrow> unit syscall" where
  "remove_file K p = system_call K (\<lambda>F.
     case f_entry F p of
       None \<Rightarrow> (Inl not_found, F)
     | Some m \<Rightarrow> if m_kind m = Directory
         then (Inl (io_error_new (OtherIo ''is a directory'') ''Is a directory (os error 21)''), F)
         else (Inr (), F\<lparr>f_entry := (f_entry F)(p := None)\<rparr>))"

fun follow :: "nat \<Rightarrow> files \<Rightarrow> path \<Rightarrow> path option" where
  "follow 0 F p = None"
| "follow (Suc n) F p =
     (case f_entry F p of
        Some m \<Rightarrow> (case m_kind m of Symlink q \<Rightarrow> follow n F q | _ \<Rightarrow> Some p)
      | None \<Rightarrow> Some p)"

definition link_depth :: nat where
  "link_depth = 40"

definition too_many_links :: io_error where
  "too_many_links = io_error_new (OtherIo ''filesystem loop'')
     ''Too many levels of symbolic links (os error 40)''"

definition new_meta :: "kernel \<Rightarrow> files \<Rightarrow> entry_kind \<Rightarrow> u32 \<Rightarrow> meta" where
  "new_meta K F k mode =
     \<lparr>m_kind = k, m_uid = k_uid K, m_mode = mode AND NOT (k_umask K),
      m_dev = fst (k_new K (f_calls F)), m_ino = snd (k_new K (f_calls F))\<rparr>"

text \<open>The entry a path leads to, links followed.\<close>

definition target :: "files \<Rightarrow> path \<Rightarrow> meta option" where
  "target F p = (case follow link_depth F p of None \<Rightarrow> None | Some q \<Rightarrow> f_entry F q)"

text \<open>Creating an entry needs its directory.\<close>

definition has_directory :: "files \<Rightarrow> path \<Rightarrow> bool" where
  "has_directory F p =
     (case parent p of None \<Rightarrow> False
      | Some d \<Rightarrow> (case target F d of Some m \<Rightarrow> m_kind m = Directory | None \<Rightarrow> False))"

text \<open>
  The metadata of a path whose text ends in a separator is that of the directory it leads to: the
  kernel follows a link there, although the call does not follow one at the end of a plain path.
\<close>

definition slashed_metadata :: "kernel \<Rightarrow> path \<Rightarrow> meta syscall" where
  "slashed_metadata K p = system_call K (\<lambda>F.
     case target F p of
       None \<Rightarrow> (Inl not_found, F)
     | Some m \<Rightarrow> if m_kind m = Directory then (Inr m, F)
         else (Inl (io_error_new (OtherIo ''not a directory'') ''Not a directory (os error 20)''), F))"

definition create_dir :: "kernel \<Rightarrow> u32 \<Rightarrow> path \<Rightarrow> unit syscall" where
  "create_dir K mode p = system_call K (\<lambda>F.
     case f_entry F p of
       Some _ \<Rightarrow> (Inl file_exists, F)
     | None \<Rightarrow> if has_directory F p
         then (Inr (), F\<lparr>f_entry := (f_entry F)(p \<mapsto> new_meta K F Directory mode)\<rparr>)
         else (Inl not_found, F))"

definition set_permissions :: "kernel \<Rightarrow> path \<Rightarrow> u32 \<Rightarrow> unit syscall" where
  "set_permissions K p mode = system_call K (\<lambda>F.
     case follow link_depth F p of
       None \<Rightarrow> (Inl too_many_links, F)
     | Some q \<Rightarrow> (case f_entry F q of
         None \<Rightarrow> (Inl not_found, F)
       | Some m \<Rightarrow> (Inr (), F\<lparr>f_entry := (f_entry F)(q \<mapsto> m\<lparr>m_mode := mode\<rparr>)\<rparr>)))"

text \<open>\<open>OpenOptions\<close> with \<open>create\<close>, \<open>write\<close> and a mode: the identity of the opened file.\<close>

definition open_create :: "kernel \<Rightarrow> u32 \<Rightarrow> path \<Rightarrow> (u64 \<times> u64) syscall" where
  "open_create K mode p = system_call K (\<lambda>F.
     case follow link_depth F p of
       None \<Rightarrow> (Inl too_many_links, F)
     | Some q \<Rightarrow> (case f_entry F q of
         Some m \<Rightarrow> (case m_kind m of
             Directory \<Rightarrow>
               (Inl (io_error_new (OtherIo ''is a directory'') ''Is a directory (os error 21)''), F)
           | SocketFile \<Rightarrow>
               (Inl (io_error_new (OtherIo ''no such device'') ''No such device or address (os error 6)''), F)
           | _ \<Rightarrow> (Inr (m_dev m, m_ino m), F))
       | None \<Rightarrow> if has_directory F q
           then (let m = new_meta K F RegularFile mode
                 in (Inr (m_dev m, m_ino m), F\<lparr>f_entry := (f_entry F)(q \<mapsto> m)\<rparr>))
           else (Inl not_found, F)))"

text \<open>\<open>flock\<close>, exclusive and non-blocking; the value says whether the lock was taken.\<close>

definition flock_exclusive :: "kernel \<Rightarrow> u64 \<times> u64 \<Rightarrow> bool syscall" where
  "flock_exclusive K i = system_call K (\<lambda>F.
     if i \<in> set (f_locks F) then (Inr False, F) else (Inr True, F\<lparr>f_locks := i # f_locks F\<rparr>))"

definition bind_socket :: "kernel \<Rightarrow> path \<Rightarrow> unit syscall" where
  "bind_socket K p = system_call K (\<lambda>F.
     case f_entry F p of
       Some _ \<Rightarrow> (Inl (io_error_new AddrInUse ''Address already in use (os error 98)''), F)
     | None \<Rightarrow> if has_directory F p
         then (Inr (), F\<lparr>f_entry := (f_entry F)(p \<mapsto> new_meta K F SocketFile 511)\<rparr>)
         else (Inl not_found, F))"

text \<open>\<open>named\<close>, the same in the transport and the broker's start-up.\<close>

definition named :: "path \<Rightarrow> string \<Rightarrow> io_error \<Rightarrow> io_error" where
  "named p action e =
     io_error_new (io_kind e) (show_path p @ '' cannot be '' @ action @ '': '' @ io_text e)"

lemma named_kind [simp]: "io_kind (named p a e) = io_kind e"
  by (simp add: named_def)

subsection \<open>What a call can change\<close>

text \<open>Every entry but those at \<open>ps\<close> is as it was, and no lock is released.\<close>

definition only_at :: "path set \<Rightarrow> files \<Rightarrow> files \<Rightarrow> bool" where
  "only_at ps F G \<longleftrightarrow>
     (\<forall>q. q \<notin> ps \<longrightarrow> f_entry G q = f_entry F q) \<and> set (f_locks F) \<subseteq> set (f_locks G)"

lemma only_at_refl [simp]: "only_at ps F F"
  by (simp add: only_at_def)

lemma only_at_trans: "only_at ps F G \<Longrightarrow> only_at ps G H \<Longrightarrow> only_at ps F H"
  by (auto simp: only_at_def)

lemma only_at_mono: "only_at ps F G \<Longrightarrow> ps \<subseteq> qs \<Longrightarrow> only_at qs F G"
  by (auto simp: only_at_def)

lemma only_at_entry: "only_at ps F G \<Longrightarrow> q \<notin> ps \<Longrightarrow> f_entry G q = f_entry F q"
  by (simp add: only_at_def)

lemmas syscall_defs = symlink_metadata_def slashed_metadata_def remove_file_def create_dir_def set_permissions_def
  open_create_def flock_exclusive_def bind_socket_def

lemma symlink_metadata_effect:
  "symlink_metadata K p F = (r, G) \<Longrightarrow> only_at {} F G \<and> f_locks G = f_locks F \<and>
     (\<forall>m. r = Inr m \<longrightarrow> f_entry F p = Some m)"
  by (auto simp: syscall_defs system_call_def Let_def only_at_def split: option.splits)

lemma remove_file_effect:
  "remove_file K p F = (r, G) \<Longrightarrow> only_at {p} F G \<and> f_locks G = f_locks F \<and>
     (f_entry G = f_entry F \<or> r = Inr ()) \<and> (r = Inr () \<longrightarrow> f_entry G p = None)"
  by (auto simp: syscall_defs system_call_def Let_def only_at_def split: option.splits if_splits)

lemma create_dir_effect:
  "create_dir K mode p F = (r, G) \<Longrightarrow> only_at {p} F G \<and> f_locks G = f_locks F \<and>
     (\<forall>e. r = Inl e \<longrightarrow> f_entry G = f_entry F) \<and>
     (r = Inr () \<longrightarrow> f_entry F p = None \<and>
        (\<exists>m. f_entry G p = Some m \<and> m_kind m = Directory \<and> m_uid m = k_uid K))"
  by (auto simp: syscall_defs system_call_def Let_def only_at_def new_meta_def
      split: option.splits if_splits)

lemma bind_socket_effect:
  "bind_socket K p F = (r, G) \<Longrightarrow> only_at {p} F G \<and> f_locks G = f_locks F \<and>
     (\<forall>e. r = Inl e \<longrightarrow> f_entry G = f_entry F) \<and>
     (r = Inr () \<longrightarrow> f_entry F p = None \<and> (\<exists>m. f_entry G p = Some m \<and> m_kind m = SocketFile))"
  by (auto simp: syscall_defs system_call_def Let_def only_at_def new_meta_def
      split: option.splits if_splits)

lemma follow_unfold:
  "follow link_depth F p =
     (case f_entry F p of
        Some m \<Rightarrow> (case m_kind m of Symlink q \<Rightarrow> follow 39 F q | _ \<Rightarrow> Some p)
      | None \<Rightarrow> Some p)"
proof -
  have e: "link_depth = Suc 39" by (simp add: link_depth_def)
  show ?thesis unfolding e by (rule follow.simps(2))
qed

lemma follow_plain:
  "f_entry F p = Some m \<Longrightarrow> (\<And>q. m_kind m \<noteq> Symlink q) \<Longrightarrow> follow link_depth F p = Some p"
  by (cases "m_kind m") (auto simp: link_depth_def numeral_eq_Suc)

lemma follow_not_symlink:
  "follow n F p = Some q \<Longrightarrow> f_entry F q = Some m \<Longrightarrow> m_kind m \<noteq> Symlink t"
  by (induction n arbitrary: p) (auto split: option.splits entry_kind.splits)

lemma follow_files [simp]:
  "follow n (F\<lparr>f_calls := k\<rparr>) p = follow n F p" "follow n (F\<lparr>f_locks := ls\<rparr>) p = follow n F p"
  by (induction n arbitrary: p) (auto split: option.split entry_kind.split)

lemma set_permissions_effect:
  "set_permissions K p mode F = (r, G) \<Longrightarrow> f_locks G = f_locks F \<and>
     (\<forall>e. r = Inl e \<longrightarrow> f_entry G = f_entry F) \<and>
     (r = Inr () \<longrightarrow> (\<exists>q m. follow link_depth F p = Some q \<and> f_entry F q = Some m \<and>
        f_entry G = (f_entry F)(q \<mapsto> m\<lparr>m_mode := mode\<rparr>)))"
  by (auto simp: syscall_defs system_call_def Let_def only_at_def split: option.splits)

end
