(* ===== verification/Broker.thy ===== *)
theory Broker
  imports Lifecycle Ipc Ownership Files
begin

section \<open>The broker service (\<open>apps/broker/src/lib.rs\<close>)\<close>

text \<open>
  The request handler at the trusted end of the boundary, the reduction of errors to what may cross
  it, and the worker that owns the service.  The service owns the control plane; the ledger, which
  other threads may share, is part of its state.
\<close>

subsection \<open>Echoing client text\<close>

definition MAX_ECHOED_BYTES :: nat where
  "MAX_ECHOED_BYTES = 120"

definition echoed :: "string \<Rightarrow> string" where
  "echoed text =
     (if length text \<le> MAX_ECHOED_BYTES then text
      else let cut = (case List.find (is_char_boundary text) (rev [0..<Suc MAX_ECHOED_BYTES]) of
                        None \<Rightarrow> 0 | Some i \<Rightarrow> i)
           in take cut text @ ''...'')"

text \<open>
  \<open>trim\<close> leaves nothing exactly when every code point is Unicode white space, here on UTF-8 bytes.
\<close>

fun is_blank :: "string \<Rightarrow> bool" where
  "is_blank [] = True"
| "is_blank (c # cs) =
     (let n = byte_of c in
      if (9 \<le> n \<and> n \<le> 13) \<or> n = 32 then is_blank cs
      else case cs of [] \<Rightarrow> False
      | d # ds \<Rightarrow>
     (let m = byte_of d in
      if n = 194 \<and> (m = 133 \<or> m = 160) then is_blank ds
      else case ds of [] \<Rightarrow> False
      | e # es \<Rightarrow>
     (let k = byte_of e in
      if (n = 225 \<and> m = 154 \<and> k = 128) \<or>
         (n = 226 \<and> m = 128 \<and> (128 \<le> k \<and> k \<le> 138 \<or> k = 168 \<or> k = 169 \<or> k = 175)) \<or>
         (n = 226 \<and> m = 129 \<and> k = 159) \<or> (n = 227 \<and> m = 128 \<and> k = 128)
      then is_blank es else False)))"

subsection \<open>The service\<close>

record ('p, 't) service =
  sv_plane :: "('p, 't) plane"
  sv_ledger :: ledger
  sv_catalog :: "string list"

definition new_service :: "('p, 't) plane \<Rightarrow> ledger \<Rightarrow> ('p, 't) service" where
  "new_service pl L =
     \<lparr>sv_plane = pl, sv_ledger = L, sv_catalog = map cap_id (capabilities (manifest pl))\<rparr>"

definition broker_discover :: "('p, 't) service \<Rightarrow> broker_response" where
  "broker_discover sv = CapabilitiesResponse (manifest (sv_plane sv))"

definition wire_error :: "cp_error \<Rightarrow> broker_response" where
  "wire_error e =
     (case e of
        UnknownCapability _ \<Rightarrow> error_response UnknownCapabilityKind (echoed (show_cp_error e))
      | PolicyDenied _ \<Rightarrow> error_response PolicyDeniedKind (echoed (show_cp_error e))
      | _ \<Rightarrow> error_response LifecycleFailedKind (''lifecycle failed: '' @ kind e))"

definition report_of :: "lifecycle_result \<Rightarrow> lifecycle_report" where
  "report_of r = \<lparr>rp_provider = res_provider r, rp_preview = res_preview r,
     rp_verified = verified r, rp_rolled_back = rolled_back r\<rparr>"

text \<open>The guard of the knob is dropped when the method returns.\<close>

definition broker_run_lifecycle ::
  "'t host \<Rightarrow> 'p provider_ops \<Rightarrow> string option \<Rightarrow> change_request option \<Rightarrow> ('p, 't) service \<Rightarrow>
     broker_response \<times> ('p, 't) service" where
  "broker_run_lifecycle H P owner change sv =
     (case Option.bind owner (\<lambda>w. if is_blank w then None else Some w) of
        None \<Rightarrow> (error_response Malformed ''run-lifecycle requires a non-empty owner'', sv)
      | Some w \<Rightarrow>
     (case change of
        None \<Rightarrow> (error_response Malformed ''run-lifecycle requires a change'', sv)
      | Some c \<Rightarrow>
      if capability_id c \<notin> set (sv_catalog sv)
      then (error_response UnknownCapabilityKind
              (''capability '' @ echoed (capability_id c) @ '' is not in the catalog''), sv)
      else case acquire (capability_id c) w (sv_ledger sv) of
        (Inl conflict, L) \<Rightarrow>
          (error_response OwnerConflictKind (echoed (show_conflict conflict)), sv\<lparr>sv_ledger := L\<rparr>)
      | (Inr guard, L) \<Rightarrow>
     (case run_lifecycle H P c (sv_plane sv) of
        (r, pl) \<Rightarrow>
          (case r of Inr result \<Rightarrow> LifecycleResponse (report_of result) | Inl e \<Rightarrow> wire_error e,
           sv\<lparr>sv_plane := pl, sv_ledger := drop_guard guard L\<rparr>))))"

definition broker_handle ::
  "'t host \<Rightarrow> 'p provider_ops \<Rightarrow> broker_request \<Rightarrow> ('p, 't) service \<Rightarrow>
     broker_response \<times> ('p, 't) service" where
  "broker_handle H P q sv =
     (case rq_op q of
        Discover \<Rightarrow> (broker_discover sv, sv)
      | RunLifecycle \<Rightarrow> broker_run_lifecycle H P (rq_owner q) (rq_change q) sv)"

subsection \<open>The worker\<close>

text \<open>
  The thread that owns the service, \<open>None\<close> once it has stopped.  A handler that panics (\<open>None\<close>) ends
  it, and the request in hand is answered for it.
\<close>

definition dispatch ::
  "(broker_request \<Rightarrow> 'w \<Rightarrow> (broker_response \<times> 'w) option) \<Rightarrow> broker_request \<Rightarrow> 'w option \<Rightarrow>
     broker_response \<times> 'w option" where
  "dispatch handler q worker =
     (case worker of
        None \<Rightarrow> (error_response Internal ''broker worker has stopped'', None)
      | Some w \<Rightarrow>
          (case handler q w of
             None \<Rightarrow> (error_response Internal ''broker worker dropped the request'', None)
           | Some (r, w') \<Rightarrow> (r, Some w')))"

definition worker_stopped :: "'w option \<Rightarrow> bool" where
  "worker_stopped worker \<longleftrightarrow> worker = None"

text \<open>\<open>build\<close> runs on the worker's own thread; \<open>None\<close> is a panic there.\<close>

definition spawn_service ::
  "io_error option \<Rightarrow> (io_error, 'w) result option \<Rightarrow> (io_error, 'w option) result" where
  "spawn_service spawn_fault build =
     (case spawn_fault of
        Some e \<Rightarrow> Inl e
      | None \<Rightarrow>
          (case build of
             Some (Inr w) \<Rightarrow> Inr (Some w)
           | Some (Inl e) \<Rightarrow> Inl e
           | None \<Rightarrow> Inl (io_error_other ''broker worker exited during startup'')))"

subsection \<open>Echoed text\<close>

lemma find_last_boundary:
  "\<exists>i\<le>n. List.find (is_char_boundary s) (rev [0..<Suc n]) = Some i \<and> is_char_boundary s i \<and>
     (\<forall>j. i < j \<and> j \<le> n \<longrightarrow> \<not> is_char_boundary s j)"
proof (induction n)
  case (Suc n)
  then obtain i where i: "i \<le> n" "List.find (is_char_boundary s) (rev [0..<Suc n]) = Some i"
    "is_char_boundary s i" "\<forall>j. i < j \<and> j \<le> n \<longrightarrow> \<not> is_char_boundary s j" by blast
  show ?case
  proof (cases "is_char_boundary s (Suc n)")
    case False
    then show ?thesis using i by (intro exI [of _ i]) (auto simp: le_Suc_eq)
  qed (auto intro: exI [of _ "Suc n"])
qed simp

lemma echoed_cut:
  assumes "\<not> length s \<le> MAX_ECHOED_BYTES"
  obtains i where "i \<le> MAX_ECHOED_BYTES" "is_char_boundary s i" "echoed s = take i s @ ''...''"
    "\<forall>j. i < j \<and> j \<le> MAX_ECHOED_BYTES \<longrightarrow> \<not> is_char_boundary s j"
  using find_last_boundary [of MAX_ECHOED_BYTES s] assms
  by (auto simp: echoed_def simp del: upt_Suc)

lemma length_echoed: "length (echoed s) \<le> 123"
proof (cases "length s \<le> MAX_ECHOED_BYTES")
  case True
  then show ?thesis by (simp add: echoed_def MAX_ECHOED_BYTES_def)
next
  case False
  then show ?thesis by (rule echoed_cut) (simp add: MAX_ECHOED_BYTES_def)
qed

subsection \<open>What the handler does\<close>

lemma error_response_eq [simp]:
  "error_response k s = ErrorResponse b \<longleftrightarrow> b = \<lparr>eb_kind = k, eb_message = s\<rparr>"
  by (auto simp: error_response_def)

text \<open>The error kinds a failed lifecycle may name to a peer.\<close>

definition stable_kinds :: "string set" where
  "stable_kinds = {''provider'', ''verification-failed'', ''rollback-verification-failed'',
     ''unknown-trial'', ''journal'', ''serialization''}"

lemma wire_error_cases:
  obtains k s where "wire_error e = error_response k (echoed s)" "k \<noteq> LifecycleFailedKind"
  | s where "wire_error e = error_response LifecycleFailedKind (''lifecycle failed: '' @ s)"
      "s \<in> stable_kinds"
  by (cases e) (auto simp: wire_error_def stable_kinds_def intro: that)

lemma stable_kinds_short: "s \<in> stable_kinds \<Longrightarrow> length s \<le> 28"
  by (auto simp: stable_kinds_def)

text \<open>The gates a lifecycle request passes before the control plane is called.\<close>

definition admitted :: "('p, 't) service \<Rightarrow> broker_request \<Rightarrow> string \<Rightarrow> change_request \<Rightarrow> bool" where
  "admitted sv q w c \<longleftrightarrow>
     rq_op q = RunLifecycle \<and> rq_owner q = Some w \<and> \<not> is_blank w \<and> rq_change q = Some c \<and>
     capability_id c \<in> set (sv_catalog sv) \<and> owner_of (capability_id c) (sv_ledger sv) = None"

lemma refused_request:
  assumes "rq_op q = RunLifecycle" "\<not> (\<exists>w c. admitted sv q w c)"
  shows "\<exists>k s. broker_run_lifecycle H P (rq_owner q) (rq_change q) sv = (error_response k s, sv) \<and>
    k \<noteq> LifecycleFailedKind \<and> length s \<le> 156"
proof (cases "Option.bind (rq_owner q) (\<lambda>w. if is_blank w then None else Some w)")
  case None
  then show ?thesis
    by (intro exI [of _ Malformed] exI [of _ "''run-lifecycle requires a non-empty owner''"])
      (simp add: broker_run_lifecycle_def)
next
  case w: (Some w)
  then have owner: "rq_owner q = Some w" "\<not> is_blank w"
    by (auto split: bind_splits if_splits)
  show ?thesis
  proof (cases "rq_change q")
    case None
    then show ?thesis
      using w by (intro exI [of _ Malformed] exI [of _ "''run-lifecycle requires a change''"])
        (simp add: broker_run_lifecycle_def)
  next
    case c: (Some c)
    show ?thesis
    proof (cases "capability_id c \<in> set (sv_catalog sv)")
      case False
      let ?s = "''capability '' @ echoed (capability_id c) @ '' is not in the catalog''"
      have "length ?s \<le> 156" using length_echoed [of "capability_id c"] by simp
      then show ?thesis
        using w c False by (intro exI [of _ UnknownCapabilityKind] exI [of _ ?s])
          (simp add: broker_run_lifecycle_def)
    next
      case True
      then obtain held where "sv_ledger sv (capability_id c) = Some held"
        using assms owner c by (auto simp: admitted_def owner_of_def)
      then show ?thesis
        using w c True length_echoed order_trans
        by (intro exI [of _ OwnerConflictKind] exI [of _ "echoed (show_conflict
              \<lparr>oc_capability = capability_id c, oc_held_by = held\<rparr>)"])
          (auto simp: broker_run_lifecycle_def acquire_def intro: order_trans [OF length_echoed])
    qed
  qed
qed

lemma broker_handle_cases [consumes 1, case_names discover refused ran]:
  assumes "broker_handle H P q sv = (r, sv')"
  obtains "rq_op q = Discover" "r = CapabilitiesResponse (manifest (sv_plane sv))" "sv' = sv"
  | k s where "rq_op q = RunLifecycle" "\<forall>w c. \<not> admitted sv q w c" "r = error_response k s"
      "k \<noteq> LifecycleFailedKind" "length s \<le> 156" "sv' = sv"
  | w c res pl where "admitted sv q w c" "run_lifecycle H P c (sv_plane sv) = (res, pl)"
      "r = (case res of Inr x \<Rightarrow> LifecycleResponse (report_of x) | Inl e \<Rightarrow> wire_error e)"
      "sv' = sv\<lparr>sv_plane := pl\<rparr>"
proof (cases "rq_op q")
  case Discover
  then have "r = broker_discover sv" "sv' = sv" using assms by (auto simp: broker_handle_def)
  then show thesis by (intro that(1) [OF Discover]) (simp_all add: broker_discover_def)
next
  case RunLifecycle
  show thesis
  proof (cases "\<exists>w c. admitted sv q w c")
    case False
    obtain k s where ks: "broker_run_lifecycle H P (rq_owner q) (rq_change q) sv =
        (error_response k s, sv)" "k \<noteq> LifecycleFailedKind" "length s \<le> 156"
      using refused_request [OF RunLifecycle False] by blast
    then have "(error_response k s, sv) = (r, sv')"
      using assms RunLifecycle by (simp add: broker_handle_def)
    then show thesis
      using False by (intro that(2) [OF RunLifecycle _ _ ks(2,3)]) simp_all
  next
    case True
    then obtain w c where a: "admitted sv q w c" by blast
    obtain res pl where run: "run_lifecycle H P c (sv_plane sv) = (res, pl)" by fastforce
    have "(sv_ledger sv)(capability_id c \<mapsto> w, capability_id c := None) = sv_ledger sv"
      using a by (auto simp: admitted_def owner_of_def fun_eq_iff)
    then have "drop_guard \<lparr>guard_capability = capability_id c\<rparr>
        ((sv_ledger sv)(capability_id c \<mapsto> w)) = sv_ledger sv"
      by (simp add: drop_guard_def)
    then have "broker_run_lifecycle H P (rq_owner q) (rq_change q) sv =
        (case res of Inr x \<Rightarrow> LifecycleResponse (report_of x) | Inl e \<Rightarrow> wire_error e,
         sv\<lparr>sv_plane := pl, sv_ledger := sv_ledger sv\<rparr>)"
      using a run
      by (simp add: broker_run_lifecycle_def admitted_def acquire_def owner_of_def)
    then show thesis
      using assms RunLifecycle by (intro that(3) [OF a run]) (simp_all add: broker_handle_def)
  qed
qed

text \<open>The service of the concrete runs: the mock provider at 0 and an empty journal.\<close>

definition demo_service :: "(mock_provider, json) service" where
  "demo_service = new_service demo_plane new_ledger"

text \<open>Several requests, one after the other.\<close>

fun handle_all ::
  "'t host \<Rightarrow> 'p provider_ops \<Rightarrow> broker_request list \<Rightarrow> ('p, 't) service \<Rightarrow>
     broker_response list \<times> ('p, 't) service" where
  "handle_all H P [] sv = ([], sv)"
| "handle_all H P (q # qs) sv =
     (case broker_handle H P q sv of (r, sv1) \<Rightarrow>
      (case handle_all H P qs sv1 of (rs, sv2) \<Rightarrow> (r # rs, sv2)))"

lemma lifecycle_grows: "run_lifecycle H P c pl = (r, pl') \<Longrightarrow> \<exists>xs. grows pl xs pl'"
  by (cases rule: run_lifecycle_shape) (assumption | rule exI)+

lemma handled_plane:
  assumes "broker_handle H P q sv = (r, sv')"
  shows "sv_plane sv' = sv_plane sv \<or> (\<exists>c. sv_plane sv' = snd (run_lifecycle H P c (sv_plane sv)))"
    and "sv_ledger sv' = sv_ledger sv"
  using assms by (cases rule: broker_handle_cases; auto intro: exI simp: prod_eq_iff)+

context restoring_provider
begin

lemma lifecycle_keeps:
  assumes "pl' = snd (run_lifecycle H P c pl)" "inv (provider pl)" "op_snapshot P (provider pl) = Inr s"
  shows "op_snapshot P (provider pl') = Inr s \<and> inv (provider pl') \<and>
    prefix (jrows (journal pl)) (jrows (journal pl'))"
proof -
  obtain res where run: "run_lifecycle H P c pl = (res, pl')" using assms(1) by (metis prod.collapse)
  obtain xs where "grows pl xs pl'" using lifecycle_grows [OF run] by blast
  then show ?thesis using lifecycle_restores [OF run assms(2,3)] by (auto simp: grows_def)
qed

lemma session_restores:
  assumes "handle_all H P qs sv = (rs, sv')" "inv (provider (sv_plane sv))"
    "op_snapshot P (provider (sv_plane sv)) = Inr s"
  shows "op_snapshot P (provider (sv_plane sv')) = Inr s \<and> inv (provider (sv_plane sv')) \<and>
    sv_ledger sv' = sv_ledger sv \<and> length rs = length qs \<and>
    prefix (jrows (journal (sv_plane sv))) (jrows (journal (sv_plane sv')))"
  using assms
proof (induction qs arbitrary: sv rs)
  case (Cons q qs)
  obtain r sv1 where 1: "broker_handle H P q sv = (r, sv1)" by fastforce
  obtain rs1 where 2: "handle_all H P qs sv1 = (rs1, sv')" and rs: "rs = r # rs1"
    using Cons.prems(1) 1 by (auto split: prod.splits)
  have "op_snapshot P (provider (sv_plane sv1)) = Inr s \<and> inv (provider (sv_plane sv1)) \<and>
      prefix (jrows (journal (sv_plane sv))) (jrows (journal (sv_plane sv1)))"
    using handled_plane(1) [OF 1] lifecycle_keeps [OF _ Cons.prems(2,3)] Cons.prems by auto
  then show ?case
    using Cons.IH [OF 2] handled_plane(2) [OF 1] rs by (auto intro: prefix_order.trans)
qed simp

end

subsection \<open>Properties\<close>

text \<open>
  C14: The broker lets exactly one kind of request near the hardware.  The plane (provider and
  journal) can change only through a \<open>run-lifecycle\<close> request with a non-blank owner and a change for a
  capability in the catalog that nobody owns, and then it is exactly what \<open>run_lifecycle\<close> makes of it;
  every request leaves the ledger as it found it, so no lease leaks, and the catalog and the
  manifest it was taken from never change, so a service built by \<open>new_service\<close> keeps answering by the
  manifest it advertises.
\<close>

theorem broker_confines_requests:
  assumes "broker_handle H P q sv = (r, sv')"
  shows "(sv_plane sv' \<noteq> sv_plane sv \<longrightarrow>
      (\<exists>w c. admitted sv q w c \<and> sv_plane sv' = snd (run_lifecycle H P c (sv_plane sv)))) \<and>
    ((\<exists>b. r = LifecycleResponse b) \<longrightarrow> (\<exists>w c. admitted sv q w c)) \<and>
    sv_ledger sv' = sv_ledger sv \<and> sv_catalog sv' = sv_catalog sv \<and>
    manifest (sv_plane sv') = manifest (sv_plane sv)"
  using assms
proof (cases rule: broker_handle_cases)
  case (ran w c res pl)
  have "manifest pl = manifest (sv_plane sv)"
    using ran(2) by (cases rule: run_lifecycle_shape) (auto simp: grows_manifest)
  moreover have "\<exists>w c. admitted sv q w c \<and> pl = snd (run_lifecycle H P c (sv_plane sv))"
    using ran(1,2) by (intro exI [of _ w] exI [of _ c]) simp
  ultimately show ?thesis using ran(4) by auto
qed (auto simp: error_response_def)

theorem broker_confines_requests_witness:
  "\<exists>r sv'. broker_handle plain_host (mock_ops ''linux'')
       (run_lifecycle_request ''  '' demo_request) demo_service = (r, sv') \<and>
     sv_plane sv' = sv_plane demo_service"
proof -
  let ?q = "run_lifecycle_request ''  '' demo_request"
  obtain r sv' where h: "broker_handle plain_host (mock_ops ''linux'') ?q demo_service = (r, sv')"
    by fastforce
  moreover have "\<not> admitted demo_service ?q w c" for w c
    by (auto simp: admitted_def run_lifecycle_request_def byte_of_def Let_def)
  ultimately show ?thesis using broker_confines_requests [OF h] by blast
qed

text \<open>
  C36: What crosses the boundary in an error is bounded and says nothing of the host.  Every error
  message is at most 156 bytes, however long the text the client sent; a failed lifecycle is
  reported by one of six fixed words and never by the text of the underlying error; and text that is
  echoed is either whole or its longest prefix of at most 120 bytes that ends at a character
  boundary, followed by three dots.
\<close>

theorem broker_errors_are_bounded:
  assumes "broker_handle H P q sv = (ErrorResponse b, sv')"
  shows "length (eb_message b) \<le> 156 \<and>
    (eb_kind b = LifecycleFailedKind \<longrightarrow> eb_message b \<in> (@) ''lifecycle failed: '' ` stable_kinds) \<and>
    (echoed s = s \<and> length s \<le> 120 \<or>
     (\<exists>i. i \<le> 120 \<and> is_char_boundary s i \<and> echoed s = take i s @ ''...'' \<and>
        (\<forall>j. i < j \<and> j \<le> 120 \<longrightarrow> \<not> is_char_boundary s j)))"
proof -
  have e: "echoed s = s \<and> length s \<le> 120 \<or>
     (\<exists>i. i \<le> 120 \<and> is_char_boundary s i \<and> echoed s = take i s @ ''...'' \<and>
        (\<forall>j. i < j \<and> j \<le> 120 \<longrightarrow> \<not> is_char_boundary s j))"
  proof (cases "length s \<le> MAX_ECHOED_BYTES")
    case False
    then show ?thesis by (rule echoed_cut) (auto simp: MAX_ECHOED_BYTES_def)
  qed (simp add: echoed_def MAX_ECHOED_BYTES_def)
  have "length (eb_message b) \<le> 156 \<and>
    (eb_kind b = LifecycleFailedKind \<longrightarrow> eb_message b \<in> (@) ''lifecycle failed: '' ` stable_kinds)"
    using assms
  proof (cases rule: broker_handle_cases)
    case (refused k m)
    then show ?thesis by (auto simp: error_response_def)
  next
    case (ran w c res pl)
    then obtain er where "wire_error er = ErrorResponse b"
      by (cases res) auto
    then show ?thesis
    proof (cases er rule: wire_error_cases)
      case (1 k m)
      then show ?thesis
        using \<open>wire_error er = ErrorResponse b\<close> length_echoed [of m]
        by (auto simp: error_response_def)
    next
      case (2 m)
      then show ?thesis
        using \<open>wire_error er = ErrorResponse b\<close> stable_kinds_short [of m]
        by (auto simp: error_response_def)
    qed
  qed auto
  with e show ?thesis by blast
qed

theorem broker_errors_are_bounded_witness:
  "\<exists>b sv'. broker_handle plain_host (mock_ops ''linux'')
       (run_lifecycle_request ''me'' (demo_request\<lparr>capability_id := replicate 4000 CHR ''x''\<rparr>))
       demo_service = (ErrorResponse b, sv') \<and> length (eb_message b) \<le> 156"
proof -
  let ?q = "run_lifecycle_request ''me'' (demo_request\<lparr>capability_id := replicate 4000 CHR ''x''\<rparr>)"
  have "replicate 4000 CHR ''x'' \<noteq> ''mock.value''"
    by (rule notI, drule arg_cong [of _ _ length]) simp
  then have na: "\<not> admitted demo_service ?q w c" for w c
    by (auto simp: admitted_def run_lifecycle_request_def demo_service_def new_service_def
        mock_manifest_def)
  obtain r sv' where h: "broker_handle plain_host (mock_ops ''linux'') ?q demo_service = (r, sv')"
    by fastforce
  then obtain k s where "r = error_response k s"
    by (cases rule: broker_handle_cases) (use na in \<open>auto simp: run_lifecycle_request_def\<close>)
  then obtain b where "r = ErrorResponse b" by (simp add: error_response_def)
  with h broker_errors_are_bounded [of plain_host "mock_ops ''linux''" ?q demo_service b sv' "[]"]
  show ?thesis by blast
qed

text \<open>
  A session leaves no trace in the hardware.  After any sequence of requests from any peers,
  whatever the journal does, the broker's mock provider holds the value it held before, every
  request was answered, no knob is owned and the journal only grew.
\<close>

theorem broker_session_restores:
  assumes "handle_all H (mock_ops platform) qs sv = (rs, sv')"
  shows "provider (sv_plane sv') = provider (sv_plane sv) \<and> length rs = length qs \<and>
    sv_ledger sv' = sv_ledger sv \<and>
    prefix (jrows (journal (sv_plane sv))) (jrows (journal (sv_plane sv')))"
proof -
  have "op_snapshot (mock_ops platform) (provider (sv_plane sv')) =
      op_snapshot (mock_ops platform) (provider (sv_plane sv))"
    using mock.session_restores [OF assms TrueI] by (simp add: mock_defs)
  then show ?thesis
    using mock.session_restores [OF assms TrueI] by (simp add: mock_defs obj_single_eq)
qed

theorem broker_session_restores_witness:
  "provider (sv_plane (snd (handle_all plain_host (mock_ops ''linux'')
     [discover_request, run_lifecycle_request ''me'' demo_request] demo_service))) = \<lparr>mock_value = 0\<rparr>"
  using broker_session_restores [of plain_host "''linux''"
      "[discover_request, run_lifecycle_request ''me'' demo_request]" demo_service]
  by (simp add: demo_service_def new_service_def del: handle_all.simps)
    (metis demo_simps(4) prod.collapse)

end
