(* ===== verification/Frame.thy ===== *)
theory Frame
  imports Prelude
begin

section \<open>Length-delimited framing (\<open>crates/ipc/src/frame.rs\<close>)\<close>

text \<open>
  A frame is a big-endian \<open>u32\<close> length and that many bytes.  The stream is the parameter
  \<open>stream_ops\<close>: a read may return fewer bytes than it was asked for and returns none at the end
  of the stream, any operation may fail, and a timed operation may be cut off by its deadline.  The
  locale \<open>byte_source\<close> is the contract of a stream that delivers its bytes in order, in pieces of
  any size; \<open>decode_frame\<close> is what one frame means on the bytes alone, and \<open>read_frame\<close> refines it
  on every such stream.  The scripted stream interprets the contract.
\<close>

subsection \<open>Bytes and big-endian lengths\<close>

type_synonym byte = "8 word"

unbundle bit_operations_syntax

definition to_be_bytes :: "u32 \<Rightarrow> byte list" where
  "to_be_bytes n = [ucast (drop_bit 24 n), ucast (drop_bit 16 n), ucast (drop_bit 8 n), ucast n]"

definition from_be_bytes :: "byte list \<Rightarrow> u32" where
  "from_be_bytes bs = foldl (\<lambda>acc b. push_bit 8 acc OR ucast b) 0 bs"

lemma length_to_be_bytes [simp]: "length (to_be_bytes n) = 4"
  by (simp add: to_be_bytes_def)

lemma to_be_bytes_nonempty [simp]: "to_be_bytes n \<noteq> []"
  by (simp add: to_be_bytes_def)

lemma from_to_be_bytes [simp]: "from_be_bytes (to_be_bytes n) = n"
proof (rule bit_word_eqI)
  fix k assume "k < LENGTH(32)"
  then consider "k < 8" | "8 \<le> k" "k < 16" | "16 \<le> k" "k < 24" | "24 \<le> k" "k < 32"
    by fastforce
  then show "bit (from_be_bytes (to_be_bytes n)) k = bit n k"
    by cases (auto simp: from_be_bytes_def to_be_bytes_def bit_or_iff bit_push_bit_iff bit_ucast_iff
        bit_drop_bit_eq)
qed

subsection \<open>Errors and streams\<close>

definition MAX_FRAME_BYTES :: u32 where
  "MAX_FRAME_BYTES = push_bit 20 1"

lemma MAX_FRAME_BYTES_value [simp]: "unat MAX_FRAME_BYTES = 1048576"
  by (simp add: MAX_FRAME_BYTES_def)

datatype frame_error = FrameIo string | FrameTooLarge u64 | FrameEmpty

fun show_frame_error :: "frame_error \<Rightarrow> string" where
  "show_frame_error (FrameIo e) = e"
| "show_frame_error (FrameTooLarge n) =
     ''frame length '' @ show_word n @ '' exceeds the '' @ show_word MAX_FRAME_BYTES @ '' byte maximum''"
| "show_frame_error FrameEmpty = ''frame body is empty''"

text \<open>
  \<open>s_idle\<close>: the deadline of a timed \<open>read_frame\<close> that starts here passes before the frame is read, which
  leaves this stream.  \<open>s_blocked\<close>: the deadline of a timed write passes.
\<close>

record 's stream_ops =
  s_read :: "'s \<Rightarrow> nat \<Rightarrow> (string, byte list) result \<times> 's"
  s_write_all :: "'s \<Rightarrow> byte list \<Rightarrow> (string, unit) result \<times> 's"
  s_flush :: "'s \<Rightarrow> (string, unit) result \<times> 's"
  s_idle :: "'s \<Rightarrow> 's option"
  s_blocked :: "'s \<Rightarrow> 's option"

subsection \<open>Writing\<close>

definition write_frame ::
  "'s stream_ops \<Rightarrow> byte list \<Rightarrow> 's \<Rightarrow> (frame_error, unit) result \<times> 's" where
  "write_frame S body s =
     (if body = [] then (Inl FrameEmpty, s)
      else let len = (if length body < 2 ^ 64 then of_nat (length body) else - 1 :: u64) in
      if ucast MAX_FRAME_BYTES < len then (Inl (FrameTooLarge len), s)
      else case s_write_all S s (to_be_bytes (ucast len)) of
        (Inl e, s1) \<Rightarrow> (Inl (FrameIo e), s1)
      | (Inr _, s1) \<Rightarrow> (case s_write_all S s1 body of
        (Inl e, s2) \<Rightarrow> (Inl (FrameIo e), s2)
      | (Inr _, s2) \<Rightarrow> (case s_flush S s2 of
        (Inl e, s3) \<Rightarrow> (Inl (FrameIo e), s3)
      | (Inr _, s3) \<Rightarrow> (Inr (), s3))))"

subsection \<open>Reading\<close>

text \<open>
  The loop that fills a buffer: each read asks for what is still missing.  It is both the loop over
  the length prefix and the library's \<open>read_exact\<close>; how it ended says what was read by then.
\<close>

datatype fill = Filled "byte list" | Ended "byte list" | Broken string

function (sequential) fill_buffer ::
  "('s \<Rightarrow> nat \<Rightarrow> (string, byte list) result \<times> 's) \<Rightarrow> nat \<Rightarrow> byte list \<Rightarrow> 's \<Rightarrow> fill \<times> 's" where
  "fill_buffer read 0 acc s = (Filled acc, s)"
| "fill_buffer read (Suc n) acc s =
     (case read s (Suc n) of
        (Inl e, s1) \<Rightarrow> (Broken e, s1)
      | (Inr [], s1) \<Rightarrow> (Ended acc, s1)
      | (Inr (b # bs), s1) \<Rightarrow>
          fill_buffer read (Suc n - length (b # bs)) (acc @ b # bs) s1)"
  by pat_completeness auto
termination by (relation "measure (\<lambda>(_, n, _, _). n)") auto

lemma fill_buffer_pos:
  "0 < n \<Longrightarrow> fill_buffer read n acc s =
     (case read s n of
        (Inl e, s1) \<Rightarrow> (Broken e, s1)
      | (Inr [], s1) \<Rightarrow> (Ended acc, s1)
      | (Inr (b # bs), s1) \<Rightarrow>
          fill_buffer read (n - length (b # bs)) (acc @ b # bs) s1)"
  by (auto dest!: gr0_implies_Suc)

lemmas fill_buffer_numeral [simp] = fill_buffer_pos [OF zero_less_numeral]

definition read_frame ::
  "'s stream_ops \<Rightarrow> 's \<Rightarrow> (frame_error, byte list option) result \<times> 's" where
  "read_frame S s =
     (case fill_buffer (s_read S) 4 [] s of
        (Broken e, s1) \<Rightarrow> (Inl (FrameIo e), s1)
      | (Ended bs, s1) \<Rightarrow>
          (if bs = [] then Inr None else Inl (FrameIo ''truncated frame length prefix''), s1)
      | (Filled bs, s1) \<Rightarrow>
     (let len = from_be_bytes bs in
      if len = 0 then (Inl FrameEmpty, s1)
      else if MAX_FRAME_BYTES < len then (Inl (FrameTooLarge (ucast len)), s1)
      else case fill_buffer (s_read S) (unat len) [] s1 of
        (Broken e, s2) \<Rightarrow> (Inl (FrameIo e), s2)
      | (Ended _, s2) \<Rightarrow> (Inl (FrameIo ''early eof''), s2)
      | (Filled body, s2) \<Rightarrow> (Inr (Some body), s2)))"

subsection \<open>What a frame is on the bytes alone\<close>

definition frame_ok :: "byte list \<Rightarrow> bool" where
  "frame_ok body \<longleftrightarrow> body \<noteq> [] \<and> length body \<le> unat MAX_FRAME_BYTES"

definition frame :: "byte list \<Rightarrow> byte list" where
  "frame body = to_be_bytes (of_nat (length body)) @ body"

definition decode_frame ::
  "byte list \<Rightarrow> (frame_error, byte list option) result \<times> byte list" where
  "decode_frame bs =
     (if bs = [] then (Inr None, [])
      else if length bs < 4 then (Inl (FrameIo ''truncated frame length prefix''), [])
      else let n = unat (from_be_bytes (take 4 bs)); rest = drop 4 bs in
      if n = 0 then (Inl FrameEmpty, rest)
      else if unat MAX_FRAME_BYTES < n then (Inl (FrameTooLarge (of_nat n)), rest)
      else if length rest < n then (Inl (FrameIo ''early eof''), [])
      else (Inr (Some (take n rest)), drop n rest))"

lemma decode_frame_frame [simp]:
  assumes "frame_ok body"
  shows "decode_frame (frame body @ rest) = (Inr (Some body), rest)"
proof -
  have "take_bit 32 (length body) = length body"
    using assms by (simp add: frame_ok_def take_bit_nat_eq_self_iff)
  then show ?thesis
    using assms by (simp add: decode_frame_def frame_def frame_ok_def Let_def unsigned_of_nat)
qed

lemma decode_frame_shrinks:
  "decode_frame bs = (r, rest) \<Longrightarrow> bs \<noteq> [] \<Longrightarrow> length rest < length bs"
  by (auto simp: decode_frame_def Let_def split: if_splits)

subsection \<open>A stream that delivers its bytes\<close>

locale byte_source =
  fixes read :: "'s \<Rightarrow> nat \<Rightarrow> (string, byte list) result \<times> 's"
    and sound :: "'s \<Rightarrow> bool"
    and content :: "'s \<Rightarrow> byte list"
  assumes read_some:
    "sound s \<Longrightarrow> content s \<noteq> [] \<Longrightarrow> 0 < n \<Longrightarrow>
       \<exists>bs t. read s n = (Inr bs, t) \<and> bs \<noteq> [] \<and> length bs \<le> n \<and> content s = bs @ content t \<and> sound t"
    and read_end:
    "sound s \<Longrightarrow> content s = [] \<Longrightarrow> 0 < n \<Longrightarrow>
       \<exists>t. read s n = (Inr [], t) \<and> content t = [] \<and> sound t"
begin

lemma fill_all:
  assumes "sound s" "n \<le> length (content s)"
  shows "\<exists>t. fill_buffer read n acc s = (Filled (acc @ take n (content s)), t) \<and>
    content t = drop n (content s) \<and> sound t"
  using assms
proof (induction n arbitrary: acc s rule: less_induct)
  case (less n)
  show ?case
  proof (cases n)
    case 0
    then show ?thesis using less.prems by simp
  next
    case (Suc m)
    then have "content s \<noteq> []" using less.prems by auto
    then obtain bs t where r: "read s n = (Inr bs, t)" "bs \<noteq> []" "length bs \<le> n"
      "content s = bs @ content t" "sound t"
      using read_some [of s n] less.prems Suc by auto
    obtain b bs' where bs: "bs = b # bs'" using r(2) by (cases bs) auto
    have "\<exists>u. fill_buffer read (n - length bs) (acc @ bs) t =
        (Filled ((acc @ bs) @ take (n - length bs) (content t)), u) \<and>
        content u = drop (n - length bs) (content t) \<and> sound u"
      using less.prems r Suc bs by (intro less.IH) auto
    then show ?thesis using r Suc bs by auto
  qed
qed

lemma fill_short:
  assumes "sound s" "length (content s) < n"
  shows "\<exists>t. fill_buffer read n acc s = (Ended (acc @ content s), t) \<and> content t = [] \<and> sound t"
  using assms
proof (induction n arbitrary: acc s rule: less_induct)
  case (less n)
  then obtain m where n: "n = Suc m" by (cases n) auto
  show ?case
  proof (cases "content s = []")
    case True
    then show ?thesis using read_end [of s n] less.prems n by auto
  next
    case False
    then obtain bs t where r: "read s n = (Inr bs, t)" "bs \<noteq> []" "length bs \<le> n"
      "content s = bs @ content t" "sound t"
      using read_some [of s n] less.prems n by auto
    obtain b bs' where bs: "bs = b # bs'" using r(2) by (cases bs) auto
    have "\<exists>u. fill_buffer read (n - length bs) (acc @ bs) t =
        (Ended ((acc @ bs) @ content t), u) \<and> content u = [] \<and> sound u"
      using less.prems r n bs by (intro less.IH) auto
    then show ?thesis using r n bs by auto
  qed
qed

text \<open>\<open>read_frame\<close> computes \<open>decode_frame\<close> of the content, however the reads cut it.\<close>

lemma read_frame_decodes:
  assumes "sound s" "s_read S = read"
  shows "\<exists>t. read_frame S s = (fst (decode_frame (content s)), t) \<and>
    content t = snd (decode_frame (content s)) \<and> sound t"
proof (cases "length (content s) < 4")
  case True
  then show ?thesis
    using fill_short [OF assms(1) True, of "[]"] assms(2)
    by (auto simp: read_frame_def decode_frame_def)
next
  case False
  then obtain t where t: "fill_buffer read 4 [] s = (Filled (take 4 (content s)), t)"
    "content t = drop 4 (content s)" "sound t"
    using fill_all [OF assms(1), of 4 "[]"] by auto
  let ?len = "from_be_bytes (take 4 (content s))"
  have ne: "content s \<noteq> []" using False by auto
  have z: "unat ?len = 0 \<longleftrightarrow> ?len = 0" by (simp add: unat_eq_zero)
  have m: "unat MAX_FRAME_BYTES < unat ?len \<longleftrightarrow> MAX_FRAME_BYTES < ?len"
    by (rule word_less_nat_alt [symmetric])
  have c: "(of_nat (unat ?len) :: u64) = ucast ?len" by simp
  show ?thesis
  proof (cases "?len = 0 \<or> MAX_FRAME_BYTES < ?len")
    case True
    then show ?thesis
      using t ne False assms(2) z m c by (auto simp: read_frame_def decode_frame_def Let_def)
  next
    case proper: False
    show ?thesis
    proof (cases "length (content t) < unat ?len")
      case True
      then show ?thesis
        using fill_short [OF t(3) True, of "[]"] t ne False assms(2) z m proper
        by (auto simp: read_frame_def decode_frame_def Let_def)
    next
      case enough: False
      then show ?thesis
        using fill_all [OF t(3), of "unat ?len" "[]"] t ne False assms(2) z m proper
        by (auto simp: read_frame_def decode_frame_def Let_def not_less)
    qed
  qed
qed

end

subsection \<open>The scripted stream\<close>

text \<open>
  What a peer sends, piece by piece (a failing read and a silence longer than the deadline are pieces
  too), and what was written to it.  A deaf peer takes nothing.
\<close>

datatype piece = Bytes "byte list" | Fault string | Idle

record script =
  inbound :: "piece list"
  outbound :: "byte list"
  deaf :: bool

text \<open>A read without a deadline waits a silence out.\<close>

fun script_read :: "script \<Rightarrow> nat \<Rightarrow> (string, byte list) result \<times> script" where
  "script_read s n =
     (case dropWhile (\<lambda>p. p = Idle) (inbound s) of
        Bytes bs # ps \<Rightarrow>
          (Inr (take n bs), s\<lparr>inbound := (if drop n bs = [] then ps else Bytes (drop n bs) # ps)\<rparr>)
      | Fault e # ps \<Rightarrow> (Inl e, s\<lparr>inbound := ps\<rparr>)
      | _ \<Rightarrow> (Inr [], s\<lparr>inbound := []\<rparr>))"

text \<open>
  The timed read of a whole frame is late when it meets a silence, at the frame's boundary or in its
  middle, before anything else ends it: the same reads, with a silence told apart from a failure.
\<close>

fun timed_read :: "script \<Rightarrow> nat \<Rightarrow> (string, byte list) result \<times> script" where
  "timed_read s n =
     (case inbound s of
        Idle # ps \<Rightarrow> (Inl ''late'', s\<lparr>inbound := ps\<rparr>)
      | Fault e # ps \<Rightarrow> (Inl ''failed'', s\<lparr>inbound := ps\<rparr>)
      | _ \<Rightarrow> script_read s n)"

definition late :: "script \<Rightarrow> script option" where
  "late s =
     (case read_frame \<lparr>s_read = timed_read, s_write_all = \<lambda>s _. (Inr (), s), s_flush = \<lambda>s. (Inr (), s),
             s_idle = \<lambda>_. None, s_blocked = \<lambda>_. None\<rparr> s of
        (Inl (FrameIo e), t) \<Rightarrow> if e = ''late'' then Some t else None
      | _ \<Rightarrow> None)"

definition script_ops :: "script stream_ops" where
  "script_ops =
     \<lparr>s_read = script_read, s_write_all = \<lambda>s bs. (Inr (), s\<lparr>outbound := outbound s @ bs\<rparr>),
      s_flush = \<lambda>s. (Inr (), s), s_idle = late, s_blocked = \<lambda>s. (if deaf s then Some s else None)\<rparr>"

fun piece_bytes :: "piece \<Rightarrow> byte list" where
  "piece_bytes (Bytes bs) = bs"
| "piece_bytes _ = []"

definition content :: "script \<Rightarrow> byte list" where
  "content s = concat (map piece_bytes (inbound s))"

definition delivers :: "script \<Rightarrow> bool" where
  "delivers s \<longleftrightarrow> list_all (\<lambda>p. piece_bytes p \<noteq> []) (inbound s) \<and> \<not> deaf s"

definition peer_sending :: "byte list list \<Rightarrow> script" where
  "peer_sending pieces = \<lparr>inbound = map Bytes pieces, outbound = [], deaf = False\<rparr>"

lemma script_ops_simps [simp]:
  "s_read script_ops = script_read"
  "s_write_all script_ops s bs = (Inr (), s\<lparr>outbound := outbound s @ bs\<rparr>)"
  "s_flush script_ops s = (Inr (), s)"
  "s_idle script_ops s = late s"
  "s_blocked script_ops s = (if deaf s then Some s else None)"
  by (simp_all add: script_ops_def)

interpretation script: byte_source script_read "\<lambda>s. delivers s \<and> outbound s = out" content
proof
  fix s n assume s: "delivers s \<and> outbound s = out" and n: "0 < (n :: nat)"
  show "\<exists>bs t. script_read s n = (Inr bs, t) \<and> bs \<noteq> [] \<and> length bs \<le> n \<and>
      content s = bs @ content t \<and> delivers t \<and> outbound t = out" if ne: "content s \<noteq> []"
  proof -
    obtain p ps where p: "inbound s = p # ps"
      using ne by (cases "inbound s") (auto simp: content_def)
    then obtain bs where "inbound s = Bytes bs # ps" "bs \<noteq> []"
      using s by (cases p) (auto simp: delivers_def)
    then show ?thesis using s n by (auto simp: content_def delivers_def)
  qed
  show "\<exists>t. script_read s n = (Inr [], t) \<and> content t = [] \<and> delivers t \<and> outbound t = out"
    if "content s = []"
    using that s by (cases "inbound s") (auto simp: content_def delivers_def)
qed

lemma fill_timed:
  assumes "fill_buffer timed_read n acc s = (f, t)" "Idle \<notin> set (inbound s)"
  shows "Idle \<notin> set (inbound t) \<and> f \<noteq> Broken ''late''"
  using assms
proof (induction n arbitrary: acc s rule: less_induct)
  case (less n)
  show ?case
  proof (cases n)
    case 0
    then show ?thesis using less.prems by auto
  next
    case (Suc m)
    obtain r u where r: "timed_read s n = (r, u)" by fastforce
    have "dropWhile (\<lambda>p. p = Idle) (inbound s) = inbound s"
      using less.prems(2) by (cases "inbound s") auto
    then have u: "Idle \<notin> set (inbound u)" "r \<noteq> Inl ''late''"
      using r less.prems(2) by (auto split: list.splits piece.splits if_splits)
    show ?thesis
    proof (cases "\<exists>c cs. r = Inr (c # cs)")
      case True
      then obtain c cs where cs: "r = Inr (c # cs)" by blast
      then have "fill_buffer timed_read (n - length (c # cs)) (acc @ c # cs) u = (f, t)"
        using less.prems(1) r Suc by (simp del: timed_read.simps)
      then show ?thesis
        using less.IH [of "n - length (c # cs)" _ u] u Suc by (simp del: timed_read.simps)
    next
      case False
      then show ?thesis
        using less.prems(1) r u Suc
        by (auto simp del: timed_read.simps split: sum.splits list.splits)
    qed
  qed
qed

lemma never_late:
  assumes "Idle \<notin> set (inbound s)"
  shows "late s = None"
proof -
  obtain f u where f: "fill_buffer timed_read 4 [] s = (f, u)" by fastforce
  note i = fill_timed [OF f assms]
  show ?thesis
  proof (cases f)
    case (Filled bs)
    obtain g v where g: "fill_buffer timed_read (unat (from_be_bytes bs)) [] u = (g, v)" by fastforce
    with fill_timed [OF g] i f Filled show ?thesis
      by (auto simp: late_def read_frame_def Let_def simp del: fill_buffer_numeral split: fill.split)
  qed (use f i in \<open>auto simp: late_def read_frame_def simp del: fill_buffer_numeral\<close>)
qed

text \<open>A silence in the middle of a frame: two bytes of the length prefix, then nothing.\<close>

lemma late_in_a_frame:
  "late \<lparr>inbound = [Bytes [0, 0], Idle], outbound = [], deaf = False\<rparr> =
     Some \<lparr>inbound = [], outbound = [], deaf = False\<rparr>"
  by (simp add: late_def read_frame_def)

lemma content_peer_sending [simp]: "content (peer_sending pieces) = concat pieces"
  by (simp add: content_def peer_sending_def o_def)

lemma delivers_peer_sending [simp]: "delivers (peer_sending pieces) \<longleftrightarrow> [] \<notin> set pieces"
  by (auto simp: delivers_def peer_sending_def list_all_iff)

lemma write_frame_script:
  "frame_ok body \<Longrightarrow>
   write_frame script_ops body s = (Inr (), s\<lparr>outbound := outbound s @ frame body\<rparr>)"
proof -
  assume ok: "frame_ok body"
  then have n: "take_bit 64 (length body) = length body" "length body \<le> 1048576"
    by (simp_all add: frame_ok_def take_bit_nat_eq_self_iff)
  then have "unat (of_nat (length body) :: u64) = length body"
    by (simp add: unsigned_of_nat)
  then have "\<not> ucast MAX_FRAME_BYTES < (of_nat (length body) :: u64)"
    using n by (simp add: word_less_nat_alt MAX_FRAME_BYTES_def)
  moreover have "(ucast (of_nat (length body) :: u64) :: u32) = of_nat (length body)"
    using n by (simp add: unsigned_of_nat)
  ultimately show ?thesis
    using ok n by (simp add: write_frame_def frame_def frame_ok_def)
qed

text \<open>What a refused body leaves behind: nothing, on any stream.\<close>

lemma write_frame_refused:
  assumes "length body < 2 ^ 64" "\<not> frame_ok body"
  shows "write_frame S body s =
     (Inl (if body = [] then FrameEmpty else FrameTooLarge (of_nat (length body))), s)"
proof -
  have "unat (of_nat (length body) :: u64) = length body"
    using assms(1) by (simp add: unsigned_of_nat take_bit_nat_eq_self_iff)
  then have "body \<noteq> [] \<Longrightarrow> ucast MAX_FRAME_BYTES < (of_nat (length body) :: u64)"
    using assms(2) by (simp add: word_less_nat_alt MAX_FRAME_BYTES_def frame_ok_def)
  then show ?thesis
    using assms(1) by (simp add: write_frame_def Let_def)
qed

fun read_frames ::
  "'s stream_ops \<Rightarrow> nat \<Rightarrow> 's \<Rightarrow> (frame_error, byte list option) result list \<times> 's" where
  "read_frames S 0 s = ([], s)"
| "read_frames S (Suc n) s =
     (case read_frame S s of (r, s1) \<Rightarrow>
      (case read_frames S n s1 of (rs, s2) \<Rightarrow> (r # rs, s2)))"

fun write_frames :: "'s stream_ops \<Rightarrow> byte list list \<Rightarrow> 's \<Rightarrow> (frame_error, unit) result list \<times> 's" where
  "write_frames S [] s = ([], s)"
| "write_frames S (b # bs) s =
     (case write_frame S b s of (r, s1) \<Rightarrow>
      (case write_frames S bs s1 of (rs, s2) \<Rightarrow> (r # rs, s2)))"

lemma read_frames_snoc:
  "read_frames S (Suc n) s =
     (case read_frames S n s of (rs, s1) \<Rightarrow>
      (case read_frame S s1 of (r, s2) \<Rightarrow> (rs @ [r], s2)))"
proof (induction n arbitrary: s)
  case (Suc n)
  obtain r t where r: "read_frame S s = (r, t)" by fastforce
  have step: "read_frames S (Suc (Suc n)) s =
      (case read_frames S (Suc n) t of (rs, u) \<Rightarrow> (r # rs, u))"
    by (simp only: read_frames.simps(2) [of S "Suc n"] r prod.case)
  show ?case unfolding step Suc.IH [of t] by (simp add: r split: prod.split)
qed (simp split: prod.split)

lemma write_frames_script:
  "list_all frame_ok bodies \<Longrightarrow>
   write_frames script_ops bodies s =
     (map (\<lambda>_. Inr ()) bodies, s\<lparr>outbound := outbound s @ concat (map frame bodies)\<rparr>)"
  by (induction bodies arbitrary: s) (simp_all add: write_frame_script)

lemma read_frames_script:
  assumes "delivers s" "list_all frame_ok bodies" "content s = concat (map frame bodies) @ rest"
  shows "\<exists>t. read_frames script_ops (length bodies) s = (map (\<lambda>b. Inr (Some b)) bodies, t) \<and>
    delivers t \<and> content t = rest \<and> outbound t = outbound s"
  using assms
proof (induction bodies arbitrary: s)
  case (Cons b bodies)
  obtain t where t: "read_frame script_ops s = (Inr (Some b), t)"
    "content t = concat (map frame bodies) @ rest" "delivers t" "outbound t = outbound s"
    using script.read_frame_decodes [of s "outbound s" script_ops] Cons.prems by auto
  from Cons.IH [OF t(3)] Cons.prems t show ?case by auto
qed simp

text \<open>
  C30: Framing loses nothing and depends on nothing but the bytes: whatever non-empty bodies of at
  most \<open>MAX_FRAME_BYTES\<close> are written one after the other, every write succeeds, and a peer that
  receives those bytes cut into arbitrary pieces reads exactly those bodies in that order and then
  the clean end of the stream, which is not an error.
\<close>

theorem frames_round_trip:
  assumes "list_all frame_ok bodies"
    and "concat pieces = outbound (snd (write_frames script_ops bodies (peer_sending [])))"
    and "[] \<notin> set pieces"
  shows "list_all is_ok (fst (write_frames script_ops bodies (peer_sending []))) \<and>
    fst (read_frames script_ops (Suc (length bodies)) (peer_sending pieces)) =
      map (\<lambda>b. Inr (Some b)) bodies @ [Inr None]"
proof
  have out: "write_frames script_ops bodies (peer_sending []) =
      (map (\<lambda>_. Inr ()) bodies, (peer_sending [])\<lparr>outbound := concat (map frame bodies)\<rparr>)"
    using assms(1) by (simp add: write_frames_script peer_sending_def)
  then show "list_all is_ok (fst (write_frames script_ops bodies (peer_sending [])))"
    by (simp add: list_all_iff)
  obtain t where t: "read_frames script_ops (length bodies) (peer_sending pieces) =
      (map (\<lambda>b. Inr (Some b)) bodies, t)" "delivers t" "content t = []"
    using read_frames_script [of "peer_sending pieces" bodies "[]"] assms out by auto
  obtain u where "read_frame script_ops t = (Inr None, u)"
    using script.read_frame_decodes [of t "outbound t" script_ops] t(2,3)
    by (auto simp: decode_frame_def)
  then show "fst (read_frames script_ops (Suc (length bodies)) (peer_sending pieces)) =
      map (\<lambda>b. Inr (Some b)) bodies @ [Inr None]"
    using t(1) by (simp add: read_frames_snoc del: read_frames.simps)
qed

theorem frames_round_trip_witness:
  "fst (read_frames script_ops 3 (peer_sending [[0, 0], [0, 1, 7, 0, 0, 0], [2, 8], [9]])) =
     [Inr (Some [7]), Inr (Some [8, 9]), Inr None]"
proof -
  have "concat [[0, 0], [0, 1, 7, 0, 0, 0], [2, 8], [9]] =
      outbound (snd (write_frames script_ops [[7], [8, 9]] (peer_sending [])))"
    by (simp add: write_frame_script frame_ok_def frame_def to_be_bytes_def peer_sending_def)
  from frames_round_trip [OF _ this] show ?thesis
    by (simp add: frame_ok_def numeral_3_eq_3 numeral_2_eq_2 del: read_frames.simps)
qed

lemma fill_length:
  assumes "\<And>s n bs t. read s n = (Inr bs, t) \<Longrightarrow> length bs \<le> n"
    and "fill_buffer read n acc s = (Filled bs, t)"
  shows "length bs = length acc + n"
  using assms(2)
proof (induction n arbitrary: acc s rule: less_induct)
  case (less n)
  show ?case
  proof (cases n)
    case 0
    then show ?thesis using less.prems by simp
  next
    case (Suc m)
    then obtain c cs u where r: "read s n = (Inr (c # cs), u)"
      "fill_buffer read (n - length (c # cs)) (acc @ c # cs) u = (Filled bs, t)"
      using less.prems by (auto split: sum.splits list.splits prod.splits)
    then show ?thesis
      using less.IH [OF _ r(2)] assms(1) [OF r(1)] Suc by simp
  qed
qed

text \<open>
  No peer makes the reader allocate or return more than the bound: on any stream whose reads
  return at most what was asked for, a frame that is read is non-empty and at most
  \<open>MAX_FRAME_BYTES\<close> long; and a body outside those bounds is refused by the writer before a single
  byte is written, on any stream, with the error the reader would have given.
\<close>

theorem frame_bounds_are_enforced:
  assumes reads: "\<And>s n bs t. s_read S s n = (Inr bs, t) \<Longrightarrow> length bs \<le> n"
    and got: "read_frame S s = (Inr (Some body), t)"
    and bad: "\<not> frame_ok big" "length big < 2 ^ 32"
  shows "frame_ok body \<and>
    (\<exists>e. write_frame R big r = (Inl e, r) \<and> fst (decode_frame (frame big @ rest)) = Inl e)"
proof
  obtain bs u where bs: "fill_buffer (s_read S) 4 [] s = (Filled bs, u)"
    and ok: "from_be_bytes bs \<noteq> 0" "\<not> MAX_FRAME_BYTES < from_be_bytes bs"
    and fill: "fill_buffer (s_read S) (unat (from_be_bytes bs)) [] u = (Filled body, t)"
    using got
    by (auto simp: read_frame_def Let_def split: prod.splits fill.splits if_splits)
  have "length body = unat (from_be_bytes bs)"
    using fill_length [OF reads fill] by simp
  moreover have "unat (from_be_bytes bs) \<noteq> 0" "unat (from_be_bytes bs) \<le> unat MAX_FRAME_BYTES"
    using ok by (simp_all add: unat_eq_zero word_le_nat_alt [symmetric] not_less del: MAX_FRAME_BYTES_value)
  ultimately show "frame_ok body" by (auto simp: frame_ok_def)
  have n: "take_bit 32 (length big) = length big"
    using bad(2) by (simp add: take_bit_nat_eq_self_iff)
  show "\<exists>e. write_frame R big r = (Inl e, r) \<and> fst (decode_frame (frame big @ rest)) = Inl e"
    using write_frame_refused [of big R r] bad n
    by (auto simp: decode_frame_def frame_def frame_ok_def Let_def unsigned_of_nat)
qed

theorem frame_bounds_are_enforced_witness:
  "frame_ok [7 :: byte] \<and>
   (\<exists>e. write_frame script_ops [] (peer_sending []) = (Inl e, peer_sending []) \<and>
        fst (decode_frame (frame [] @ [])) = Inl e)"
proof (rule frame_bounds_are_enforced)
  show "read_frame script_ops (peer_sending [[0, 0, 0, 1], [7]]) = (Inr (Some [7]), peer_sending [])"
    by (simp add: read_frame_def peer_sending_def from_be_bytes_def MAX_FRAME_BYTES_def)
  show "length bs \<le> n" if "s_read script_ops s n = (Inr bs, t)" for s n bs t
    using that by (auto split: list.splits piece.splits)
qed (simp_all add: frame_ok_def)

text \<open>
  Reading one frame computes a function of the bytes on the wire: whatever the pieces a peer
  sends, \<open>read_frame\<close> gives what \<open>decode_frame\<close> gives on their concatenation (the body, the clean end,
  an empty or over-long declaration, a cut-off prefix or body) and leaves exactly the bytes that
  follow, so after an empty frame the stream is at a frame boundary and after an over-long one its
  body is still unread.
\<close>

theorem read_frame_refines_decode:
  assumes "delivers s"
  shows "fst (read_frame script_ops s) = fst (decode_frame (content s)) \<and>
    content (snd (read_frame script_ops s)) = snd (decode_frame (content s)) \<and>
    delivers (snd (read_frame script_ops s)) \<and>
    outbound (snd (read_frame script_ops s)) = outbound s"
  using script.read_frame_decodes [of s "outbound s" script_ops] assms by auto

theorem read_frame_refines_decode_witness:
  "fst (read_frame script_ops (peer_sending [[0, 16], [0, 1, 5]])) = Inl (FrameTooLarge 1048577) \<and>
   content (snd (read_frame script_ops (peer_sending [[0, 16], [0, 1, 5]]))) = [5]"
  using read_frame_refines_decode [of "peer_sending [[0, 16], [0, 1, 5]]"]
  by (simp add: decode_frame_def from_be_bytes_def Let_def)

end
