(* ===== verification/Auth.thy ===== *)
theory Auth
  imports Prelude
begin

section \<open>Peer authentication (\<open>crates/ipc/src/auth.rs\<close>)\<close>

text \<open>
  The identity a transport resolves for a peer and the fail-closed decision over it.  The trait
  \<open>PeerAuthorizer\<close> is the locale \<open>peer_authorizer\<close>: exactly the permitted peers are let in.
\<close>

record peer_identity =
  peer_uid :: u32
  peer_pid :: "int option"

datatype auth_error = ForeignUid u32 u32

fun show_auth_error :: "auth_error \<Rightarrow> string" where
  "show_auth_error (ForeignUid expected actual) =
     ''peer uid '' @ show_word actual @ '' does not match the broker uid '' @ show_word expected"

locale peer_authorizer =
  fixes authorize :: "peer_identity \<Rightarrow> (auth_error, unit) result"
    and permitted :: "peer_identity \<Rightarrow> bool"
  assumes authorize_iff: "authorize p = Inr () \<longleftrightarrow> permitted p"
begin

lemma refused: "\<not> permitted p \<Longrightarrow> \<exists>e. authorize p = Inl e"
  using authorize_iff [of p] by (cases "authorize p") auto

end

record same_uid_authorizer =
  expected_uid :: u32

definition for_current_process :: "u32 \<Rightarrow> same_uid_authorizer" where
  "for_current_process euid = \<lparr>expected_uid = euid\<rparr>"

definition same_uid_authorize ::
  "same_uid_authorizer \<Rightarrow> peer_identity \<Rightarrow> (auth_error, unit) result" where
  "same_uid_authorize a peer =
     (if peer_uid peer = expected_uid a then Inr ()
      else Inl (ForeignUid (expected_uid a) (peer_uid peer)))"

interpretation same_uid:
  peer_authorizer "same_uid_authorize a" "\<lambda>peer. peer_uid peer = expected_uid a"
  by unfold_locales (simp add: same_uid_authorize_def)

end
