(* ===== verification/Connection.thy ===== *)
theory Connection
  imports Broker Frame Auth
begin

section \<open>Connections (\<open>apps/broker/src/lib.rs\<close>, \<open>crates/ipc/src/client.rs\<close>)\<close>

text \<open>
  What the broker does with one accepted peer, the loop that accepts peers, and the client on the
  other side.  The JSON library is the parameter \<open>wire\<close>; the stream is \<open>stream_ops\<close>, whose timed
  operations may be cut off; the worker is reached through \<open>dispatch\<close>.  A connection may last for
  ever, so \<open>serve_connection\<close> is partial: \<open>None\<close> is a connection that never ends.
\<close>

subsection \<open>JSON on the wire\<close>

record wire =
  wire_vec :: "json \<Rightarrow> (string, byte list) result"
  wire_slice :: "byte list \<Rightarrow> (string, json) result"
  wire_shape :: "json \<Rightarrow> string"

definition from_slice :: "wire \<Rightarrow> (json \<Rightarrow> 'a option) \<Rightarrow> byte list \<Rightarrow> (string, 'a) result" where
  "from_slice W dec bs =
     (case wire_slice W bs of Inl e \<Rightarrow> Inl e | Inr v \<Rightarrow> ok_or (wire_shape W v) (dec v))"

text \<open>A value the library prints into one frame and reads back.\<close>

definition carries :: "wire \<Rightarrow> json \<Rightarrow> byte list \<Rightarrow> bool" where
  "carries W v bs \<longleftrightarrow> wire_vec W v = Inr bs \<and> frame_ok bs \<and> wire_slice W bs = Inr v"

lemma from_slice_carries: "carries W v bs \<Longrightarrow> from_slice W dec bs = ok_or (wire_shape W v) (dec v)"
  by (simp add: carries_def from_slice_def)

subsection \<open>Writing a response\<close>

definition write_deadline_text :: string where
  "write_deadline_text = ''peer did not accept the response within its write deadline''"

definition write_response_within ::
  "'s stream_ops \<Rightarrow> wire \<Rightarrow> broker_response \<Rightarrow> 's \<Rightarrow> (frame_error, unit) result \<times> 's" where
  "write_response_within S W r s =
     (case wire_vec W (response_json r) of
        Inl e \<Rightarrow> (Inl (FrameIo e), s)
      | Inr bs \<Rightarrow>
          (case s_blocked S s of
             Some s1 \<Rightarrow> (Inl (FrameIo write_deadline_text), s1)
           | None \<Rightarrow> write_frame S bs s))"

subsection \<open>One connection\<close>

definition UNAUTHORIZED_MESSAGE :: string where
  "UNAUTHORIZED_MESSAGE = ''peer is not authorized''"

text \<open>The answer to one frame, and the worker after it.\<close>

definition answer ::
  "wire \<Rightarrow> (broker_request \<Rightarrow> 'w \<Rightarrow> broker_response \<times> 'w) \<Rightarrow> byte list \<Rightarrow> 'w \<Rightarrow> broker_response \<times> 'w" where
  "answer W disp body w =
     (case from_slice W request_of_json body of
        Inr q \<Rightarrow> disp q w
      | Inl e \<Rightarrow> (error_response Malformed (''invalid request: '' @ echoed e), w))"

text \<open>One turn of the loop: \<open>None\<close> goes on, \<open>Some\<close> ends the connection.\<close>

definition connection_turn ::
  "'s stream_ops \<Rightarrow> wire \<Rightarrow> (broker_request \<Rightarrow> 'w \<Rightarrow> broker_response \<times> 'w) \<Rightarrow> 's \<Rightarrow> 'w \<Rightarrow>
     (frame_error, unit) result option \<times> 's \<times> 'w" where
  "connection_turn S W disp s w =
     (case s_idle S s of
        Some s1 \<Rightarrow> (Some (Inr ()), s1, w)
      | None \<Rightarrow>
     (case read_frame S s of
        (Inr None, s1) \<Rightarrow> (Some (Inr ()), s1, w)
      | (Inl FrameEmpty, s1) \<Rightarrow>
          (case write_response_within S W (error_response Malformed ''frame body is empty'') s1 of
             (Inl e, s2) \<Rightarrow> (Some (Inl e), s2, w)
           | (Inr _, s2) \<Rightarrow> (None, s2, w))
      | (Inl (FrameTooLarge n), s1) \<Rightarrow>
          (case write_response_within S W (error_response Malformed
                  (''frame length '' @ show_word n @ '' exceeds the maximum'')) s1 of
             (_, s2) \<Rightarrow> (Some (Inr ()), s2, w))
      | (Inl (FrameIo e), s1) \<Rightarrow> (Some (Inl (FrameIo e)), s1, w)
      | (Inr (Some body), s1) \<Rightarrow>
          (case answer W disp body w of (r, w1) \<Rightarrow>
          (case write_response_within S W r s1 of
             (Inl e, s2) \<Rightarrow> (Some (Inl e), s2, w1)
           | (Inr _, s2) \<Rightarrow> (None, s2, w1)))))"

partial_function (option) serve_connection ::
  "'s stream_ops \<Rightarrow> wire \<Rightarrow> (broker_request \<Rightarrow> 'w \<Rightarrow> broker_response \<times> 'w) \<Rightarrow> 's \<Rightarrow> 'w \<Rightarrow>
     ((frame_error, unit) result \<times> 's \<times> 'w) option" where
  "serve_connection S W disp s w =
     (case connection_turn S W disp s w of
        (Some r, s1, w1) \<Rightarrow> Some (r, s1, w1)
      | (None, s1, w1) \<Rightarrow> serve_connection S W disp s1 w1)"

definition handle_connection ::
  "'s stream_ops \<Rightarrow> wire \<Rightarrow> (peer_identity \<Rightarrow> (auth_error, unit) result) \<Rightarrow>
     (broker_request \<Rightarrow> 'w \<Rightarrow> broker_response \<times> 'w) \<Rightarrow> peer_identity \<Rightarrow> 's \<Rightarrow> 'w \<Rightarrow>
     ((frame_error, unit) result \<times> 's \<times> 'w) option" where
  "handle_connection S W authorize disp peer s w =
     (case authorize peer of
        Inl _ \<Rightarrow>
          (case write_response_within S W (error_response Unauthenticated UNAUTHORIZED_MESSAGE) s of
             (_, s1) \<Rightarrow> Some (Inr (), s1, w))
      | Inr _ \<Rightarrow> serve_connection S W disp s w)"

subsection \<open>Accepting connections\<close>

definition MAX_CONNECTIONS :: nat where
  "MAX_CONNECTIONS = 32"

definition is_transient_accept_error :: "io_error \<Rightarrow> bool" where
  "is_transient_accept_error e \<longleftrightarrow> io_kind e = ConnectionAborted \<or> io_kind e = Interrupted"

text \<open>
  \<open>Serving n\<close> has given out \<open>n\<close> of the connection slots.  The worker is looked at first; a peer is
  accepted only into a free slot, and a connection that ends, however it ends, gives its slot back.
\<close>

datatype serve_state = Serving nat | Halted io_error

datatype serve_event = Worker_stopped | Accepted | Accept_failed io_error | Connection_ended

definition worker_stopped_error :: io_error where
  "worker_stopped_error =
     io_error_other ''broker control-plane worker stopped; restart the broker process''"

inductive serve_step :: "serve_state \<Rightarrow> serve_event \<Rightarrow> serve_state \<Rightarrow> bool" where
  halt: "serve_step (Serving n) Worker_stopped (Halted worker_stopped_error)"
| admit: "n < MAX_CONNECTIONS \<Longrightarrow> serve_step (Serving n) Accepted (Serving (Suc n))"
| retry: "n < MAX_CONNECTIONS \<Longrightarrow> is_transient_accept_error e \<Longrightarrow>
    serve_step (Serving n) (Accept_failed e) (Serving n)"
| fatal: "n < MAX_CONNECTIONS \<Longrightarrow> \<not> is_transient_accept_error e \<Longrightarrow>
    serve_step (Serving n) (Accept_failed e) (Halted e)"
| ended: "serve_step (Serving (Suc n)) Connection_ended (Serving n)"

inductive_cases serve_stepE [elim!]: "serve_step (Serving n) ev st" "serve_step (Halted e) ev st"

inductive serve_run :: "serve_event list \<Rightarrow> serve_state \<Rightarrow> bool" where
  begin_: "serve_run [] (Serving 0)"
| step: "serve_run evs st \<Longrightarrow> serve_step st ev st' \<Longrightarrow> serve_run (evs @ [ev]) st'"

subsection \<open>The client\<close>

datatype client_error =
    ClientFrame frame_error
  | ClientIo io_error
  | ClientCodec string
  | ClientClosed

fun show_client_error :: "client_error \<Rightarrow> string" where
  "show_client_error (ClientFrame e) = show_frame_error e"
| "show_client_error (ClientIo e) = io_text e"
| "show_client_error (ClientCodec e) = e"
| "show_client_error ClientClosed = ''broker closed the connection before responding''"

text \<open>
  What reaches a socket is the kernel's: \<open>dial\<close> is \<open>UnixStream::connect\<close>, the stream it returns for a
  path or the error.  A client is the stream it is connected on.
\<close>

record 's broker_client =
  client_stream :: 's

definition connect_client :: "('a \<Rightarrow> (io_error, 's) result) \<Rightarrow> 'a \<Rightarrow> (io_error, 's broker_client) result" where
  "connect_client dial p = (case dial p of Inl e \<Rightarrow> Inl e | Inr s \<Rightarrow> Inr \<lparr>client_stream = s\<rparr>)"

lemma connect_client_cases:
  "connect_client dial p = Inl e \<longleftrightarrow> dial p = Inl e"
  "connect_client dial p = Inr c \<longleftrightarrow> dial p = Inr (client_stream c)"
  by (auto simp: connect_client_def split: sum.splits)

definition client_request ::
  "'s stream_ops \<Rightarrow> wire \<Rightarrow> broker_request \<Rightarrow> 's \<Rightarrow> (client_error, broker_response) result \<times> 's" where
  "client_request S W q s =
     (case wire_vec W (request_json q) of
        Inl e \<Rightarrow> (Inl (ClientCodec e), s)
      | Inr bs \<Rightarrow>
     (case write_frame S bs s of
        (Inl e, s1) \<Rightarrow> (Inl (ClientFrame e), s1)
      | (Inr _, s1) \<Rightarrow>
     (case read_frame S s1 of
        (Inl e, s2) \<Rightarrow> (Inl (ClientFrame e), s2)
      | (Inr None, s2) \<Rightarrow> (Inl ClientClosed, s2)
      | (Inr (Some body), s2) \<Rightarrow>
          (map_err ClientCodec (from_slice W response_of_json body), s2))))"

subsection \<open>A turn on the scripted stream\<close>

definition response_bytes :: "wire \<Rightarrow> broker_response \<Rightarrow> byte list" where
  "response_bytes W r = (case wire_vec W (response_json r) of Inl _ \<Rightarrow> [] | Inr bs \<Rightarrow> bs)"

text \<open>The library prints the response, and the print fits into a frame.\<close>

definition sendable :: "wire \<Rightarrow> broker_response \<Rightarrow> bool" where
  "sendable W r \<longleftrightarrow> wire_vec W (response_json r) = Inr (response_bytes W r) \<and> frame_ok (response_bytes W r)"

lemma write_response_script:
  "sendable W r \<Longrightarrow> \<not> deaf s \<Longrightarrow>
   write_response_within script_ops W r s =
     (Inr (), s\<lparr>outbound := outbound s @ frame (response_bytes W r)\<rparr>)"
  by (simp add: write_response_within_def sendable_def write_frame_script)

lemma write_frame_not_ok:
  assumes "\<not> frame_ok body"
  shows "\<exists>e. write_frame S body s = (Inl e, s)"
proof (cases "length body < 2 ^ 64")
  case False
  have "1048576 < unat (- 1 :: u64)" by (simp add: unsigned_minus_1_eq_mask mask_eq_exp_minus_1)
  then have "ucast MAX_FRAME_BYTES < (- 1 :: u64)"
    by (simp only: word_less_nat_alt) (simp add: MAX_FRAME_BYTES_def)
  then show ?thesis using False by (auto simp: write_frame_def)
next
  case True
  show ?thesis by (rule exI) (rule write_frame_refused [OF True assms])
qed

lemma write_response_outbound:
  assumes "write_response_within script_ops W r s = (u, t)"
  shows "outbound t = (if sendable W r \<and> \<not> deaf s then outbound s @ frame (response_bytes W r) else outbound s)"
proof (cases "wire_vec W (response_json r)")
  case (Inr bs)
  show ?thesis
  proof (cases "deaf s \<or> \<not> frame_ok bs")
    case True
    then have "\<not> (sendable W r \<and> \<not> deaf s)" using Inr by (auto simp: sendable_def response_bytes_def)
    then show ?thesis
      using True assms Inr write_frame_not_ok [of bs script_ops s]
      by (auto simp: write_response_within_def split: if_splits)
  next
    case False
    then have "sendable W r" "\<not> deaf s" using Inr by (simp_all add: sendable_def response_bytes_def)
    then show ?thesis using assms write_response_script by auto
  qed
qed (use assms in \<open>simp add: write_response_within_def sendable_def\<close>)

lemma write_response_keeps_inbound:
  "inbound (snd (write_response_within script_ops W r s)) = inbound s \<and>
   deaf (snd (write_response_within script_ops W r s)) = deaf s"
  by (auto simp: write_response_within_def write_frame_def Let_def split: sum.split)

lemma not_idle: "delivers s \<Longrightarrow> s_idle script_ops s = None"
  by (auto simp: delivers_def list_all_iff intro!: never_late dest: bspec [of _ _ Idle])

lemma delivers_outbound [simp]:
  "delivers (s\<lparr>outbound := out\<rparr>) = delivers s" "content (s\<lparr>outbound := out\<rparr>) = content s"
  by (simp_all add: delivers_def content_def)

lemma peer_sending_outbound: "outbound (peer_sending pieces) = []"
  by (simp add: peer_sending_def)

lemma delivers_not_deaf: "delivers s \<Longrightarrow> \<not> deaf s"
  by (simp add: delivers_def)

text \<open>A peer that stops in the middle of a frame is let go without an error and without an answer.\<close>

lemma silence_in_a_frame_ends_quietly:
  "connection_turn script_ops W disp \<lparr>inbound = [Bytes [0, 0], Idle], outbound = [], deaf = False\<rparr> w =
     (Some (Inr ()), \<lparr>inbound = [], outbound = [], deaf = False\<rparr>, w)"
  by (simp add: connection_turn_def late_in_a_frame)

text \<open>The answer to one frame, the empty one included.\<close>

definition answer_frame ::
  "wire \<Rightarrow> (broker_request \<Rightarrow> 'w \<Rightarrow> broker_response \<times> 'w) \<Rightarrow> byte list \<Rightarrow> 'w \<Rightarrow> broker_response \<times> 'w" where
  "answer_frame W disp body w =
     (if body = [] then (error_response Malformed ''frame body is empty'', w) else answer W disp body w)"

fun answers ::
  "wire \<Rightarrow> (broker_request \<Rightarrow> 'w \<Rightarrow> broker_response \<times> 'w) \<Rightarrow> byte list list \<Rightarrow> 'w \<Rightarrow>
     broker_response list \<times> 'w" where
  "answers W disp [] w = ([], w)"
| "answers W disp (b # bs) w =
     (case answer_frame W disp b w of (r, w1) \<Rightarrow>
      (case answers W disp bs w1 of (rs, w2) \<Rightarrow> (r # rs, w2)))"

lemma decode_frame_empty [simp]: "decode_frame (frame [] @ rest) = (Inl FrameEmpty, rest)"
  by (simp add: decode_frame_def frame_def)

lemma turn_answers:
  assumes "delivers s" "content s = frame body @ rest" "length body \<le> unat MAX_FRAME_BYTES"
    and "answer_frame W disp body w = (r, w1)" "sendable W r"
  shows "\<exists>t. connection_turn script_ops W disp s w = (None, t, w1) \<and> delivers t \<and>
    content t = rest \<and> outbound t = outbound s @ frame (response_bytes W r)"
proof -
  obtain t where t: "read_frame script_ops s = (fst (decode_frame (content s)), t)"
    "content t = snd (decode_frame (content s))" "delivers t" "outbound t = outbound s"
    using script.read_frame_decodes [of s "outbound s" script_ops] assms(1) by auto
  have dec: "decode_frame (content s) = (if body = [] then Inl FrameEmpty else Inr (Some body), rest)"
    using assms(2,3) by (simp add: frame_ok_def)
  show ?thesis
    using t dec assms(4,5) not_idle [OF assms(1)] write_response_script [of W r t]
      delivers_not_deaf [OF t(3)]
    by (auto simp: connection_turn_def answer_frame_def split: if_splits prod.splits)
qed

lemma turns_answer:
  assumes "delivers s" "content s = concat (map frame bodies) @ rest"
    and "list_all (\<lambda>b. length b \<le> unat MAX_FRAME_BYTES) bodies"
    and "answers W disp bodies w = (rs, w')" "list_all (sendable W) rs"
  shows "\<exists>t. serve_connection script_ops W disp s w = serve_connection script_ops W disp t w' \<and>
    delivers t \<and> content t = rest \<and>
    outbound t = outbound s @ concat (map (\<lambda>r. frame (response_bytes W r)) rs)"
  using assms
proof (induction bodies arbitrary: s w rs)
  case (Cons b bodies)
  obtain r w1 where 1: "answer_frame W disp b w = (r, w1)" by fastforce
  obtain rs1 where 2: "answers W disp bodies w1 = (rs1, w')" "rs = r # rs1"
    using Cons.prems(4) 1 by (auto split: prod.splits)
  obtain t where t: "connection_turn script_ops W disp s w = (None, t, w1)" "delivers t"
    "content t = concat (map frame bodies) @ rest"
    "outbound t = outbound s @ frame (response_bytes W r)"
    using turn_answers [OF Cons.prems(1) _ _ 1, of "concat (map frame bodies) @ rest"] Cons.prems 2
    by auto
  have "serve_connection script_ops W disp s w = serve_connection script_ops W disp t w1"
    using t(1) by (simp add: serve_connection.simps [of _ _ _ s])
  then show ?case
    using Cons.IH [OF t(2,3) _ 2(1)] Cons.prems 2 t(4) by auto
qed auto

lemma turn_at_end:
  assumes "delivers s" "content s = []"
  shows "\<exists>t. connection_turn script_ops W disp s w = (Some (Inr ()), t, w) \<and> outbound t = outbound s"
  using script.read_frame_decodes [of s "outbound s" script_ops] assms not_idle [OF assms(1)]
  by (auto simp: connection_turn_def decode_frame_def)

definition too_large_response :: "u32 \<Rightarrow> broker_response" where
  "too_large_response n = error_response Malformed
     (''frame length '' @ show_word (ucast n :: u64) @ '' exceeds the maximum'')"

lemma turn_too_large:
  assumes "delivers s" "content s = to_be_bytes n @ rest" "MAX_FRAME_BYTES < n"
    and "sendable W (too_large_response n)"
  shows "\<exists>t. connection_turn script_ops W disp s w = (Some (Inr ()), t, w) \<and>
    outbound t = outbound s @ frame (response_bytes W (too_large_response n))"
proof -
  have "n \<noteq> 0" using assms(3) by auto
  then have "decode_frame (content s) = (Inl (FrameTooLarge (ucast n)), rest)"
    using assms(2,3) by (simp add: decode_frame_def unat_eq_zero word_less_nat_alt
        del: MAX_FRAME_BYTES_value)
  then obtain t where t: "read_frame script_ops s = (Inl (FrameTooLarge (ucast n)), t)"
    "delivers t" "outbound t = outbound s"
    using script.read_frame_decodes [of s "outbound s" script_ops] assms(1) by auto
  then show ?thesis
    using write_response_script [OF assms(4) delivers_not_deaf, OF t(2)] not_idle [OF assms(1)]
    by (simp add: connection_turn_def too_large_response_def)
qed

subsection \<open>Progress on any script\<close>

definition script_size :: "script \<Rightarrow> nat" where
  "script_size s = sum_list (map (\<lambda>p. Suc (length (piece_bytes p))) (inbound s))"

lemma script_size_inbound: "inbound t = inbound s \<Longrightarrow> script_size t = script_size s"
  by (simp add: script_size_def)

lemma script_read_size:
  "script_read s n = (r, t) \<Longrightarrow> script_size t \<le> script_size s \<and>
     (\<forall>b bs. r = Inr (b # bs) \<longrightarrow> script_size t < script_size s)"
proof -
  have "sum_list (map (\<lambda>p. Suc (length (piece_bytes p))) (dropWhile (\<lambda>p. p = Idle) ps)) \<le>
      sum_list (map (\<lambda>p. Suc (length (piece_bytes p))) ps)" for ps
    by (induction ps) auto
  from this [of "inbound s"] show "script_read s n = (r, t) \<Longrightarrow> script_size t \<le> script_size s \<and>
     (\<forall>b bs. r = Inr (b # bs) \<longrightarrow> script_size t < script_size s)"
    by (cases n) (auto simp: script_size_def split: list.splits piece.splits if_splits)
qed

lemma fill_size:
  assumes "fill_buffer script_read n acc s = (f, t)"
  shows "script_size t \<le> script_size s \<and> (0 < n \<longrightarrow> (\<exists>bs. f = Filled bs) \<longrightarrow> script_size t < script_size s)"
  using assms
proof (induction n arbitrary: acc s rule: less_induct)
  case (less n)
  show ?case
  proof (cases n)
    case 0
    then show ?thesis using less.prems by simp
  next
    case (Suc m)
    obtain r u where r: "script_read s n = (r, u)" by fastforce
    note size = script_read_size [OF r]
    show ?thesis
    proof (cases "\<exists>c cs. r = Inr (c # cs)")
      case True
      then obtain c cs where cs: "r = Inr (c # cs)" by blast
      then have "fill_buffer script_read (n - length (c # cs)) (acc @ c # cs) u = (f, t)"
        using less.prems r Suc by (simp del: script_read.simps)
      then show ?thesis
        using less.IH [of "n - length (c # cs)" _ u] size cs Suc by fastforce
    next
      case False
      then show ?thesis
        using less.prems r size Suc
        by (auto simp del: script_read.simps split: sum.splits list.splits)
    qed
  qed
qed

lemma read_frame_size:
  assumes "read_frame script_ops s = (r, t)" "r = Inl FrameEmpty \<or> (\<exists>body. r = Inr (Some body))"
  shows "script_size t < script_size s"
proof -
  obtain f u where f: "fill_buffer script_read 4 [] s = (f, u)" by fastforce
  obtain bs where bs: "f = Filled bs"
    using assms f by (cases f) (auto simp: read_frame_def split: if_splits)
  obtain f' v where f': "fill_buffer script_read (unat (from_be_bytes bs)) [] u = (f', v)" by fastforce
  have "t = u \<or> t = v"
    using assms(1) f bs f' by (auto simp: read_frame_def Let_def split: if_splits fill.splits)
  then show ?thesis
    using fill_size [OF f] fill_size [OF f'] bs by auto
qed

lemma turn_size:
  assumes "connection_turn script_ops W disp s w = (None, t, w1)"
  shows "script_size t < script_size s"
proof -
  obtain r u where r: "read_frame script_ops s = (r, u)" by fastforce
  have "\<exists>q. t = snd (write_response_within script_ops W q u)"
    using assms r
    by (auto simp: connection_turn_def split: option.splits sum.splits frame_error.splits prod.splits)
      (metis snd_conv)+
  then have "script_size t = script_size u"
    using write_response_keeps_inbound script_size_inbound by metis
  moreover have "r = Inl FrameEmpty \<or> (\<exists>body. r = Inr (Some body))"
    using assms r
    by (auto simp: connection_turn_def split: option.splits sum.splits frame_error.splits prod.splits)
  ultimately show ?thesis using read_frame_size [OF r] by simp
qed

subsection \<open>What a connection can do to the worker\<close>

lemma answer_worker: "answer W disp body w = (r, w') \<Longrightarrow> w' = w \<or> (\<exists>q. w' = snd (disp q w))"
  by (auto simp: answer_def split: sum.splits) (metis snd_conv)

lemma turn_worker:
  assumes "connection_turn S W disp s w = (o1, t, w')"
  shows "w' = w \<or> (\<exists>q. w' = snd (disp q w))"
  using assms
  by (auto simp: connection_turn_def split: option.splits prod.splits sum.splits frame_error.splits
      dest: answer_worker)

text \<open>What no request can break, no connection can break, whatever the stream does.\<close>

lemma serve_connection_invariant:
  assumes "serve_connection S W disp s w = Some y" "I w" "\<And>q w. I w \<Longrightarrow> I (snd (disp q w))"
  shows "I (snd (snd y))"
proof -
  have "(\<forall>q w. I w \<longrightarrow> I (snd (disp q w))) \<longrightarrow> I w \<longrightarrow> I (snd (snd y))"
  proof (rule serve_connection.raw_induct [OF _ assms(1), where
        P = "\<lambda>_ _ disp _ w y. (\<forall>q w. I w \<longrightarrow> I (snd (disp q w))) \<longrightarrow> I w \<longrightarrow> I (snd (snd y))"])
    fix serve S W s w y
      and disp :: "broker_request \<Rightarrow> 'b \<Rightarrow> broker_response \<times> 'b"
    assume ih: "\<And>S W (disp :: broker_request \<Rightarrow> 'b \<Rightarrow> broker_response \<times> 'b) s w y.
        serve S W disp s w = Some y \<Longrightarrow>
        (\<forall>q w. I w \<longrightarrow> I (snd (disp q w))) \<longrightarrow> I w \<longrightarrow> I (snd (snd y))"
      and step: "(case connection_turn S W disp s w of
          (None, s1, w1) \<Rightarrow> serve S W disp s1 w1 | (Some r, s1, w1) \<Rightarrow> Some (r, s1, w1)) = Some y"
    obtain o1 t w1 where turn: "connection_turn S W disp s w = (o1, t, w1)" by (metis prod_cases3)
    show "(\<forall>q w. I w \<longrightarrow> I (snd (disp q w))) \<longrightarrow> I w \<longrightarrow> I (snd (snd y))"
      using turn_worker [OF turn] step ih [of S W disp t w1 y] turn by (cases o1) auto
  qed
  then show ?thesis using assms(2,3) by blast
qed

lemma handle_connection_invariant:
  assumes "handle_connection S W authorize disp peer s w = Some (r, t, w')" "I w"
    and "\<And>q w. I w \<Longrightarrow> I (snd (disp q w))"
  shows "I w'"
proof (cases "authorize peer")
  case (Inl e)
  then show ?thesis using assms(1,2) by (auto simp: handle_connection_def split: prod.splits)
next
  case (Inr u)
  then have "serve_connection S W disp s w = Some (r, t, w')"
    using assms(1) by (simp add: handle_connection_def)
  from serve_connection_invariant [OF this assms(2,3)] show ?thesis by simp
qed

subsection \<open>Properties\<close>

text \<open>
  The wire of the concrete runs knows one request, the print of the discovery request, and prints
  every response as the same byte.
\<close>

definition demo_wire :: wire where
  "demo_wire =
     \<lparr>wire_vec = \<lambda>v. Inr (if v = request_json discover_request then [1] else [2]),
      wire_slice = \<lambda>bs. if bs = [1] then Inr (request_json discover_request)
        else if bs = [2] then Inr (response_json (CapabilitiesResponse (manifest demo_plane)))
        else Inl ''expected value'',
      wire_shape = \<lambda>_. ''unexpected shape''\<rparr>"

definition demo_dispatch ::
  "broker_request \<Rightarrow> (mock_provider, json) service option \<Rightarrow>
     broker_response \<times> (mock_provider, json) service option" where
  "demo_dispatch = dispatch (\<lambda>q sv. Some (broker_handle plain_host (mock_ops ''linux'') q sv))"

lemma response_not_request [simp]: "response_json r \<noteq> request_json q"
proof
  assume e: "response_json r = request_json q"
  have "get ''outcome'' (request_json q) = None"
    by (auto simp: request_json_def skip_none_def split: option.splits)
  moreover have "get ''outcome'' (response_json r) \<noteq> None" by (cases r) simp_all
  ultimately show False using e by simp
qed

lemma demo_sendable [simp]: "sendable demo_wire r" "response_bytes demo_wire r = [2]"
  by (simp_all add: sendable_def response_bytes_def demo_wire_def frame_ok_def)

lemma demo_carries [simp]:
  "carries demo_wire (request_json discover_request) [1]"
  "carries demo_wire (response_json (CapabilitiesResponse (manifest demo_plane))) [2]"
  by (simp_all add: carries_def demo_wire_def frame_ok_def del: response_json.simps)

lemma demo_request_bytes:
  "from_slice demo_wire request_of_json [1] = Inr discover_request"
  using request_format.dec_enc [of discover_request]
  by (simp add: from_slice_def demo_wire_def request_ok_def discover_request_def)

text \<open>
  C26: An unauthenticated peer gets one rejection and nothing else.  A peer of another uid is answered
  with one fixed frame, the same for every uid, whenever the library can print it and the peer takes
  it before the write's deadline, and with nothing otherwise; not a byte it sent is read, no request
  is dispatched, and the connection ends without an error.
\<close>

theorem foreign_peer_is_not_served:
  assumes "peer_uid peer \<noteq> expected_uid a"
  shows "\<exists>t. handle_connection script_ops W (same_uid_authorize a) disp peer s w = Some (Inr (), t, w) \<and>
    inbound t = inbound s \<and>
    (let r = error_response Unauthenticated ''peer is not authorized'' in
     outbound t = (if sendable W r \<and> \<not> deaf s then outbound s @ frame (response_bytes W r) else outbound s))"
proof -
  obtain e where e: "same_uid_authorize a peer = Inl e"
    using same_uid.refused [OF assms] by blast
  let ?r = "error_response Unauthenticated UNAUTHORIZED_MESSAGE"
  obtain u t where w: "write_response_within script_ops W ?r s = (u, t)" by fastforce
  from e w write_response_keeps_inbound [of W ?r s] write_response_outbound [OF w]
  show ?thesis by (simp add: handle_connection_def UNAUTHORIZED_MESSAGE_def Let_def)
qed

theorem foreign_peer_is_not_served_witness:
  "\<exists>t. handle_connection script_ops demo_wire (same_uid_authorize \<lparr>expected_uid = 1000\<rparr>) demo_dispatch
     \<lparr>peer_uid = 0, peer_pid = None\<rparr> (peer_sending [frame [1]]) (Some demo_service) =
       Some (Inr (), t, Some demo_service) \<and> inbound t = [Bytes (frame [1])] \<and> outbound t = frame [2]"
  using foreign_peer_is_not_served [of "\<lparr>peer_uid = 0, peer_pid = None\<rparr>" "\<lparr>expected_uid = 1000\<rparr>"
      demo_wire demo_dispatch "peer_sending [frame [1]]" "Some demo_service"]
  by (auto simp: peer_sending_def Let_def)

text \<open>
  C15: A connection is the sequential handling of its frames.  Whatever frames an authenticated peer
  sends, requests or not, in whatever pieces they arrive, the broker answers each with exactly one
  response frame, in order, each request handled in the worker state the previous one left
  (\<open>answers\<close>); an empty frame is answered and the conversation goes on.  When the peer then closes, the
  connection ends without an error; when it declares a frame over the maximum, that is answered too
  and the connection is closed without reading the body.
\<close>

theorem connection_answers_in_order:
  assumes "peer_uid peer = expected_uid a" "delivers s"
    and "list_all (\<lambda>b. length b \<le> unat MAX_FRAME_BYTES) bodies"
    and "answers W disp bodies w = (rs, w')" "list_all (sendable W) rs"
    and "MAX_FRAME_BYTES < n" "sendable W (too_large_response n)"
  shows "(content s = concat (map frame bodies) \<longrightarrow>
      (\<exists>t. handle_connection script_ops W (same_uid_authorize a) disp peer s w = Some (Inr (), t, w') \<and>
        outbound t = outbound s @ concat (map (\<lambda>r. frame (response_bytes W r)) rs))) \<and>
    (content s = concat (map frame bodies) @ to_be_bytes n @ junk \<longrightarrow>
      (\<exists>t. handle_connection script_ops W (same_uid_authorize a) disp peer s w = Some (Inr (), t, w') \<and>
        outbound t = outbound s @
          concat (map (\<lambda>r. frame (response_bytes W r)) (rs @ [too_large_response n]))))"
proof -
  have serve: "handle_connection script_ops W (same_uid_authorize a) disp peer s w =
      serve_connection script_ops W disp s w"
    using assms(1) by (simp add: handle_connection_def same_uid_authorize_def)
  have run: "\<exists>t. serve_connection script_ops W disp s w = serve_connection script_ops W disp t w' \<and>
      delivers t \<and> content t = rest \<and>
      outbound t = outbound s @ concat (map (\<lambda>r. frame (response_bytes W r)) rs)"
    if "content s = concat (map frame bodies) @ rest" for rest
    using turns_answer [OF assms(2) that assms(3-5)] .
  show ?thesis
  proof (intro conjI impI)
    assume "content s = concat (map frame bodies)"
    then obtain t where "serve_connection script_ops W disp s w = serve_connection script_ops W disp t w'"
      "delivers t" "content t = []"
      "outbound t = outbound s @ concat (map (\<lambda>r. frame (response_bytes W r)) rs)"
      using run [of "[]"] by auto
    with turn_at_end [of t W disp w'] serve serve_connection.simps [of script_ops W disp t w']
    show "\<exists>t. handle_connection script_ops W (same_uid_authorize a) disp peer s w = Some (Inr (), t, w') \<and>
        outbound t = outbound s @ concat (map (\<lambda>r. frame (response_bytes W r)) rs)"
      by auto
  next
    assume "content s = concat (map frame bodies) @ to_be_bytes n @ junk"
    then obtain t where "serve_connection script_ops W disp s w = serve_connection script_ops W disp t w'"
      "delivers t" "content t = to_be_bytes n @ junk"
      "outbound t = outbound s @ concat (map (\<lambda>r. frame (response_bytes W r)) rs)"
      using run [of "to_be_bytes n @ junk"] by auto
    with turn_too_large [of t n junk W disp w'] assms(6,7) serve
      serve_connection.simps [of script_ops W disp t w']
    show "\<exists>t. handle_connection script_ops W (same_uid_authorize a) disp peer s w = Some (Inr (), t, w') \<and>
        outbound t = outbound s @
          concat (map (\<lambda>r. frame (response_bytes W r)) (rs @ [too_large_response n]))"
      by auto
  qed
qed

theorem connection_answers_in_order_witness:
  "\<exists>t w. handle_connection script_ops demo_wire (same_uid_authorize \<lparr>expected_uid = 1000\<rparr>) demo_dispatch
       \<lparr>peer_uid = 1000, peer_pid = Some 7\<rparr> (peer_sending [[0, 0, 0], [0, 0, 0, 0, 1, 1]]) (Some demo_service) =
         Some (Inr (), t, w) \<and> outbound t = frame [2] @ frame [2]"
proof -
  obtain rs w where a: "answers demo_wire demo_dispatch [[], [1]] (Some demo_service) = (rs, w)"
    by fastforce
  then have rs: "length rs = 2" by (auto split: prod.splits)
  then have bytes: "concat (map (\<lambda>r. frame (response_bytes demo_wire r)) rs) = frame [2] @ frame [2]"
    by (auto simp: numeral_2_eq_2 length_Suc_conv)
  have "\<exists>t. handle_connection script_ops demo_wire (same_uid_authorize \<lparr>expected_uid = 1000\<rparr>)
      demo_dispatch \<lparr>peer_uid = 1000, peer_pid = Some 7\<rparr>
      (peer_sending [[0, 0, 0], [0, 0, 0, 0, 1, 1]]) (Some demo_service) = Some (Inr (), t, w) \<and>
      outbound t = outbound (peer_sending [[0, 0, 0], [0, 0, 0, 0, 1, 1]]) @
        concat (map (\<lambda>r. frame (response_bytes demo_wire r)) rs)"
  proof (rule connection_answers_in_order [THEN conjunct1, rule_format, OF _ _ _ a])
    show "MAX_FRAME_BYTES < (- 1 :: u32)" by (simp add: MAX_FRAME_BYTES_def)
    show "content (peer_sending [[0, 0, 0], [0, 0, 0, 0, 1, 1]]) = concat (map frame [[], [1]])"
      by (simp add: frame_def to_be_bytes_def)
  qed (simp_all add: list_all_iff)
  then show ?thesis using bytes by (auto simp: peer_sending_def)
qed

text \<open>
  C29: Every connection ends.  However the peer behaves, whatever it sends in whatever pieces, with
  failing reads and missed deadlines anywhere, the loop over its finitely many pieces returns.
\<close>

theorem connections_end:
  "\<exists>r t w'. handle_connection script_ops W authorize disp peer s w = Some (r, t, w')"
proof -
  have "\<exists>r t w'. serve_connection script_ops W disp s w = Some (r, t, w')"
  proof (induction "script_size s" arbitrary: s w rule: less_induct)
    case less
    obtain o1 t w1 where turn: "connection_turn script_ops W disp s w = (o1, t, w1)"
      by (metis prod_cases3)
    show ?case
    proof (cases o1)
      case None
      then show ?thesis
        using less [of t w1] turn turn_size [of W disp s w t w1]
        by (simp add: serve_connection.simps [of _ _ _ s])
    qed (simp add: serve_connection.simps [of _ _ _ s] turn)
  qed
  then show ?thesis
    by (auto simp: handle_connection_def split: sum.split prod.split)
qed

text \<open>
  C22: The client and the broker agree.  When a client writes a request, the broker serves the bytes
  it wrote, cut into any pieces, and the client reads the bytes the broker wrote, cut into any
  pieces, the client's call returns exactly the response the worker gave to that request, and the
  worker is in the state that handling left.
\<close>

theorem request_reaches_and_returns:
  assumes "carries W (request_json q) qb" "request_ok q" "peer_uid peer = expected_uid a"
    and "disp q w = (r, w')" "carries W (response_json r) rb" "response_ok r"
    and "[] \<notin> set ps" "concat ps = frame qb" "[] \<notin> set ps'" "concat ps' = frame rb"
  shows "\<exists>t. handle_connection script_ops W (same_uid_authorize a) disp peer (peer_sending ps) w =
      Some (Inr (), t, w') \<and> outbound t = frame rb \<and>
    fst (client_request script_ops W q (peer_sending ps')) = Inr r \<and>
    outbound (snd (client_request script_ops W q (peer_sending ps'))) = frame qb"
proof -
  have rb: "response_bytes W r = rb" and send: "sendable W r"
    using assms(5) by (simp_all add: carries_def response_bytes_def sendable_def)
  have "qb \<noteq> []" and qlen: "length qb \<le> unat MAX_FRAME_BYTES"
    using assms(1) by (simp_all add: carries_def frame_ok_def)
  then have "answers W disp [qb] w = ([r], w')"
    using from_slice_carries [OF assms(1), of request_of_json] request_format.dec_enc [OF assms(2)]
      assms(4)
    by (simp add: answer_frame_def answer_def)
  moreover have "content (peer_sending ps) = concat (map frame [qb]) @ []"
    using assms(8) by simp
  ultimately obtain t where t: "serve_connection script_ops W disp (peer_sending ps) w =
      serve_connection script_ops W disp t w'" "delivers t" "content t = []" "outbound t = frame rb"
    using turns_answer [of "peer_sending ps" "[qb]" "[]" W disp w "[r]" w'] assms(7) send rb qlen
    by (auto simp: peer_sending_outbound simp del: answers.simps)
  from turn_at_end [OF t(2,3), of W disp w'] obtain u where
    "connection_turn script_ops W disp t w' = (Some (Inr ()), u, w')" "outbound u = frame rb"
    using t(4) by auto
  then have "handle_connection script_ops W (same_uid_authorize a) disp peer (peer_sending ps) w =
      Some (Inr (), u, w')" and "outbound u = frame rb"
    using t(1) assms(3)
    by (simp_all add: handle_connection_def same_uid_authorize_def
        serve_connection.simps [of _ _ _ t])
  moreover
  let ?c = "(peer_sending ps')\<lparr>outbound := frame qb\<rparr>"
  have wr: "write_frame script_ops qb (peer_sending ps') = (Inr (), ?c)"
    using assms(1) by (simp add: carries_def write_frame_script peer_sending_def)
  have "delivers ?c" "content ?c = frame rb @ []" using assms(9,10) by simp_all
  then obtain v where "read_frame script_ops ?c = (Inr (Some rb), v)" "outbound v = frame qb"
    using script.read_frame_decodes [of ?c "frame qb" script_ops] assms(5)
    by (auto simp: carries_def simp del: append_Nil2)
  then have "client_request script_ops W q (peer_sending ps') = (Inr r, v)" "outbound v = frame qb"
    using wr assms(1) from_slice_carries [OF assms(5), of response_of_json] response_format.dec_enc [OF assms(6)]
    by (simp_all add: client_request_def carries_def)
  ultimately show ?thesis by auto
qed

theorem request_reaches_and_returns_witness:
  "fst (client_request script_ops demo_wire discover_request (peer_sending [[0], [0, 0, 1, 2]])) =
     Inr (CapabilitiesResponse (manifest demo_plane))"
proof -
  have "demo_dispatch discover_request (Some demo_service) =
      (CapabilitiesResponse (manifest demo_plane), Some demo_service)"
    by (simp add: demo_dispatch_def dispatch_def broker_handle_def discover_request_def
        broker_discover_def demo_service_def new_service_def)
  moreover have "request_ok discover_request"
    "response_ok (CapabilitiesResponse (manifest demo_plane))"
    by (simp_all add: request_ok_def discover_request_def manifest_ok_def mock_manifest_def)
  moreover have "frame [1] = [0, 0, 0, 1, 1]" "frame [2] = [0, 0, 0, 1, 2]"
    by (simp_all add: frame_def to_be_bytes_def)
  ultimately show ?thesis
    using request_reaches_and_returns [of demo_wire discover_request "[1]"
      "\<lparr>peer_uid = 1000, peer_pid = None\<rparr>" "\<lparr>expected_uid = 1000\<rparr>" demo_dispatch
      "Some demo_service" "CapabilitiesResponse (manifest demo_plane)" "Some demo_service"
      "[2]" "[[0, 0, 0, 1], [1]]" "[[0], [0, 0, 1, 2]]"]
    by (auto simp del: response_json.simps response_ok.simps demo_simps)
qed

text \<open>
  The accept loop never serves more than \<open>MAX_CONNECTIONS\<close> connections, the slots given out are
  those accepted and not yet ended, and it halts only on a stopped worker or on an accept failure
  that is not specific to one connection, as its last event and with that error.
\<close>

theorem serve_is_bounded:
  assumes "serve_run evs st"
  shows "(\<forall>n. st = Serving n \<longrightarrow> n \<le> MAX_CONNECTIONS \<and>
      count_list evs Accepted = n + count_list evs Connection_ended) \<and>
    (\<forall>e. st = Halted e \<longrightarrow>
      (\<exists>pre. evs = pre @ [Worker_stopped] \<and> e = worker_stopped_error \<or>
         evs = pre @ [Accept_failed e] \<and> \<not> is_transient_accept_error e))"
  using assms
proof induction
  case (step evs st ev st')
  from step.hyps(2) step.IH show ?case by (cases st) auto
qed simp

theorem serve_is_bounded_witness:
  "count_list [Accepted, Connection_ended, Accepted] Accepted =
     1 + count_list [Accepted, Connection_ended, Accepted] Connection_ended"
proof -
  have "serve_run ([] @ [Accepted]) (Serving 1)"
    using serve_run.step [OF begin_ admit [of 0]] by (simp add: MAX_CONNECTIONS_def)
  from serve_run.step [OF this, of Connection_ended "Serving 0"]
  have "serve_run (([] @ [Accepted]) @ [Connection_ended]) (Serving 0)"
    using ended [of 0] by simp
  from serve_run.step [OF this admit [of 0]]
  have "serve_run [Accepted, Connection_ended, Accepted] (Serving 1)"
    by (simp add: MAX_CONNECTIONS_def)
  from serve_is_bounded [OF this] show ?thesis by simp
qed

end
