(* ===== verification/Server.thy ===== *)
theory Server
  imports Connection
begin

section \<open>The broker under concurrency (\<open>apps/broker/src/lib.rs\<close>)\<close>

text \<open>
  \<open>Connection\<close> treats one connection that calls the worker as a function.  Here all the tasks of the
  broker run together: the accept loop with its slots, a task per connection, the bounded channel of
  jobs and the thread that owns the service.  A step of the relation is what one of them does between
  two points at which it can be suspended; any order of steps is a run, and the process may exit once
  \<open>serve\<close> has given up, which stops all of them.  The theorems say that the
  sequential reading is right: the requests are handled one by one in one order, and every
  connection behaves as it would alone with the answers it got.
\<close>

definition REQUEST_BACKLOG :: nat where
  "REQUEST_BACKLOG = 64"

subsection \<open>One turn of a connection, cut at the dispatch\<close>

datatype turn = Leaves "(frame_error, unit) result" | Goes_on | Asks broker_request

definition turn_front :: "'s stream_ops \<Rightarrow> wire \<Rightarrow> 's \<Rightarrow> turn \<times> 's" where
  "turn_front S W s =
     (case s_idle S s of
        Some s1 \<Rightarrow> (Leaves (Inr ()), s1)
      | None \<Rightarrow>
     (case read_frame S s of
        (Inr None, s1) \<Rightarrow> (Leaves (Inr ()), s1)
      | (Inl FrameEmpty, s1) \<Rightarrow>
          (case write_response_within S W (error_response Malformed ''frame body is empty'') s1 of
             (Inl e, s2) \<Rightarrow> (Leaves (Inl e), s2)
           | (Inr _, s2) \<Rightarrow> (Goes_on, s2))
      | (Inl (FrameTooLarge n), s1) \<Rightarrow>
          (case write_response_within S W (error_response Malformed
                  (''frame length '' @ show_word n @ '' exceeds the maximum'')) s1 of
             (_, s2) \<Rightarrow> (Leaves (Inr ()), s2))
      | (Inl (FrameIo e), s1) \<Rightarrow> (Leaves (Inl (FrameIo e)), s1)
      | (Inr (Some body), s1) \<Rightarrow>
          (case from_slice W request_of_json body of
             Inr q \<Rightarrow> (Asks q, s1)
           | Inl e \<Rightarrow>
               (case write_response_within S W
                       (error_response Malformed (''invalid request: '' @ echoed e)) s1 of
                  (Inl e', s2) \<Rightarrow> (Leaves (Inl e'), s2)
                | (Inr _, s2) \<Rightarrow> (Goes_on, s2)))))"

lemma connection_turn_cut:
  "connection_turn S W disp s w =
     (case turn_front S W s of
        (Leaves r, s1) \<Rightarrow> (Some r, s1, w)
      | (Goes_on, s1) \<Rightarrow> (None, s1, w)
      | (Asks q, s1) \<Rightarrow>
          (case disp q w of (r, w1) \<Rightarrow>
          (case write_response_within S W r s1 of
             (Inl e, s2) \<Rightarrow> (Some (Inl e), s2, w1)
           | (Inr _, s2) \<Rightarrow> (None, s2, w1))))"
  by (simp add: connection_turn_def turn_front_def answer_def
      split: option.splits prod.splits sum.splits frame_error.splits)

subsection \<open>The state\<close>

datatype phase =
    Arrived
  | Reading
  | Sending broker_request \<comment> \<open>\<open>jobs.send\<close> waits for room in the channel\<close>
  | Awaiting broker_request \<comment> \<open>the job is in the channel, the task waits for its response\<close>
  | Answered broker_response
  | Closed "(frame_error, unit) result"

text \<open>\<open>peer\<close> and \<open>origin\<close> are the peer and the stream the task was given.\<close>

record 's task =
  peer :: peer_identity
  origin :: 's
  stream :: 's
  phase :: phase

record ('s, 'w) setting =
  ops :: "'s stream_ops"
  lib :: wire
  acl :: "peer_identity \<Rightarrow> (auth_error, unit) result"
  handler :: "broker_request \<Rightarrow> 'w \<Rightarrow> (broker_response \<times> 'w) option"

text \<open>
  \<open>handled\<close> and \<open>replies\<close> are history: what the worker has handled, and what the tasks were told,
  both in the order it happened.  When \<open>serve\<close> has returned an error, \<open>main\<close> ends the process; the
  runtime's other threads and the worker go on until it is gone (\<open>running\<close>), and nothing steps then.
\<close>

record ('s, 'w) server =
  loop :: serve_state
  spawned :: nat
  tasks :: "nat \<Rightarrow> 's task option"
  jobs :: "(nat \<times> broker_request) list"
  worker :: "'w option"
  handled :: "(nat \<times> broker_request \<times> broker_response) list"
  replies :: "(nat \<times> broker_request \<times> broker_response) list"
  running :: bool

definition idle_server :: "'w \<Rightarrow> ('s, 'w) server" where
  "idle_server w = \<lparr>loop = Serving 0, spawned = 0, tasks = (\<lambda>_. None), jobs = [], worker = Some w,
     handled = [], replies = [], running = True\<rparr>"

definition put_task :: "nat \<Rightarrow> 's task \<Rightarrow> ('s, 'w) server \<Rightarrow> ('s, 'w) server" where
  "put_task i t st = st\<lparr>tasks := (tasks st)(i \<mapsto> t)\<rparr>"

definition stopped_response :: broker_response where
  "stopped_response = error_response Internal ''broker worker has stopped''"

definition dropped_response :: broker_response where
  "dropped_response = error_response Internal ''broker worker dropped the request''"

text \<open>The thread ends: the channel's jobs go with it, and each awaiting task is told so.\<close>

definition drop_awaiting :: "'s task \<Rightarrow> 's task" where
  "drop_awaiting t = (case phase t of Awaiting _ \<Rightarrow> t\<lparr>phase := Answered dropped_response\<rparr> | _ \<Rightarrow> t)"

definition lose_worker :: "('s, 'w) server \<Rightarrow> ('s, 'w) server" where
  "lose_worker st = st\<lparr>worker := None, jobs := [],
     tasks := (\<lambda>i. map_option drop_awaiting (tasks st i)),
     replies := replies st @ map (\<lambda>(i, q). (i, q, dropped_response)) (jobs st)\<rparr>"

definition reject :: "('s, 'w) setting \<Rightarrow> 's \<Rightarrow> 's" where
  "reject G s = snd (write_response_within (ops G) (lib G)
     (error_response Unauthenticated UNAUTHORIZED_MESSAGE) s)"

definition after_turn :: "turn \<Rightarrow> phase" where
  "after_turn u = (case u of Leaves r \<Rightarrow> Closed r | Goes_on \<Rightarrow> Reading | Asks q \<Rightarrow> Sending q)"

definition after_write :: "(frame_error, unit) result \<Rightarrow> phase" where
  "after_write u = (case u of Inl e \<Rightarrow> Closed (Inl e) | Inr _ \<Rightarrow> Reading)"

subsection \<open>The steps\<close>

datatype event =
    Accept | Accept_fails io_error | Notice
  | Greet nat | Turn nat | Send nat | Refuse nat | Work | Reply nat | Leave nat | Exit

inductive server_step ::
  "('s, 'w) setting \<Rightarrow> ('s, 'w) server \<Rightarrow> event \<Rightarrow> ('s, 'w) server \<Rightarrow> bool" for G where
  accept: "loop st = Serving n \<Longrightarrow> n < MAX_CONNECTIONS \<Longrightarrow> running st \<Longrightarrow>
    server_step G st Accept (put_task (spawned st) \<lparr>peer = p, origin = s, stream = s, phase = Arrived\<rparr>
      (st\<lparr>loop := Serving (Suc n), spawned := Suc (spawned st)\<rparr>))"
| accept_retry: "loop st = Serving n \<Longrightarrow> n < MAX_CONNECTIONS \<Longrightarrow> is_transient_accept_error e \<Longrightarrow> running st \<Longrightarrow>
    server_step G st (Accept_fails e) st"
| accept_fatal: "loop st = Serving n \<Longrightarrow> n < MAX_CONNECTIONS \<Longrightarrow> \<not> is_transient_accept_error e \<Longrightarrow> running st \<Longrightarrow>
    server_step G st (Accept_fails e) (st\<lparr>loop := Halted e\<rparr>)"
| notice: "loop st = Serving n \<Longrightarrow> worker_stopped (worker st) \<Longrightarrow> running st \<Longrightarrow>
    server_step G st Notice (st\<lparr>loop := Halted worker_stopped_error\<rparr>)"
| greet: "tasks st i = Some t \<Longrightarrow> phase t = Arrived \<Longrightarrow> acl G (peer t) = Inr u \<Longrightarrow> running st \<Longrightarrow>
    server_step G st (Greet i) (put_task i (t\<lparr>phase := Reading\<rparr>) st)"
| turn_away: "tasks st i = Some t \<Longrightarrow> phase t = Arrived \<Longrightarrow> acl G (peer t) = Inl e \<Longrightarrow> running st \<Longrightarrow>
    server_step G st (Greet i)
      (put_task i (t\<lparr>stream := reject G (stream t), phase := Closed (Inr ())\<rparr>) st)"
| turn: "tasks st i = Some t \<Longrightarrow> phase t = Reading \<Longrightarrow> turn_front (ops G) (lib G) (stream t) = (u, s) \<Longrightarrow> running st \<Longrightarrow>
    server_step G st (Turn i) (put_task i (t\<lparr>stream := s, phase := after_turn u\<rparr>) st)"
| send: "tasks st i = Some t \<Longrightarrow> phase t = Sending q \<Longrightarrow> worker st = Some w \<Longrightarrow>
    length (jobs st) < REQUEST_BACKLOG \<Longrightarrow> running st \<Longrightarrow>
    server_step G st (Send i)
      (put_task i (t\<lparr>phase := Awaiting q\<rparr>) (st\<lparr>jobs := jobs st @ [(i, q)]\<rparr>))"
| refuse: "tasks st i = Some t \<Longrightarrow> phase t = Sending q \<Longrightarrow> worker st = None \<Longrightarrow> running st \<Longrightarrow>
    server_step G st (Refuse i) (put_task i (t\<lparr>phase := Answered stopped_response\<rparr>)
      (st\<lparr>replies := replies st @ [(i, q, stopped_response)]\<rparr>))"
| work: "worker st = Some w \<Longrightarrow> jobs st = (i, q) # js \<Longrightarrow> handler G q w = Some (r, w') \<Longrightarrow>
    tasks st i = Some t \<Longrightarrow> running st \<Longrightarrow>
    server_step G st Work (put_task i (t\<lparr>phase := Answered r\<rparr>)
      (st\<lparr>worker := Some w', jobs := js, handled := handled st @ [(i, q, r)],
         replies := replies st @ [(i, q, r)]\<rparr>))"
| panic: "worker st = Some w \<Longrightarrow> jobs st = (i, q) # js \<Longrightarrow> handler G q w = None \<Longrightarrow> running st \<Longrightarrow>
    server_step G st Work (lose_worker st)"
| reply: "tasks st i = Some t \<Longrightarrow> phase t = Answered r \<Longrightarrow>
    write_response_within (ops G) (lib G) r (stream t) = (u, s) \<Longrightarrow> running st \<Longrightarrow>
    server_step G st (Reply i) (put_task i (t\<lparr>stream := s, phase := after_write u\<rparr>) st)"
| leave: "tasks st i = Some t \<Longrightarrow> phase t = Closed r \<Longrightarrow> running st \<Longrightarrow>
    server_step G st (Leave i) (st\<lparr>tasks := (tasks st)(i := None),
      loop := (case loop st of Serving n \<Rightarrow> Serving (n - 1) | Halted e \<Rightarrow> Halted e)\<rparr>)"
| exits: "loop st = Halted e \<Longrightarrow> running st \<Longrightarrow> server_step G st Exit (st\<lparr>running := False\<rparr>)"

inductive_cases server_stepE:
  "server_step G st Accept st'" "server_step G st (Accept_fails e) st'" "server_step G st Notice st'"
  "server_step G st (Greet i) st'" "server_step G st (Turn i) st'" "server_step G st (Send i) st'"
  "server_step G st (Refuse i) st'" "server_step G st Work st'" "server_step G st (Reply i) st'"
  "server_step G st (Leave i) st'" "server_step G st Exit st'"

inductive server_steps ::
  "('s, 'w) setting \<Rightarrow> ('s, 'w) server \<Rightarrow> event list \<Rightarrow> ('s, 'w) server \<Rightarrow> bool" for G st0 where
  steps_nil: "server_steps G st0 [] st0"
| steps_snoc: "server_steps G st0 evs st \<Longrightarrow> server_step G st ev st' \<Longrightarrow>
    server_steps G st0 (evs @ [ev]) st'"

text \<open>A run of a broker that starts with the worker state \<open>w0\<close>.\<close>

definition server_run ::
  "('s, 'w) setting \<Rightarrow> 'w \<Rightarrow> event list \<Rightarrow> ('s, 'w) server \<Rightarrow> bool" where
  "server_run G w0 evs st \<longleftrightarrow> server_steps G (idle_server w0) evs st"

lemma run_induct [consumes 1, case_names begins steps]:
  assumes "server_run G w0 evs st" "Q (idle_server w0)"
    and "\<And>st ev st'. Q st \<Longrightarrow> server_step G st ev st' \<Longrightarrow> Q st'"
  shows "Q st"
  using assms(1) unfolding server_run_def
  by (induction rule: server_steps.induct) (use assms(2,3) in blast)+

lemma run_more:
  "server_steps G st evs' st' \<Longrightarrow> server_run G w0 evs st \<Longrightarrow> server_run G w0 (evs @ evs') st'"
  unfolding server_run_def
  by (induction rule: server_steps.induct) (auto intro: steps_snoc simp flip: append_assoc)

lemma put_task_simps [simp]:
  "loop (put_task i t st) = loop st" "spawned (put_task i t st) = spawned st"
  "tasks (put_task i t st) = (tasks st)(i \<mapsto> t)" "jobs (put_task i t st) = jobs st"
  "worker (put_task i t st) = worker st" "handled (put_task i t st) = handled st"
  "replies (put_task i t st) = replies st" "running (put_task i t st) = running st"
  by (simp_all add: put_task_def)

lemma lose_worker_simps [simp]:
  "loop (lose_worker st) = loop st" "spawned (lose_worker st) = spawned st"
  "tasks (lose_worker st) i = map_option drop_awaiting (tasks st i)" "jobs (lose_worker st) = []"
  "worker (lose_worker st) = None" "running (lose_worker st) = running st" "handled (lose_worker st) = handled st"
  "replies (lose_worker st) = replies st @ map (\<lambda>(i, q). (i, q, dropped_response)) (jobs st)"
  by (simp_all add: lose_worker_def)

lemma idle_server_simps [simp]:
  "loop (idle_server w) = Serving 0" "spawned (idle_server w) = 0" "tasks (idle_server w) i = None"
  "jobs (idle_server w) = []" "worker (idle_server w) = Some w" "handled (idle_server w) = []"
  "replies (idle_server w) = []" "running (idle_server w)"
  by (simp_all add: idle_server_def)

subsection \<open>Slots, channel and tasks fit together\<close>

text \<open>The jobs in the channel are those of the tasks that await a response, one each.\<close>

definition channel_ok :: "('s, 'w) server \<Rightarrow> bool" where
  "channel_ok st \<longleftrightarrow>
     (\<forall>i q. (i, q) \<in> set (jobs st) \<longleftrightarrow> (\<exists>t. tasks st i = Some t \<and> phase t = Awaiting q)) \<and>
     distinct (map fst (jobs st)) \<and> length (jobs st) \<le> REQUEST_BACKLOG \<and>
     (worker st = None \<longrightarrow> jobs st = [])"

definition slots_ok :: "('s, 'w) server \<Rightarrow> bool" where
  "slots_ok st \<longleftrightarrow> dom (tasks st) \<subseteq> {..<spawned st} \<and> card (dom (tasks st)) \<le> MAX_CONNECTIONS \<and>
     (\<forall>n. loop st = Serving n \<longrightarrow> n = card (dom (tasks st)))"

lemma slots_finite: "slots_ok st \<Longrightarrow> finite (dom (tasks st))"
  by (meson finite_lessThan finite_subset slots_ok_def)

lemma slots_ok_cong:
  "dom (tasks st') = dom (tasks st) \<Longrightarrow> spawned st' = spawned st \<Longrightarrow> loop st' = loop st \<Longrightarrow>
   slots_ok st \<Longrightarrow> slots_ok st'"
  by (simp add: slots_ok_def)

lemma slots_ok_put: "slots_ok st \<Longrightarrow> tasks st i = Some t \<Longrightarrow> slots_ok (put_task i t' st)"
  by (erule slots_ok_cong [rotated 3]) auto

lemma history_ok [simp]:
  "slots_ok (st\<lparr>replies := x\<rparr>) = slots_ok st" "slots_ok (st\<lparr>jobs := js\<rparr>) = slots_ok st"
  "channel_ok (st\<lparr>replies := x\<rparr>) = channel_ok st" "channel_ok (st\<lparr>loop := l\<rparr>) = channel_ok st"
  "slots_ok (st\<lparr>running := b\<rparr>) = slots_ok st" "channel_ok (st\<lparr>running := b\<rparr>) = channel_ok st"
  by (simp_all add: slots_ok_def channel_ok_def)

lemma channel_ok_put:
  assumes "channel_ok st" "tasks st i = Some t" "\<forall>q. phase t \<noteq> Awaiting q" "\<forall>q. phase t' \<noteq> Awaiting q"
  shows "channel_ok (put_task i t' st)"
  using assms by (auto simp: channel_ok_def)

lemma after_not_awaiting [simp]: "after_turn u \<noteq> Awaiting q" "after_write v \<noteq> Awaiting q"
  by (auto simp: after_turn_def after_write_def split: turn.split sum.split)

lemma slots_step:
  assumes "server_step G st ev st'" "slots_ok st"
  shows "slots_ok st'"
  using assms
proof cases
  case (accept n p s)
  have "spawned st \<notin> dom (tasks st)" using assms(2) by (auto simp: slots_ok_def)
  then have "card (insert (spawned st) (dom (tasks st))) = Suc (card (dom (tasks st)))"
    using slots_finite [OF assms(2)] by simp
  with accept assms(2) show ?thesis by (auto simp: slots_ok_def less_Suc_eq)
next
  case (work w i q js r w' t)
  have "dom ((tasks st)(i \<mapsto> t\<lparr>phase := Answered r\<rparr>)) = dom (tasks st)" using work by auto
  with work assms(2) show ?thesis by (simp add: slots_ok_def)
next
  case (panic w i q js)
  have "dom (tasks (lose_worker st)) = dom (tasks st)" by auto
  with panic assms(2) show ?thesis by (simp add: slots_ok_def)
next
  case (leave i t r)
  have "i \<in> dom (tasks st)" using leave by blast
  then have "card (dom (tasks st)) = Suc (card (dom (tasks st) - {i}))"
    using slots_finite [OF assms(2)] card.remove by metis
  with leave assms(2) show ?thesis by (auto simp: slots_ok_def split: serve_state.splits)
qed (auto simp: slots_ok_def insert_absorb domIff)

lemma channel_step:
  assumes "server_step G st ev st'" "channel_ok st" "slots_ok st"
  shows "channel_ok st'"
  using assms(1)
proof cases
  case (accept n p s)
  have "tasks st (spawned st) = None" using assms(3) by (auto simp: slots_ok_def)
  with accept assms(2) show ?thesis by (simp add: channel_ok_def)
next
  case (send i t q w)
  have "i \<notin> fst ` set (jobs st)" using send assms(2) by (force simp: channel_ok_def)
  with send assms(2) show ?thesis by (auto simp: channel_ok_def)
next
  case (work w i q js r w' t)
  have d: "distinct (map fst (jobs st))" "length (jobs st) \<le> REQUEST_BACKLOG"
    and iff: "(j, p) \<in> set (jobs st) \<longleftrightarrow> (\<exists>t. tasks st j = Some t \<and> phase t = Awaiting p)" for j p
    using assms(2) by (simp_all add: channel_ok_def)
  have "(j, p) \<in> set js \<longleftrightarrow> (j, p) \<in> set (jobs st) \<and> j \<noteq> i" for j p
    using d(1) work(4) by (auto simp: image_iff)
  then have "(j, p) \<in> set js \<longleftrightarrow>
      (\<exists>u. ((tasks st)(i \<mapsto> t\<lparr>phase := Answered r\<rparr>)) j = Some u \<and> phase u = Awaiting p)" for j p
    using iff [of j p] by simp
  moreover have "distinct (map fst js)" "length js \<le> REQUEST_BACKLOG" using d work(4) by simp_all
  ultimately show ?thesis
    unfolding work(2) channel_ok_def by simp
next
  case (leave i t r)
  with assms(2) show ?thesis by (simp add: channel_ok_def)
next
  case (panic w i q js)
  with assms(2) show ?thesis
    by (auto simp: channel_ok_def drop_awaiting_def split: phase.splits)
next
  case (refuse i t q)
  with assms(2) channel_ok_put [of "st\<lparr>replies := replies st @ [(i, q, stopped_response)]\<rparr>" i t]
  show ?thesis by simp
next
  case (reply i t r u s)
  with assms(2) channel_ok_put [of st i t] show ?thesis by simp
next
  case (turn i t u s)
  with assms(2) channel_ok_put [of st i t] show ?thesis by simp
next
  case (turn_away i t e)
  with assms(2) channel_ok_put [of st i t] show ?thesis by simp
next
  case (greet i t u)
  with assms(2) channel_ok_put [of st i t] show ?thesis by simp
qed (use assms(2) in simp_all)

lemma run_ok: "server_run G w0 evs st \<Longrightarrow> slots_ok st \<and> channel_ok st"
proof (induction rule: run_induct)
  case begins
  show ?case by (simp add: slots_ok_def channel_ok_def dom_def)
qed (blast intro: slots_step channel_step)

subsection \<open>One order of all requests\<close>

abbreviation asked :: "nat \<times> broker_request \<times> broker_response \<Rightarrow> broker_request" where
  "asked x \<equiv> fst (snd x)"

abbreviation told :: "nat \<times> broker_request \<times> broker_response \<Rightarrow> broker_response" where
  "told x \<equiv> snd (snd x)"

fun handle_in_order ::
  "(broker_request \<Rightarrow> 'w \<Rightarrow> (broker_response \<times> 'w) option) \<Rightarrow> broker_request list \<Rightarrow> 'w \<Rightarrow>
     (broker_response list \<times> 'w) option" where
  "handle_in_order h [] w = Some ([], w)"
| "handle_in_order h (q # qs) w =
     (case h q w of None \<Rightarrow> None
      | Some (r, w1) \<Rightarrow> map_option (\<lambda>(rs, w2). (r # rs, w2)) (handle_in_order h qs w1))"

lemma handle_in_order_snoc:
  "handle_in_order h qs w = Some (rs, w1) \<Longrightarrow> h q w1 = Some (r, w2) \<Longrightarrow>
   handle_in_order h (qs @ [q]) w = Some (rs @ [r], w2)"
  by (induction qs arbitrary: w rs) (auto split: option.splits)

definition worker_errors :: "broker_response set" where
  "worker_errors = {stopped_response, dropped_response}"

definition in_order :: "('s, 'w) setting \<Rightarrow> 'w \<Rightarrow> ('s, 'w) server \<Rightarrow> bool" where
  "in_order G w0 st \<longleftrightarrow> (\<exists>es w.
     replies st = handled st @ es \<and> (\<forall>x\<in>set es. told x \<in> worker_errors) \<and>
     handle_in_order (handler G) (map asked (handled st)) w0 = Some (map told (handled st), w) \<and>
     (case worker st of Some w' \<Rightarrow> w' = w \<and> es = [] | None \<Rightarrow> \<exists>q. handler G q w = None))"

lemma in_order_cong:
  "replies st' = replies st \<Longrightarrow> handled st' = handled st \<Longrightarrow> worker st' = worker st \<Longrightarrow>
   in_order G w0 st' = in_order G w0 st"
  by (simp add: in_order_def)

lemma in_order_step:
  assumes "server_step G st ev st'" "in_order G w0 st"
  shows "in_order G w0 st'"
  using assms(1)
proof cases
  case (work w i q js r w' t)
  with assms(2) show ?thesis
    by (auto simp: in_order_def intro: handle_in_order_snoc)
next
  case (panic w i q js)
  with assms(2) show ?thesis by (auto simp: in_order_def worker_errors_def)
next
  case (refuse i t q)
  with assms(2) show ?thesis by (auto simp: in_order_def worker_errors_def)
qed (use assms(2) in \<open>simp_all add: in_order_def\<close>)

lemma run_in_order: "server_run G w0 evs st \<Longrightarrow> in_order G w0 st"
proof (induction rule: run_induct)
  case begins
  show ?case by (simp add: in_order_def)
qed (rule in_order_step)

lemma steps_extend: "server_steps G st evs st' \<Longrightarrow> prefix (handled st) (handled st')"
proof (induction rule: server_steps.induct)
  case (steps_snoc evs st1 ev st')
  from steps_snoc.hyps(2) have "prefix (handled st1) (handled st')" by cases auto
  with steps_snoc.IH show ?case by (rule prefix_order.trans)
qed simp

subsection \<open>Every connection is as if it were alone\<close>

definition replies_to :: "nat \<Rightarrow> ('s, 'w) server \<Rightarrow> broker_response list" where
  "replies_to i st = map told (filter (\<lambda>x. fst x = i) (replies st))"

definition requests_of :: "nat \<Rightarrow> ('s, 'w) server \<Rightarrow> broker_request list" where
  "requests_of i st = map asked (filter (\<lambda>x. fst x = i) (replies st))"

text \<open>A worker that answers from a list and notes what it was asked.\<close>

fun feed ::
  "broker_request \<Rightarrow> broker_response list \<times> broker_request list \<Rightarrow>
     broker_response \<times> (broker_response list \<times> broker_request list)" where
  "feed q ([], qs) = (stopped_response, ([], qs @ [q]))"
| "feed q (r # rs, qs) = (r, (rs, qs @ [q]))"

definition alone ::
  "('s, 'w) setting \<Rightarrow> peer_identity \<Rightarrow> 's \<Rightarrow> broker_response list \<times> broker_request list \<Rightarrow>
     ((frame_error, unit) result \<times> 's \<times> broker_response list \<times> broker_request list) option" where
  "alone G p s w = handle_connection (ops G) (lib G) (acl G) feed p s w"

definition resume ::
  "('s, 'w) setting \<Rightarrow> 's \<Rightarrow> broker_response \<times> (broker_response list \<times> broker_request list) \<Rightarrow>
     ((frame_error, unit) result \<times> 's \<times> broker_response list \<times> broker_request list) option" where
  "resume G s rw =
     (case write_response_within (ops G) (lib G) (fst rw) s of
        (Inl e, s1) \<Rightarrow> Some (Inl e, s1, snd rw)
      | (Inr _, s1) \<Rightarrow> serve_connection (ops G) (lib G) feed s1 (snd rw))"

text \<open>What is left to do in a phase.\<close>

fun rest ::
  "('s, 'w) setting \<Rightarrow> 's task \<Rightarrow> phase \<Rightarrow> broker_response list \<times> broker_request list \<Rightarrow>
     ((frame_error, unit) result \<times> 's \<times> broker_response list \<times> broker_request list) option" where
  "rest G t Arrived w = (if origin t = stream t then alone G (peer t) (stream t) w else None)"
| "rest G t Reading w = serve_connection (ops G) (lib G) feed (stream t) w"
| "rest G t (Sending q) w = resume G (stream t) (feed q w)"
| "rest G t (Awaiting q) w = resume G (stream t) (feed q w)"
| "rest G t (Answered r) w = resume G (stream t) (r, w)"
| "rest G t (Closed r) w = Some (r, stream t, w)"

definition as_alone ::
  "('s, 'w) setting \<Rightarrow> ('s, 'w) server \<Rightarrow> nat \<Rightarrow> 's task \<Rightarrow> bool" where
  "as_alone G st i t \<longleftrightarrow> (\<forall>more.
     alone G (peer t) (origin t) (replies_to i st @ more, []) = rest G t (phase t) (more, requests_of i st)) \<and>
     (phase t = Arrived \<longrightarrow> origin t = stream t)"

definition all_alone :: "('s, 'w) setting \<Rightarrow> ('s, 'w) server \<Rightarrow> bool" where
  "all_alone G st \<longleftrightarrow> (\<forall>i t. tasks st i = Some t \<longrightarrow> as_alone G st i t) \<and>
     fst ` set (replies st) \<subseteq> {..<spawned st}"

lemma replies_simps [simp]:
  "replies_to i (put_task j t st) = replies_to i st" "requests_of i (put_task j t st) = requests_of i st"
  "replies_to i (st\<lparr>loop := l\<rparr>) = replies_to i st" "requests_of i (st\<lparr>loop := l\<rparr>) = requests_of i st"
  "replies_to i (st\<lparr>jobs := js\<rparr>) = replies_to i st" "requests_of i (st\<lparr>jobs := js\<rparr>) = requests_of i st"
  "replies_to i (st\<lparr>worker := w\<rparr>) = replies_to i st" "requests_of i (st\<lparr>worker := w\<rparr>) = requests_of i st"
  "replies_to i (st\<lparr>handled := hs\<rparr>) = replies_to i st" "requests_of i (st\<lparr>handled := hs\<rparr>) = requests_of i st"
  "replies_to i (st\<lparr>tasks := ts\<rparr>) = replies_to i st" "requests_of i (st\<lparr>tasks := ts\<rparr>) = requests_of i st"
  "replies_to i (st\<lparr>running := b\<rparr>) = replies_to i st" "requests_of i (st\<lparr>running := b\<rparr>) = requests_of i st"
  "replies_to i (st\<lparr>spawned := n\<rparr>) = replies_to i st" "requests_of i (st\<lparr>spawned := n\<rparr>) = requests_of i st"
  "replies_to i (st\<lparr>replies := replies st @ xs\<rparr>) =
     replies_to i st @ map told (filter (\<lambda>x. fst x = i) xs)"
  "requests_of i (st\<lparr>replies := replies st @ xs\<rparr>) =
     requests_of i st @ map asked (filter (\<lambda>x. fst x = i) xs)"
  by (simp_all add: replies_to_def requests_of_def)

lemma as_alone_cong:
  "replies_to i st' = replies_to i st \<Longrightarrow> requests_of i st' = requests_of i st \<Longrightarrow>
   as_alone G st' i t = as_alone G st i t"
  by (simp add: as_alone_def)

text \<open>A step of one task that tells it nothing.\<close>

lemma all_alone_put:
  assumes "all_alone G st" "tasks st i = Some t" "peer t' = peer t" "origin t' = origin t"
    and "phase t' \<noteq> Arrived" "\<And>w. rest G t' (phase t') w = rest G t (phase t) w"
  shows "all_alone G (put_task i t' st)"
  using assms by (auto simp: all_alone_def as_alone_def)

text \<open>A step that tells a task the answer it waits for.\<close>

lemma as_alone_told:
  assumes "as_alone G st i t" "phase t = Sending q \<or> phase t = Awaiting q"
    and "replies_to i st' = replies_to i st @ [r]" "requests_of i st' = requests_of i st @ [q]"
  shows "as_alone G st' i (t\<lparr>phase := Answered r\<rparr>)"
  using assms by (auto simp: as_alone_def)

lemma rest_turn:
  assumes "turn_front (ops G) (lib G) (stream t) = (u, s)"
  shows "rest G (t\<lparr>stream := s, phase := after_turn u\<rparr>) (after_turn u) w = rest G t Reading w"
  using assms
  by (cases u) (auto simp: after_turn_def resume_def connection_turn_cut
      serve_connection.simps [of _ _ _ "stream t"] split: prod.splits sum.splits)

lemma rest_reply:
  assumes "write_response_within (ops G) (lib G) r (stream t) = (u, s)"
  shows "rest G (t\<lparr>stream := s, phase := after_write u\<rparr>) (after_write u) w = rest G t (Answered r) w"
  using assms by (cases u) (auto simp: after_write_def resume_def)

lemma rest_greet:
  assumes "acl G (peer t) = Inr u" "origin t = stream t"
  shows "rest G (t\<lparr>phase := Reading\<rparr>) Reading w = rest G t Arrived w"
  using assms by (simp add: alone_def handle_connection_def)

lemma rest_turn_away:
  assumes "acl G (peer t) = Inl e" "origin t = stream t"
  shows "rest G (t\<lparr>stream := reject G (stream t), phase := Closed (Inr ())\<rparr>) (Closed (Inr ())) w =
    rest G t Arrived w"
  using assms by (simp add: alone_def handle_connection_def reject_def split: prod.split)

lemma drop_told:
  assumes "distinct (map fst js)" "(i, q) \<in> set js"
  shows "filter (\<lambda>x. fst x = i) (map (\<lambda>(i, q). (i, q, d)) js) = [(i, q, d)]"
proof -
  have "filter (\<lambda>x. fst x = i) js = [(i, q)]"
    using assms
  proof (induction js)
    case (Cons x js)
    show ?case
    proof (cases "x = (i, q)")
      case True
      then show ?thesis using Cons.prems by (force simp: filter_empty_conv)
    next
      case False
      then have q: "(i, q) \<in> set js" using Cons.prems(2) by simp
      then have "i \<in> fst ` set js" by force
      then have "fst x \<noteq> i" using Cons.prems(1) by auto
      with q show ?thesis using Cons by simp
    qed
  qed simp
  then show ?thesis by (simp add: filter_map comp_def case_prod_unfold)
qed

lemma drop_not_told:
  "i \<notin> fst ` set js \<Longrightarrow> filter (\<lambda>x. fst x = i) (map (\<lambda>(i, q). (i, q, d)) js) = []"
  by (force simp: filter_empty_conv)

lemma all_alone_step:
  assumes "server_step G st ev st'" "all_alone G st" "slots_ok st" "channel_ok st"
  shows "all_alone G st'"
  using assms(1)
proof cases
  case (accept n p s)
  have new: "tasks st (spawned st) = None" using assms(3) by (auto simp: slots_ok_def)
  have none: "filter (\<lambda>x. fst x = spawned st) (replies st) = []"
    using assms(2) by (force simp: all_alone_def filter_empty_conv)
  have "as_alone G st' (spawned st) \<lparr>peer = p, origin = s, stream = s, phase = Arrived\<rparr>"
    using none accept by (simp add: as_alone_def replies_to_def requests_of_def)
  with assms(2) new accept show ?thesis
    by (auto simp: all_alone_def as_alone_def less_Suc_eq)
next
  case (greet i t u)
  then have "origin t = stream t" using assms(2) by (auto simp: all_alone_def as_alone_def)
  with greet assms(2) rest_greet [of G t u] show ?thesis
    by (auto intro!: all_alone_put)
next
  case (turn_away i t e)
  then have "origin t = stream t" using assms(2) by (auto simp: all_alone_def as_alone_def)
  with turn_away assms(2) rest_turn_away [of G t e] show ?thesis
    by (auto intro!: all_alone_put)
next
  case (turn i t u s)
  have "after_turn u \<noteq> Arrived" by (cases u) (simp_all add: after_turn_def)
  with turn assms(2) rest_turn [of G t u s] show ?thesis
    by (auto intro!: all_alone_put)
next
  case (reply i t r u s)
  have "after_write u \<noteq> Arrived" by (cases u) (simp_all add: after_write_def)
  with reply assms(2) rest_reply [of G r t u s] show ?thesis
    by (auto intro!: all_alone_put)
next
  case (send i t q w)
  have "all_alone G (st\<lparr>jobs := jobs st @ [(i, q)]\<rparr>)"
    using assms(2) by (simp add: all_alone_def as_alone_def)
  with send show ?thesis by (auto intro!: all_alone_put)
next
  case (refuse i t q)
  have "as_alone G st' i (t\<lparr>phase := Answered stopped_response\<rparr>)"
    using refuse assms(2) by (intro as_alone_told [of G st i t q]) (auto simp: all_alone_def)
  moreover have "as_alone G st' j u" if "tasks st j = Some u" "j \<noteq> i" for j u
    using that refuse assms(2) by (auto simp: all_alone_def as_alone_def)
  moreover have "i < spawned st" using refuse(3) assms(3) by (auto simp: slots_ok_def)
  ultimately show ?thesis using refuse assms(2) by (auto simp: all_alone_def)
next
  case (work w i q js r w' t)
  have aw: "phase t = Awaiting q" using work assms(4) by (force simp: channel_ok_def)
  have "as_alone G st' i (t\<lparr>phase := Answered r\<rparr>)"
    using work aw assms(2)
    by (intro as_alone_told [of G st i t q]) (auto simp: all_alone_def replies_to_def requests_of_def)
  moreover have "as_alone G st' j u" if "tasks st j = Some u" "j \<noteq> i" for j u
    using that work assms(2)
    by (auto simp: all_alone_def as_alone_def replies_to_def requests_of_def)
  moreover have "i < spawned st" using work(6) assms(3) by (auto simp: slots_ok_def)
  ultimately show ?thesis using work assms(2) by (auto simp: all_alone_def)
next
  case (panic w i q js)
  have told: "replies_to j st' = replies_to j st @
        map told (filter (\<lambda>x. fst x = j) (map (\<lambda>(i, q). (i, q, dropped_response)) (jobs st)))"
      "requests_of j st' = requests_of j st @
        map asked (filter (\<lambda>x. fst x = j) (map (\<lambda>(i, q). (i, q, dropped_response)) (jobs st)))" for j
    using panic by (simp_all add: replies_to_def requests_of_def)
  have "as_alone G st' j (drop_awaiting t)" if t: "tasks st j = Some t" for j t
  proof -
    have a: "as_alone G st j t" using t assms(2) by (simp add: all_alone_def)
    show ?thesis
    proof (cases "\<exists>p. phase t = Awaiting p")
      case True
      then obtain p where p: "phase t = Awaiting p" by blast
      then have "(j, p) \<in> set (jobs st)" using t assms(4) by (auto simp: channel_ok_def)
      with drop_told [of "jobs st" j p dropped_response] told [of j] p assms(4) a
      show ?thesis
        by (auto simp: drop_awaiting_def channel_ok_def intro!: as_alone_told [of G st j t p])
    next
      case False
      have "j \<notin> fst ` set (jobs st)"
      proof
        assume "j \<in> fst ` set (jobs st)"
        then obtain p where "(j, p) \<in> set (jobs st)" by auto
        with False t assms(4) show False by (auto simp: channel_ok_def)
      qed
      with drop_not_told [of j "jobs st" dropped_response] told [of j] a False show ?thesis
        by (auto simp: drop_awaiting_def as_alone_def split: phase.splits)
    qed
  qed
  moreover have "fst ` set (jobs st) \<subseteq> {..<spawned st}"
    using assms(3,4) by (force simp: slots_ok_def channel_ok_def)
  ultimately show ?thesis
    using panic assms(2) by (auto simp: all_alone_def)
next
  case (leave i t r)
  with assms(2) show ?thesis by (auto simp: all_alone_def as_alone_def)
qed (use assms(2) in \<open>simp_all add: all_alone_def as_alone_def\<close>)

lemma run_all_alone:
  assumes "server_run G w0 evs st"
  shows "all_alone G st"
proof -
  have "slots_ok st \<and> channel_ok st \<and> all_alone G st"
    using assms
  proof (induction rule: run_induct)
    case begins
    show ?case by (simp add: slots_ok_def channel_ok_def all_alone_def dom_def)
  qed (blast intro: slots_step channel_step all_alone_step)
  then show ?thesis by blast
qed

subsection \<open>What a task holds is what it was told\<close>

text \<open>A task with a response to write holds the last thing that it was told.\<close>

definition told_ok :: "('s, 'w) server \<Rightarrow> bool" where
  "told_ok st \<longleftrightarrow> (\<forall>i t r. tasks st i = Some t \<and> phase t = Answered r \<longrightarrow>
     (\<exists>xs q. filter (\<lambda>x. fst x = i) (replies st) = xs @ [(i, q, r)]))"

lemma told_ok_put:
  assumes "told_ok st" "\<forall>r. phase t' \<noteq> Answered r"
  shows "told_ok (put_task i t' st)"
  using assms by (auto simp: told_ok_def)

lemma after_not_answered [simp]: "after_turn u \<noteq> Answered r" "after_write v \<noteq> Answered r"
  by (auto simp: after_turn_def after_write_def split: turn.split sum.split)

lemma told_ok_step:
  assumes "server_step G st ev st'" "told_ok st" "channel_ok st"
  shows "told_ok st'"
  using assms(1)
proof cases
  case (panic w i q js)
  let ?d = "map (\<lambda>(i, q). (i, q, dropped_response)) (jobs st)"
  have "\<exists>xs q. filter (\<lambda>x. fst x = j) (replies st @ ?d) = xs @ [(j, q, r)]"
    if t: "tasks st j = Some t" "phase (drop_awaiting t) = Answered r" for j t r
  proof (cases "\<exists>p. phase t = Awaiting p")
    case True
    then obtain p where p: "phase t = Awaiting p" by blast
    then have "(j, p) \<in> set (jobs st)" using t assms(3) by (auto simp: channel_ok_def)
    with p t drop_told [of "jobs st" j p dropped_response] assms(3) show ?thesis
      by (auto simp: channel_ok_def drop_awaiting_def)
  next
    case False
    then have a: "phase t = Answered r" using t(2) by (auto simp: drop_awaiting_def split: phase.splits)
    then have "j \<notin> fst ` set (jobs st)"
      using t(1) assms(3) by (fastforce simp: channel_ok_def)
    with drop_not_told [of j "jobs st" dropped_response] a t(1) assms(2) show ?thesis
      by (auto simp: told_ok_def)
  qed
  moreover have "replies st' = replies st @ ?d" "\<And>j. tasks st' j = map_option drop_awaiting (tasks st j)"
    using panic by simp_all
  ultimately show ?thesis
    unfolding told_ok_def by (metis (no_types, lifting) map_option_eq_Some)
qed (use assms(2) in \<open>auto simp: told_ok_def split: if_splits\<close>)

lemma run_told:
  assumes "server_run G w0 evs st"
  shows "told_ok st"
proof -
  have "slots_ok st \<and> channel_ok st \<and> told_ok st"
    using assms
  proof (induction rule: run_induct)
    case begins
    show ?case by (simp add: slots_ok_def channel_ok_def told_ok_def dom_def)
  qed (blast intro: slots_step channel_step told_ok_step)
  then show ?thesis by blast
qed

subsection \<open>Requests are answered\<close>

text \<open>The steps that bring a request closer to its answer, and how far it is.\<close>

fun answering :: "event \<Rightarrow> bool" where
  "answering (Send i) = True"
| "answering (Refuse i) = True"
| "answering Work = True"
| "answering (Reply i) = True"
| "answering _ = False"

fun distance :: "phase \<Rightarrow> nat" where
  "distance (Sending q) = 3"
| "distance (Awaiting q) = 2"
| "distance (Answered r) = 1"
| "distance _ = 0"

definition pending :: "('s, 'w) server \<Rightarrow> nat" where
  "pending st = (\<Sum>i\<in>dom (tasks st). distance (phase (the (tasks st i))))"

lemma distance_after [simp]: "distance (after_write u) = 0"
  by (simp add: after_write_def split: sum.split)

lemma pending_put:
  assumes "finite (dom (tasks st))" "tasks st i = Some t" "distance (phase t') < distance (phase t)"
  shows "pending (put_task i t' st) < pending st"
proof -
  let ?D = "dom (tasks st)"
  have i: "i \<in> ?D" using assms(2) by blast
  have "(\<Sum>j\<in>?D. distance (phase (the (((tasks st)(i \<mapsto> t')) j)))) <
      (\<Sum>j\<in>?D. distance (phase (the (tasks st j))))"
    using assms i by (intro sum_strict_mono_ex1) (auto intro!: bexI [of _ i])
  moreover have "dom ((tasks st)(i \<mapsto> t')) = ?D" using i by auto
  ultimately show ?thesis by (simp add: pending_def)
qed

lemma pending_cong [simp]:
  "pending (st\<lparr>jobs := js\<rparr>) = pending st" "pending (st\<lparr>replies := rs\<rparr>) = pending st"
  "pending (st\<lparr>handled := hs\<rparr>) = pending st" "pending (st\<lparr>worker := w\<rparr>) = pending st"
  by (simp_all add: pending_def)

lemma pending_decreases:
  assumes "server_step G st ev st'" "answering ev" "slots_ok st" "channel_ok st"
  shows "pending st' < pending st"
  using assms(1)
proof cases
  case (send i t q w)
  with slots_finite [OF assms(3)] pending_put [of "st\<lparr>jobs := jobs st @ [(i, q)]\<rparr>" i t] show ?thesis
    by simp
next
  case (refuse i t q)
  with slots_finite [OF assms(3)]
    pending_put [of "st\<lparr>replies := replies st @ [(i, q, stopped_response)]\<rparr>" i t] show ?thesis
    by simp
next
  case (reply i t r u s)
  with slots_finite [OF assms(3)] pending_put [of st i t] show ?thesis by simp
next
  case (work w i q js r w' t)
  have "phase t = Awaiting q" using work assms(4) by (force simp: channel_ok_def)
  with work slots_finite [OF assms(3)] pending_put [of "st\<lparr>worker := Some w', jobs := js,
      handled := handled st @ [(i, q, r)], replies := replies st @ [(i, q, r)]\<rparr>" i t] show ?thesis
    by simp
next
  case (panic w i q js)
  have "\<exists>t. tasks st i = Some t \<and> phase t = Awaiting q"
    using panic(4) assms(4) by (force simp: channel_ok_def)
  then obtain t where t: "tasks st i = Some t" "phase t = Awaiting q" by blast
  have "(\<Sum>j\<in>dom (tasks st). distance (phase (the (tasks (lose_worker st) j)))) <
      (\<Sum>j\<in>dom (tasks st). distance (phase (the (tasks st j))))"
    using slots_finite [OF assms(3)] t
    by (intro sum_strict_mono_ex1)
      (auto simp: drop_awaiting_def split: phase.splits intro!: bexI [of _ i])
  moreover have "dom (tasks (lose_worker st)) = dom (tasks st)" by auto
  ultimately show ?thesis using panic by (simp add: pending_def)
qed (use assms(2) in simp_all)

lemma pending_bound:
  assumes "slots_ok st"
  shows "pending st \<le> 3 * MAX_CONNECTIONS"
proof -
  have "distance ph \<le> 3" for ph by (cases ph) simp_all
  then have "pending st \<le> card (dom (tasks st)) * 3"
    using sum_bounded_above [of "dom (tasks st)" "\<lambda>i. distance (phase (the (tasks st i)))" 3]
    by (simp add: pending_def)
  also have "\<dots> \<le> MAX_CONNECTIONS * 3" using assms by (simp add: slots_ok_def)
  finally show ?thesis by simp
qed

lemma jobs_few: "channel_ok st \<Longrightarrow> slots_ok st \<Longrightarrow> length (jobs st) \<le> card (dom (tasks st))"
proof -
  assume a: "channel_ok st" "slots_ok st"
  then have "set (map fst (jobs st)) \<subseteq> dom (tasks st)"
    by (force simp: channel_ok_def)
  then have "card (set (map fst (jobs st))) \<le> card (dom (tasks st))"
    by (intro card_mono slots_finite [OF a(2)])
  moreover have "card (set (map fst (jobs st))) = length (map fst (jobs st))"
    using a(1) by (intro distinct_card) (simp add: channel_ok_def)
  ultimately show ?thesis by simp
qed

lemma work_enabled:
  assumes "channel_ok st" "jobs st \<noteq> []" "running st"
  shows "\<exists>st'. server_step G st Work st'"
proof -
  obtain i q js where js: "jobs st = (i, q) # js" using assms(2) by (metis list.exhaust surj_pair)
  obtain w where w: "worker st = Some w" using assms by (auto simp: channel_ok_def)
  have "\<exists>t. tasks st i = Some t \<and> phase t = Awaiting q"
    using js assms(1) by (force simp: channel_ok_def)
  then obtain t where t: "tasks st i = Some t" by blast
  show ?thesis
  proof (cases "handler G q w")
    case None
    then show ?thesis using panic [OF w js _ assms(3)] by blast
  next
    case (Some x)
    then show ?thesis using work [OF w js _ t assms(3)] by (metis surj_pair)
  qed
qed

lemma answering_enabled:
  assumes "slots_ok st" "channel_ok st" "tasks st i = Some t" "0 < distance (phase t)"
    and "running st"
  shows "\<exists>ev st'. answering ev \<and> server_step G st ev st'"
proof (cases "phase t")
  case (Sending q)
  show ?thesis
  proof (cases "worker st")
    case None
    then show ?thesis using refuse [OF assms(3) Sending None assms(5)] by (intro exI conjI) auto
  next
    case (Some w)
    have "card (dom (tasks st)) \<le> MAX_CONNECTIONS" using assms(1) by (simp add: slots_ok_def)
    then have "length (jobs st) < REQUEST_BACKLOG"
      using jobs_few [OF assms(2,1)] by (simp add: MAX_CONNECTIONS_def REQUEST_BACKLOG_def)
    from send [OF assms(3) Sending Some this assms(5)] show ?thesis by (intro exI conjI) auto
  qed
next
  case (Awaiting q)
  then have "jobs st \<noteq> []" using assms by (force simp: channel_ok_def)
  from work_enabled [OF assms(2) this assms(5)] show ?thesis by (meson answering.simps(3))
next
  case (Answered r)
  then show ?thesis using reply [OF assms(3) Answered _ assms(5)] by (metis answering.simps(4) surj_pair)
qed (use assms(4) in simp_all)

lemma steps_ok:
  "server_steps G st evs st' \<Longrightarrow> slots_ok st \<Longrightarrow> channel_ok st \<Longrightarrow> slots_ok st' \<and> channel_ok st'"
  by (induction rule: server_steps.induct) (blast intro: slots_step channel_step)+

lemma answering_steps:
  assumes "server_steps G st evs st'" "slots_ok st" "channel_ok st" "list_all answering evs"
  shows "length evs + pending st' \<le> pending st"
  using assms
proof (induction rule: server_steps.induct)
  case (steps_snoc evs st1 ev st')
  have "pending st' < pending st1"
    using steps_ok [OF steps_snoc.hyps(1)] steps_snoc.prems
    by (intro pending_decreases [OF steps_snoc.hyps(2)]) auto
  with steps_snoc show ?case by simp
qed simp

lemma replies_grow: "server_step G st ev st' \<Longrightarrow> prefix (replies st) (replies st')"
  by (erule server_step.cases) auto

text \<open>The channel is served in the order of arrival.\<close>

lemma steps_fifo:
  assumes "server_steps G st evs st'" "slots_ok st" "channel_ok st" "jobs st = pre @ (i, q) # post"
  shows "\<exists>xs. replies st' = replies st @ xs \<and>
    ((\<exists>r. (i, q, r) \<in> set xs) \<or>
     (\<exists>pre' post'. jobs st' = pre' @ (i, q) # post' \<and> length pre' + count_list evs Work = length pre))"
  using assms
proof (induction rule: server_steps.induct)
  case (steps_snoc evs st1 ev st2)
  then obtain xs where xs: "replies st1 = replies st @ xs"
    "(\<exists>r. (i, q, r) \<in> set xs) \<or>
     (\<exists>pre' post'. jobs st1 = pre' @ (i, q) # post' \<and> length pre' + count_list evs Work = length pre)"
    by blast
  obtain ys where ys: "replies st2 = replies st1 @ ys"
    using replies_grow [OF steps_snoc.hyps(2)] by (auto elim: prefixE)
  show ?case
  proof (cases "\<exists>r. (i, q, r) \<in> set xs")
    case True
    with xs(1) ys show ?thesis by auto
  next
    case False
    with xs(2) obtain pre' post' where js: "jobs st1 = pre' @ (i, q) # post'"
      "length pre' + count_list evs Work = length pre" by blast
    from steps_snoc.hyps(2) have "(\<exists>r. (i, q, r) \<in> set ys) \<or>
      (\<exists>pre' post'. jobs st2 = pre' @ (i, q) # post' \<and> length pre' + count_list (evs @ [ev]) Work = length pre)"
    proof cases
      case (send k t p w)
      with js show ?thesis by (intro disjI2 exI [of _ pre'] exI [of _ "post' @ [(k, p)]"]) simp
    next
      case (work w k p ks r w' t)
      with js ys show ?thesis by (cases pre') auto
    next
      case (panic w k p ks)
      with js ys have "(i, q, dropped_response) \<in> set ys" by (auto simp del: append_assoc)
      then show ?thesis by blast
    qed (use js in auto)
    with xs(1) ys show ?thesis by auto
  qed
qed auto

subsection \<open>The process ends only after the loop has\<close>

definition halts_ok :: "('s, 'w) server \<Rightarrow> bool" where
  "halts_ok st \<longleftrightarrow> (running st \<or> (\<exists>e. loop st = Halted e)) \<and>
     (\<forall>e. loop st = Halted e \<longrightarrow> worker st = None \<or> \<not> is_transient_accept_error e)"

lemma run_halts: "server_run G w0 evs st \<Longrightarrow> halts_ok st"
proof (induction rule: run_induct)
  case (steps st ev st')
  from steps(2) steps(1) show ?case
    by cases (auto simp: halts_ok_def worker_stopped_def split: serve_state.splits)
qed (simp add: halts_ok_def)

subsection \<open>The slots are the accept loop's\<close>

lemma run_loop: "server_run G w0 evs st \<Longrightarrow> \<exists>sevs. serve_run sevs (loop st)"
proof -
  assume "server_run G w0 evs st"
  then have "slots_ok st \<and> (\<exists>sevs. serve_run sevs (loop st))"
  proof (induction rule: run_induct)
    case begins
    show ?case using serve_run.begin_ by (auto simp: slots_ok_def dom_def)
  next
    case (steps st ev st')
    then obtain sevs where s: "serve_run sevs (loop st)" "slots_ok st" by blast
    from steps(2) have "loop st' = loop st \<or> (\<exists>sev. serve_step (loop st) sev (loop st'))"
    proof cases
      case (leave i t r)
      then have "i \<in> dom (tasks st)" by blast
      then have "card (dom (tasks st)) \<noteq> 0" using slots_finite [OF s(2)] by auto
      then show ?thesis
        using leave s(2) serve_step.ended
        by (cases "loop st") (auto simp: slots_ok_def gr0_conv_Suc intro: exI [of _ Connection_ended])
    qed (auto intro: serve_step.intros)
    then show ?case using s serve_run.step slots_step [OF steps(2)] by metis
  qed
  then show ?thesis by blast
qed

subsection \<open>The broker's own handler\<close>

text \<open>A handler that is the broker's where it returns; where it does not, it panics.\<close>

definition handles_for ::
  "'t host \<Rightarrow> 'p provider_ops \<Rightarrow> (broker_request \<Rightarrow> ('p, 't) service \<Rightarrow>
     (broker_response \<times> ('p, 't) service) option) \<Rightarrow> bool" where
  "handles_for H P h \<longleftrightarrow> (\<forall>q sv x. h q sv = Some x \<longrightarrow> x = broker_handle H P q sv)"

lemma in_order_handles_all:
  "handles_for H P h \<Longrightarrow> handle_in_order h qs sv = Some (rs, sv') \<Longrightarrow> handle_all H P qs sv = (rs, sv')"
  by (induction qs arbitrary: sv rs)
    (fastforce simp: handles_for_def split: option.splits prod.splits)+

subsection \<open>Properties\<close>

text \<open>A broker with one peer, which sends one discovery request.\<close>

definition demo_setting :: "(script, (mock_provider, json) service) setting" where
  "demo_setting = \<lparr>ops = script_ops, lib = demo_wire, acl = same_uid_authorize \<lparr>expected_uid = 1000\<rparr>,
     handler = (\<lambda>q sv. Some (broker_handle plain_host (mock_ops ''linux'') q sv))\<rparr>"

lemma demo_handles: "handles_for plain_host (mock_ops ''linux'') (handler demo_setting)"
  by (simp add: handles_for_def demo_setting_def)

lemma demo_turn_front:
  "\<exists>s. turn_front script_ops demo_wire (peer_sending [frame [1]]) = (Asks discover_request, s) \<and> \<not> deaf s"
proof -
  let ?s = "peer_sending [frame [1]]"
  have d: "delivers ?s" "content ?s = frame [1] @ []"
    by (simp_all add: frame_def to_be_bytes_def)
  obtain t where t: "read_frame script_ops ?s = (Inr (Some [1]), t)" "delivers t"
    using script.read_frame_decodes [of ?s "outbound ?s" script_ops] d
    by (auto simp: frame_ok_def simp del: append_Nil2)
  then have "turn_front script_ops demo_wire ?s = (Asks discover_request, t)"
    using not_idle [OF d(1)] by (simp add: turn_front_def demo_request_bytes)
  with delivers_not_deaf [OF t(2)] show ?thesis by blast
qed

text \<open>The run up to the point where the job is in the channel, and to where it is answered.\<close>

lemma demo_server_run:
  "\<exists>st t. server_run demo_setting demo_service [Accept, Greet 0, Turn 0, Send 0] st \<and>
     jobs st = [(0, discover_request)] \<and> tasks st 0 = Some t \<and> phase t = Awaiting discover_request \<and>
     worker st = Some demo_service \<and> handled st = [] \<and> replies st = [] \<and> running st"
proof -
  obtain s where s: "turn_front script_ops demo_wire (peer_sending [frame [1]]) = (Asks discover_request, s)"
    using demo_turn_front by blast
  let ?p = "\<lparr>peer_uid = 1000, peer_pid = None\<rparr>"
  let ?t = "\<lparr>peer = ?p, origin = peer_sending [frame [1]], stream = peer_sending [frame [1]], phase = Arrived\<rparr>"
  let ?st0 = "idle_server demo_service"
  let ?st1 = "put_task 0 ?t (?st0\<lparr>loop := Serving 1, spawned := 1\<rparr>)"
  have 1: "server_step demo_setting ?st0 Accept ?st1"
    using accept [of ?st0 0 demo_setting ?p "peer_sending [frame [1]]"] by (simp add: MAX_CONNECTIONS_def)
  let ?st2 = "put_task 0 (?t\<lparr>phase := Reading\<rparr>) ?st1"
  have 2: "server_step demo_setting ?st1 (Greet 0) ?st2"
    by (rule greet [where u = "()"]) (simp_all add: demo_setting_def same_uid_authorize_def)
  let ?t3 = "?t\<lparr>phase := Reading, stream := s, phase := after_turn (Asks discover_request)\<rparr>"
  let ?st3 = "put_task 0 ?t3 ?st2"
  have 3: "server_step demo_setting ?st2 (Turn 0) ?st3"
    using turn [of ?st2 0 "?t\<lparr>phase := Reading\<rparr>" demo_setting "Asks discover_request" s] s
    by (simp add: demo_setting_def)
  let ?st4 = "put_task 0 (?t3\<lparr>phase := Awaiting discover_request\<rparr>)
      (?st3\<lparr>jobs := jobs ?st3 @ [(0, discover_request)]\<rparr>)"
  have 4: "server_step demo_setting ?st3 (Send 0) ?st4"
    by (rule send [where w = demo_service]) (simp_all add: after_turn_def REQUEST_BACKLOG_def)
  from steps_snoc [OF steps_snoc [OF steps_snoc [OF steps_snoc [OF steps_nil 1] 2] 3] 4]
  have "server_run demo_setting demo_service [Accept, Greet 0, Turn 0, Send 0] ?st4"
    by (simp add: server_run_def)
  moreover have "jobs ?st4 = [(0, discover_request)]" "worker ?st4 = Some demo_service"
    "handled ?st4 = []" "replies ?st4 = []" "running ?st4" by simp_all
  moreover have "tasks ?st4 0 = Some (?t3\<lparr>phase := Awaiting discover_request\<rparr>)" by simp
  ultimately show ?thesis by (intro exI [of _ ?st4]) simp
qed

text \<open>
  C7: The concurrent broker is a sequential one.  In every run, whatever tasks do in whatever order, the
  worker's state and the responses it gave are those of handling the requests one by one, in one
  order, from the state it began with.  What the tasks were told is exactly that list while the worker
  lives; if the worker's handler panics, the rest of it are the two fixed internal errors, and no task
  is left waiting.  The response a task is about to write is the last it was told, and a task that
  waits has its request in the channel.  The order only grows, so a request asked after another's
  response comes later in it.
\<close>

theorem broker_is_linearizable:
  assumes "server_run G w0 evs st"
  shows "(\<exists>es w. replies st = handled st @ es \<and> (\<forall>x\<in>set es. told x \<in> worker_errors) \<and>
      handle_in_order (handler G) (map asked (handled st)) w0 = Some (map told (handled st), w) \<and>
      (case worker st of
         Some w' \<Rightarrow> w' = w \<and> es = []
       | None \<Rightarrow> (\<exists>q. handler G q w = None) \<and> (\<forall>i t q. tasks st i = Some t \<longrightarrow> phase t \<noteq> Awaiting q))) \<and>
    (\<forall>i t. tasks st i = Some t \<longrightarrow> (case phase t of
        Answered r \<Rightarrow> \<exists>xs q. filter (\<lambda>x. fst x = i) (replies st) = xs @ [(i, q, r)]
      | Awaiting q \<Rightarrow> (i, q) \<in> set (jobs st)
      | _ \<Rightarrow> True)) \<and>
    (server_steps G st evs' st' \<longrightarrow> prefix (handled st) (handled st'))"
proof -
  have ch: "channel_ok st" using run_ok [OF assms] by simp
  then have none: "worker st = None \<longrightarrow> (\<forall>i t q. tasks st i = Some t \<longrightarrow> phase t \<noteq> Awaiting q)"
    by (auto simp: channel_ok_def)
  obtain es w where "replies st = handled st @ es" "\<forall>x\<in>set es. told x \<in> worker_errors"
      "handle_in_order (handler G) (map asked (handled st)) w0 = Some (map told (handled st), w)"
      "case worker st of Some w' \<Rightarrow> w' = w \<and> es = [] | None \<Rightarrow> \<exists>q. handler G q w = None"
    using run_in_order [OF assms] unfolding in_order_def by blast
  with none have "\<exists>es w. replies st = handled st @ es \<and> (\<forall>x\<in>set es. told x \<in> worker_errors) \<and>
      handle_in_order (handler G) (map asked (handled st)) w0 = Some (map told (handled st), w) \<and>
      (case worker st of
         Some w' \<Rightarrow> w' = w \<and> es = []
       | None \<Rightarrow> (\<exists>q. handler G q w = None) \<and> (\<forall>i t q. tasks st i = Some t \<longrightarrow> phase t \<noteq> Awaiting q))"
    by (intro exI [of _ es] exI [of _ w]) (auto split: option.splits)
  moreover have "case phase t of
        Answered r \<Rightarrow> \<exists>xs q. filter (\<lambda>x. fst x = i) (replies st) = xs @ [(i, q, r)]
      | Awaiting q \<Rightarrow> (i, q) \<in> set (jobs st)
      | _ \<Rightarrow> True" if "tasks st i = Some t" for i t
    using that run_told [OF assms] ch by (auto simp: told_ok_def channel_ok_def split: phase.splits)
  ultimately show ?thesis using steps_extend by blast
qed

theorem broker_is_linearizable_witness:
  "\<exists>st t r. server_run demo_setting demo_service [Accept, Greet 0, Turn 0, Send 0, Work] st \<and>
     tasks st 0 = Some t \<and> phase t = Answered r \<and> handled st = [(0, discover_request, r)] \<and>
     r = fst (broker_handle plain_host (mock_ops ''linux'') discover_request demo_service)"
proof -
  obtain st t where st: "server_run demo_setting demo_service [Accept, Greet 0, Turn 0, Send 0] st"
    "jobs st = [(0, discover_request)]" "tasks st 0 = Some t" "handled st = []" "running st"
    using demo_server_run by blast
  then obtain st' where w: "server_step demo_setting st Work st'"
    using work_enabled [of st demo_setting] run_ok [OF st(1)] by auto
  from run_more [OF steps_snoc [OF steps_nil w] st(1)]
  have r: "server_run demo_setting demo_service [Accept, Greet 0, Turn 0, Send 0, Work] st'" by simp
  from w st obtain t' r' where t': "tasks st' 0 = Some t'" "phase t' = Answered r'" "length (handled st') = 1"
    "worker st' \<noteq> None"
    by cases (auto simp: demo_setting_def)
  obtain x where x: "handled st' = [x]" using t'(3) by (auto simp: length_Suc_conv)
  with w st have q: "asked x = discover_request" by cases (auto simp: demo_setting_def)
  note lin = broker_is_linearizable [OF r, of "[]" st']
  from lin x t'(4) obtain w' where one: "replies st' = [x]" "handle_in_order (handler demo_setting) [asked x] demo_service =
      Some ([told x], w')" by (auto split: option.splits)
  from lin t' one(1) obtain xs q' where "filter (\<lambda>x. fst x = 0) [x] = xs @ [(0, q', r')]"
    by fastforce
  then have "x = (0, discover_request, r')" using q by (cases x) (auto split: if_splits)
  with one(2) r t' x show ?thesis
    by (intro exI [of _ st'] exI [of _ t'] exI [of _ r']) (auto simp: demo_setting_def split: prod.splits)
qed

text \<open>
  C16: A connection cannot tell that it is not alone.  Whenever a connection of the concurrent broker has
  closed, its result and all it read and wrote are what the sequential \<open>handle_connection\<close> makes of
  its stream with a worker that gives, one after the other, the responses this connection was told
  (which by the linearization are the worker's), and the requests it dispatched are, in order, those
  the sequential connection would.  Other connections show in those responses and nowhere else.
\<close>

theorem connections_run_as_if_alone:
  assumes "server_run G w0 evs st" "tasks st i = Some t" "phase t = Closed r"
  shows "handle_connection (ops G) (lib G) (acl G) feed (peer t) (origin t) (replies_to i st, []) =
    Some (r, stream t, ([], requests_of i st))"
proof -
  have "as_alone G st i t" using run_all_alone [OF assms(1)] assms(2) by (simp add: all_alone_def)
  then have "alone G (peer t) (origin t) (replies_to i st @ [], []) = Some (r, stream t, [], requests_of i st)"
    using assms(3) unfolding as_alone_def by (metis rest.simps(6))
  then show ?thesis by (simp add: alone_def)
qed

text \<open>A foreign peer, turned away.\<close>

theorem connections_run_as_if_alone_witness:
  "\<exists>st t. server_run demo_setting demo_service [Accept, Greet 0] st \<and> tasks st 0 = Some t \<and>
     phase t = Closed (Inr ()) \<and>
     handle_connection script_ops demo_wire (same_uid_authorize \<lparr>expected_uid = 1000\<rparr>) feed
       \<lparr>peer_uid = 0, peer_pid = None\<rparr> (peer_sending []) ([], []) = Some (Inr (), stream t, ([], []))"
proof -
  let ?p = "\<lparr>peer_uid = 0, peer_pid = None\<rparr>" and ?s = "peer_sending []"
  let ?t = "\<lparr>peer = ?p, origin = ?s, stream = ?s, phase = Arrived\<rparr>"
  let ?st0 = "idle_server demo_service"
  let ?st1 = "put_task 0 ?t (?st0\<lparr>loop := Serving 1, spawned := 1\<rparr>)"
  have 1: "server_step demo_setting ?st0 Accept ?st1"
    using accept [of ?st0 0 demo_setting ?p ?s] by (simp add: MAX_CONNECTIONS_def)
  obtain e where e: "same_uid_authorize \<lparr>expected_uid = 1000\<rparr> ?p = Inl e"
    using same_uid.refused [of ?p "\<lparr>expected_uid = 1000\<rparr>"] by auto
  let ?t2 = "?t\<lparr>stream := reject demo_setting ?s, phase := Closed (Inr ())\<rparr>"
  let ?st2 = "put_task 0 ?t2 ?st1"
  have 2: "server_step demo_setting ?st1 (Greet 0) ?st2"
    using turn_away [of ?st1 0 ?t demo_setting e] e by (simp add: demo_setting_def)
  from steps_snoc [OF steps_snoc [OF steps_nil 1] 2]
  have r: "server_run demo_setting demo_service [Accept, Greet 0] ?st2"
    by (simp add: server_run_def)
  have t: "tasks ?st2 0 = Some ?t2" "phase ?t2 = Closed (Inr ())" by simp_all
  from connections_run_as_if_alone [OF r t] r t show ?thesis
    by (intro exI [of _ ?st2] exI [of _ ?t2]) (simp add: demo_setting_def replies_to_def requests_of_def)
qed

text \<open>
  C17: No request waits for ever while the process lives.  The steps that lead from a request to its
  response (into the channel, handling, writing the response, or the refusal when the worker has
  stopped) cannot go on for more than three steps per connection, whatever their order; as long as a
  request is unanswered one of them is possible, unless the process has exited, which it does only
  after \<open>serve\<close> gave up because the worker had stopped or the endpoint had failed for good; and a job
  with \<open>n\<close> jobs before it in the channel is answered by the time the worker has made \<open>n + 1\<close> steps,
  whatever else happens in between.
\<close>

theorem requests_are_answered:
  assumes "server_run G w0 evs st"
  shows "(server_steps G st evs' st' \<and> list_all answering evs' \<longrightarrow> length evs' \<le> 3 * MAX_CONNECTIONS) \<and>
    ((\<forall>ev st'. answering ev \<longrightarrow> \<not> server_step G st ev st') \<longrightarrow>
      (\<forall>i t. tasks st i = Some t \<longrightarrow> phase t = Arrived \<or> phase t = Reading \<or> (\<exists>r. phase t = Closed r)) \<or>
      \<not> running st \<and> (\<exists>e. loop st = Halted e \<and> (worker st = None \<or> \<not> is_transient_accept_error e))) \<and>
    (jobs st = before @ (i, q) # behind \<and> server_steps G st evs' st' \<and>
        length before < count_list evs' Work \<longrightarrow>
      (\<exists>xs r. replies st' = replies st @ xs \<and> (i, q, r) \<in> set xs))"
proof -
  have ok: "slots_ok st" "channel_ok st" using run_ok [OF assms] by simp_all
  have "phase t = Arrived \<or> phase t = Reading \<or> (\<exists>r. phase t = Closed r)"
    if "\<forall>ev st'. answering ev \<longrightarrow> \<not> server_step G st ev st'" "tasks st i = Some t" "running st" for i t
  proof -
    have "distance (phase t) = 0" using answering_enabled [OF ok that(2) _ that(3), of G] that(1) by blast
    then show ?thesis by (cases "phase t") simp_all
  qed
  moreover have "\<exists>e. loop st = Halted e \<and> (worker st = None \<or> \<not> is_transient_accept_error e)" if "\<not> running st"
    using run_halts [OF assms] that by (auto simp: halts_ok_def)
  moreover have "length evs' \<le> 3 * MAX_CONNECTIONS"
    if "server_steps G st evs' st'" "list_all answering evs'"
    using answering_steps [OF that(1) ok that(2)] pending_bound [OF ok(1)] by simp
  moreover have "\<exists>xs r. replies st' = replies st @ xs \<and> (i, q, r) \<in> set xs"
    if "jobs st = before @ (i, q) # behind" "server_steps G st evs' st'"
      "length before < count_list evs' Work"
    using steps_fifo [OF that(2) ok that(1)] that(3) by fastforce
  ultimately show ?thesis by blast
qed

theorem requests_are_answered_witness:
  "\<exists>st st' r. server_run demo_setting demo_service [Accept, Greet 0, Turn 0, Send 0] st \<and>
     server_step demo_setting st Work st' \<and> replies st' = [(0, discover_request, r)]"
proof -
  obtain st where st: "server_run demo_setting demo_service [Accept, Greet 0, Turn 0, Send 0] st"
    "jobs st = [] @ (0, discover_request) # []" "replies st = []" "running st"
    using demo_server_run by auto
  then obtain st' where w: "server_step demo_setting st Work st'"
    using work_enabled [of st demo_setting] run_ok [OF st(1)] by auto
  have "server_steps demo_setting st ([] @ [Work]) st'" by (rule steps_snoc [OF steps_nil w])
  then obtain xs r where xs: "replies st' = replies st @ xs" "(0, discover_request, r) \<in> set xs"
    using requests_are_answered [OF st(1), of "[Work]" st' "[]" 0 discover_request "[]"] st(2) by auto
  from w have "length xs = 1"
    by cases (use st xs in \<open>auto simp: demo_setting_def\<close>)
  with xs(2) have "xs = [(0, discover_request, r)]" by (auto simp: length_Suc_conv)
  with xs(1) st(1,3) w show ?thesis by auto
qed

text \<open>
  C18: The broker stays in its bounds.  In every run the accept loop behaves as \<open>serve_run\<close>, the slots it
  has given out are exactly the connections, at most \<open>MAX_CONNECTIONS\<close>; each connection has at most one
  job in the channel and only while it awaits the response, so the channel never holds more jobs than
  there are connections and a live worker's channel always has room: no task ever waits to enqueue.
\<close>

theorem server_stays_in_bounds:
  assumes "server_run G w0 evs st"
  shows "(\<exists>sevs. serve_run sevs (loop st)) \<and> finite (dom (tasks st)) \<and>
    card (dom (tasks st)) \<le> MAX_CONNECTIONS \<and> (\<forall>n. loop st = Serving n \<longrightarrow> n = card (dom (tasks st))) \<and>
    length (jobs st) \<le> card (dom (tasks st)) \<and> length (jobs st) < REQUEST_BACKLOG \<and>
    distinct (map fst (jobs st)) \<and>
    ((i, q) \<in> set (jobs st) \<longleftrightarrow> (\<exists>t. tasks st i = Some t \<and> phase t = Awaiting q))"
proof -
  have ok: "slots_ok st" "channel_ok st" using run_ok [OF assms] by simp_all
  have few: "length (jobs st) \<le> card (dom (tasks st))" by (rule jobs_few [OF ok(2,1)])
  moreover have "card (dom (tasks st)) \<le> MAX_CONNECTIONS" using ok(1) by (simp add: slots_ok_def)
  then have "length (jobs st) < REQUEST_BACKLOG"
    using few by (simp add: MAX_CONNECTIONS_def REQUEST_BACKLOG_def)
  ultimately show ?thesis
    using run_loop [OF assms] slots_finite [OF ok(1)] ok by (simp add: slots_ok_def channel_ok_def)
qed

theorem server_stays_in_bounds_witness:
  "\<exists>st t. server_run demo_setting demo_service [Accept, Greet 0, Turn 0, Send 0] st \<and>
     tasks st 0 = Some t \<and> phase t = Awaiting discover_request \<and> length (jobs st) \<le> card (dom (tasks st))"
proof -
  obtain st where st: "server_run demo_setting demo_service [Accept, Greet 0, Turn 0, Send 0] st"
    "jobs st = [(0, discover_request)]"
    using demo_server_run by blast
  with server_stays_in_bounds [OF st(1), of 0 discover_request] show ?thesis by auto
qed

text \<open>
  C6: No peers, however many and however interleaved, can move the hardware.  At every moment of every
  run of the broker on the mock provider at which the worker lives, between two requests, the provider
  holds the value it held at the start, no knob has changed its owner, the journal has only grown, and
  every response given is the one \<open>broker_handle\<close> gives in the order of handling.
\<close>

theorem concurrent_peers_cannot_move_the_hardware:
  assumes "server_run G sv evs st" "handles_for H (mock_ops platform) (handler G)" "worker st = Some sv'"
  shows "provider (sv_plane sv') = provider (sv_plane sv) \<and> sv_ledger sv' = sv_ledger sv \<and>
    prefix (jrows (journal (sv_plane sv))) (jrows (journal (sv_plane sv'))) \<and>
    handle_all H (mock_ops platform) (map asked (handled st)) sv = (map told (handled st), sv')"
proof -
  have "handle_in_order (handler G) (map asked (handled st)) sv = Some (map told (handled st), sv')"
    using run_in_order [OF assms(1)] assms(3) by (auto simp: in_order_def)
  then have h: "handle_all H (mock_ops platform) (map asked (handled st)) sv = (map told (handled st), sv')"
    by (rule in_order_handles_all [OF assms(2)])
  have "op_snapshot (mock_ops platform) (provider (sv_plane sv')) =
      op_snapshot (mock_ops platform) (provider (sv_plane sv))"
    using mock.session_restores [OF h TrueI] by (simp add: mock_defs)
  with h show ?thesis
    using mock.session_restores [OF h TrueI] by (simp add: mock_defs obj_single_eq)
qed

theorem concurrent_peers_cannot_move_the_hardware_witness:
  "\<exists>st st' sv. server_run demo_setting demo_service [Accept, Greet 0, Turn 0, Send 0] st \<and>
     server_step demo_setting st Work st' \<and> worker st' = Some sv \<and>
     provider (sv_plane sv) = \<lparr>mock_value = 0\<rparr>"
proof -
  obtain st where st: "server_run demo_setting demo_service [Accept, Greet 0, Turn 0, Send 0] st"
    "jobs st = [(0, discover_request)]" "worker st = Some demo_service" "running st"
    using demo_server_run by blast
  then obtain st' where w: "server_step demo_setting st Work st'"
    using work_enabled [of st demo_setting] run_ok [OF st(1)] by auto
  from w st obtain sv where sv: "worker st' = Some sv"
    by cases (auto simp: demo_setting_def)
  from run_more [OF steps_snoc [OF steps_nil w] st(1)]
  have r: "server_run demo_setting demo_service [Accept, Greet 0, Turn 0, Send 0, Work] st'" by simp
  from concurrent_peers_cannot_move_the_hardware [OF r demo_handles sv] st w sv show ?thesis
    by (auto simp: demo_service_def new_service_def)
qed

end
