(* ===== verification/Socket.thy ===== *)
theory Socket
  imports Files Auth
begin

section \<open>The Unix socket transport (\<open>crates/ipc/src/transport.rs\<close>)\<close>

text \<open>
  Binding replaces a socket and nothing else, whether some process still listens on it or not: the code
  does not ask.  Dropping unlinks the entry this transport bound, recognised by device and inode, and
  nothing else.  The listening itself is the kernel's.
\<close>

subsection \<open>Operations\<close>

record transport =
  t_path :: path
  t_identity :: "u64 \<times> u64"

definition socket_identity :: "kernel \<Rightarrow> path \<Rightarrow> (u64 \<times> u64) syscall" where
  "socket_identity K p F =
     (case symlink_metadata K p F of
        (Inl e, G) \<Rightarrow> (Inl (named p ''inspected'' e), G)
      | (Inr m, G) \<Rightarrow>
          if m_kind m \<noteq> SocketFile
          then (Inl (io_error_new AlreadyExists (show_path p @ '' is no longer a socket'')), G)
          else (Inr (m_dev m, m_ino m), G))"

text \<open>
  The first step of \<open>bind\<close>: a socket at the path goes, left over or in use, anything else stays and is
  refused.
\<close>

definition clear_stale :: "kernel \<Rightarrow> path \<Rightarrow> unit syscall" where
  "clear_stale K p F =
     (case symlink_metadata K p F of
        (Inr m, F1) \<Rightarrow>
          if m_kind m = SocketFile
          then (case remove_file K p F1 of
                  (Inr _, F2) \<Rightarrow> (Inr (), F2)
                | (Inl e, F2) \<Rightarrow>
                    (if io_kind e = NotFound then Inr () else Inl (named p ''removed'' e), F2))
          else (Inl (io_error_new AlreadyExists (show_path p @ '' exists and is not a socket'')), F1)
      | (Inl e, F1) \<Rightarrow>
          (if io_kind e = NotFound then Inr () else Inl (named p ''inspected'' e), F1))"

definition bind_transport :: "kernel \<Rightarrow> path \<Rightarrow> transport syscall" where
  "bind_transport K p F =
     (case clear_stale K p F of
        (Inl e, F1) \<Rightarrow> (Inl e, F1)
      | (Inr _, F1) \<Rightarrow>
     (case bind_socket K p F1 of
        (Inl e, F2) \<Rightarrow> (Inl (named p ''bound'' e), F2)
      | (Inr _, F2) \<Rightarrow>
     (case socket_identity K p F2 of
        (Inl e, F3) \<Rightarrow> (case remove_file K p F3 of (_, F4) \<Rightarrow> (Inl e, F4))
      | (Inr i, F3) \<Rightarrow> (Inr \<lparr>t_path = p, t_identity = i\<rparr>, F3))))"

definition drop_transport :: "kernel \<Rightarrow> transport \<Rightarrow> files \<Rightarrow> files" where
  "drop_transport K t F =
     (case socket_identity K (t_path t) F of
        (Inr i, G) \<Rightarrow>
          if i = t_identity t then (case remove_file K (t_path t) G of (_, G') \<Rightarrow> G') else G
      | (Inl _, G) \<Rightarrow> G)"

text \<open>\<open>accept\<close>: what the kernel accepted, and the credentials it reports for it.\<close>

definition accept_peer ::
  "(io_error, 's) result \<Rightarrow> ('s \<Rightarrow> (io_error, u32 \<times> int option) result) \<Rightarrow>
     (io_error, 's \<times> peer_identity) result" where
  "accept_peer accepted credentials =
     (case accepted of Inl e \<Rightarrow> Inl e
      | Inr s \<Rightarrow> (case credentials s of Inl e \<Rightarrow> Inl e
          | Inr (uid, pid) \<Rightarrow> Inr (s, \<lparr>peer_uid = uid, peer_pid = pid\<rparr>)))"

subsection \<open>What they leave behind\<close>

lemma socket_identity_effect:
  "socket_identity K p F = (r, G) \<Longrightarrow> f_entry G = f_entry F \<and> f_locks G = f_locks F \<and>
     (\<forall>i. r = Inr i \<longrightarrow> (\<exists>m. f_entry F p = Some m \<and> m_kind m = SocketFile \<and> i = (m_dev m, m_ino m)))"
  by (auto simp: socket_identity_def only_at_def fun_eq_iff
      split: prod.splits sum.splits if_splits dest!: symlink_metadata_effect)

lemma clear_stale_effect:
  assumes "clear_stale K p F = (r, G)"
  shows "only_at {p} F G \<and> f_locks G = f_locks F \<and>
     (f_entry G p = f_entry F p \<or> (\<exists>m. f_entry F p = Some m \<and> m_kind m = SocketFile))"
  using assms
  by (auto simp: clear_stale_def only_at_def split: prod.splits sum.splits if_splits
      dest!: symlink_metadata_effect remove_file_effect)

lemma bind_transport_cases:
  assumes "bind_transport K p F = (r, G)"
  shows "only_at {p} F G \<and>
    (f_entry G p = f_entry F p \<or> (\<forall>m. f_entry F p = Some m \<longrightarrow> m_kind m = SocketFile)) \<and>
    (\<forall>t. r = Inr t \<longrightarrow> t_path t = p \<and> (\<forall>m. f_entry F p = Some m \<longrightarrow> m_kind m = SocketFile) \<and>
       (\<exists>m. f_entry G p = Some m \<and> m_kind m = SocketFile \<and> t_identity t = (m_dev m, m_ino m)))"
proof -
  obtain r1 F1 where c: "clear_stale K p F = (r1, F1)" by fastforce
  note c1 = clear_stale_effect [OF c]
  show ?thesis
  proof (cases r1)
    case (Inl e)
    then show ?thesis using assms c c1 by (auto simp: bind_transport_def)
  next
    case (Inr u)
    obtain r2 F2 where b: "bind_socket K p F1 = (r2, F2)" by fastforce
    note b1 = bind_socket_effect [OF b]
    have only: "only_at {p} F F2" using c1 b1 only_at_trans by blast
    show ?thesis
    proof (cases r2)
      case Inl2: (Inl e)
      then show ?thesis using assms c c1 Inr b b1 only by (auto simp: bind_transport_def)
    next
      case Inr2: (Inr v)
      have sock: "\<forall>m. f_entry F p = Some m \<longrightarrow> m_kind m = SocketFile"
        using c1 b1 Inr2 by auto
      obtain r3 F3 where s: "socket_identity K p F2 = (r3, F3)" by fastforce
      note s1 = socket_identity_effect [OF s]
      have only3: "only_at {p} F F3" using only s1 by (simp add: only_at_def)
      show ?thesis
      proof (cases r3)
        case Inl3: (Inl e)
        obtain r4 F4 where "remove_file K p F3 = (r4, F4)" by fastforce
        moreover from this have "only_at {p} F F4"
          using remove_file_effect only3 only_at_trans by blast
        ultimately show ?thesis
          using assms c Inr b Inr2 s Inl3 sock by (auto simp: bind_transport_def)
      next
        case (Inr i)
        then show ?thesis
          using assms c \<open>r1 = Inr u\<close> b Inr2 s s1 sock only3 by (auto simp: bind_transport_def)
      qed
    qed
  qed
qed

text \<open>
  C28: The socket transport owns one entry and destroys nothing else.  Whatever calls fail, binding at
  a path changes no other entry, and changes the entry at the path only if it was absent or a socket,
  of a crashed broker or of a live one; a regular file, directory or symbolic link stays as it is and the bind fails.  When it
  succeeds the path holds a socket whose device and inode the transport remembers.  Dropping the
  transport, in whatever state the file system is by then, changes no other entry, and the entry at
  the path only if it is a socket with that same identity: a successor's live endpoint survives.
\<close>

theorem transport_owns_its_entry:
  assumes "bind_transport K p F = (r, G)"
  shows "(\<forall>q. q \<noteq> p \<longrightarrow> f_entry G q = f_entry F q) \<and>
    (\<forall>m. f_entry F p = Some m \<and> m_kind m \<noteq> SocketFile \<longrightarrow> f_entry G p = Some m \<and> is_err r) \<and>
    (\<forall>t. r = Inr t \<longrightarrow>
       (\<exists>m. f_entry G p = Some m \<and> m_kind m = SocketFile \<and> t_identity t = (m_dev m, m_ino m)) \<and>
       (\<forall>J q. f_entry (drop_transport K t J) q \<noteq> f_entry J q \<longrightarrow>
          q = p \<and> (\<exists>m. f_entry J p = Some m \<and> m_kind m = SocketFile \<and>
            (m_dev m, m_ino m) = t_identity t)))"
proof -
  note b = bind_transport_cases [OF assms]
  have drop: "q = t_path t \<and> (\<exists>m. f_entry J q = Some m \<and> m_kind m = SocketFile \<and>
      (m_dev m, m_ino m) = t_identity t)"
    if "f_entry (drop_transport K t J) q \<noteq> f_entry J q" for t J q
  proof -
    obtain r1 J1 where i: "socket_identity K (t_path t) J = (r1, J1)" by fastforce
    note i1 = socket_identity_effect [OF i]
    obtain r2 J2 where d: "remove_file K (t_path t) J1 = (r2, J2)" by fastforce
    have "only_at {t_path t} J1 J2" using remove_file_effect [OF d] by simp
    then have "r1 = Inr (t_identity t) \<and> q = t_path t"
      using that i i1 d
      by (cases r1) (auto simp: drop_transport_def only_at_def split: if_splits)
    then show ?thesis using i1 by auto
  qed
  show ?thesis
  proof (intro conjI allI impI)
    show "f_entry G q = f_entry F q" if "q \<noteq> p" for q
      using b that by (simp add: only_at_def)
    show "f_entry G p = Some m" if "f_entry F p = Some m \<and> m_kind m \<noteq> SocketFile" for m
      using b that by auto
    show "is_err r" if "f_entry F p = Some m \<and> m_kind m \<noteq> SocketFile" for m
      using b that by (cases r) auto
    show "\<exists>m. f_entry G p = Some m \<and> m_kind m = SocketFile \<and> t_identity t = (m_dev m, m_ino m)"
      if "r = Inr t" for t
      using b that by auto
    show "q = p" and "\<exists>m. f_entry J p = Some m \<and> m_kind m = SocketFile \<and>
        (m_dev m, m_ino m) = t_identity t"
      if "r = Inr t" "f_entry (drop_transport K t J) q \<noteq> f_entry J q" for t J q
      using b that(1) drop [OF that(2)] by auto
  qed
qed

text \<open>
  A kernel without faults and a directory to work in.  The witness binds over a stale socket, and
  shows that a drop after a successor has rebound the path leaves the successor's socket alone.
\<close>

definition plain_kernel :: kernel where
  "plain_kernel = \<lparr>k_fault = \<lambda>_. None, k_new = \<lambda>n. (1, of_nat n), k_umask = 18, k_uid = 1000\<rparr>"

definition stale_files :: files where
  "stale_files =
     \<lparr>f_entry = [path_of ''/r'' \<mapsto>
          \<lparr>m_kind = Directory, m_uid = 1000, m_mode = 448, m_dev = 1, m_ino = 1\<rparr>,
        path_of ''/r/s'' \<mapsto>
          \<lparr>m_kind = SocketFile, m_uid = 1000, m_mode = 493, m_dev = 1, m_ino = 2\<rparr>],
      f_locks = [], f_calls = 10\<rparr>"

lemma path_of_r [simp]:
  "path_of ''/r'' = Path True [''r'']" "path_of ''/r/s'' = Path True [''r'', ''s'']"
  by (simp_all add: path_of_def)

theorem transport_owns_its_entry_witness:
  "\<exists>t G. bind_transport plain_kernel (path_of ''/r/s'') stale_files = (Inr t, G) \<and>
     t_identity t = (1, 13) \<and>
     f_entry (drop_transport plain_kernel t stale_files) (path_of ''/r/s'') =
       f_entry stale_files (path_of ''/r/s'')"
proof -
  let ?p = "path_of ''/r/s''"
  obtain t G where b: "bind_transport plain_kernel ?p stale_files = (Inr t, G)"
    and i: "t_identity t = (1, 13)"
    by (simp add: bind_transport_def clear_stale_def syscall_defs system_call_def plain_kernel_def
        stale_files_def socket_identity_def has_directory_def target_def follow_unfold parent_def
        new_meta_def Let_def)
  have "f_entry (drop_transport plain_kernel t stale_files) ?p = f_entry stale_files ?p"
  proof (rule ccontr)
    assume "f_entry (drop_transport plain_kernel t stale_files) ?p \<noteq> f_entry stale_files ?p"
    then have "\<exists>m. f_entry stale_files ?p = Some m \<and> (m_dev m, m_ino m) = t_identity t"
      using transport_owns_its_entry [OF b] by blast
    then show False using i by (simp add: stale_files_def)
  qed
  then show ?thesis using b i by blast
qed

text \<open>
  A client that connects to the path reaches a transport while the entry is the one it bound.  Binding
  takes the path from a transport that is reachable: only the broker's lock keeps that from happening,
  and the lock is that of the private directory, not of the socket's path.
\<close>

definition endpoint :: "transport \<Rightarrow> files \<Rightarrow> bool" where
  "endpoint t F \<longleftrightarrow> (\<exists>m. f_entry F (t_path t) = Some m \<and> m_kind m = SocketFile \<and>
     (m_dev m, m_ino m) = t_identity t)"

lemma bind_takes_a_live_socket:
  "\<exists>t G u H. bind_transport plain_kernel (path_of ''/r/s'') stale_files = (Inr t, G) \<and> endpoint t G \<and>
     bind_transport plain_kernel (path_of ''/r/s'') G = (Inr u, H) \<and> endpoint u H \<and> \<not> endpoint t H"
  by (simp add: bind_transport_def clear_stale_def syscall_defs system_call_def plain_kernel_def
      stale_files_def socket_identity_def has_directory_def target_def follow_unfold parent_def
      new_meta_def Let_def endpoint_def)

end
