(* ===== verification/Arguments.thy ===== *)
theory Arguments
  imports Prelude
begin

section \<open>The broker's command line (\<open>apps/broker/src/main.rs\<close>)\<close>

text \<open>
  Arguments are byte strings and need not be UTF-8.  \<open>parse_args\<close> walks over them; \<open>command_line\<close> is
  the grammar of what it accepts.
\<close>

subsection \<open>UTF-8\<close>

definition byte_at :: "string \<Rightarrow> nat \<Rightarrow> nat" where
  "byte_at s i = (if i < length s then byte_of (s ! i) else 0)"

definition in_range :: "nat \<Rightarrow> nat \<Rightarrow> nat \<Rightarrow> bool" where
  "in_range lo hi n \<longleftrightarrow> lo \<le> n \<and> n \<le> hi"

definition second_byte_ok :: "nat \<Rightarrow> nat \<Rightarrow> bool" where
  "second_byte_ok b c \<longleftrightarrow>
     in_range (if b = 224 then 160 else if b = 240 then 144 else 128)
       (if b = 237 then 159 else if b = 244 then 143 else 191) c"

text \<open>Is the head of a non-empty string a code point, and how many bytes does it take?\<close>

definition utf8_head :: "string \<Rightarrow> bool \<times> nat" where
  "utf8_head s =
     (let b = byte_at s 0; c = byte_at s 1; cont = (\<lambda>i. in_range 128 191 (byte_at s i)) in
      if b < 128 then (True, 1)
      else if in_range 194 223 b then (if cont 1 then (True, 2) else (False, 1))
      else if in_range 224 239 b then
        (if \<not> second_byte_ok b c then (False, 1) else if \<not> cont 2 then (False, 2) else (True, 3))
      else if in_range 240 244 b then
        (if \<not> second_byte_ok b c then (False, 1) else if \<not> cont 2 then (False, 2)
         else if \<not> cont 3 then (False, 3) else (True, 4))
      else (False, 1))"

fun is_utf8 :: "string \<Rightarrow> bool" where
  "is_utf8 [] = True"
| "is_utf8 (c # cs) = (case utf8_head (c # cs) of (ok, n) \<Rightarrow> ok \<and> is_utf8 (drop (n - 1) cs))"

definition replacement :: string where
  "replacement = map char_of [239, 191, 189 :: nat]"

fun to_string_lossy :: "string \<Rightarrow> string" where
  "to_string_lossy [] = []"
| "to_string_lossy (c # cs) =
     (case utf8_head (c # cs) of (ok, n) \<Rightarrow>
        (if ok then c # take (n - 1) cs else replacement) @ to_string_lossy (drop (n - 1) cs))"

lemma to_string_lossy_utf8 [simp]: "is_utf8 s \<Longrightarrow> to_string_lossy s = s"
  by (induction s rule: is_utf8.induct) (auto split: prod.splits)

subsection \<open>Parsing\<close>

definition FLAGS :: "string list" where
  "FLAGS = [''--socket'', ''--journal'']"

definition HELP_FLAGS :: "string list" where
  "HELP_FLAGS = [''--help'', ''-h'']"

datatype arg_error =
    MissingValue string
  | Repeated string
  | Unrecognized string
  | NotUnicode string

fun show_arg_error :: "arg_error \<Rightarrow> string" where
  "show_arg_error (MissingValue f) = f @ '' requires a value''"
| "show_arg_error (Repeated f) = f @ '' was given more than once''"
| "show_arg_error (Unrecognized a) =
     ''unrecognized argument '' @ a @ ''; expected one of --socket, --journal''"
| "show_arg_error (NotUnicode a) = ''argument '' @ a @ '' is not valid UTF-8''"

record options =
  opt_socket :: "string option"
  opt_journal :: "string option"

definition no_options :: options where
  "no_options = \<lparr>opt_socket = None, opt_journal = None\<rparr>"

datatype invocation = Run options | Help

definition looks_like_flag :: "string \<Rightarrow> bool" where
  "looks_like_flag v \<longleftrightarrow> prefix ''--'' v \<or> v \<in> set HELP_FLAGS"

definition split_once :: "char \<Rightarrow> string \<Rightarrow> string \<times> string option" where
  "split_once c s =
     (let f = takeWhile (\<lambda>d. d \<noteq> c) s
      in (f, if length f < length s then Some (drop (Suc (length f)) s) else None))"

text \<open>The slot a flag names; the caller has checked that it is one of \<open>FLAGS\<close>.\<close>

definition slot :: "string \<Rightarrow> options \<Rightarrow> string option" where
  "slot f opts = (if f = ''--socket'' then opt_socket opts else opt_journal opts)"

definition set_slot :: "string \<Rightarrow> string \<Rightarrow> options \<Rightarrow> options" where
  "set_slot f v opts =
     (if f = ''--socket'' then opts\<lparr>opt_socket := Some v\<rparr> else opts\<lparr>opt_journal := Some v\<rparr>)"

fun parse_from :: "options \<Rightarrow> string list \<Rightarrow> (arg_error, invocation) result" where
  "parse_from opts [] = Inr (Run opts)"
| "parse_from opts (a # as) =
     (if \<not> is_utf8 a then Inl (NotUnicode (to_string_lossy a))
      else if a \<in> set HELP_FLAGS then Inr Help
      else case split_once CHR ''='' a of (f, inlined) \<Rightarrow>
        if f \<notin> set FLAGS then Inl (Unrecognized a)
        else if slot f opts \<noteq> None then Inl (Repeated f)
        else case inlined of
          Some v \<Rightarrow> if v = [] then Inl (MissingValue f) else parse_from (set_slot f v opts) as
        | None \<Rightarrow>
            (case as of
               [] \<Rightarrow> Inl (MissingValue f)
             | v # vs \<Rightarrow>
                 if \<not> is_utf8 v then Inl (NotUnicode (to_string_lossy v))
                 else if looks_like_flag v \<or> v = [] then Inl (MissingValue f)
                 else parse_from (set_slot f v opts) vs))"

definition parse_args :: "string list \<Rightarrow> (arg_error, invocation) result" where
  "parse_args args = parse_from no_options args"

subsection \<open>The grammar\<close>

inductive command_line :: "(string \<times> string) list \<Rightarrow> string list \<Rightarrow> bool" where
  nothing: "command_line [] []"
| inlined: "command_line ss as \<Longrightarrow> f \<in> set FLAGS \<Longrightarrow> v \<noteq> [] \<Longrightarrow>
    command_line ((f, v) # ss) ((f @ ''='' @ v) # as)"
| separate: "command_line ss as \<Longrightarrow> f \<in> set FLAGS \<Longrightarrow> v \<noteq> [] \<Longrightarrow> \<not> looks_like_flag v \<Longrightarrow>
    command_line ((f, v) # ss) (f # v # as)"

inductive_simps command_line_nil [simp]: "command_line ss []"
inductive_simps command_line_cons: "command_line ss (a # as)"

definition options_of :: "(string \<times> string) list \<Rightarrow> options" where
  "options_of ss = \<lparr>opt_socket = map_of ss ''--socket'', opt_journal = map_of ss ''--journal''\<rparr>"

fun set_all :: "(string \<times> string) list \<Rightarrow> options \<Rightarrow> options" where
  "set_all [] opts = opts"
| "set_all ((f, v) # ss) opts = set_all ss (set_slot f v opts)"

text \<open>No flag is given twice, or is already in the options.\<close>

fun settable :: "(string \<times> string) list \<Rightarrow> options \<Rightarrow> bool" where
  "settable [] opts = True"
| "settable ((f, v) # ss) opts = (slot f opts = None \<and> settable ss (set_slot f v opts))"

definition reads :: "options \<Rightarrow> (string \<times> string) list \<Rightarrow> string list \<Rightarrow> bool" where
  "reads opts ss args \<longleftrightarrow> command_line ss args \<and> list_all is_utf8 args \<and> settable ss opts"

lemma flag_cases: "f \<in> set FLAGS \<longleftrightarrow> f = ''--socket'' \<or> f = ''--journal''"
  by (auto simp: FLAGS_def)

lemma slot_set_slot:
  "f \<in> set FLAGS \<Longrightarrow> g \<in> set FLAGS \<Longrightarrow> slot g (set_slot f v opts) = (if f = g then Some v else slot g opts)"
  by (auto simp: flag_cases slot_def set_slot_def)

lemma split_once_simps:
  "c \<notin> set f \<Longrightarrow> split_once c (f @ c # v) = (f, Some v)"
  "c \<notin> set f \<Longrightarrow> split_once c f = (f, None)"
proof -
  assume "c \<notin> set f"
  then have t: "takeWhile (\<lambda>d. d \<noteq> c) f = f" by (auto simp: takeWhile_eq_all_conv)
  show "split_once c f = (f, None)" by (simp only: split_once_def Let_def t) simp
qed (simp add: split_once_def takeWhile_append)

lemma split_once_join:
  assumes "split_once c s = (f, r)"
  shows "c \<notin> set f \<and> s = f @ (case r of None \<Rightarrow> [] | Some v \<Rightarrow> c # v)"
proof (cases "c \<in> set s")
  case True
  then obtain g v where "s = g @ c # v" "c \<notin> set g" by (blast dest: split_list_first)
  then show ?thesis using assms by (auto simp: split_once_simps)
qed (use assms in \<open>auto simp: split_once_simps\<close>)

lemma flag_no_equals: "f \<in> set FLAGS \<Longrightarrow> CHR ''='' \<notin> set f"
  by (auto simp: flag_cases)

lemma flag_split:
  "f \<in> set FLAGS \<Longrightarrow> split_once CHR ''='' (f @ CHR ''='' # v) = (f, Some v)"
  "f \<in> set FLAGS \<Longrightarrow> split_once CHR ''='' f = (f, None)"
  by (simp_all add: split_once_simps flag_no_equals)

lemma command_line_head:
  assumes "split_once CHR ''='' a = (f, r)"
  shows "command_line ss (a # as) \<longleftrightarrow> f \<in> set FLAGS \<and>
    (case r of
       Some v \<Rightarrow> v \<noteq> [] \<and> (\<exists>ts. ss = (f, v) # ts \<and> command_line ts as)
     | None \<Rightarrow> \<exists>v bs ts. as = v # bs \<and> ss = (f, v) # ts \<and> v \<noteq> [] \<and> \<not> looks_like_flag v \<and>
         command_line ts bs)"
proof -
  have a: "CHR ''='' \<notin> set f" "a = f @ (case r of None \<Rightarrow> [] | Some v \<Rightarrow> CHR ''='' # v)"
    using split_once_join [OF assms] by auto
  show ?thesis (is "_ \<longleftrightarrow> ?R")
  proof
    assume "command_line ss (a # as)"
    then show ?R
    proof (cases rule: command_line.cases)
      case (inlined ts g v)
      then have "split_once CHR ''='' a = (g, Some v)" using flag_split(1) [of g v] by simp
      then show ?thesis using assms inlined by auto
    next
      case (separate ts bs v)
      then have "split_once CHR ''='' a = (a, None)" using flag_split(2) [of a] by simp
      then show ?thesis using assms separate by auto
    qed
  next
    assume R: ?R
    show "command_line ss (a # as)"
    proof (cases r)
      case None
      then have "a = f" using a(2) by simp
      then show ?thesis using R None by (auto intro: command_line.separate)
    next
      case (Some v)
      then have "a = f @ ''='' @ v" using a(2) by simp
      then show ?thesis using R Some command_line.inlined [of _ as f v] by auto
    qed
  qed
qed

lemma help_is_no_setting: "a \<in> set HELP_FLAGS \<Longrightarrow> \<not> command_line ss (a # as)"
  by (auto simp: HELP_FLAGS_def flag_cases command_line_cons)

lemma command_line_flags: "command_line ss args \<Longrightarrow> fst ` set ss \<subseteq> set FLAGS"
  by (induction rule: command_line.induct) auto

lemma settable_distinct:
  "fst ` set ss \<subseteq> set FLAGS \<Longrightarrow>
   settable ss opts \<longleftrightarrow> distinct (map fst ss) \<and> (\<forall>f \<in> fst ` set ss. slot f opts = None)"
proof (induction ss opts rule: settable.induct)
  case (2 f v ss opts)
  have "slot g (set_slot f v opts) = None \<longleftrightarrow> g \<noteq> f \<and> slot g opts = None"
    if "g \<in> fst ` set ss" for g
  proof -
    have "f \<in> set FLAGS" "g \<in> set FLAGS" using 2(2) that by auto
    from slot_set_slot [OF this, of v opts] show ?thesis by (cases "f = g") simp_all
  qed
  then have "(\<forall>g \<in> fst ` set ss. slot g (set_slot f v opts) = None) \<longleftrightarrow>
      (\<forall>g \<in> fst ` set ss. g \<noteq> f \<and> slot g opts = None)" by simp
  moreover have "settable ss (set_slot f v opts) \<longleftrightarrow> distinct (map fst ss) \<and>
      (\<forall>g \<in> fst ` set ss. slot g (set_slot f v opts) = None)" using 2 by simp
  ultimately show ?case by auto
qed simp

lemma reads_Nil: "reads opts ss [] \<longleftrightarrow> ss = []"
  by (auto simp: reads_def)

lemma reads_Cons:
  assumes "split_once CHR ''='' a = (f, r)"
  shows "reads opts ss (a # as) \<longleftrightarrow> is_utf8 a \<and> f \<in> set FLAGS \<and> slot f opts = None \<and>
    (case r of
       Some v \<Rightarrow> v \<noteq> [] \<and> (\<exists>ts. ss = (f, v) # ts \<and> reads (set_slot f v opts) ts as)
     | None \<Rightarrow> \<exists>v bs ts. as = v # bs \<and> ss = (f, v) # ts \<and> is_utf8 v \<and> v \<noteq> [] \<and>
         \<not> looks_like_flag v \<and> reads (set_slot f v opts) ts bs)"
proof (cases r)
  case None
  show ?thesis
    unfolding reads_def command_line_head [OF assms] None option.case
    by (rule iffI; elim conjE exE; simp)
next
  case (Some v)
  show ?thesis
    unfolding reads_def command_line_head [OF assms] Some option.case
    by (rule iffI; elim conjE exE; simp)
qed

lemma parse_run:
  "parse_from opts args = Inr (Run res) \<longleftrightarrow> (\<exists>ss. reads opts ss args \<and> res = set_all ss opts)"
proof (induction opts args rule: parse_from.induct)
  case (1 opts)
  then show ?case by (auto simp: reads_Nil)
next
  case (2 opts a as)
  obtain f r where f: "split_once CHR ''='' a = (f, r)" by fastforce
  show ?case
  proof (cases "is_utf8 a \<and> a \<notin> set HELP_FLAGS \<and> f \<in> set FLAGS \<and> slot f opts = None")
    case False
    then have "\<not> reads opts ss (a # as)" for ss
      using reads_Cons [OF f, of opts ss as] help_is_no_setting [of a ss as]
      by (cases "a \<in> set HELP_FLAGS") (simp add: reads_def, blast)
    then show ?thesis using f False by auto
  next
    case True
    show ?thesis
    proof (cases r)
      case None
      then show ?thesis
        using 2 True f by (cases as) (auto simp: reads_Cons [OF f])
    next
      case (Some v)
      then show ?thesis
        using 2 True f by (auto simp: reads_Cons [OF f])
    qed
  qed
qed

text \<open>Settings, then a help flag where a flag is expected.\<close>

definition asks_help :: "options \<Rightarrow> string list \<Rightarrow> bool" where
  "asks_help opts args \<longleftrightarrow>
     (\<exists>ss before h after. args = before @ h # after \<and> reads opts ss before \<and> h \<in> set HELP_FLAGS)"

lemma asks_help_Nil: "\<not> asks_help opts []"
  by (simp add: asks_help_def)

lemma asks_help_flag: "a \<in> set HELP_FLAGS \<Longrightarrow> asks_help opts (a # as)"
  unfolding asks_help_def by (rule exI [of _ "[]"], rule exI [of _ "[]"]) (simp add: reads_Nil)

lemma asks_help_Cons:
  assumes "split_once CHR ''='' a = (f, r)" "a \<notin> set HELP_FLAGS"
  shows "asks_help opts (a # as) \<longleftrightarrow> is_utf8 a \<and> f \<in> set FLAGS \<and> slot f opts = None \<and>
    (case r of
       Some v \<Rightarrow> v \<noteq> [] \<and> asks_help (set_slot f v opts) as
     | None \<Rightarrow> \<exists>v bs. as = v # bs \<and> is_utf8 v \<and> v \<noteq> [] \<and> \<not> looks_like_flag v \<and>
         asks_help (set_slot f v opts) bs)" (is "_ \<longleftrightarrow> ?R")
proof
  assume "asks_help opts (a # as)"
  then obtain ss before h after where
    "a # as = before @ h # after" "reads opts ss before" "h \<in> set HELP_FLAGS"
    by (auto simp: asks_help_def)
  then obtain before' where "as = before' @ h # after" "reads opts ss (a # before')"
    using assms(2) by (cases before) auto
  then show ?R
    using \<open>h \<in> set HELP_FLAGS\<close>
    by (cases r) (auto simp: reads_Cons [OF assms(1)] asks_help_def, blast)
next
  assume R: ?R
  obtain skip v rest ss before h after where v: "as = skip @ rest" "rest = before @ h # after"
    "reads (set_slot f v opts) ss before" "h \<in> set HELP_FLAGS"
    "(case r of Some w \<Rightarrow> skip = [] \<and> w = v \<and> v \<noteq> []
      | None \<Rightarrow> skip = [v] \<and> is_utf8 v \<and> v \<noteq> [] \<and> \<not> looks_like_flag v)"
    using R by (cases r) (auto simp: asks_help_def)
  have "reads opts ((f, v) # ss) (a # skip @ before)"
    using R v by (cases r) (auto simp: reads_Cons [OF assms(1)])
  moreover have "a # as = (a # skip @ before) @ h # after" using v by simp
  ultimately show "asks_help opts (a # as)"
    using v(4) unfolding asks_help_def by blast
qed

lemma parse_help: "parse_from opts args = Inr Help \<longleftrightarrow> asks_help opts args"
proof (induction opts args rule: parse_from.induct)
  case (1 opts)
  then show ?case by (simp add: asks_help_Nil)
next
  case (2 opts a as)
  obtain f r where f: "split_once CHR ''='' a = (f, r)" by fastforce
  have utf8: "a \<in> set HELP_FLAGS \<Longrightarrow> is_utf8 a"
    by (auto simp: HELP_FLAGS_def utf8_head_def byte_at_def byte_of_def in_range_def Let_def)
  show ?case
  proof (cases "a \<in> set HELP_FLAGS")
    case True
    then show ?thesis using utf8 asks_help_flag by simp
  next
    case False
    then show ?thesis
      using 2 f by (cases r; cases as) (auto simp: asks_help_Cons [OF f False])
  qed
qed

lemma slot_set_all:
  assumes "fst ` set ss \<subseteq> set FLAGS" "distinct (map fst ss)" "g \<in> set FLAGS"
  shows "slot g (set_all ss opts) = (case map_of ss g of None \<Rightarrow> slot g opts | Some v \<Rightarrow> Some v)"
  using assms
proof (induction ss opts rule: set_all.induct)
  case (2 f v ss opts)
  have "map_of ss f = None" using 2(3) by (auto simp: map_of_eq_None_iff)
  moreover have "slot g (set_slot f v opts) = (if f = g then Some v else slot g opts)"
    using slot_set_slot [of f g v opts] 2(2,4) by auto
  ultimately show ?case using 2 by (cases "f = g") (auto split: option.split)
qed simp

lemma set_all_options_of:
  assumes "fst ` set ss \<subseteq> set FLAGS" "distinct (map fst ss)"
  shows "set_all ss no_options = options_of ss"
proof -
  have "slot g (set_all ss no_options) = map_of ss g" if "g \<in> set FLAGS" for g
    using slot_set_all [OF assms that] by (auto simp: slot_def no_options_def split: option.split)
  from this [of "''--socket''"] this [of "''--journal''"] show ?thesis
    by (simp add: FLAGS_def slot_def options_of_def)
qed

lemma reads_no_options:
  "reads no_options ss args \<longleftrightarrow>
     command_line ss args \<and> list_all is_utf8 args \<and> distinct (map fst ss)"
  using settable_distinct [OF command_line_flags, of ss args no_options]
  by (auto simp: reads_def no_options_def slot_def)

subsection \<open>Property\<close>

text \<open>
  C38: The parser accepts exactly the grammar.  A command line runs the broker exactly when it is a
  sequence of \<open>--flag value\<close> and \<open>--flag=value\<close> settings in UTF-8, each flag given at most once, no
  value empty and no separate value shaped like a flag, and the options are then those settings; it
  asks for help exactly when such a sequence is followed by a help flag.  Anything else is an error:
  in particular \<open>--socket --help\<close> does not exit successfully, and no setting is taken from an
  environment or dropped.
\<close>

theorem parse_args_is_the_grammar:
  "(parse_args args = Inr (Run opts) \<longleftrightarrow>
      (\<exists>ss. command_line ss args \<and> list_all is_utf8 args \<and> distinct (map fst ss) \<and>
         opts = options_of ss)) \<and>
   (parse_args args = Inr Help \<longleftrightarrow>
      (\<exists>ss before h after. args = before @ h # after \<and> h \<in> set HELP_FLAGS \<and>
         command_line ss before \<and> list_all is_utf8 before \<and> distinct (map fst ss)))"
proof
  show "parse_args args = Inr (Run opts) \<longleftrightarrow>
      (\<exists>ss. command_line ss args \<and> list_all is_utf8 args \<and> distinct (map fst ss) \<and>
         opts = options_of ss)"
    unfolding parse_args_def parse_run reads_no_options
    using set_all_options_of command_line_flags by (intro ex_cong1) auto
  show "parse_args args = Inr Help \<longleftrightarrow>
      (\<exists>ss before h after. args = before @ h # after \<and> h \<in> set HELP_FLAGS \<and>
         command_line ss before \<and> list_all is_utf8 before \<and> distinct (map fst ss))"
    unfolding parse_args_def parse_help asks_help_def reads_no_options by blast
qed

end
