(* ===== verification/Locations.thy ===== *)
theory Locations
  imports Socket Arguments
begin

section \<open>Where the broker's files live (\<open>apps/broker/src/main.rs\<close>)\<close>

text \<open>
  Every path the broker uses is resolved from the command line, the environment and the uid, and
  vetted against the file system before anything is created in it.  \<open>private_entry\<close> and \<open>guarded\<close>
  say what vetting promises, on the entries alone.  A path written with a trailing separator is kept
  apart where it matters, in the base directory: \<open>written\<close> is the path and whether it ends so.  An
  entry is named by the path as written; a socket or journal named with a trailing separator, which
  the kernel refuses to create, is not modelled.
\<close>

subsection \<open>Constants\<close>

definition ROOT_UID :: u32 where "ROOT_UID = 0"
definition PRIVATE_DIR_MODE :: u32 where "PRIVATE_DIR_MODE = 448" \<comment> \<open>0o700\<close>
definition OTHER_WRITE_BITS :: u32 where "OTHER_WRITE_BITS = 18" \<comment> \<open>0o022\<close>
definition OTHER_ACCESS_BITS :: u32 where "OTHER_ACCESS_BITS = 63" \<comment> \<open>0o077\<close>
definition STICKY_BIT :: u32 where "STICKY_BIT = 512" \<comment> \<open>0o1000\<close>
definition PERMISSION_BITS :: u32 where "PERMISSION_BITS = 511" \<comment> \<open>0o777\<close>
definition JOURNAL_FILE_MODE :: u32 where "JOURNAL_FILE_MODE = 384" \<comment> \<open>0o600\<close>

definition PRIVATE_DIR_NAME :: string where "PRIVATE_DIR_NAME = ''fpsmaxxing''"
definition FALLBACK_RUNTIME_BASE :: string where "FALLBACK_RUNTIME_BASE = ''/run''"
definition SOCKET_ENV :: string where "SOCKET_ENV = ''FPSMAXXING_BROKER_SOCKET''"
definition JOURNAL_ENV :: string where "JOURNAL_ENV = ''FPSMAXXING_BROKER_JOURNAL_PATH''"
definition DEFAULT_SOCKET_NAME :: string where "DEFAULT_SOCKET_NAME = ''broker.sock''"
definition DEFAULT_JOURNAL_NAME :: string where "DEFAULT_JOURNAL_NAME = ''journal.sqlite''"
definition LOCK_FILE_NAME :: string where "LOCK_FILE_NAME = ''broker.lock''"

subsection \<open>Vetting\<close>

unbundle bit_operations_syntax

type_synonym written = "path \<times> bool"

definition write_path :: "string \<Rightarrow> written" where
  "write_path s =
     (path_of s, parts (path_of s) \<noteq> [] \<and> last (split_at CHR ''/'' s) \<in> {[], ''.''})"

definition lstat :: "kernel \<Rightarrow> written \<Rightarrow> meta syscall" where
  "lstat K w = (if snd w then slashed_metadata K (fst w) else symlink_metadata K (fst w))"

datatype bar = OwnerOnly | NoForeignWrite

fun bar_refuses :: "bar \<Rightarrow> u32 \<Rightarrow> bool" where
  "bar_refuses OwnerOnly mode \<longleftrightarrow> mode AND OTHER_ACCESS_BITS \<noteq> 0"
| "bar_refuses NoForeignWrite mode \<longleftrightarrow> mode AND OTHER_WRITE_BITS \<noteq> 0 \<and> mode AND STICKY_BIT = 0"

fun bar_requirement :: "bar \<Rightarrow> string" where
  "bar_requirement OwnerOnly = ''no other user can reach''"
| "bar_requirement NoForeignWrite = ''no other user can write''"

definition show_uid :: "u32 \<Rightarrow> string" where
  "show_uid uid = show_word uid"

definition vet_directory :: "kernel \<Rightarrow> u32 \<Rightarrow> bar \<Rightarrow> written \<Rightarrow> unit syscall" where
  "vet_directory K uid bar w F =
     (case lstat K w F of
        (Inl e, G) \<Rightarrow> (Inl (named (fst w) ''inspected'' e), G)
      | (Inr m, G) \<Rightarrow>
          if m_kind m \<noteq> Directory \<or> \<not> (m_uid m = uid \<or> m_uid m = ROOT_UID) \<or>
             bar_refuses bar (m_mode m)
          then (Inl (io_error_new PermissionDenied
                  (show_path (fst w) @ '' must be a directory owned by uid '' @ show_uid uid @
                   '' or root that '' @ bar_requirement bar @ '' it'')), G)
          else (Inr (), G))"

fun vet_each :: "kernel \<Rightarrow> u32 \<Rightarrow> written list \<Rightarrow> unit syscall" where
  "vet_each K uid [] F = (Inr (), F)"
| "vet_each K uid (w # ws) F =
     (case vet_directory K uid NoForeignWrite w F of
        (Inl e, G) \<Rightarrow> (Inl e, G)
      | (Inr _, G) \<Rightarrow> vet_each K uid ws G)"

text \<open>Only the first ancestor, the path itself, is as it was written.\<close>

definition written_ancestors :: "written \<Rightarrow> written list" where
  "written_ancestors w =
     (case ancestors (fst w) of [] \<Rightarrow> [] | p # ps \<Rightarrow> (p, snd w) # map (\<lambda>q. (q, False)) ps)"

definition vet_ancestors :: "kernel \<Rightarrow> u32 \<Rightarrow> written \<Rightarrow> unit syscall" where
  "vet_ancestors K uid w = vet_each K uid (written_ancestors w)"

definition not_inside :: "path \<Rightarrow> io_error" where
  "not_inside p = io_error_new PermissionDenied
     (show_path p @ '' must be an absolute path to an entry inside a directory'')"

definition vet_resolved_path :: "kernel \<Rightarrow> u32 \<Rightarrow> path \<Rightarrow> unit syscall" where
  "vet_resolved_path K uid p F =
     (case parent p of
        None \<Rightarrow> (Inl (not_inside p), F)
      | Some d \<Rightarrow>
     (if \<not> is_absolute p then (Inl (not_inside p), F)
      else case vet_directory K uid OwnerOnly (d, False) F of
        (Inl e, G) \<Rightarrow> (Inl e, G)
      | (Inr _, G) \<Rightarrow>
          (case parent d of
             None \<Rightarrow> (Inr (), G)
           | Some upper \<Rightarrow> vet_ancestors K uid (upper, False) G)))"

subsection \<open>Resolution\<close>

definition runtime_base :: "string option \<Rightarrow> u32 \<Rightarrow> written" where
  "runtime_base xdg uid =
     (if uid = ROOT_UID then write_path FALLBACK_RUNTIME_BASE
      else case xdg of
        None \<Rightarrow> write_path FALLBACK_RUNTIME_BASE
      | Some s \<Rightarrow> if is_absolute (path_of s) then write_path s else write_path FALLBACK_RUNTIME_BASE)"

definition private_directory_in :: "kernel \<Rightarrow> u32 \<Rightarrow> written \<Rightarrow> path syscall" where
  "private_directory_in K uid base F =
     (case vet_ancestors K uid base F of
        (Inl e, G) \<Rightarrow> (Inl e, G)
      | (Inr _, G) \<Rightarrow>
     (let d = join (fst base) PRIVATE_DIR_NAME;
          check = (\<lambda>G. case symlink_metadata K d G of
             (Inl e, H) \<Rightarrow> (Inl (named d ''inspected'' e), H)
           | (Inr m, H) \<Rightarrow>
               if m_kind m = Directory \<and> m_uid m = uid \<and>
                  m_mode m AND PERMISSION_BITS = PRIVATE_DIR_MODE
               then (Inr d, H)
               else (Inl (io_error_new PermissionDenied
                       (show_path d @ '' must be a directory owned by uid '' @ show_uid uid @
                        '' with mode 700'')), H))
      in case create_dir K PRIVATE_DIR_MODE d G of
        (Inl e, H) \<Rightarrow> if io_kind e = AlreadyExists then check H else (Inl (named d ''created'' e), H)
      | (Inr _, H) \<Rightarrow>
          (case set_permissions K d PRIVATE_DIR_MODE H of
             (Inl e, I) \<Rightarrow> (Inl (named d ''restricted'' e), I)
           | (Inr _, I) \<Rightarrow> check I)))"

record paths =
  socket_at :: path
  journal_at :: path
  lock_at :: path

definition or_env :: "(string \<Rightarrow> string option) \<Rightarrow> string option \<Rightarrow> string \<Rightarrow> string option" where
  "or_env env given name = (case given of Some v \<Rightarrow> Some v | None \<Rightarrow> env name)"

definition resolve_paths_from ::
  "kernel \<Rightarrow> options \<Rightarrow> u32 \<Rightarrow> written \<Rightarrow> (string \<Rightarrow> string option) \<Rightarrow> paths syscall" where
  "resolve_paths_from K opts uid base env F =
     (let socket = or_env env (opt_socket opts) SOCKET_ENV;
          journal = or_env env (opt_journal opts) JOURNAL_ENV in
      case private_directory_in K uid base F of
        (Inl e, G) \<Rightarrow> (Inl e, G)
      | (Inr d, G) \<Rightarrow>
     (let P = \<lparr>socket_at = (case socket of None \<Rightarrow> join d DEFAULT_SOCKET_NAME | Some s \<Rightarrow> path_of s),
               journal_at = (case journal of None \<Rightarrow> join d DEFAULT_JOURNAL_NAME | Some s \<Rightarrow> path_of s),
               lock_at = join d LOCK_FILE_NAME\<rparr> in
      case vet_resolved_path K uid (socket_at P) G of
        (Inl e, H) \<Rightarrow> (Inl e, H)
      | (Inr _, H) \<Rightarrow>
          (case vet_resolved_path K uid (journal_at P) H of
             (Inl e, I) \<Rightarrow> (Inl e, I)
           | (Inr _, I) \<Rightarrow> (Inr P, I))))"

definition resolve_paths ::
  "kernel \<Rightarrow> options \<Rightarrow> u32 \<Rightarrow> (string \<Rightarrow> string option) \<Rightarrow> paths syscall" where
  "resolve_paths K opts uid env =
     resolve_paths_from K opts uid (runtime_base (env ''XDG_RUNTIME_DIR'') uid) env"

subsection \<open>What vetting promises\<close>

text \<open>
  The bits of a mode, as \<open>chmod\<close> numbers them: 0 to 2 and 3 to 5 are what others and the group may do
  (bits 1 and 4 to write), 6 to 8 what the owner may do, 9 is the sticky bit.  The user 0 is root.
\<close>

fun keeps_out :: "bar \<Rightarrow> u32 \<Rightarrow> bool" where
  "keeps_out OwnerOnly mode \<longleftrightarrow> (\<forall>i < 6. \<not> bit mode i)"
| "keeps_out NoForeignWrite mode \<longleftrightarrow> \<not> bit mode 1 \<and> \<not> bit mode 4 \<or> bit mode 9"

declare keeps_out.simps [simp del]

definition trusted :: "u32 \<Rightarrow> meta \<Rightarrow> bool" where
  "trusted uid m \<longleftrightarrow> m_uid m = uid \<or> m_uid m = 0"

definition meets :: "files \<Rightarrow> u32 \<Rightarrow> bar \<Rightarrow> path \<Rightarrow> bool" where
  "meets F uid bar p \<longleftrightarrow> (\<exists>m. f_entry F p = Some m \<and> m_kind m = Directory \<and> trusted uid m \<and>
     keeps_out bar (m_mode m))"

lemma bar_refuses_iff: "bar_refuses bar mode \<longleftrightarrow> \<not> keeps_out bar mode"
proof (cases bar)
  case OwnerOnly
  have "mode AND OTHER_ACCESS_BITS = take_bit 6 mode"
    by (simp add: OTHER_ACCESS_BITS_def take_bit_eq_mask mask_numeral)
  moreover have "take_bit 6 mode = 0 \<longleftrightarrow> (\<forall>i < 6. \<not> bit mode i)"
    by (auto simp: bit_eq_iff bit_take_bit_iff)
  ultimately show ?thesis using OwnerOnly by (simp add: keeps_out.simps)
next
  case NoForeignWrite
  have w: "OTHER_WRITE_BITS = 2 ^ 1 OR 2 ^ 4" and st: "STICKY_BIT = 2 ^ 9"
    by (simp_all add: OTHER_WRITE_BITS_def STICKY_BIT_def)
  have "mode AND OTHER_WRITE_BITS = (mode AND 2 ^ 1) OR (mode AND 2 ^ 4)"
    unfolding w by (rule word_ao_dist2)
  then have "mode AND OTHER_WRITE_BITS = 0 \<longleftrightarrow> \<not> bit mode 1 \<and> \<not> bit mode 4" "mode AND STICKY_BIT = 0 \<longleftrightarrow> \<not> bit mode 9"
    by (simp_all only: st or_eq_0_iff and_exp_eq_0_iff_not_bit)
  then show ?thesis using NoForeignWrite by (simp only: bar_refuses.simps keeps_out.simps) blast
qed

lemma keeps_out_iff: "keeps_out bar mode \<longleftrightarrow> \<not> bar_refuses bar mode"
  by (simp add: bar_refuses_iff)

text \<open>The path and everything above it: no other user can replace a component.\<close>

definition guarded :: "files \<Rightarrow> u32 \<Rightarrow> path \<Rightarrow> bool" where
  "guarded F uid p \<longleftrightarrow> (\<forall>q \<in> set (ancestors p). meets F uid NoForeignWrite q)"

text \<open>An entry in a directory only its owner reaches, under directories no other user writes.\<close>

definition private_entry :: "files \<Rightarrow> u32 \<Rightarrow> path \<Rightarrow> bool" where
  "private_entry F uid p \<longleftrightarrow> is_absolute p \<and>
     (\<exists>d. parent p = Some d \<and> meets F uid OwnerOnly d \<and>
        (\<forall>upper. parent d = Some upper \<longrightarrow> guarded F uid upper))"

definition faultless :: "kernel \<Rightarrow> bool" where
  "faultless K \<longleftrightarrow> (\<forall>n. k_fault K n = None)"

subsection \<open>Vetting decides exactly that\<close>

text \<open>The same entries and locks: a call that only looks.\<close>

definition same_files :: "files \<Rightarrow> files \<Rightarrow> bool" where
  "same_files F G \<longleftrightarrow> f_entry G = f_entry F \<and> f_locks G = f_locks F"

lemma same_files_refl [simp]: "same_files F F"
  by (simp add: same_files_def)

lemma same_files_trans [trans]: "same_files F G \<Longrightarrow> same_files G H \<Longrightarrow> same_files F H"
  by (simp add: same_files_def)

lemma same_files_meets: "same_files F G \<Longrightarrow> meets G uid bar p = meets F uid bar p"
  by (simp add: same_files_def meets_def)

lemma lstat_effect:
  "lstat K w F = (r, G) \<Longrightarrow> same_files F G \<and>
     (\<not> snd w \<longrightarrow> (\<forall>m. r = Inr m \<longrightarrow> f_entry F (fst w) = Some m)) \<and>
     (\<not> snd w \<and> faultless K \<longrightarrow> r = ok_or not_found (f_entry F (fst w)))"
  by (auto simp: lstat_def syscall_defs system_call_def Let_def same_files_def faultless_def
      split: option.splits if_splits)

lemma vet_directory_effect:
  assumes "vet_directory K uid bar w F = (r, G)"
  shows "same_files F G \<and>
    (\<not> snd w \<longrightarrow> (r = Inr () \<longrightarrow> meets F uid bar (fst w)) \<and>
       (faultless K \<and> meets F uid bar (fst w) \<longrightarrow> r = Inr ()))"
proof -
  obtain r1 F1 where "lstat K w F = (r1, F1)" by fastforce
  with lstat_effect [OF this] assms show ?thesis
    by (cases r1) (auto simp: vet_directory_def meets_def trusted_def bar_refuses_iff ROOT_UID_def split: if_splits)
qed

lemma vet_each_effect:
  assumes "vet_each K uid ws F = (r, G)"
  shows "same_files F G \<and>
    (r = Inr () \<longrightarrow> (\<forall>w \<in> set ws. \<not> snd w \<longrightarrow> meets F uid NoForeignWrite (fst w))) \<and>
    (faultless K \<and> (\<forall>w \<in> set ws. \<not> snd w \<and> meets F uid NoForeignWrite (fst w)) \<longrightarrow> r = Inr ())"
  using assms
proof (induction ws arbitrary: F)
  case (Cons w ws)
  obtain r1 F1 where v: "vet_directory K uid NoForeignWrite w F = (r1, F1)" by fastforce
  note e = vet_directory_effect [OF v]
  show ?case
  proof (cases r1)
    case (Inl x)
    then show ?thesis using Cons.prems v e by auto
  next
    case (Inr u)
    then have "vet_each K uid ws F1 = (r, G)" using Cons.prems v by simp
    note i = Cons.IH [OF this]
    have "same_files F G" using e i same_files_trans by blast
    moreover have "meets F1 uid b q = meets F uid b q" for b q using e same_files_meets by blast
    ultimately show ?thesis using i Inr e by auto
  qed
qed simp

lemma ancestors_Cons: "\<exists>ps. ancestors p = p # ps"
  by (cases p) (simp add: ancestors_def)

lemma written_ancestors_plain [simp]: "written_ancestors (p, False) = map (\<lambda>q. (q, False)) (ancestors p)"
  using ancestors_Cons [of p] by (auto simp: written_ancestors_def)

lemma vet_ancestors_effect:
  assumes "vet_ancestors K uid w F = (r, G)"
  shows "same_files F G \<and> (\<not> snd w \<longrightarrow> (r = Inr () \<longrightarrow> guarded F uid (fst w)) \<and>
    (faultless K \<and> guarded F uid (fst w) \<longrightarrow> r = Inr ()))"
proof -
  have "written_ancestors w = map (\<lambda>q. (q, False)) (ancestors (fst w))" if "\<not> snd w"
    using that by (cases w) simp
  then show ?thesis
    using vet_each_effect [OF assms [unfolded vet_ancestors_def]] by (auto simp: guarded_def)
qed

lemma vet_resolved_path_effect:
  assumes "vet_resolved_path K uid p F = (r, G)"
  shows "same_files F G \<and> (r = Inr () \<longrightarrow> private_entry F uid p) \<and>
    (faultless K \<and> private_entry F uid p \<longrightarrow> r = Inr ())"
proof (cases "parent p")
  case None
  then show ?thesis using assms by (auto simp: vet_resolved_path_def private_entry_def)
next
  case (Some d)
  show ?thesis
  proof (cases "is_absolute p")
    case False
    then show ?thesis using assms Some by (auto simp: vet_resolved_path_def private_entry_def)
  next
    case True
    obtain r1 F1 where v: "vet_directory K uid OwnerOnly (d, False) F = (r1, F1)" by fastforce
    note e = vet_directory_effect [OF v, simplified]
    show ?thesis
    proof (cases "r1 = Inr () \<and> parent d \<noteq> None")
      case False
      then show ?thesis
        using assms Some True v e
        by (cases r1; cases "parent d") (auto simp: vet_resolved_path_def private_entry_def)
    next
      case ok: True
      then obtain u where u: "parent d = Some u" by auto
      then have "vet_ancestors K uid (u, False) F1 = (r, G)"
        using assms Some True v ok by (simp add: vet_resolved_path_def)
      note a = vet_ancestors_effect [OF this, simplified]
      have "same_files F G" using e a same_files_trans by blast
      moreover have "meets F1 uid b q = meets F uid b q" for b q using e same_files_meets by blast
      ultimately show ?thesis
        using a Some True e ok u by (simp add: private_entry_def guarded_def)
    qed
  qed
qed

subsection \<open>What resolution promises\<close>

text \<open>The broker's own directory.\<close>

definition owned_directory :: "files \<Rightarrow> u32 \<Rightarrow> path \<Rightarrow> bool" where
  "owned_directory F uid d \<longleftrightarrow> (\<exists>m. f_entry F d = Some m \<and> m_kind m = Directory \<and> m_uid m = uid \<and>
     m_mode m AND 511 = 448)" \<comment> \<open>0o777, 0o700\<close>

lemma only_at_same: "same_files F G \<Longrightarrow> only_at ps F G"
  by (simp add: same_files_def only_at_def)

lemma guarded_only_at:
  "only_at {join p n} F G \<Longrightarrow> guarded F uid p \<Longrightarrow> guarded G uid p"
  using join_not_ancestor [of _ p n] by (auto simp: guarded_def meets_def only_at_def)

definition restrict_new :: "kernel \<Rightarrow> path \<Rightarrow> unit syscall" where
  "restrict_new K d F =
     (case create_dir K PRIVATE_DIR_MODE d F of
        (Inl e, G) \<Rightarrow> if io_kind e = AlreadyExists then (Inr (), G) else (Inl (named d ''created'' e), G)
      | (Inr _, G) \<Rightarrow> (case set_permissions K d PRIVATE_DIR_MODE G of
          (Inl e, H) \<Rightarrow> (Inl (named d ''restricted'' e), H)
        | (Inr _, H) \<Rightarrow> (Inr (), H)))"

lemma restrict_new_effect:
  assumes "restrict_new K d F = (r, G)"
  shows "only_at {d} F G \<and> f_locks G = f_locks F"
proof -
  obtain r1 F1 where c: "create_dir K PRIVATE_DIR_MODE d F = (r1, F1)" by fastforce
  note ce = create_dir_effect [OF c]
  show ?thesis
  proof (cases r1)
    case (Inl e)
    then show ?thesis using assms c ce by (auto simp: restrict_new_def split: if_splits)
  next
    case (Inr u)
    then obtain m where m: "f_entry F1 d = Some m" "m_kind m = Directory" using ce by auto
    then have f: "follow link_depth F1 d = Some d" using follow_plain [OF m(1)] by simp
    obtain r2 F2 where s: "set_permissions K d PRIVATE_DIR_MODE F1 = (r2, F2)" by fastforce
    note se = set_permissions_effect [OF s]
    have "only_at {d} F1 F2" using se f by (cases r2) (auto simp: only_at_def)
    then show ?thesis
      using assms c ce Inr s se only_at_trans [of "{d}" F F1 F2]
      by (cases r2) (auto simp: restrict_new_def)
  qed
qed

lemma private_directory_in_effect:
  assumes "private_directory_in K uid base F = (r, G)"
  shows "only_at {join (fst base) PRIVATE_DIR_NAME} F G \<and> f_locks G = f_locks F \<and>
    (\<forall>d. r = Inr d \<longrightarrow> d = join (fst base) PRIVATE_DIR_NAME \<and> owned_directory G uid d \<and>
       (\<not> snd base \<longrightarrow> guarded G uid (fst base)))"
proof -
  let ?d = "join (fst base) PRIVATE_DIR_NAME"
  obtain r1 F1 where v: "vet_ancestors K uid base F = (r1, F1)" by fastforce
  note ve = vet_ancestors_effect [OF v]
  then have only1: "only_at {?d} F F1" "f_locks F1 = f_locks F"
    using only_at_same by (auto simp: same_files_def)
  show ?thesis
  proof (cases r1)
    case (Inl e)
    then show ?thesis using assms v only1 by (auto simp: private_directory_in_def)
  next
    case (Inr u)
    obtain r2 F2 where c: "restrict_new K ?d F1 = (r2, F2)" by fastforce
    note ce = restrict_new_effect [OF c]
    have only2: "only_at {?d} F F2" "f_locks F2 = f_locks F"
      using only1 ce only_at_trans by metis+
    show ?thesis
    proof (cases r2)
      case Inl2: (Inl e)
      then have "r = Inl e \<and> G = F2"
        using assms v Inr c
        by (auto simp: private_directory_in_def restrict_new_def Let_def split: sum.splits prod.splits if_splits)
      then show ?thesis using only2 by simp
    next
      case Inr2: (Inr u2)
      obtain r3 F3 where m: "symlink_metadata K ?d F2 = (r3, F3)" by fastforce
      note me = symlink_metadata_effect [OF m]
      have e3: "f_entry F3 = f_entry F2" "f_locks F3 = f_locks F2"
        using me by (auto simp: only_at_def)
      have G: "G = F3" and r: "\<forall>d. r = Inr d \<longrightarrow> d = ?d \<and> owned_directory F3 uid ?d"
        using assms v Inr c Inr2 m me e3
        by (auto simp: private_directory_in_def restrict_new_def Let_def owned_directory_def PERMISSION_BITS_def PRIVATE_DIR_MODE_def
            split: sum.splits prod.splits if_splits)
      have only3: "only_at {?d} F F3" using only2 e3 by (simp add: only_at_def)
      then have "\<not> snd base \<longrightarrow> guarded F3 uid (fst base)"
        using guarded_only_at [OF only3] ve Inr by auto
      then show ?thesis using G r only3 e3 only2 by auto
    qed
  qed
qed

lemma same_files_private: "same_files F G \<Longrightarrow> private_entry G uid p = private_entry F uid p"
  by (simp add: private_entry_def guarded_def same_files_meets)

lemma resolve_paths_effect:
  assumes "resolve_paths_from K opts uid base env F = (r, G)"
  defines "d \<equiv> join (fst base) PRIVATE_DIR_NAME"
  shows "only_at {d} F G \<and> f_locks G = f_locks F \<and>
    (\<exists>r1 F1. private_directory_in K uid base F = (r1, F1) \<and> same_files F1 G) \<and>
    (\<forall>P. r = Inr P \<longrightarrow>
       lock_at P = join d LOCK_FILE_NAME \<and> owned_directory G uid d \<and>
       (\<not> snd base \<longrightarrow> guarded G uid (fst base)) \<and>
       private_entry G uid (socket_at P) \<and> private_entry G uid (journal_at P) \<and>
       socket_at P = (case or_env env (opt_socket opts) SOCKET_ENV of
         None \<Rightarrow> join d DEFAULT_SOCKET_NAME | Some s \<Rightarrow> path_of s) \<and>
       journal_at P = (case or_env env (opt_journal opts) JOURNAL_ENV of
         None \<Rightarrow> join d DEFAULT_JOURNAL_NAME | Some s \<Rightarrow> path_of s))"
proof -
  obtain r1 F1 where p: "private_directory_in K uid base F = (r1, F1)" by fastforce
  note pe = private_directory_in_effect [OF p, folded d_def]
  show ?thesis
  proof (cases r1)
    case (Inl e)
    then show ?thesis using assms(1) p pe by (auto simp: resolve_paths_from_def Let_def)
  next
    case (Inr d')
    then have d': "d' = d" using pe by simp
    define P where "P = \<lparr>socket_at = (case or_env env (opt_socket opts) SOCKET_ENV of
        None \<Rightarrow> join d DEFAULT_SOCKET_NAME | Some s \<Rightarrow> path_of s),
      journal_at = (case or_env env (opt_journal opts) JOURNAL_ENV of
        None \<Rightarrow> join d DEFAULT_JOURNAL_NAME | Some s \<Rightarrow> path_of s),
      lock_at = join d LOCK_FILE_NAME\<rparr>"
    obtain r2 F2 where s: "vet_resolved_path K uid (socket_at P) F1 = (r2, F2)" by fastforce
    note se = vet_resolved_path_effect [OF s]
    obtain r3 F3 where j: "vet_resolved_path K uid (journal_at P) F2 = (r3, F3)" by fastforce
    note je = vet_resolved_path_effect [OF j]
    have res: "r = (case r2 of Inl e \<Rightarrow> Inl e | Inr _ \<Rightarrow> (case r3 of Inl e \<Rightarrow> Inl e | Inr _ \<Rightarrow> Inr P))"
      "G = (case r2 of Inl _ \<Rightarrow> F2 | Inr _ \<Rightarrow> F3)"
      using assms(1) p Inr d' s j
      by (auto simp: resolve_paths_from_def Let_def P_def split: sum.splits)
    have same: "same_files F1 G"
      using res se je same_files_trans [of F1 F2 F3] by (cases r2) auto
    have "private_entry F1 uid (socket_at P) \<and> private_entry F1 uid (journal_at P)"
      if "r = Inr P"
      using that res se je same_files_private [of F1 F2] by (cases r2; cases r3) auto
    then have pe2: "private_entry G uid (socket_at P) \<and> private_entry G uid (journal_at P)"
      if "r = Inr P"
      using that by (simp add: same_files_private [OF same])
    have "owned_directory G uid d = owned_directory F1 uid d"
      and "guarded G uid (fst base) = guarded F1 uid (fst base)"
      using same by (simp_all add: same_files_def owned_directory_def PERMISSION_BITS_def PRIVATE_DIR_MODE_def guarded_def meets_def)
    moreover have "owned_directory F1 uid d" "\<not> snd base \<longrightarrow> guarded F1 uid (fst base)"
      using pe Inr d' by simp_all
    ultimately have dir: "owned_directory G uid d" "\<not> snd base \<longrightarrow> guarded G uid (fst base)"
      by simp_all
    have only: "only_at {d} F G" "f_locks G = f_locks F"
      using pe same by (simp_all add: only_at_def same_files_def)
    have dir_same: "\<exists>r1 F1. private_directory_in K uid base F = (r1, F1) \<and> same_files F1 G"
      using p same by blast
    show ?thesis
    proof (cases r)
      case Inl3: (Inl e)
      show ?thesis unfolding Inl3 using only dir_same by simp
    next
      case Inr3: (Inr Q)
      then have Q: "Q = P" using res by (auto split: sum.splits)
      show ?thesis
        unfolding Inr3 Q using only dir_same dir pe2 Inr3 Q by (simp add: P_def)
    qed
  qed
qed

subsection \<open>Properties\<close>

text \<open>
  C25: Vetting a resolved path is exact.  It changes no entry; it accepts only an absolute path whose
  directory is a real one, owned by the broker or root and closed to every other user, under real
  directories, owned by the broker or root, that no other user can write or that are sticky; and,
  when the file system answers, it accepts every such path.
\<close>

theorem path_vetting_is_exact:
  assumes "vet_resolved_path K uid p F = (r, G)"
  shows "f_entry G = f_entry F \<and> (r = Inr () \<longrightarrow> private_entry F uid p) \<and>
    (faultless K \<longrightarrow> (r = Inr () \<longleftrightarrow> private_entry F uid p))"
  using vet_resolved_path_effect [OF assms] by (auto simp: same_files_def)

definition run_files :: files where
  "run_files =
     \<lparr>f_entry = [Path True [] \<mapsto>
          \<lparr>m_kind = Directory, m_uid = 0, m_mode = 493, m_dev = 1, m_ino = 1\<rparr>,
        Path True [''run''] \<mapsto>
          \<lparr>m_kind = Directory, m_uid = 0, m_mode = 1023, m_dev = 1, m_ino = 2\<rparr>,
        Path True [''run'', ''me''] \<mapsto>
          \<lparr>m_kind = Directory, m_uid = 1000, m_mode = 448, m_dev = 1, m_ino = 3\<rparr>],
      f_locks = [], f_calls = 10\<rparr>"

lemmas vet_simps = vet_resolved_path_def vet_directory_def vet_ancestors_def ancestors_def
  lstat_def syscall_defs system_call_def plain_kernel_def run_files_def parent_def Let_def
  OTHER_ACCESS_BITS_def OTHER_WRITE_BITS_def STICKY_BIT_def ROOT_UID_def

theorem path_vetting_is_exact_witness:
  "private_entry run_files 1000 (Path True [''run'', ''me'', ''s'']) \<and>
   \<not> private_entry run_files 1000 (Path True [''run'', ''s''])"
proof -
  have "fst (vet_resolved_path plain_kernel 1000 (Path True [''run'', ''me'', ''s'']) run_files) = Inr ()"
    by (simp add: vet_simps)
  moreover have "fst (vet_resolved_path plain_kernel 1000 (Path True [''run'', ''s'']) run_files) \<noteq> Inr ()"
    by (simp add: vet_simps)
  moreover have "faultless plain_kernel" by (simp add: faultless_def plain_kernel_def)
  ultimately show ?thesis
    using path_vetting_is_exact [of plain_kernel 1000 _ run_files, OF prod.collapse [symmetric]]
    by blast
qed

lemma write_path_run: "write_path FALLBACK_RUNTIME_BASE = (Path True [''run''], False)"
  by (simp add: write_path_def FALLBACK_RUNTIME_BASE_def path_of_def)

text \<open>
  C24: The broker's files are private before it creates any of them.  Whatever the options and the
  environment, resolution changes no entry but the broker's own directory \<open>fpsmaxxing\<close>; when it
  succeeds, that directory is real, the broker's, of mode 0700, and holds the lock file, and the
  socket and the journal, wherever they were pointed, are entries of a directory no other user can
  reach, under directories no other user can write.  An option wins over its variable.  A root
  broker's lock is always \<open>/run/fpsmaxxing/broker.lock\<close>.  The base directory and everything above it
  are vetted too when the base is not written with a trailing separator.
\<close>

theorem resolved_paths_are_private:
  assumes "resolve_paths K opts uid env F = (Inr P, G)"
    and "runtime_base (env ''XDG_RUNTIME_DIR'') uid = (base, slashed)"
  shows "(\<forall>q. q \<noteq> join base PRIVATE_DIR_NAME \<longrightarrow> f_entry G q = f_entry F q) \<and>
    owned_directory G uid (join base PRIVATE_DIR_NAME) \<and>
    lock_at P = join (join base PRIVATE_DIR_NAME) LOCK_FILE_NAME \<and>
    private_entry G uid (socket_at P) \<and> private_entry G uid (journal_at P) \<and>
    (\<forall>s. opt_socket opts = Some s \<longrightarrow> socket_at P = path_of s) \<and>
    (\<forall>s. opt_journal opts = Some s \<longrightarrow> journal_at P = path_of s) \<and>
    (uid = ROOT_UID \<longrightarrow> lock_at P = Path True [''run'', ''fpsmaxxing'', ''broker.lock''] \<and>
       guarded G uid (Path True [''run''])) \<and>
    (\<not> slashed \<longrightarrow> guarded G uid base)"
proof -
  note e = resolve_paths_effect [OF assms(1) [unfolded resolve_paths_def], unfolded assms(2) fst_conv snd_conv]
  have "uid = ROOT_UID \<longrightarrow> base = Path True [''run''] \<and> \<not> slashed"
    using assms(2) by (auto simp: runtime_base_def write_path_run)
  then show ?thesis
    using e by (auto simp: only_at_def or_env_def join_def PRIVATE_DIR_NAME_def LOCK_FILE_NAME_def)
qed

definition me_env :: "string \<Rightarrow> string option" where
  "me_env name = (if name = ''XDG_RUNTIME_DIR'' then Some ''/run/me'' else None)"

theorem resolved_paths_are_private_witness:
  "\<exists>P G. resolve_paths plain_kernel no_options 1000 me_env run_files = (Inr P, G) \<and>
     private_entry G 1000 (journal_at P) \<and> guarded G 1000 (Path True [''run'', ''me''])"
proof -
  have b': "runtime_base (Some ''/run/me'') 1000 = (Path True [''run'', ''me''], False)"
    by (simp add: runtime_base_def write_path_def path_of_def ROOT_UID_def)
  then have b: "runtime_base (me_env ''XDG_RUNTIME_DIR'') 1000 = (Path True [''run'', ''me''], False)"
    by (simp add: me_env_def)
  have "is_ok (fst (resolve_paths plain_kernel no_options 1000 me_env run_files))"
    by (simp add: vet_simps resolve_paths_def b' resolve_paths_from_def private_directory_in_def
        or_env_def no_options_def me_env_def SOCKET_ENV_def JOURNAL_ENV_def join_def has_directory_def
        target_def follow_unfold new_meta_def PRIVATE_DIR_MODE_def PERMISSION_BITS_def)
  then obtain P G where r: "resolve_paths plain_kernel no_options 1000 me_env run_files = (Inr P, G)"
    by (cases "resolve_paths plain_kernel no_options 1000 me_env run_files"; cases "fst (resolve_paths plain_kernel no_options 1000 me_env run_files)") auto
  from resolved_paths_are_private [OF r b] r show ?thesis by blast
qed

text \<open>
  C40: A trailing separator defeats the check of the base directory.  The base is inspected as it was
  written, and the kernel follows a link at the end of a path written with a trailing separator.  So
  where a base is a symbolic link, whoever owns it, to a directory that passes, under directories
  that pass, the plain path is refused and the path with the separator is accepted.
\<close>

theorem trailing_separator_hides_a_link:
  assumes "faultless K" "f_entry F p = Some l" "m_kind l = Symlink q"
    and "target F p = Some m" "m_kind m = Directory" "trusted uid m"
    and "\<not> bar_refuses NoForeignWrite (m_mode m)"
    and "\<forall>above \<in> set (tl (ancestors p)). meets F uid NoForeignWrite above"
  shows "(\<exists>e. fst (vet_ancestors K uid (p, False) F) = Inl e \<and> io_kind e = PermissionDenied) \<and>
    fst (vet_ancestors K uid (p, True) F) = Inr ()"
proof
  obtain ps where ps: "ancestors p = p # ps" using ancestors_Cons by blast
  let ?F = "F\<lparr>f_calls := Suc (f_calls F)\<rparr>"
  have t: "target ?F p = target F p" by (simp add: target_def cong: option.case_cong)
  show "\<exists>e. fst (vet_ancestors K uid (p, False) F) = Inl e \<and> io_kind e = PermissionDenied"
    using assms(1-3)
    by (simp add: vet_ancestors_def ps vet_directory_def lstat_def symlink_metadata_def
        system_call_def faultless_def)
  have head: "vet_directory K uid NoForeignWrite (p, True) F = (Inr (), ?F)"
    using assms(1,4-7) t
    by (simp add: vet_directory_def lstat_def slashed_metadata_def system_call_def faultless_def
        trusted_def ROOT_UID_def)
  obtain r G where tail: "vet_each K uid (map (\<lambda>q. (q, False)) ps) ?F = (r, G)" by fastforce
  have "r = Inr ()"
    using vet_each_effect [OF tail] assms(1,8) ps by (simp add: meets_def)
  then show "fst (vet_ancestors K uid (p, True) F) = Inr ()"
    using head tail by (simp add: vet_ancestors_def written_ancestors_def ps)
qed

text \<open>A shared directory with another user's link in it, to a directory of the broker's user.\<close>

definition linked_files :: files where
  "linked_files =
     \<lparr>f_entry = [Path True [] \<mapsto>
          \<lparr>m_kind = Directory, m_uid = 0, m_mode = 493, m_dev = 1, m_ino = 1\<rparr>,
        Path True [''t''] \<mapsto>
          \<lparr>m_kind = Directory, m_uid = 0, m_mode = 1023, m_dev = 1, m_ino = 2\<rparr>,
        Path True [''t'', ''link''] \<mapsto>
          \<lparr>m_kind = Symlink (Path True [''home'', ''d'']), m_uid = 666, m_mode = 511,
           m_dev = 1, m_ino = 3\<rparr>,
        Path True [''home'', ''d''] \<mapsto>
          \<lparr>m_kind = Directory, m_uid = 1000, m_mode = 448, m_dev = 1, m_ino = 4\<rparr>],
      f_locks = [], f_calls = 0\<rparr>"

lemma linked_files_simps:
  "f_calls linked_files = 0"
  "f_entry linked_files (Path True []) =
     Some \<lparr>m_kind = Directory, m_uid = 0, m_mode = 493, m_dev = 1, m_ino = 1\<rparr>"
  "f_entry linked_files (Path True [''t'']) =
     Some \<lparr>m_kind = Directory, m_uid = 0, m_mode = 1023, m_dev = 1, m_ino = 2\<rparr>"
  "f_entry linked_files (Path True [''t'', ''link'']) =
     Some \<lparr>m_kind = Symlink (Path True [''home'', ''d'']), m_uid = 666, m_mode = 511,
       m_dev = 1, m_ino = 3\<rparr>"
  "f_entry linked_files (Path True [''home'', ''d'']) =
     Some \<lparr>m_kind = Directory, m_uid = 1000, m_mode = 448, m_dev = 1, m_ino = 4\<rparr>"
  by (simp_all add: linked_files_def)

lemma linked_target:
  "target (linked_files\<lparr>f_calls := n\<rparr>) (Path True [''t'', ''link'']) =
     Some \<lparr>m_kind = Directory, m_uid = 1000, m_mode = 448, m_dev = 1, m_ino = 4\<rparr>"
proof -
  have e: "(39 :: nat) = Suc 38" by simp
  have "follow 39 linked_files (Path True [''home'', ''d'']) = Some (Path True [''home'', ''d''])"
    unfolding e follow.simps(2) by (simp add: linked_files_simps)
  then show ?thesis by (simp add: target_def follow_unfold linked_files_simps)
qed

theorem trailing_separator_hides_a_link_witness:
  "fst (vet_ancestors plain_kernel 1000 (write_path ''/t/link'') linked_files) \<noteq> Inr () \<and>
   fst (vet_ancestors plain_kernel 1000 (write_path ''/t/link/'') linked_files) = Inr ()"
proof -
  let ?p = "Path True [''t'', ''link'']"
  have w: "write_path ''/t/link'' = (?p, False)" "write_path ''/t/link/'' = (?p, True)"
    by (simp_all add: write_path_def path_of_def)
  have m: "target linked_files ?p =
      Some \<lparr>m_kind = Directory, m_uid = 1000, m_mode = 448, m_dev = 1, m_ino = 4\<rparr>"
    using linked_target [of 0] by (simp add: linked_files_def)
  have up: "\<forall>above \<in> set (tl (ancestors ?p)). meets linked_files 1000 NoForeignWrite above"
    by (simp add: ancestors_def meets_def linked_files_simps trusted_def keeps_out_iff
        OTHER_WRITE_BITS_def STICKY_BIT_def)
  have K: "faultless plain_kernel" by (simp add: faultless_def plain_kernel_def)
  have "(\<exists>e. fst (vet_ancestors plain_kernel 1000 (?p, False) linked_files) = Inl e \<and>
      io_kind e = PermissionDenied) \<and>
    fst (vet_ancestors plain_kernel 1000 (?p, True) linked_files) = Inr ()"
    by (rule trailing_separator_hides_a_link [OF K linked_files_simps(4) _ m _ _ _ up])
      (simp_all add: trusted_def OTHER_WRITE_BITS_def)
  then show ?thesis unfolding w by auto
qed

end
