(* ===== verification/Startup.thy ===== *)
theory Startup
  imports Broker Locations
begin

section \<open>Starting the broker (\<open>apps/broker/src/main.rs\<close>)\<close>

text \<open>
  The order of a start: the command line, the paths, the single-instance lock, the journal's mode,
  the control plane on its own thread, the socket.  \<open>start_broker\<close> is \<open>run\<close> up to the accept loop and
  \<open>stop_broker\<close> what happens when that loop returns.  Opening a database file is the parameter
  \<open>stored\<close>, the journal that a path holds; the side files of the database are named here and
  restricted, and written by the library only.
\<close>

subsection \<open>Owner-only files\<close>

definition restrict_to_owner :: "kernel \<Rightarrow> path \<Rightarrow> unit syscall" where
  "restrict_to_owner K p F =
     (case set_permissions K p JOURNAL_FILE_MODE F of
        (Inl e, G) \<Rightarrow> (Inl (named p ''restricted'' e), G)
      | (Inr _, G) \<Rightarrow> (Inr (), G))"

definition create_owner_only :: "kernel \<Rightarrow> path \<Rightarrow> (u64 \<times> u64) syscall" where
  "create_owner_only K p F =
     (case open_create K JOURNAL_FILE_MODE p F of
        (Inl e, G) \<Rightarrow> (Inl (named p ''opened'' e), G)
      | (Inr i, G) \<Rightarrow>
          (case restrict_to_owner K p G of
             (Inl e, H) \<Rightarrow> (Inl e, H)
           | (Inr _, H) \<Rightarrow> (Inr i, H)))"

definition JOURNAL_SIDE_SUFFIXES :: "string list" where
  "JOURNAL_SIDE_SUFFIXES = [''-journal'', ''-wal'', ''-shm'']"

fun restrict_sides :: "kernel \<Rightarrow> path \<Rightarrow> string list \<Rightarrow> unit syscall" where
  "restrict_sides K p [] F = (Inr (), F)"
| "restrict_sides K p (s # ss) F =
     (case restrict_to_owner K (with_suffix p s) F of
        (Inl e, G) \<Rightarrow> if io_kind e = NotFound then restrict_sides K p ss G else (Inl e, G)
      | (Inr _, G) \<Rightarrow> restrict_sides K p ss G)"

definition restrict_journal :: "kernel \<Rightarrow> path \<Rightarrow> unit syscall" where
  "restrict_journal K p F =
     (case create_owner_only K p F of
        (Inl e, G) \<Rightarrow> (Inl e, G)
      | (Inr _, G) \<Rightarrow> restrict_sides K p JOURNAL_SIDE_SUFFIXES G)"

definition lock_single_instance :: "kernel \<Rightarrow> path \<Rightarrow> (u64 \<times> u64) syscall" where
  "lock_single_instance K p F =
     (case create_owner_only K p F of
        (Inl e, G) \<Rightarrow> (Inl e, G)
      | (Inr i, G) \<Rightarrow>
          (case flock_exclusive K i G of
             (Inr True, H) \<Rightarrow> (Inr i, H)
           | (Inr False, H) \<Rightarrow> (Inl (io_error_new AddrInUse (show_path p @
               '' is held by a running broker; only one may own this machine's knobs'')), H)
           | (Inl e, H) \<Rightarrow> (Inl (named p ''locked'' e), H)))"

subsection \<open>The run\<close>

record ('p, 't) broker =
  b_transport :: transport
  b_worker :: "('p, 't) service option"
  b_authorizer :: same_uid_authorizer
  b_lock :: "u64 \<times> u64"

datatype start_error = BadArguments arg_error | StartIo io_error

datatype ('p, 't) start_outcome = Usage | Listening "('p, 't) broker"

definition unlock :: "u64 \<times> u64 \<Rightarrow> files \<Rightarrow> files" where
  "unlock i F = F\<lparr>f_locks := remove1 i (f_locks F)\<rparr>"

text \<open>What the worker builds on its own thread.\<close>

definition build_service ::
  "'t host \<Rightarrow> 'p provider_ops \<Rightarrow> 'p \<Rightarrow> kernel \<Rightarrow> (path \<Rightarrow> 't journal) \<Rightarrow> path \<Rightarrow> files \<Rightarrow>
     (io_error, ('p, 't) service) result option \<times> files" where
  "build_service H ops p K stored db F =
     (case restrict_journal K db F of
        (Inl e, G) \<Rightarrow> (Some (Inl e), G)
      | (Inr _, G) \<Rightarrow>
          (case open_plane H ops p (stored db) of
             (Inl e, _) \<Rightarrow> (Some (Inl (io_error_other (show_cp_error e))), G)
           | (Inr pl, _) \<Rightarrow> (Some (Inr (new_service pl new_ledger)), G)))"

definition start_broker ::
  "'t host \<Rightarrow> 'p provider_ops \<Rightarrow> 'p \<Rightarrow> kernel \<Rightarrow> io_error option \<Rightarrow> (path \<Rightarrow> 't journal) \<Rightarrow>
     string list \<Rightarrow> (string \<Rightarrow> string option) \<Rightarrow> files \<Rightarrow>
     (start_error, ('p, 't) start_outcome) result \<times> files" where
  "start_broker H ops p K spawn_fault stored args env F =
     (case parse_args args of
        Inl e \<Rightarrow> (Inl (BadArguments e), F)
      | Inr Help \<Rightarrow> (Inr Usage, F)
      | Inr (Run opts) \<Rightarrow>
     (let authorizer = for_current_process (k_uid K); uid = expected_uid authorizer in
      case resolve_paths K opts uid env F of
        (Inl e, G) \<Rightarrow> (Inl (StartIo e), G)
      | (Inr P, G) \<Rightarrow>
     (case lock_single_instance K (lock_at P) G of
        (Inl e, G1) \<Rightarrow> (Inl (StartIo e), G1)
      | (Inr i, G1) \<Rightarrow>
     (case (if spawn_fault = None then build_service H ops p K stored (journal_at P) G1
            else (None, G1)) of (built, G2) \<Rightarrow>
     (case spawn_service spawn_fault built of
        Inl e \<Rightarrow> (Inl (StartIo e), unlock i G2)
      | Inr worker \<Rightarrow>
     (case bind_transport K (socket_at P) G2 of
        (Inl e, G3) \<Rightarrow> (Inl (StartIo e), unlock i G3)
      | (Inr t, G3) \<Rightarrow>
          (Inr (Listening \<lparr>b_transport = t, b_worker = worker, b_authorizer = authorizer,
             b_lock = i\<rparr>), G3)))))))"

text \<open>The accept loop returned: the transport is dropped with it, the lock after it.\<close>

definition stop_broker :: "kernel \<Rightarrow> ('p, 't) broker \<Rightarrow> files \<Rightarrow> files" where
  "stop_broker K B F = unlock (b_lock B) (drop_transport K (b_transport B) F)"

subsection \<open>What the start leaves in place\<close>

text \<open>
  Every entry that is not a socket stays what it is: the same kind, identity and owner, with its mode
  or the owner-only one.  What a path leads to is then the same file.
\<close>

definition continues :: "meta \<Rightarrow> meta \<Rightarrow> bool" where
  "continues m n \<longleftrightarrow> m_kind n = m_kind m \<and> m_uid n = m_uid m \<and> m_dev n = m_dev m \<and> m_ino n = m_ino m \<and>
     (m_mode n = m_mode m \<or> m_mode n = JOURNAL_FILE_MODE)"

lemma continues_refl [simp]: "continues m m"
  by (simp add: continues_def)

lemma continues_trans: "continues m n \<Longrightarrow> continues n k \<Longrightarrow> continues m k"
  by (auto simp: continues_def)

definition keeps :: "files \<Rightarrow> files \<Rightarrow> bool" where
  "keeps F G \<longleftrightarrow> (\<forall>p m. f_entry F p = Some m \<and> m_kind m \<noteq> SocketFile \<longrightarrow>
     (\<exists>n. f_entry G p = Some n \<and> continues m n))"

lemma keeps_refl [simp]: "keeps F F"
  by (simp add: keeps_def)

lemma keeps_trans: "keeps F G \<Longrightarrow> keeps G H \<Longrightarrow> keeps F H"
proof -
  assume FG: "keeps F G" and GH: "keeps G H"
  show "keeps F H"
    unfolding keeps_def
  proof (intro allI impI)
    fix p m assume m: "f_entry F p = Some m \<and> m_kind m \<noteq> SocketFile"
    then obtain n where n: "f_entry G p = Some n" "continues m n" using FG unfolding keeps_def by blast
    then have "m_kind n \<noteq> SocketFile" using m by (simp add: continues_def)
    then obtain k where "f_entry H p = Some k" "continues n k" using n GH unfolding keeps_def by blast
    then show "\<exists>k. f_entry H p = Some k \<and> continues m k" using n continues_trans by blast
  qed
qed

lemma keeps_entry:
  "keeps F G \<Longrightarrow> f_entry F p = Some m \<Longrightarrow> m_kind m \<noteq> SocketFile \<Longrightarrow>
   \<exists>n. f_entry G p = Some n \<and> m_kind n = m_kind m \<and> m_dev n = m_dev m \<and> m_ino n = m_ino m"
  unfolding keeps_def continues_def by blast

lemma keeps_same_entries: "f_entry G = f_entry F \<Longrightarrow> keeps F G"
  by (simp add: keeps_def)

lemma keeps_new: "f_entry F p = None \<Longrightarrow> f_entry G = (f_entry F)(p := x) \<Longrightarrow> keeps F G"
  by (auto simp: keeps_def)

lemma keeps_mode:
  "f_entry F p = Some m \<Longrightarrow> f_entry G = (f_entry F)(p \<mapsto> m\<lparr>m_mode := JOURNAL_FILE_MODE\<rparr>) \<Longrightarrow> keeps F G"
  by (auto simp: keeps_def continues_def)

lemma keeps_only_new:
  assumes "f_entry F p = None" "only_at {p} F G"
  shows "keeps F G"
  unfolding keeps_def
proof (intro allI impI)
  fix q m assume q: "f_entry F q = Some m \<and> m_kind m \<noteq> SocketFile"
  then have "q \<noteq> p" using assms(1) by auto
  then have "f_entry G q = f_entry F q" using assms(2) by (simp add: only_at_def)
  then show "\<exists>n. f_entry G q = Some n \<and> continues m n" using q by simp
qed

lemma keeps_meets: "keeps F G \<Longrightarrow> meets F uid bar p \<Longrightarrow> meets G uid bar p"
  by (cases bar)
    (fastforce simp: keeps_def meets_def continues_def trusted_def JOURNAL_FILE_MODE_def
      keeps_out_iff OTHER_ACCESS_BITS_def OTHER_WRITE_BITS_def)+

lemma keeps_private: "keeps F G \<Longrightarrow> private_entry F uid p \<Longrightarrow> private_entry G uid p"
  using keeps_meets [of F G] by (auto simp: private_entry_def guarded_def)

lemma keeps_follow:
  assumes "keeps F G"
  shows "follow n F p = Some q \<Longrightarrow> f_entry F q = Some m \<Longrightarrow> m_kind m \<noteq> SocketFile \<Longrightarrow>
    follow n G p = Some q"
proof (induction n arbitrary: p)
  case (Suc n)
  obtain mp where mp: "f_entry F p = Some mp"
    using Suc.prems by (cases "f_entry F p") auto
  show ?case
  proof (cases "\<exists>t. m_kind mp = Symlink t")
    case True
    then obtain t where t: "m_kind mp = Symlink t" by blast
    then obtain mg where "f_entry G p = Some mg" "m_kind mg = Symlink t"
      using keeps_entry [OF assms mp] by auto
    then show ?thesis using Suc t mp by simp
  next
    case False
    then have "q = p" using Suc.prems mp by (cases "m_kind mp") auto
    then obtain mg where "f_entry G p = Some mg" "m_kind mg = m_kind mp"
      using keeps_entry [OF assms mp] Suc.prems mp by auto
    then show ?thesis using False \<open>q = p\<close> by (cases "m_kind mp") auto
  qed
qed simp

text \<open>The file an open would reach, and which file it is.\<close>

definition opens :: "files \<Rightarrow> path \<Rightarrow> path \<Rightarrow> u64 \<times> u64 \<Rightarrow> bool" where
  "opens F p q i \<longleftrightarrow> follow link_depth F p = Some q \<and>
     (\<exists>m. f_entry F q = Some m \<and> m_kind m \<noteq> SocketFile \<and> m_kind m \<noteq> Directory \<and> i = (m_dev m, m_ino m))"

lemma opens_keeps: "keeps F G \<Longrightarrow> opens F p q i \<Longrightarrow> opens G p q i"
  unfolding opens_def using keeps_follow [of F G] keeps_entry [of F G] by (metis (no_types))

lemma set_permissions_keeps:
  "set_permissions K p JOURNAL_FILE_MODE F = (r, G) \<Longrightarrow> keeps F G \<and> f_locks G = f_locks F"
  using set_permissions_effect [of K p JOURNAL_FILE_MODE F r G] keeps_same_entries keeps_mode
  by (cases r) auto

lemma follow_new:
  assumes "f_entry G = (f_entry F)(q \<mapsto> m)" "\<And>t. m_kind m \<noteq> Symlink t"
  shows "follow n F p = Some q \<Longrightarrow> f_entry F q = None \<Longrightarrow> follow n G p = Some q"
proof (induction n arbitrary: p)
  case (Suc n)
  show ?case
  proof (cases "p = q")
    case True
    then show ?thesis using assms by (cases "m_kind m") auto
  next
    case False
    then show ?thesis
      using Suc assms(1) by (auto split: option.splits entry_kind.splits)
  qed
qed simp

lemma follow_same_entries:
  assumes "f_entry G = f_entry F"
  shows "follow n G = follow n F"
proof (induction n)
  case (Suc n)
  show ?case by (rule ext) (simp only: follow.simps assms Suc)
qed (rule ext, simp)

lemma has_directory_calls [simp]: "has_directory (F\<lparr>f_calls := k\<rparr>) p = has_directory F p"
proof -
  have "target (F\<lparr>f_calls := k\<rparr>) = target F" by (rule ext) (simp add: target_def cong: option.case_cong)
  then show ?thesis by (simp only: has_directory_def)
qed

lemma opens_same_entries:
  assumes "f_entry G = f_entry F"
  shows "opens G p q i = opens F p q i"
  unfolding opens_def follow_same_entries [OF assms] assms ..

lemma open_create_effect:
  assumes "open_create K mode p F = (r, G)"
  shows "keeps F G \<and> f_locks G = f_locks F \<and> (is_err r \<longrightarrow> f_entry G = f_entry F) \<and>
    (\<forall>i. r = Inr i \<longrightarrow> (\<exists>q. opens G p q i \<and> only_at {q} F G)) \<and>
    (\<forall>q i. opens F p q i \<longrightarrow> f_entry G = f_entry F \<and> (\<forall>j. r = Inr j \<longrightarrow> j = i))"
proof (cases "\<exists>q. k_fault K (f_calls F) = None \<and> follow link_depth F p = Some q \<and> f_entry F q = None \<and>
    has_directory F q")
  case True
  then obtain q where q: "k_fault K (f_calls F) = None" "follow link_depth F p = Some q"
    "f_entry F q = None" "has_directory F q" by blast
  let ?F = "F\<lparr>f_calls := Suc (f_calls F)\<rparr>"
  let ?m = "new_meta K ?F RegularFile mode"
  have hd: "has_directory ?F q" using q(4) by simp
  have r: "r = Inr (m_dev ?m, m_ino ?m)" "G = ?F\<lparr>f_entry := (f_entry F)(q \<mapsto> ?m)\<rparr>"
    using assms q hd by (auto simp: open_create_def system_call_def Let_def)
  then have e: "f_entry G = (f_entry F)(q \<mapsto> ?m)" by simp
  have "follow link_depth G p = Some q"
    using follow_new [OF e _ q(2,3)] by (simp add: new_meta_def)
  then have "opens G p q (m_dev ?m, m_ino ?m)" using e by (simp add: opens_def new_meta_def)
  then show ?thesis
    using r q keeps_new [OF q(3) e] by (auto simp: only_at_def opens_def)
next
  case False
  then have "f_entry G = f_entry F" "f_locks G = f_locks F" "\<forall>i. r = Inr i \<longrightarrow> (\<exists>q. opens F p q i)"
    using assms follow_not_symlink
    by (auto simp: open_create_def system_call_def Let_def has_directory_def target_def opens_def
        split: option.splits entry_kind.splits if_splits)
  moreover have "j = i" if "opens F p q i" "r = Inr j" for q i j
    using assms that
    by (auto simp: open_create_def system_call_def Let_def opens_def
        split: option.splits entry_kind.splits)
  ultimately show ?thesis
    using keeps_same_entries [of G F] opens_same_entries [of G F] by (auto simp: only_at_def)
qed

lemma restrict_to_owner_effect:
  assumes "restrict_to_owner K p F = (r, G)"
  shows "keeps F G \<and> f_locks G = f_locks F \<and> (is_err r \<longrightarrow> f_entry G = f_entry F) \<and>
    (r = Inr () \<longrightarrow> (\<exists>q m. follow link_depth F p = Some q \<and> f_entry F q = Some m \<and>
       f_entry G = (f_entry F)(q \<mapsto> m\<lparr>m_mode := JOURNAL_FILE_MODE\<rparr>)))"
proof -
  obtain r1 F1 where s: "set_permissions K p JOURNAL_FILE_MODE F = (r1, F1)" by fastforce
  show ?thesis
    using assms s set_permissions_keeps [OF s] set_permissions_effect [OF s]
    by (cases r1) (auto simp: restrict_to_owner_def)
qed

lemma create_owner_only_effect:
  assumes "create_owner_only K p F = (r, G)"
  shows "keeps F G \<and> f_locks G = f_locks F \<and>
    (\<forall>i. r = Inr i \<longrightarrow> (\<exists>q m. opens G p q i \<and> f_entry G q = Some m \<and> m_mode m = JOURNAL_FILE_MODE)) \<and>
    (\<forall>q i. opens F p q i \<longrightarrow> only_at {q} F G \<and> (\<forall>j. r = Inr j \<longrightarrow> j = i))"
proof -
  obtain r1 F1 where o: "open_create K JOURNAL_FILE_MODE p F = (r1, F1)" by fastforce
  note oe = open_create_effect [OF o]
  show ?thesis
  proof (cases r1)
    case (Inl e)
    then show ?thesis using assms o oe by (auto simp: create_owner_only_def only_at_def)
  next
    case (Inr i)
    obtain r2 F2 where s: "restrict_to_owner K p F1 = (r2, F2)" by fastforce
    note se = restrict_to_owner_effect [OF s]
    have G: "G = F2" "r = (case r2 of Inl e \<Rightarrow> Inl e | Inr _ \<Rightarrow> Inr i)"
      using assms o Inr s by (auto simp: create_owner_only_def split: sum.splits)
    have k: "keeps F F2" using oe se keeps_trans by blast
    obtain q where q: "opens F1 p q i" using oe Inr by blast
    then have q2: "opens F2 p q i" using se opens_keeps by blast
    have mode: "\<exists>m. f_entry F2 q = Some m \<and> m_mode m = JOURNAL_FILE_MODE" if "r2 = Inr ()"
      using that se q by (auto simp: opens_def)
    have only: "only_at {q'} F F2" if "opens F p q' j" for q' j
    proof -
      have e: "f_entry F1 = f_entry F" using oe that by blast
      then have f: "follow link_depth F1 p = Some q'"
        using that follow_same_entries [OF e] by (simp add: opens_def)
      have "f_entry F2 q'' = f_entry F1 q''" if "q'' \<noteq> q'" for q''
        using that se f by (cases r2) auto
      then show ?thesis using e oe se by (simp add: only_at_def)
    qed
    show ?thesis
      using G k oe se q2 mode only Inr by (cases r2) auto
  qed
qed

lemma flock_effect:
  "flock_exclusive K i F = (r, G) \<Longrightarrow> f_entry G = f_entry F \<and>
     (r = Inr True \<longrightarrow> i \<notin> set (f_locks F) \<and> f_locks G = i # f_locks F) \<and>
     (r \<noteq> Inr True \<longrightarrow> f_locks G = f_locks F) \<and>
     (faultless K \<longrightarrow> r = Inr (i \<notin> set (f_locks F)))"
  by (auto simp: syscall_defs system_call_def Let_def faultless_def split: option.splits if_splits)

lemma lock_single_instance_effect:
  assumes "lock_single_instance K p F = (r, G)"
  shows "keeps F G \<and> (is_err r \<longrightarrow> f_locks G = f_locks F) \<and>
    (\<forall>i. r = Inr i \<longrightarrow> f_locks G = i # f_locks F \<and> i \<notin> set (f_locks F) \<and> (\<exists>q. opens G p q i)) \<and>
    (\<forall>q i. opens F p q i \<and> i \<in> set (f_locks F) \<longrightarrow> is_err r \<and> only_at {q} F G)"
proof -
  obtain r1 F1 where c: "create_owner_only K p F = (r1, F1)" by fastforce
  note ce = create_owner_only_effect [OF c]
  show ?thesis
  proof (cases r1)
    case (Inl e)
    then have "r = Inl e" "G = F1" using assms c by (simp_all add: lock_single_instance_def)
    then show ?thesis using ce by blast
  next
    case (Inr i)
    obtain r2 F2 where f: "flock_exclusive K i F1 = (r2, F2)" by fastforce
    note fe = flock_effect [OF f]
    have k: "keeps F F2" "\<exists>q. opens F2 p q i"
      using ce fe Inr keeps_same_entries keeps_trans opens_same_entries by metis+
    have G: "G = F2" "r2 = Inr True \<Longrightarrow> r = Inr i" "r2 \<noteq> Inr True \<Longrightarrow> is_err r"
      using assms c Inr f by (auto simp: lock_single_instance_def split: sum.splits bool.splits)
    have "is_err r \<and> only_at {q} F F2" if "opens F p q j" "j \<in> set (f_locks F)" for q j
    proof -
      have "only_at {q} F F1" "j = i" using ce that(1) Inr by blast+
      then show ?thesis using fe ce that(2) G(3) by (simp add: only_at_def)
    qed
    then show ?thesis
      using G k ce fe by (cases "r2 = Inr True") auto
  qed
qed

subsection \<open>Owner-only files stay so\<close>

definition owner_only :: "files \<Rightarrow> path \<Rightarrow> bool" where
  "owner_only F p \<longleftrightarrow>
     (\<forall>q m. follow link_depth F p = Some q \<and> f_entry F q = Some m \<longrightarrow> m_mode m = JOURNAL_FILE_MODE)"

text \<open>A spurious \<open>NotFound\<close> is the one fault that could pass for a side file that is not there.\<close>

definition honest :: "kernel \<Rightarrow> bool" where
  "honest K \<longleftrightarrow> (\<forall>n e. k_fault K n = Some e \<longrightarrow> io_kind e \<noteq> NotFound)"

lemma follow_mode:
  assumes "f_entry F q = Some m" "f_entry G = (f_entry F)(q \<mapsto> m\<lparr>m_mode := mode\<rparr>)"
  shows "follow n G = follow n F"
proof (induction n)
  case (Suc n)
  show ?case by (rule ext) (simp add: assms Suc split: option.split entry_kind.split)
qed (rule ext, simp)

lemma restrict_keeps_owner_only:
  assumes "restrict_to_owner K p F = (r, G)" "owner_only F p'"
  shows "owner_only G p'"
proof (cases r)
  case (Inl e)
  then have "f_entry G = f_entry F" using restrict_to_owner_effect [OF assms(1)] by auto
  then show ?thesis
    using assms(2) follow_same_entries [of G F] by (simp add: owner_only_def)
next
  case (Inr u)
  then obtain q m where q: "f_entry F q = Some m"
    "f_entry G = (f_entry F)(q \<mapsto> m\<lparr>m_mode := JOURNAL_FILE_MODE\<rparr>)"
    using restrict_to_owner_effect [OF assms(1)] by auto
  then show ?thesis
    using assms(2) follow_mode [OF q] by (auto simp: owner_only_def)
qed

lemma restrict_makes_owner_only:
  assumes "restrict_to_owner K p F = (r, G)" "honest K"
    and "r = Inr () \<or> (\<exists>e. r = Inl e \<and> io_kind e = NotFound)"
  shows "owner_only G p"
proof (cases r)
  case (Inl e)
  obtain r1 F1 where s: "set_permissions K p JOURNAL_FILE_MODE F = (r1, F1)" by fastforce
  then obtain e1 where e1: "r1 = Inl e1" "io_kind e1 = NotFound" "G = F1"
    using assms(1,3) Inl by (cases r1) (auto simp: restrict_to_owner_def)
  have e: "f_entry G = f_entry F" using restrict_to_owner_effect [OF assms(1)] Inl by auto
  have "\<exists>q. follow link_depth F p = Some q \<and> f_entry F q = None"
    using s e1 assms(2)
    by (auto simp: set_permissions_def system_call_def Let_def honest_def too_many_links_def
        split: option.splits)
  then show ?thesis by (auto simp: owner_only_def e follow_same_entries [OF e])
next
  case (Inr u)
  then obtain q m where q: "follow link_depth F p = Some q" "f_entry F q = Some m"
    "f_entry G = (f_entry F)(q \<mapsto> m\<lparr>m_mode := JOURNAL_FILE_MODE\<rparr>)"
    using restrict_to_owner_effect [OF assms(1)] by auto
  then show ?thesis using follow_mode [OF q(2,3)] by (auto simp: owner_only_def)
qed

lemma restrict_sides_effect:
  assumes "restrict_sides K p ss F = (r, G)"
  shows "keeps F G \<and> f_locks G = f_locks F \<and> (\<forall>p'. owner_only F p' \<longrightarrow> owner_only G p') \<and>
    (honest K \<and> r = Inr () \<longrightarrow> (\<forall>s \<in> set ss. owner_only G (with_suffix p s)))"
  using assms
proof (induction ss arbitrary: F)
  case (Cons s ss)
  obtain r1 F1 where f: "restrict_to_owner K (with_suffix p s) F = (r1, F1)" by fastforce
  note fe = restrict_to_owner_effect [OF f]
  note fo = restrict_keeps_owner_only [OF f]
  show ?case
  proof (cases "\<exists>e. r1 = Inl e \<and> io_kind e \<noteq> NotFound")
    case True
    then show ?thesis using Cons.prems f fe fo by auto
  next
    case False
    then have "restrict_sides K p ss F1 = (r, G)"
      using Cons.prems f by (cases r1) auto
    note ih = Cons.IH [OF this]
    have "honest K \<Longrightarrow> owner_only F1 (with_suffix p s)"
      using False by (intro restrict_makes_owner_only [OF f]) (cases r1; auto)+
    moreover have "keeps F G" using fe ih keeps_trans by blast
    ultimately show ?thesis using fe fo ih by auto
  qed
qed simp

lemma restrict_journal_effect:
  assumes "restrict_journal K p F = (r, G)"
  shows "keeps F G \<and> f_locks G = f_locks F \<and>
    (r = Inr () \<longrightarrow> (\<exists>q i. opens G p q i) \<and> owner_only G p \<and>
       (honest K \<longrightarrow> (\<forall>s \<in> set JOURNAL_SIDE_SUFFIXES. owner_only G (with_suffix p s))))"
proof -
  obtain r1 F1 where c: "create_owner_only K p F = (r1, F1)" by fastforce
  note ce = create_owner_only_effect [OF c]
  show ?thesis
  proof (cases r1)
    case (Inl e)
    then show ?thesis using assms c ce by (auto simp: restrict_journal_def)
  next
    case (Inr i)
    then have s: "restrict_sides K p JOURNAL_SIDE_SUFFIXES F1 = (r, G)"
      using assms c by (simp add: restrict_journal_def)
    note se = restrict_sides_effect [OF s]
    obtain q m where q: "opens F1 p q i" "f_entry F1 q = Some m" "m_mode m = JOURNAL_FILE_MODE"
      using ce Inr by blast
    then have "owner_only F1 p" by (auto simp: owner_only_def opens_def)
    moreover have "opens G p q i" using q(1) se opens_keeps by blast
    moreover have "keeps F G" using ce se keeps_trans by blast
    moreover have "f_locks G = f_locks F" using ce se by simp
    ultimately show ?thesis using se by blast
  qed
qed

lemma restrict_new_keeps:
  assumes "restrict_new K d F = (r, G)"
  shows "keeps F G"
proof -
  obtain r1 F1 where c: "create_dir K PRIVATE_DIR_MODE d F = (r1, F1)" by fastforce
  note ce = create_dir_effect [OF c]
  show ?thesis
  proof (cases r1)
    case (Inl e)
    then show ?thesis
      using assms c ce keeps_same_entries by (auto simp: restrict_new_def split: if_splits)
  next
    case (Inr u)
    then have "f_entry F d = None" using ce by simp
    then show ?thesis using restrict_new_effect [OF assms] keeps_only_new by blast
  qed
qed

lemma private_directory_in_keeps:
  assumes "private_directory_in K uid base F = (r, G)"
  shows "keeps F G"
proof -
  let ?d = "join (fst base) PRIVATE_DIR_NAME"
  obtain r1 F1 where v: "vet_ancestors K uid base F = (r1, F1)" by fastforce
  then have k1: "keeps F F1"
    using vet_ancestors_effect [OF v] keeps_same_entries by (simp add: same_files_def)
  obtain r2 F2 where c: "restrict_new K ?d F1 = (r2, F2)" by fastforce
  have k2: "keeps F F2" using k1 restrict_new_keeps [OF c] keeps_trans by blast
  obtain r3 F3 where m: "symlink_metadata K ?d F2 = (r3, F3)" by fastforce
  have k3: "keeps F F3"
    using k2 symlink_metadata_effect [OF m] by (simp add: keeps_def only_at_def)
  have "G = F1 \<or> G = F2 \<or> G = F3"
    using assms v c m
    by (auto simp: private_directory_in_def restrict_new_def Let_def
        split: sum.splits prod.splits if_splits)
  then show ?thesis using k1 k2 k3 by blast
qed

lemma resolve_paths_keeps:
  assumes "resolve_paths K opts uid env F = (r, G)"
  shows "keeps F G"
proof -
  obtain r1 F1 where
    p: "private_directory_in K uid (runtime_base (env ''XDG_RUNTIME_DIR'') uid) F = (r1, F1)"
    and same: "same_files F1 G"
    using resolve_paths_effect [OF assms [unfolded resolve_paths_def]] by blast
  have "keeps F1 G" using same unfolding same_files_def by (blast intro: keeps_same_entries)
  with private_directory_in_keeps [OF p] show ?thesis by (rule keeps_trans)
qed

lemma bind_transport_keeps:
  assumes "bind_transport K p F = (r, G)"
  shows "keeps F G"
  unfolding keeps_def
proof (intro allI impI)
  fix q m assume q: "f_entry F q = Some m \<and> m_kind m \<noteq> SocketFile"
  have "f_entry G q = f_entry F q"
    using bind_transport_cases [OF assms] q by (cases "q = p") (auto simp: only_at_def)
  then show "\<exists>n. f_entry G q = Some n \<and> continues m n" using q by simp
qed

lemma bind_transport_locks:
  assumes "bind_transport K p F = (r, G)"
  shows "f_locks G = f_locks F"
proof -
  obtain r1 F1 where c: "clear_stale K p F = (r1, F1)" by fastforce
  obtain r2 F2 where b: "bind_socket K p F1 = (r2, F2)" by fastforce
  obtain r3 F3 where s: "socket_identity K p F2 = (r3, F3)" by fastforce
  obtain r4 F4 where d: "remove_file K p F3 = (r4, F4)" by fastforce
  have "f_locks F1 = f_locks F" "f_locks F2 = f_locks F1" "f_locks F3 = f_locks F2" "f_locks F4 = f_locks F3"
    using clear_stale_effect [OF c] bind_socket_effect [OF b] socket_identity_effect [OF s]
      remove_file_effect [OF d] by simp_all
  moreover have "G \<in> {F1, F2, F3, F4}"
    using assms c b s d by (auto simp: bind_transport_def split: sum.splits)
  ultimately show ?thesis by auto
qed

subsection \<open>Every outcome of a start\<close>

text \<open>The steps of a start that got through.\<close>

definition came_up ::
  "'t host \<Rightarrow> 'p provider_ops \<Rightarrow> 'p \<Rightarrow> kernel \<Rightarrow> (path \<Rightarrow> 't journal) \<Rightarrow> string list \<Rightarrow>
     (string \<Rightarrow> string option) \<Rightarrow> files \<Rightarrow> ('p, 't) broker \<Rightarrow> paths \<Rightarrow> files \<Rightarrow> files \<Rightarrow> files \<Rightarrow> files \<Rightarrow> bool"
where
  "came_up H ops p K stored args env F B P F1 F2 F3 G \<longleftrightarrow>
     (\<exists>opts. parse_args args = Inr (Run opts) \<and> resolve_paths K opts (k_uid K) env F = (Inr P, F1)) \<and>
     lock_single_instance K (lock_at P) F1 = (Inr (b_lock B), F2) \<and>
     restrict_journal K (journal_at P) F2 = (Inr (), F3) \<and>
     (\<exists>pl j. open_plane H ops p (stored (journal_at P)) = (Inr pl, j) \<and>
        b_worker B = Some (new_service pl new_ledger)) \<and>
     bind_transport K (socket_at P) F3 = (Inr (b_transport B), G) \<and>
     b_authorizer B = for_current_process (k_uid K)"

lemma unlock_cons [simp]: "f_locks F = i # ls \<Longrightarrow> f_locks (unlock i F) = ls"
  by (simp add: unlock_def)

lemma keeps_unlock [simp]: "keeps F (unlock i G) = keeps F G"
  by (simp add: keeps_def unlock_def)

lemma build_service_effect:
  assumes "build_service H ops p K stored db F = (b, G)"
  shows "(\<exists>r. restrict_journal K db F = (r, G)) \<and>
    (\<forall>sv. b = Some (Inr sv) \<longrightarrow> restrict_journal K db F = (Inr (), G) \<and>
       (\<exists>pl j. open_plane H ops p (stored db) = (Inr pl, j) \<and> sv = new_service pl new_ledger))"
  using assms by (auto simp: build_service_def split: sum.splits prod.splits)

lemma start_broker_effect:
  assumes "start_broker H ops p K sf stored args env F = (r, G)"
  shows "keeps F G \<and> (is_err r \<longrightarrow> f_locks G = f_locks F) \<and>
    (\<forall>e. parse_args args = Inl e \<longrightarrow> r = Inl (BadArguments e) \<and> G = F) \<and>
    (\<forall>B. r = Inr (Listening B) \<longrightarrow>
       (\<exists>P F1 F2 F3. came_up H ops p K stored args env F B P F1 F2 F3 G))"
proof (cases "\<exists>opts. parse_args args = Inr (Run opts)")
  case False
  then show ?thesis
    using assms by (cases "parse_args args") (auto simp: start_broker_def split: invocation.splits)
next
  case True
  then obtain opts where o: "parse_args args = Inr (Run opts)" ..
  let ?u = "k_uid K"
  obtain r1 F1 where rp: "resolve_paths K opts ?u env F = (r1, F1)" by fastforce
  have k1: "keeps F F1" "f_locks F1 = f_locks F"
    using resolve_paths_keeps [OF rp] resolve_paths_effect [OF rp [unfolded resolve_paths_def]] by auto
  note start = assms [unfolded start_broker_def o, simplified, unfolded for_current_process_def Let_def,
    simplified, unfolded rp, simplified]
  show ?thesis
  proof (cases r1)
    case (Inl e)
    then show ?thesis using start k1 o by auto
  next
    case (Inr P)
    obtain r2 F2 where l: "lock_single_instance K (lock_at P) F1 = (r2, F2)" by fastforce
    note le = lock_single_instance_effect [OF l]
    have k2: "keeps F F2" by (rule keeps_trans [OF k1(1) conjunct1 [OF le]])
    show ?thesis
    proof (cases r2)
      case Inl2: (Inl e)
      then show ?thesis using start Inr l k1 k2 le o by auto
    next
      case Inr2: (Inr i)
      have locks: "f_locks F2 = i # f_locks F" using le Inr2 k1 by auto
      obtain built F3 where b:
        "(if sf = None then build_service H ops p K stored (journal_at P) F2 else (None, F2)) = (built, F3)"
        by fastforce
      have "keeps F2 F3 \<and> f_locks F3 = f_locks F2"
      proof (cases sf)
        case None
        then obtain r3 where "restrict_journal K (journal_at P) F2 = (r3, F3)"
          using b build_service_effect [of H ops p K stored "journal_at P" F2 built F3] by auto
        then show ?thesis using restrict_journal_effect by blast
      qed (use b in simp)
      then have k3: "keeps F F3" "f_locks F3 = i # f_locks F"
        using keeps_trans [OF k2, of F3] locks by simp_all
      obtain r4 F4 where t: "bind_transport K (socket_at P) F3 = (r4, F4)" by fastforce
      have k4: "keeps F F4" "f_locks F4 = i # f_locks F"
        using keeps_trans [OF k3(1) bind_transport_keeps [OF t]] bind_transport_locks [OF t] k3 by simp_all
      show ?thesis
      proof (cases "spawn_service sf built")
        case Inl3: (Inl e)
        then have "r = Inl (StartIo e)" "G = unlock i F3"
          using start Inr l Inr2 b by simp_all
        then show ?thesis using k3 o by simp
      next
        case Inr3: (Inr w)
        then obtain sv where sv: "sf = None" "built = Some (Inr sv)" "w = Some sv"
          by (auto simp: spawn_service_def split: option.splits sum.splits)
        show ?thesis
        proof (cases r4)
          case Inl4: (Inl e)
          then have "r = Inl (StartIo e)" "G = unlock i F4"
            using start Inr l Inr2 b Inr3 t by simp_all
          then show ?thesis using k4 o by simp
        next
          case Inr4: (Inr tr)
          let ?B = "\<lparr>b_transport = tr, b_worker = w, b_authorizer = for_current_process (k_uid K), b_lock = i\<rparr>"
          have r: "r = Inr (Listening ?B)" "G = F4"
            using start Inr l Inr2 b Inr3 t Inr4 by (simp_all add: for_current_process_def)
          have "came_up H ops p K stored args env F ?B P F1 F2 F3 F4"
            using o rp Inr l Inr2 t Inr4 sv b build_service_effect [of H ops p K stored "journal_at P" F2 built F3]
            by (auto simp: came_up_def)
          then show ?thesis using r k4 o by auto
        qed
      qed
    qed
  qed
qed

subsection \<open>A concrete start\<close>

lemmas start_simps = vet_simps resolve_paths_def resolve_paths_from_def private_directory_in_def
  or_env_def no_options_def me_env_def SOCKET_ENV_def JOURNAL_ENV_def join_def has_directory_def
  target_def follow_unfold new_meta_def PRIVATE_DIR_MODE_def PERMISSION_BITS_def
  lock_single_instance_def create_owner_only_def restrict_to_owner_def restrict_journal_def
  JOURNAL_SIDE_SUFFIXES_def with_suffix_def not_found_def bind_transport_def clear_stale_def
  socket_identity_def JOURNAL_FILE_MODE_def PRIVATE_DIR_NAME_def DEFAULT_SOCKET_NAME_def
  DEFAULT_JOURNAL_NAME_def LOCK_FILE_NAME_def

lemma demo_open: "\<exists>pl j. open_plane plain_host (mock_ops ''linux'') \<lparr>mock_value = 0\<rparr> empty_journal = (Inr pl, j)"
  by (simp add: open_plane_def mock_ops_def mock_manifest_def statement_def plain_host_def Let_def)

lemma demo_start:
  "\<exists>B G. start_broker plain_host (mock_ops ''linux'') \<lparr>mock_value = 0\<rparr> plain_kernel None
     (\<lambda>_. empty_journal) [] me_env run_files = (Inr (Listening B), G)"
proof -
  obtain pl j where "open_plane plain_host (mock_ops ''linux'') \<lparr>mock_value = 0\<rparr> empty_journal = (Inr pl, j)"
    using demo_open by blast
  moreover have "runtime_base (Some ''/run/me'') 1000 = (Path True [''run'', ''me''], False)"
    by (simp add: runtime_base_def write_path_def path_of_def ROOT_UID_def)
  ultimately show ?thesis
    by (simp add: start_broker_def parse_args_def for_current_process_def build_service_def
        spawn_service_def start_simps)
qed

lemma plain_kernel_honest: "faultless plain_kernel" "honest plain_kernel"
  by (simp_all add: faultless_def honest_def plain_kernel_def)

subsection \<open>Properties\<close>

lemma follow_away:
  assumes "\<And>x. x \<noteq> s \<Longrightarrow> f_entry G x = f_entry F x" "f_entry G s = Some m" "\<And>t. m_kind m \<noteq> Symlink t"
  shows "follow n G p = Some q \<Longrightarrow> q \<noteq> s \<Longrightarrow> follow n F p = Some q"
proof (induction n arbitrary: p)
  case (Suc n)
  show ?case
  proof (cases "p = s")
    case True
    then show ?thesis using Suc.prems assms(2,3) by (cases "m_kind m") auto
  next
    case False
    then show ?thesis
      using Suc assms(1) [OF False] by (auto split: option.splits entry_kind.splits)
  qed
qed simp

lemma owner_only_after_bind:
  assumes "bind_transport K s F = (Inr t, G)" "owner_only F p"
    and "follow link_depth G p = Some q" "f_entry G q = Some n" "q \<noteq> s"
  shows "m_mode n = JOURNAL_FILE_MODE"
proof -
  note be = bind_transport_cases [OF assms(1)]
  then obtain m where m: "f_entry G s = Some m" "m_kind m = SocketFile" by blast
  have same: "f_entry G x = f_entry F x" if "x \<noteq> s" for x
    using be that by (simp add: only_at_def)
  have "follow link_depth F p = Some q"
    using follow_away [of s G F m link_depth p q] same m assms(3,5) by simp
  moreover have "f_entry F q = Some n" using same assms(4,5) by simp
  ultimately show ?thesis using assms(2) by (auto simp: owner_only_def)
qed

text \<open>
  C19: A broker that listens is private and alone.  When a start gets through, the socket and the
  journal are entries of directories no other user can reach; the socket is there, a socket, with
  the identity the transport remembers; the lock file is locked by this broker; the journal exists,
  and it and every side file beside it have mode 0600, which a spurious \<open>NotFound\<close> alone could hide;
  and the ledger starts empty on a plane opened on that journal.
\<close>

theorem listening_broker_is_private:
  assumes "start_broker H ops p K sf stored args env F = (Inr (Listening B), G)" "honest K"
  shows "\<exists>opts (P :: paths). parse_args args = Inr (Run opts) \<and>
    private_entry G (k_uid K) (socket_at P) \<and> private_entry G (k_uid K) (journal_at P) \<and>
    (\<exists>m. f_entry G (socket_at P) = Some m \<and> m_kind m = SocketFile \<and>
       t_identity (b_transport B) = (m_dev m, m_ino m)) \<and>
    (\<exists>q. opens G (lock_at P) q (b_lock B)) \<and> b_lock B \<in> set (f_locks G) \<and>
    (\<exists>q i. opens G (journal_at P) q i) \<and>
    (\<forall>file \<in> {journal_at P} \<union> with_suffix (journal_at P) ` set JOURNAL_SIDE_SUFFIXES.
       \<forall>q m. follow link_depth G file = Some q \<and> f_entry G q = Some m \<and> q \<noteq> socket_at P \<longrightarrow>
         m_mode m = JOURNAL_FILE_MODE) \<and>
    (\<exists>pl j. open_plane H ops p (stored (journal_at P)) = (Inr pl, j) \<and>
       b_worker B = Some (new_service pl new_ledger))"
proof -
  obtain P F1 F2 F3 where s: "came_up H ops p K stored args env F B P F1 F2 F3 G"
    using start_broker_effect [OF assms(1)] by blast
  then obtain opts where o: "parse_args args = Inr (Run opts)"
    and rp: "resolve_paths K opts (k_uid K) env F = (Inr P, F1)"
    and l: "lock_single_instance K (lock_at P) F1 = (Inr (b_lock B), F2)"
    and j: "restrict_journal K (journal_at P) F2 = (Inr (), F3)"
    and b: "bind_transport K (socket_at P) F3 = (Inr (b_transport B), G)"
    and sv: "\<exists>pl j. open_plane H ops p (stored (journal_at P)) = (Inr pl, j) \<and>
        b_worker B = Some (new_service pl new_ledger)"
    unfolding came_up_def by blast
  note le = lock_single_instance_effect [OF l] and je = restrict_journal_effect [OF j]
    and be = bind_transport_cases [OF b]
  have k3: "keeps F3 G" by (rule bind_transport_keeps [OF b])
  have k2: "keeps F2 G" by (rule keeps_trans [OF conjunct1 [OF je] k3])
  have k1: "keeps F1 G" by (rule keeps_trans [OF conjunct1 [OF le] k2])
  have "private_entry F1 (k_uid K) (socket_at P)" "private_entry F1 (k_uid K) (journal_at P)"
    using resolve_paths_effect [OF rp [unfolded resolve_paths_def]] by auto
  then have priv: "private_entry G (k_uid K) (socket_at P)" "private_entry G (k_uid K) (journal_at P)"
    using keeps_private [OF k1] by blast+
  have lock: "\<exists>q. opens G (lock_at P) q (b_lock B)" using le opens_keeps [OF k2] by blast
  have held: "b_lock B \<in> set (f_locks G)" using le je bind_transport_locks [OF b] by auto
  obtain m where m: "f_entry G (socket_at P) = Some m" "m_kind m = SocketFile"
    "t_identity (b_transport B) = (m_dev m, m_ino m)" using be by blast
  have journal: "\<exists>q i. opens G (journal_at P) q i" using je opens_keeps [OF k3] by blast
  have "owner_only F3 x"
    if "x \<in> {journal_at P} \<union> with_suffix (journal_at P) ` set JOURNAL_SIDE_SUFFIXES" for x
    using je assms(2) that by blast
  then have files: "\<forall>file \<in> {journal_at P} \<union> with_suffix (journal_at P) ` set JOURNAL_SIDE_SUFFIXES.
       \<forall>q m. follow link_depth G file = Some q \<and> f_entry G q = Some m \<and> q \<noteq> socket_at P \<longrightarrow>
         m_mode m = JOURNAL_FILE_MODE"
    using owner_only_after_bind [OF b] by blast
  show ?thesis
    by (rule exI [of _ opts], rule exI [of _ P], intro conjI)
      (use o priv m lock held journal files sv in blast)+
qed

theorem listening_broker_is_private_witness:
  "\<exists>B G (P :: paths). start_broker plain_host (mock_ops ''linux'') \<lparr>mock_value = 0\<rparr> plain_kernel None
     (\<lambda>_. empty_journal) [] me_env run_files = (Inr (Listening B), G) \<and>
     private_entry G 1000 (journal_at P) \<and> b_lock B \<in> set (f_locks G)"
proof -
  obtain B G where s: "start_broker plain_host (mock_ops ''linux'') \<lparr>mock_value = 0\<rparr> plain_kernel None
      (\<lambda>_. empty_journal) [] me_env run_files = (Inr (Listening B), G)"
    using demo_start by blast
  have "k_uid plain_kernel = 1000" by (simp add: plain_kernel_def)
  with listening_broker_is_private [OF s plain_kernel_honest(2)] s show ?thesis by auto
qed

lemma create_owner_only_opens:
  assumes "faultless K" "opens F p q i"
  shows "\<exists>G. create_owner_only K p F = (Inr i, G)"
proof -
  obtain m where m: "follow link_depth F p = Some q" "f_entry F q = Some m" "m_kind m \<noteq> SocketFile"
    "m_kind m \<noteq> Directory" "i = (m_dev m, m_ino m)"
    using assms(2) unfolding opens_def by blast
  obtain G where o: "open_create K JOURNAL_FILE_MODE p F = (Inr i, G)"
    using m assms(1)
    by (cases "m_kind m") (auto simp: open_create_def system_call_def Let_def faultless_def)
  then have "opens G p q i" "f_entry G = f_entry F"
    using open_create_effect [OF o] assms(2) opens_keeps by blast+
  then obtain H where "restrict_to_owner K p G = (Inr (), H)"
    using assms(1)
    by (auto simp: restrict_to_owner_def set_permissions_def system_call_def Let_def faultless_def
        opens_def)
  then show ?thesis using o by (simp add: create_owner_only_def)
qed

lemma lock_single_instance_held:
  assumes "faultless K" "opens F p q i" "i \<in> set (f_locks F)"
    and "lock_single_instance K p F = (r, G)"
  shows "\<exists>e. r = Inl e \<and> io_kind e = AddrInUse"
proof -
  obtain F1 where c: "create_owner_only K p F = (Inr i, F1)"
    using create_owner_only_opens [OF assms(1,2)] by blast
  then have "i \<in> set (f_locks F1)" using create_owner_only_effect [OF c] assms(3) by simp
  moreover obtain r2 F2 where f: "flock_exclusive K i F1 = (r2, F2)" by fastforce
  ultimately have "r2 = Inr False" using flock_effect [OF f] assms(1) by simp
  then show ?thesis using assms(4) c f by (auto simp: lock_single_instance_def)
qed

lemma held_lock_stops_start:
  assumes "start_broker H ops p K sf stored args env F = (r, G)"
  defines "d \<equiv> join (fst (runtime_base (env ''XDG_RUNTIME_DIR'') (k_uid K))) PRIVATE_DIR_NAME"
  assumes q: "opens F (join d LOCK_FILE_NAME) q i" "i \<in> set (f_locks F)"
  shows "(\<forall>B. r \<noteq> Inr (Listening B)) \<and> only_at {d, q} F G \<and>
    (\<forall>opts P I. faultless K \<and> parse_args args = Inr (Run opts) \<and>
       resolve_paths K opts (k_uid K) env F = (Inr P, I) \<longrightarrow>
       (\<exists>e. r = Inl (StartIo e) \<and> io_kind e = AddrInUse))"
proof (cases "\<exists>opts. parse_args args = Inr (Run opts)")
  case False
  then show ?thesis
    using assms(1) by (cases "parse_args args") (auto simp: start_broker_def split: invocation.splits)
next
  case True
  then obtain opts where o: "parse_args args = Inr (Run opts)" ..
  obtain r1 F1 where rp: "resolve_paths K opts (k_uid K) env F = (r1, F1)" by fastforce
  note re = resolve_paths_effect [OF rp [unfolded resolve_paths_def], folded d_def]
  note start = assms(1) [unfolded start_broker_def o, simplified, unfolded for_current_process_def
    Let_def, simplified, unfolded rp, simplified]
  have only1: "only_at {d, q} F F1" using re only_at_mono [of "{d}" F F1 "{d, q}"] by simp
  show ?thesis
  proof (cases r1)
    case (Inl e)
    then show ?thesis using start rp o only1 by auto
  next
    case (Inr P)
    have L: "lock_at P = join d LOCK_FILE_NAME" using re Inr by blast
    have q1: "opens F1 (lock_at P) q i" "i \<in> set (f_locks F1)"
      using opens_keeps [OF resolve_paths_keeps [OF rp] q(1)] re q(2) L by simp_all
    obtain r2 F2 where l: "lock_single_instance K (lock_at P) F1 = (r2, F2)" by fastforce
    note le = lock_single_instance_effect [OF l]
    obtain e where e: "r2 = Inl e" "only_at {q} F1 F2" using le q1 by blast
    have "only_at {d, q} F F2"
      using only1 only_at_mono [OF e(2), of "{d, q}"] only_at_trans by blast
    moreover have "r = Inl (StartIo e)" "G = F2" using start Inr l e by simp_all
    ultimately show ?thesis
      using lock_single_instance_held [OF _ q1 l] e by auto
  qed
qed

text \<open>
  C5: One broker per uid and base directory.  While a broker that got through its start still holds
  its lock, and no entry but sockets was replaced since, no other start with the same uid and the same
  base directory, whatever its arguments, kernel faults, provider and other variables, gets to
  listen; it changes no entry but the private directory's and the lock file's, so neither the journal
  nor the socket; and when its arguments and paths are good and the file system answers, it fails
  with \<open>AddrInUse\<close>.
\<close>

theorem one_broker_per_base:
  assumes "start_broker H ops p K sf stored args env F = (Inr (Listening B), G)"
    and "keeps G F'" "b_lock B \<in> set (f_locks F')"
    and "start_broker H' ops' p' K' sf' stored' args' env' F' = (r, G')"
    and "k_uid K' = k_uid K"
    and "runtime_base (env' ''XDG_RUNTIME_DIR'') (k_uid K) = runtime_base (env ''XDG_RUNTIME_DIR'') (k_uid K)"
  shows "(\<forall>B'. r \<noteq> Inr (Listening B')) \<and>
    (\<exists>d lock. d = join (fst (runtime_base (env ''XDG_RUNTIME_DIR'') (k_uid K))) PRIVATE_DIR_NAME \<and>
       opens F' (join d LOCK_FILE_NAME) lock (b_lock B) \<and>
       (\<forall>q. q \<noteq> d \<and> q \<noteq> lock \<longrightarrow> f_entry G' q = f_entry F' q)) \<and>
    (\<forall>opts P I. faultless K' \<and> parse_args args' = Inr (Run opts) \<and>
       resolve_paths K' opts (k_uid K') env' F' = (Inr P, I) \<longrightarrow>
       (\<exists>e. r = Inl (StartIo e) \<and> io_kind e = AddrInUse))"
proof -
  let ?base = "runtime_base (env ''XDG_RUNTIME_DIR'') (k_uid K)"
  let ?d = "join (fst ?base) PRIVATE_DIR_NAME"
  let ?L = "join ?d LOCK_FILE_NAME"
  obtain P F1 F2 F3 where s: "came_up H ops p K stored args env F B P F1 F2 F3 G"
    using start_broker_effect [OF assms(1)] by blast
  then obtain opts where rp: "resolve_paths K opts (k_uid K) env F = (Inr P, F1)"
    and l: "lock_single_instance K (lock_at P) F1 = (Inr (b_lock B), F2)"
    and j: "restrict_journal K (journal_at P) F2 = (Inr (), F3)"
    and b: "bind_transport K (socket_at P) F3 = (Inr (b_transport B), G)"
    unfolding came_up_def by blast
  have L: "lock_at P = ?L"
    using resolve_paths_effect [OF rp [unfolded resolve_paths_def]] by blast
  have "keeps F3 F'" by (rule keeps_trans [OF bind_transport_keeps [OF b] assms(2)])
  then have "keeps F2 F'" using restrict_journal_effect [OF j] keeps_trans by blast
  then obtain q where q: "opens F' ?L q (b_lock B)"
    using lock_single_instance_effect [OF l] L opens_keeps by metis
  note h = held_lock_stops_start [OF assms(4), unfolded assms(5,6), OF q assms(3)]
  show ?thesis
  proof (intro conjI)
    show "\<exists>d lock. d = ?d \<and> opens F' (join d LOCK_FILE_NAME) lock (b_lock B) \<and>
        (\<forall>q. q \<noteq> d \<and> q \<noteq> lock \<longrightarrow> f_entry G' q = f_entry F' q)"
      using q h by (auto simp: only_at_def)
  qed (use h assms(5) in auto)
qed

theorem one_broker_per_base_witness:
  "\<exists>B G r G'. start_broker plain_host (mock_ops ''linux'') \<lparr>mock_value = 0\<rparr> plain_kernel None
       (\<lambda>_. empty_journal) [] me_env run_files = (Inr (Listening B), G) \<and>
     start_broker plain_host (mock_ops ''linux'') \<lparr>mock_value = 0\<rparr> plain_kernel None
       (\<lambda>_. empty_journal) [''--socket=/run/me/other''] me_env G = (r, G') \<and>
     (\<forall>B'. r \<noteq> Inr (Listening B'))"
proof -
  obtain B G where s: "start_broker plain_host (mock_ops ''linux'') \<lparr>mock_value = 0\<rparr> plain_kernel None
      (\<lambda>_. empty_journal) [] me_env run_files = (Inr (Listening B), G)"
    using demo_start by blast
  then obtain P F1 F2 F3 where "came_up plain_host (mock_ops ''linux'') \<lparr>mock_value = 0\<rparr> plain_kernel
      (\<lambda>_. empty_journal) [] me_env run_files B P F1 F2 F3 G"
    using start_broker_effect [OF s] by blast
  then have l: "lock_single_instance plain_kernel (lock_at P) F1 = (Inr (b_lock B), F2)"
    and j: "restrict_journal plain_kernel (journal_at P) F2 = (Inr (), F3)"
    and b: "bind_transport plain_kernel (socket_at P) F3 = (Inr (b_transport B), G)"
    unfolding came_up_def by blast+
  have held: "b_lock B \<in> set (f_locks G)"
    using lock_single_instance_effect [OF l] restrict_journal_effect [OF j] bind_transport_locks [OF b]
    by auto
  obtain r G' where second: "start_broker plain_host (mock_ops ''linux'') \<lparr>mock_value = 0\<rparr> plain_kernel None
       (\<lambda>_. empty_journal) [''--socket=/run/me/other''] me_env G = (r, G')"
    by fastforce
  have "\<forall>B'. r \<noteq> Inr (Listening B')"
    by (rule one_broker_per_base [OF s keeps_refl held second refl refl, THEN conjunct1])
  then show ?thesis using s second by (intro exI conjI)
qed

lemma drop_transport_effect:
  "f_locks (drop_transport K t F) = f_locks F \<and>
   (\<forall>q. q \<noteq> t_path t \<longrightarrow> f_entry (drop_transport K t F) q = f_entry F q)"
proof -
  obtain r1 G where s: "socket_identity K (t_path t) F = (r1, G)" by fastforce
  obtain r2 G' where r: "remove_file K (t_path t) G = (r2, G')" by fastforce
  show ?thesis
    using s r socket_identity_effect [OF s] remove_file_effect [OF r]
    by (cases r1) (auto simp: drop_transport_def only_at_def)
qed

text \<open>
  What a start takes it gives back.  A start that fails, at whatever step, holds no lock it did not
  hold before; a refused command line touches nothing.  When the accept loop of a broker that
  listened returns, the lock is released and, when the file system answers, the socket is gone, if
  the entry is still the one this broker bound; no other entry changes.
\<close>

theorem start_gives_back:
  assumes "start_broker H ops p K sf stored args env F = (r, G)"
  shows "(is_err r \<longrightarrow> f_locks G = f_locks F) \<and>
    (\<forall>e. parse_args args = Inl e \<longrightarrow> r = Inl (BadArguments e) \<and> G = F) \<and>
    (\<forall>B. r = Inr (Listening B) \<longrightarrow>
       f_locks (stop_broker K B G) = f_locks F \<and>
       (\<forall>q. q \<noteq> t_path (b_transport B) \<longrightarrow> f_entry (stop_broker K B G) q = f_entry G q) \<and>
       (faultless K \<longrightarrow> f_entry (stop_broker K B G) (t_path (b_transport B)) = None))"
proof -
  note e = start_broker_effect [OF assms]
  have stop: "f_locks (stop_broker K B G) = f_locks F \<and>
      (\<forall>q. q \<noteq> t_path (b_transport B) \<longrightarrow> f_entry (stop_broker K B G) q = f_entry G q) \<and>
      (faultless K \<longrightarrow> f_entry (stop_broker K B G) (t_path (b_transport B)) = None)"
    if r: "r = Inr (Listening B)" for B
  proof -
    let ?p = "t_path (b_transport B)"
    obtain P F1 F2 F3 where "came_up H ops p K stored args env F B P F1 F2 F3 G"
      using e r by blast
    then obtain opts where rp: "resolve_paths K opts (k_uid K) env F = (Inr P, F1)"
      and l: "lock_single_instance K (lock_at P) F1 = (Inr (b_lock B), F2)"
      and j: "restrict_journal K (journal_at P) F2 = (Inr (), F3)"
      and b: "bind_transport K (socket_at P) F3 = (Inr (b_transport B), G)"
      unfolding came_up_def by blast
    have locks: "f_locks G = b_lock B # f_locks F"
      using resolve_paths_effect [OF rp [unfolded resolve_paths_def]]
        lock_single_instance_effect [OF l] restrict_journal_effect [OF j] bind_transport_locks [OF b]
      by simp
    obtain m where m: "f_entry G ?p = Some m" "m_kind m = SocketFile"
      "t_identity (b_transport B) = (m_dev m, m_ino m)"
      using bind_transport_cases [OF b] by auto
    obtain D where D: "D = drop_transport K (b_transport B) G" by blast
    have "f_locks D = f_locks G" "\<forall>q. q \<noteq> ?p \<longrightarrow> f_entry D q = f_entry G q"
      using drop_transport_effect [of K "b_transport B" G] D by auto
    moreover have "faultless K \<longrightarrow> f_entry D ?p = None"
      using m D by (auto simp: drop_transport_def socket_identity_def symlink_metadata_def
          remove_file_def system_call_def Let_def faultless_def)
    ultimately show ?thesis
      using locks D by (simp add: stop_broker_def unlock_def)
  qed
  then show ?thesis using e by blast
qed

theorem start_gives_back_witness:
  "\<exists>B G. start_broker plain_host (mock_ops ''linux'') \<lparr>mock_value = 0\<rparr> plain_kernel None
     (\<lambda>_. empty_journal) [] me_env run_files = (Inr (Listening B), G) \<and>
     f_locks (stop_broker plain_kernel B G) = []"
proof -
  obtain B G where s: "start_broker plain_host (mock_ops ''linux'') \<lparr>mock_value = 0\<rparr> plain_kernel None
      (\<lambda>_. empty_journal) [] me_env run_files = (Inr (Listening B), G)"
    using demo_start by blast
  from start_gives_back [OF s] have "f_locks (stop_broker plain_kernel B G) = f_locks run_files" by blast
  then show ?thesis using s by (simp add: run_files_def)
qed

end
