(* ===== verification/Gateway.thy ===== *)
theory Gateway
  imports Broker
begin

section \<open>The MCP gateway (\<open>apps/gateway/src/lib.rs\<close>, \<open>apps/gateway/src/main.rs\<close>)\<close>

text \<open>
  Lines of JSON-RPC in, lines of JSON out, over a control plane of its own.  The JSON library is the
  parameter \<open>json_text\<close>; the output is a sink that may fail; a line of the input may fail to read.
\<close>

subsection \<open>Parameters and errors\<close>

record json_text =
  jt_parse :: "string \<Rightarrow> (string, json) result"
  jt_print :: "json \<Rightarrow> (string, string) result"
  jt_shape :: "json \<Rightarrow> string"

datatype gateway_error = GatewayPlane cp_error | GatewayIo string | GatewayJson string

type_synonym 's sink = "'s \<Rightarrow> string \<Rightarrow> (gateway_error, unit) result \<times> 's"

subsection \<open>Tools\<close>

definition text_content :: "string \<Rightarrow> string \<times> json" where
  "text_content s = (''content'', Arr [obj [(''type'', Str ''text''), (''text'', Str s)]])"

definition tool_failure :: "string \<Rightarrow> json" where
  "tool_failure s = obj [text_content s, (''isError'', Bool True)]"

definition tool_success :: "json_text \<Rightarrow> json \<Rightarrow> json" where
  "tool_success T v =
     (case jt_print T v of
        Inr s \<Rightarrow> obj [text_content s]
      | Inl e \<Rightarrow> tool_failure (''serialization failed: '' @ e))"

definition result_json :: "lifecycle_result \<Rightarrow> json" where
  "result_json r = obj
     [(''provider_id'', Str (res_provider r)), (''preview'', Str (res_preview r)),
      (''verified'', Bool (verified r)), (''rolled_back'', Bool (rolled_back r))]"

definition or_null :: "json option \<Rightarrow> json" where
  "or_null v = (case v of None \<Rightarrow> Null | Some x \<Rightarrow> x)"

definition lifecycle_arguments :: "json \<Rightarrow> json" where
  "lifecycle_arguments arguments = obj
     [(''capability_id'', Str ''mock.value''),
      (''parameters'', obj [(''value'', or_null (get ''value'' arguments))]),
      (''lease_seconds'', or_null (get ''lease_seconds'' arguments))]"

type_synonym rpc_error = "int \<times> string"

definition call_tool ::
  "json_text \<Rightarrow> 't host \<Rightarrow> 'p provider_ops \<Rightarrow> json \<Rightarrow> ('p, 't) plane \<Rightarrow>
     (rpc_error, json) result \<times> ('p, 't) plane" where
  "call_tool T H P params pl =
     (case Option.bind (get ''name'' params) as_str of
        None \<Rightarrow> (Inl (-32602, ''missing tool name''), pl)
      | Some name \<Rightarrow>
          if name = ''fpsmaxxing.capabilities''
          then (Inr (tool_success T (manifest_json (manifest pl))), pl)
          else if name = ''fpsmaxxing.run_mock_lifecycle''
          then (case get ''arguments'' params of
              None \<Rightarrow> (Inl (-32602, ''missing tool arguments''), pl)
            | Some arguments \<Rightarrow>
           (let v = lifecycle_arguments arguments in
            case change_of_json v of
              None \<Rightarrow> (Inl (-32602, ''invalid lifecycle arguments: '' @ jt_shape T v), pl)
            | Some c \<Rightarrow>
           (case run_lifecycle H P c pl of
              (Inr r, pl') \<Rightarrow> (Inr (tool_success T (result_json r)), pl')
            | (Inl e, pl') \<Rightarrow> (Inr (tool_failure (show_cp_error e)), pl'))))
          else (Inl (-32602, ''unknown tool: '' @ name), pl))"

subsection \<open>Dispatch\<close>

definition initialize_result :: json where
  "initialize_result = obj
     [(''protocolVersion'', Str ''2025-03-26''),
      (''serverInfo'', obj [(''name'', Str ''fpsmaxxing-gateway''), (''version'', Str ''0.1.0'')]),
      (''capabilities'', obj [(''tools'', obj [])])]"

definition integer_schema :: "u64 \<Rightarrow> u64 \<Rightarrow> json" where
  "integer_schema lo hi =
     obj [(''type'', Str ''integer''), (''minimum'', num lo), (''maximum'', num hi)]"

definition tools_result :: json where
  "tools_result = obj [(''tools'', Arr
     [obj [(''name'', Str ''fpsmaxxing.capabilities''),
        (''description'', Str ''Discover typed, policy-approved capabilities''),
        (''inputSchema'', obj [(''type'', Str ''object''), (''additionalProperties'', Bool False)])],
      obj [(''name'', Str ''fpsmaxxing.run_mock_lifecycle''),
        (''description'',
         Str ''Run snapshot, preview, apply, verify, and rollback for mock.value''),
        (''inputSchema'', obj
          [(''type'', Str ''object''), (''additionalProperties'', Bool False),
           (''required'', Arr [Str ''value'', Str ''lease_seconds'']),
           (''properties'', obj [(''value'', integer_schema 0 100),
              (''lease_seconds'', integer_schema 1 300)])])]])]"

definition reply :: "json \<Rightarrow> (rpc_error, json) result \<Rightarrow> json" where
  "reply rid r =
     (case r of
        Inr v \<Rightarrow> obj [(''jsonrpc'', Str ''2.0''), (''id'', rid), (''result'', v)]
      | Inl (code, message) \<Rightarrow> obj [(''jsonrpc'', Str ''2.0''), (''id'', rid),
          (''error'', obj [(''code'', Number (NegInt code)), (''message'', Str message)])])"

definition gateway_dispatch ::
  "json_text \<Rightarrow> 't host \<Rightarrow> 'p provider_ops \<Rightarrow> json \<Rightarrow> ('p, 't) plane \<Rightarrow> json option \<times> ('p, 't) plane" where
  "gateway_dispatch T H P request pl =
     (case get ''id'' request of
        None \<Rightarrow> (None, pl)
      | Some rid \<Rightarrow>
     (case (case Option.bind (get ''method'' request) as_str of
              None \<Rightarrow> (Inl (-32600, ''missing MCP method''), pl)
            | Some m \<Rightarrow>
                if m = ''initialize'' then (Inr initialize_result, pl)
                else if m = ''tools/list'' then (Inr tools_result, pl)
                else if m = ''tools/call'' then call_tool T H P (or_null (get ''params'' request)) pl
                else (Inl (-32601, ''method not found: '' @ m), pl))
      of (r, pl') \<Rightarrow> (Some (reply rid r), pl')))"

definition parse_error :: "string \<Rightarrow> json" where
  "parse_error e = reply Null (Inl (-32700, ''parse error: '' @ e))"

definition answer_line ::
  "json_text \<Rightarrow> 't host \<Rightarrow> 'p provider_ops \<Rightarrow> string \<Rightarrow> ('p, 't) plane \<Rightarrow> json option \<times> ('p, 't) plane" where
  "answer_line T H P line pl =
     (case jt_parse T line of
        Inl e \<Rightarrow> (Some (parse_error e), pl)
      | Inr request \<Rightarrow> gateway_dispatch T H P request pl)"

subsection \<open>The loop\<close>

definition write_line :: "json_text \<Rightarrow> 's sink \<Rightarrow> json \<Rightarrow> 's \<Rightarrow> (gateway_error, unit) result \<times> 's" where
  "write_line T out v s =
     (case jt_print T v of
        Inl e \<Rightarrow> (Inl (GatewayJson e), s)
      | Inr text \<Rightarrow> out s text)"

fun gateway_serve ::
  "json_text \<Rightarrow> 't host \<Rightarrow> 'p provider_ops \<Rightarrow> 's sink \<Rightarrow> (string, string) result list \<Rightarrow>
     ('p, 't) plane \<Rightarrow> 's \<Rightarrow> (gateway_error, unit) result \<times> ('p, 't) plane \<times> 's" where
  "gateway_serve T H P out [] pl s = (Inr (), pl, s)"
| "gateway_serve T H P out (Inl e # lines) pl s = (Inl (GatewayIo e), pl, s)"
| "gateway_serve T H P out (Inr line # lines) pl s =
     (case answer_line T H P line pl of
        (None, pl1) \<Rightarrow> gateway_serve T H P out lines pl1 s
      | (Some v, pl1) \<Rightarrow>
          (case write_line T out v s of
             (Inl e, s1) \<Rightarrow> (Inl e, pl1, s1)
           | (Inr _, s1) \<Rightarrow> gateway_serve T H P out lines pl1 s1))"

subsection \<open>The process\<close>

text \<open>The first argument that follows a \<open>--journal\<close>, wherever that stands.\<close>

fun journal_argument :: "string list \<Rightarrow> string option" where
  "journal_argument (a # b # as) =
     (if a = ''--journal'' then Some b else journal_argument (b # as))"
| "journal_argument _ = None"

definition gateway_journal :: "string list \<Rightarrow> (string \<Rightarrow> string option) \<Rightarrow> string" where
  "gateway_journal args env =
     (case journal_argument args of
        Some p \<Rightarrow> p
      | None \<Rightarrow> (case env ''FPSMAXXING_JOURNAL_PATH'' of
          Some p \<Rightarrow> p | None \<Rightarrow> ''fpsmaxxing-journal.sqlite''))"

definition gateway_main ::
  "json_text \<Rightarrow> 't host \<Rightarrow> 'p provider_ops \<Rightarrow> 'p \<Rightarrow> (string \<Rightarrow> 't journal) \<Rightarrow> 's sink \<Rightarrow>
     string list \<Rightarrow> (string \<Rightarrow> string option) \<Rightarrow> (string, string) result list \<Rightarrow> 's \<Rightarrow>
     (gateway_error, unit) result \<times> 's" where
  "gateway_main T H P p stored out args env lines s =
     (case open_plane H P p (stored (gateway_journal args env)) of
        (Inl e, _) \<Rightarrow> (Inl (GatewayPlane e), s)
      | (Inr pl, _) \<Rightarrow> (case gateway_serve T H P out lines pl s of (r, _, s1) \<Rightarrow> (r, s1)))"

subsection \<open>What a line can do\<close>

text \<open>The change a request asks for, when it asks for one.\<close>

definition requested_change :: "json \<Rightarrow> change_request option" where
  "requested_change request =
     (if get ''id'' request = None \<or> Option.bind (get ''method'' request) as_str \<noteq> Some ''tools/call''
      then None
      else let params = or_null (get ''params'' request) in
        if Option.bind (get ''name'' params) as_str \<noteq> Some ''fpsmaxxing.run_mock_lifecycle'' then None
        else Option.bind (get ''arguments'' params) (\<lambda>a. change_of_json (lifecycle_arguments a)))"

lemma dispatch_plane:
  "gateway_dispatch T H P request pl = (v, pl') \<Longrightarrow>
   pl' = (case requested_change request of None \<Rightarrow> pl | Some c \<Rightarrow> snd (run_lifecycle H P c pl))"
  by (auto simp: gateway_dispatch_def requested_change_def call_tool_def Let_def
      split: option.splits prod.splits if_splits sum.splits)

lemma dispatch_reply:
  "gateway_dispatch T H P request pl = (v, pl') \<Longrightarrow>
   (case get ''id'' request of None \<Rightarrow> v = None | Some rid \<Rightarrow> \<exists>r. v = Some (reply rid r))"
  by (auto simp: gateway_dispatch_def split: option.splits prod.splits)

lemma reply_fields [simp]:
  "get ''id'' (reply rid r) = Some rid" "get ''jsonrpc'' (reply rid r) = Some (Str ''2.0'')"
  "(get ''result'' (reply rid r) = None) \<longleftrightarrow> is_err r" "(get ''error'' (reply rid r) = None) \<longleftrightarrow> is_ok r"
  by (cases r; auto simp: reply_def)+

lemma requested_change_mock:
  "requested_change request = Some c \<Longrightarrow> capability_id c = ''mock.value''"
  by (auto simp: requested_change_def lifecycle_arguments_def change_of_json_def req_of_list Let_def
      split: if_splits bind_splits)

text \<open>The responses to a sequence of lines, and the plane after them.\<close>

fun answer_lines ::
  "json_text \<Rightarrow> 't host \<Rightarrow> 'p provider_ops \<Rightarrow> string list \<Rightarrow> ('p, 't) plane \<Rightarrow>
     json option list \<times> ('p, 't) plane" where
  "answer_lines T H P [] pl = ([], pl)"
| "answer_lines T H P (l # ls) pl =
     (case answer_line T H P l pl of (v, pl1) \<Rightarrow>
      (case answer_lines T H P ls pl1 of (vs, pl2) \<Rightarrow> (v # vs, pl2)))"

definition list_sink :: "string list sink" where
  "list_sink s line = (Inr (), s @ [line])"

text \<open>A line is answered unless it is a notification.\<close>

definition answerable :: "json_text \<Rightarrow> string \<Rightarrow> bool" where
  "answerable T line \<longleftrightarrow>
     (case jt_parse T line of Inl _ \<Rightarrow> True | Inr request \<Rightarrow> get ''id'' request \<noteq> None)"

lemma answer_line_answerable:
  "answer_line T H P line pl = (v, pl') \<Longrightarrow> (v \<noteq> None) = answerable T line"
  using dispatch_reply
  by (fastforce simp: answer_line_def answerable_def split: sum.splits option.splits)

lemma answer_line_plane:
  "answer_line T H P line pl = (v, pl') \<Longrightarrow> pl' = pl \<or> (\<exists>c. pl' = snd (run_lifecycle H P c pl))"
  using dispatch_plane by (fastforce simp: answer_line_def split: sum.splits option.splits)

lemma serve_answers:
  assumes "\<And>v. jt_print T v = Inr (txt v)" "answer_lines T H P ls pl = (vs, pl')"
  shows "gateway_serve T H P list_sink (map Inr ls) pl s =
      (Inr (), pl', s @ map txt (map the (filter (\<lambda>v. v \<noteq> None) vs))) \<and>
    map (\<lambda>v. v \<noteq> None) vs = map (answerable T) ls"
  using assms(2)
proof (induction ls arbitrary: pl s vs)
  case (Cons l ls)
  obtain v pl1 where 1: "answer_line T H P l pl = (v, pl1)" by fastforce
  obtain vs1 where 2: "answer_lines T H P ls pl1 = (vs1, pl')" "vs = v # vs1"
    using Cons.prems 1 by (auto split: prod.splits)
  show ?case
    using Cons.IH [OF 2(1)] 1 2(2) answer_line_answerable [OF 1]
    by (cases v) (simp_all add: write_line_def assms(1) list_sink_def)
qed simp

context restoring_provider
begin

lemma lines_restore:
  assumes "answer_lines T H P ls pl = (vs, pl')" "inv (provider pl)"
    "op_snapshot P (provider pl) = Inr s"
  shows "op_snapshot P (provider pl') = Inr s \<and> inv (provider pl') \<and>
    prefix (jrows (journal pl)) (jrows (journal pl'))"
  using assms
proof (induction ls arbitrary: pl vs)
  case (Cons l ls)
  obtain v pl1 where 1: "answer_line T H P l pl = (v, pl1)" by fastforce
  obtain vs1 where 2: "answer_lines T H P ls pl1 = (vs1, pl')"
    using Cons.prems 1 by (auto split: prod.splits)
  have "op_snapshot P (provider pl1) = Inr s \<and> inv (provider pl1) \<and>
      prefix (jrows (journal pl)) (jrows (journal pl1))"
    using answer_line_plane [OF 1] lifecycle_keeps [OF _ Cons.prems(2,3)] Cons.prems by auto
  then show ?case using Cons.IH [OF 2] by (auto intro: prefix_order.trans)
qed simp

end

subsection \<open>Properties\<close>

text \<open>
  C39: The gateway's dispatch.  A request is answered exactly when it carries an id, with that id, the
  version and exactly one of a result and an error; a notification is neither answered nor acted on.
  The plane changes only for a \<open>tools/call\<close> of the lifecycle tool whose arguments decode, and then as
  \<open>run_lifecycle\<close> changes it for that change, which is for \<open>mock.value\<close> and has a positive lease.
\<close>

theorem gateway_dispatch_contract:
  assumes "gateway_dispatch T H P request pl = (v, pl')"
  shows "(case get ''id'' request of
      None \<Rightarrow> v = None \<and> pl' = pl
    | Some rid \<Rightarrow> \<exists>j. v = Some j \<and> get ''id'' j = Some rid \<and> get ''jsonrpc'' j = Some (Str ''2.0'') \<and>
        (get ''result'' j = None) \<noteq> (get ''error'' j = None)) \<and>
    (pl' = pl \<or> (\<exists>c. requested_change request = Some c \<and> pl' = snd (run_lifecycle H P c pl) \<and>
       capability_id c = ''mock.value'' \<and> change_ok c))"
proof -
  have change: "capability_id c = ''mock.value'' \<and> change_ok c" if "requested_change request = Some c" for c
    using that requested_change_mock [OF that]
    by (auto simp: requested_change_def Let_def dest: change_of_json_ok split: if_splits bind_splits)
  have "\<exists>j. reply rid r = j \<and> get ''id'' j = Some rid \<and> get ''jsonrpc'' j = Some (Str ''2.0'') \<and>
      (get ''result'' j = None) \<noteq> (get ''error'' j = None)" for rid r
    by (cases r) (auto simp: reply_def)
  then have "case get ''id'' request of
      None \<Rightarrow> v = None \<and> pl' = pl
    | Some rid \<Rightarrow> \<exists>j. v = Some j \<and> get ''id'' j = Some rid \<and> get ''jsonrpc'' j = Some (Str ''2.0'') \<and>
        (get ''result'' j = None) \<noteq> (get ''error'' j = None)"
    using dispatch_reply [OF assms] dispatch_plane [OF assms]
    by (fastforce simp: requested_change_def split: option.splits)
  then show ?thesis
    using dispatch_plane [OF assms] change by (auto split: option.splits)
qed

definition demo_call :: json where
  "demo_call = obj [(''id'', num 7), (''method'', Str ''tools/call''), (''params'', obj
     [(''name'', Str ''fpsmaxxing.run_mock_lifecycle''),
      (''arguments'', obj [(''value'', num 60), (''lease_seconds'', num 30)])])]"

definition demo_text :: json_text where
  "demo_text = \<lparr>jt_parse = \<lambda>s. if s = ''call'' then Inr demo_call
       else if s = ''note'' then Inr (obj []) else Inl ''expected value'',
     jt_print = \<lambda>v. Inr ''printed'', jt_shape = \<lambda>_. ''unexpected shape''\<rparr>"

theorem gateway_dispatch_contract_witness:
  "\<exists>v pl'. gateway_dispatch demo_text plain_host (mock_ops ''linux'') demo_call demo_plane = (v, pl') \<and>
     (\<exists>j. v = Some j \<and> get ''id'' j = Some (num 7))"
proof -
  obtain v pl' where d: "gateway_dispatch demo_text plain_host (mock_ops ''linux'') demo_call demo_plane = (v, pl')"
    by fastforce
  have "get ''id'' demo_call = Some (num 7)" by (simp add: demo_call_def)
  then have "\<exists>j. v = Some j \<and> get ''id'' j = Some (num 7)"
    using gateway_dispatch_contract [OF d] by auto
  then show ?thesis using d by blast
qed

text \<open>
  A gateway session goes on to the end of the input and leaves no trace in the hardware.  With a
  library that prints and an output that takes it, whatever lines come in, malformed ones and
  notifications included, the loop ends without an error, one line of output for each line that is
  not a notification, in order; the mock provider holds the value it held before and the journal
  only grew.
\<close>

theorem gateway_session:
  assumes "\<And>v. jt_print T v = Inr (txt v)"
  shows "\<exists>vs pl'. gateway_serve T H (mock_ops platform) list_sink (map Inr ls) pl [] =
      (Inr (), pl', map txt (map the (filter (\<lambda>v. v \<noteq> None) vs))) \<and>
    map (\<lambda>v. v \<noteq> None) vs = map (answerable T) ls \<and>
    provider pl' = provider pl \<and> prefix (jrows (journal pl)) (jrows (journal pl'))"
proof -
  obtain vs pl' where a: "answer_lines T H (mock_ops platform) ls pl = (vs, pl')" by fastforce
  have "op_snapshot (mock_ops platform) (provider pl') = op_snapshot (mock_ops platform) (provider pl)"
    and "prefix (jrows (journal pl)) (jrows (journal pl'))"
    using mock.lines_restore [OF a TrueI] by (simp_all add: mock_defs)
  moreover from this(1) have "provider pl' = provider pl" by (simp add: mock_defs obj_single_eq)
  ultimately show ?thesis using serve_answers [OF assms a, of "[]"] by auto
qed

theorem gateway_session_witness:
  "\<exists>pl'. gateway_serve demo_text plain_host (mock_ops ''linux'') list_sink
     (map Inr [''call'', ''note'', ''{'']) demo_plane [] = (Inr (), pl', [''printed'', ''printed'']) \<and>
     provider pl' = \<lparr>mock_value = 0\<rparr>"
proof -
  have "\<And>v. jt_print demo_text v = Inr ((\<lambda>_. ''printed'') v)" by (simp add: demo_text_def)
  from gateway_session [of demo_text "\<lambda>_. ''printed''" plain_host "''linux''"
      "[''call'', ''note'', ''{'']" demo_plane, OF this]
  obtain pl' and vs :: "json option list" where s: "gateway_serve demo_text plain_host (mock_ops ''linux'') list_sink
      (map Inr [''call'', ''note'', ''{'']) demo_plane [] =
        (Inr (), pl', map (\<lambda>_. ''printed'') (map the (filter (\<lambda>v. v \<noteq> None) vs)))"
    "map (\<lambda>v. v \<noteq> None) vs = map (answerable demo_text) [''call'', ''note'', ''{'']"
    "provider pl' = provider demo_plane" by blast
  have "map (answerable demo_text) [''call'', ''note'', ''{''] = [True, False, True]"
    by (simp add: answerable_def demo_text_def demo_call_def)
  then have "map (\<lambda>_. ''printed'') (map the (filter (\<lambda>v. v \<noteq> None) vs)) = [''printed'', ''printed'']"
    using s(2) by (auto simp: map_eq_Cons_conv)
  then show ?thesis using s by (simp del: gateway_serve.simps)
qed

end
