(* ===== verification/Cli.thy ===== *)
theory Cli
  imports Recovery
begin

section \<open>The operator's command (\<open>apps/cli/src/main.rs\<close>)\<close>

text \<open>
  \<open>doctor\<close> opens the journal read-only and counts the experiments that were meant to change something
  and never ended.  Opening the file is the parameter \<open>opened\<close>; the query is modelled as SQLite runs
  it, one group per experiment with its sums.
\<close>

subsection \<open>The query\<close>

definition group_rows :: "'t jrow list \<Rightarrow> int \<Rightarrow> 't jrow list" where
  "group_rows rs e = filter (\<lambda>r. row_experiment r = e) rs"

definition sum_where :: "('t jrow \<Rightarrow> bool) \<Rightarrow> 't jrow list \<Rightarrow> nat" where
  "sum_where cond rs = sum_list (map (\<lambda>r. if cond r then 1 else 0) rs)"

definition dangling_group :: "'t jrow list \<Rightarrow> bool" where
  "dangling_group g \<longleftrightarrow> 0 < sum_where (\<lambda>r. stage r = ''apply-intent'') g \<and>
     sum_where (\<lambda>r. stage r \<in> {''completed'', ''failed''}) g = 0"

definition dangling_count :: "'t jrow list \<Rightarrow> nat" where
  "dangling_count rs =
     length (filter (\<lambda>e. dangling_group (group_rows rs e)) (remdups (map row_experiment rs)))"

definition map_ok :: "('a \<Rightarrow> 'b) \<Rightarrow> ('e, 'a) result \<Rightarrow> ('e, 'b) result" where
  "map_ok f r = (case r of Inl e \<Rightarrow> Inl e | Inr x \<Rightarrow> Inr (f x))"

definition count_dangling ::
  "'t host \<Rightarrow> (fault, 't journal) result \<Rightarrow> (fault, nat option) result" where
  "count_dangling H opened =
     (case opened of
        Inl f \<Rightarrow> Inl f
      | Inr j \<Rightarrow> (case statement H (\<lambda>j. (Inr (), j)) j of
        (Inl f, _) \<Rightarrow> Inl f
      | (Inr _, j1) \<Rightarrow> (case statement H (\<lambda>j. (Inr (jtable j), j)) j1 of
        (Inl f, _) \<Rightarrow> Inl f
      | (Inr present, j2) \<Rightarrow>
          if \<not> present then Inr None
          else map_ok Some (fst (query H (\<lambda>j. dangling_count (jrows j)) j2)))))"

fun fault_text :: "fault \<Rightarrow> string" where
  "fault_text (Encode_fault s) = s"
| "fault_text (Sqlite_fault s) = s"

definition journal_report :: "'t host \<Rightarrow> (fault, 't journal) result \<Rightarrow> string" where
  "journal_report H opened =
     (case count_dangling H opened of
        Inr (Some n) \<Rightarrow>
          if n = 0 then ''ready''
          else ''ready ('' @ show_nat n @ '' dangling experiment(s) missing a terminal outcome)''
      | Inr None \<Rightarrow> ''unavailable (experiment_journal table missing)''
      | Inl f \<Rightarrow> ''unavailable ('' @ fault_text f @ '')'')"

subsection \<open>The command\<close>

text \<open>Its lines on standard output and standard error, and its exit code.\<close>

record cli_output =
  stdout :: "string list"
  stderr :: "string list"
  exit_code :: nat

definition doctor ::
  "'t host \<Rightarrow> (string \<Rightarrow> string option) \<Rightarrow> (string \<Rightarrow> bool) \<Rightarrow>
     (string \<Rightarrow> (fault, 't journal) result) \<Rightarrow> cli_output" where
  "doctor H env present opened =
     (let journal = (case env ''FPSMAXXING_JOURNAL_PATH'' of
            None \<Rightarrow> ''fpsmaxxing-journal.sqlite'' | Some p \<Rightarrow> p);
          status = (if present journal then journal_report H (opened journal)
            else ''missing (no experiments journaled yet)'')
      in \<lparr>stdout =
            [''FPSMaxxing diagnostics'', ''  contracts: ready'', ''  provider SDK: ready'',
             ''  gateway: MCP mock path available'',
             ''  journal: '' @ status @ '' ('' @ journal @ '')'',
             ''  hardware writes: disabled'', ''  status: read-only alpha mock path ready''],
          stderr = [], exit_code = 0\<rparr>)"

definition cli_main ::
  "'t host \<Rightarrow> (string \<Rightarrow> string option) \<Rightarrow> (string \<Rightarrow> bool) \<Rightarrow>
     (string \<Rightarrow> (fault, 't journal) result) \<Rightarrow> string list \<Rightarrow> cli_output" where
  "cli_main H env present opened args =
     (case args of
        [] \<Rightarrow> \<lparr>stdout = [''fpsmaxxing-cli'', [], ''usage: fpsmaxxing-cli doctor''],
                stderr = [], exit_code = 0\<rparr>
      | command # _ \<Rightarrow>
          if command = ''doctor'' then doctor H env present opened
          else \<lparr>stdout = [], stderr = [''unknown command: '' @ command, ''usage: fpsmaxxing-cli doctor''],
                 exit_code = 2\<rparr>)"

subsection \<open>What the count counts\<close>

definition dangling :: "'t jrow list \<Rightarrow> int \<Rightarrow> bool" where
  "dangling rs e \<longleftrightarrow>
     (\<exists>r \<in> set rs. row_experiment r = e \<and> stage r = ''apply-intent'') \<and> \<not> terminal_for rs e"

lemma sum_where_pos: "0 < sum_where cond rs \<longleftrightarrow> (\<exists>r \<in> set rs. cond r)"
  by (induction rs) (auto simp: sum_where_def)

lemma sum_where_zero: "sum_where cond rs = 0 \<longleftrightarrow> (\<forall>r \<in> set rs. \<not> cond r)"
  using sum_where_pos [of cond rs] by auto

lemma dangling_group_iff: "dangling_group (group_rows rs e) \<longleftrightarrow> dangling rs e"
  by (auto simp: dangling_group_def sum_where_pos sum_where_zero dangling_def group_rows_def terminal_for_def
      list_ex_iff)

lemma dangling_count_card: "dangling_count rs = card {e. dangling rs e}"
proof -
  have "{e. dangling rs e} = set (filter (dangling rs) (remdups (map row_experiment rs)))"
    by (auto simp: dangling_def)
  moreover have "distinct (filter (dangling rs) (remdups (map row_experiment rs)))" by simp
  ultimately show ?thesis
    unfolding dangling_count_def dangling_group_iff by (simp only: distinct_card)
qed

lemma dangling_finite: "finite {e. dangling rs e}"
  by (rule finite_subset [of _ "row_experiment ` set rs"]) (auto simp: dangling_def)

text \<open>
  The doctor tells the truth about leaks.  On a journal it can read, the number it reports is that
  of the experiments with an intent and no terminal outcome, and it says plain \<open>ready\<close> exactly when
  there is none; every experiment a recovery scan would report, for any provider, is among them, and
  each of them that has its snapshot is one that a scan reports.  A journal that cannot be opened or
  queried, or has no table, is reported as unavailable and never as ready.
\<close>

theorem doctor_counts_leaks:
  "(no_faults H \<and> opened = Inr j \<and> jtable j \<longrightarrow>
      count_dangling H opened = Inr (Some (card {e. dangling (jrows j) e})) \<and>
      (journal_report H opened = ''ready'' \<longleftrightarrow> (\<forall>e. \<not> dangling (jrows j) e)) \<and>
      (\<forall>pid e. leaked pid (jrows j) e \<longrightarrow> dangling (jrows j) e) \<and>
      (\<forall>e. dangling (jrows j) e \<and> (\<exists>s \<in> set (jrows j). row_experiment s = e \<and> stage s = ''snapshot'') \<longrightarrow>
         (\<exists>pid. leaked pid (jrows j) e))) \<and>
    (\<forall>f. count_dangling H opened = Inl f \<or> count_dangling H opened = Inr None \<longrightarrow>
       prefix ''unavailable ('' (journal_report H opened))"
proof (intro conjI impI)
  assume a: "no_faults H \<and> opened = Inr j \<and> jtable j"
  then have c: "count_dangling H opened = Inr (Some (card {e. dangling (jrows j) e}))"
    by (simp add: count_dangling_def statement_def query_def no_faults_def tick_def
        dangling_count_card map_ok_def)
  then show "count_dangling H opened = Inr (Some (card {e. dangling (jrows j) e}))" .
  show "journal_report H opened = ''ready'' \<longleftrightarrow> (\<forall>e. \<not> dangling (jrows j) e)"
    using dangling_finite [of "jrows j"] by (simp add: journal_report_def c)
  show "\<forall>pid e. leaked pid (jrows j) e \<longrightarrow> dangling (jrows j) e"
    by (auto simp: leaked_def dangling_def)
  show "\<forall>e. dangling (jrows j) e \<and> (\<exists>s \<in> set (jrows j). row_experiment s = e \<and> stage s = ''snapshot'') \<longrightarrow>
         (\<exists>pid. leaked pid (jrows j) e)"
    by (auto simp: leaked_def dangling_def)
qed (auto simp: journal_report_def)

definition leaky_journal :: "json journal" where
  "leaky_journal = empty_journal\<lparr>jrows :=
     [\<lparr>row_experiment = 1, recorded_at = Some 0, stage = ''apply-intent'', row_provider = ''mock'',
       payload = Null\<rparr>,
      \<lparr>row_experiment = 1, recorded_at = Some 0, stage = ''applied'', row_provider = ''mock'',
       payload = Null\<rparr>]\<rparr>"

theorem doctor_counts_leaks_witness:
  "count_dangling plain_host (Inr leaky_journal) = Inr (Some (card {e. dangling (jrows leaky_journal) e})) \<and>
   journal_report plain_host (Inr leaky_journal) \<noteq> ''ready''"
proof -
  have "dangling (jrows leaky_journal) 1" by (simp add: dangling_def leaky_journal_def terminal_for_def)
  moreover have "no_faults plain_host \<and> (Inr leaky_journal :: (fault, json journal) result) = Inr leaky_journal \<and>
      jtable leaky_journal"
    by (simp add: leaky_journal_def empty_journal_def)
  ultimately show ?thesis using doctor_counts_leaks [of plain_host "Inr leaky_journal" leaky_journal] by blast
qed

end
