(* ===== verification/Xtask.thy ===== *)
theory Xtask
  imports Poller
begin

section \<open>Repository automation (\<open>xtask/src/main.rs\<close>)\<close>

text \<open>
  The entrypoint runs cargo and passes its exit code on.  What launching a program does is a parameter:
  the error of the launch, or the code it exited with, none when a signal ended it.
\<close>

datatype launched = Not_launched string | Exited "int option"

datatype ended = Returned | Exit int | Panicked string

definition xtask_run :: "(string \<Rightarrow> string list \<Rightarrow> launched) \<Rightarrow> string \<Rightarrow> string list \<Rightarrow> ended" where
  "xtask_run launch program args =
     (case launch program args of
        Not_launched e \<Rightarrow> Panicked (''failed to launch '' @ program @ '': '' @ e)
      | Exited code \<Rightarrow>
          if code = Some 0 then Returned
          else Exit (case code of None \<Rightarrow> 1 | Some c \<Rightarrow> c))"

text \<open>\<open>args\<close> has the program's name first.\<close>

definition xtask_main ::
  "(string \<Rightarrow> string list \<Rightarrow> launched) \<Rightarrow> string list \<Rightarrow> ended \<times> printed list" where
  "xtask_main launch args =
     (case args of
        _ # command # _ \<Rightarrow>
          if command = ''check'' then (xtask_run launch ''cargo'' [''check'', ''--workspace''], [])
          else if command = ''test'' then (xtask_run launch ''cargo'' [''test'', ''--workspace''], [])
          else (Exit 2, [Err (''unknown xtask: '' @ command)])
      | _ \<Rightarrow> (Returned, [Out ''usage: cargo xtask <check|test>'']))"

text \<open>A task that is named succeeds exactly when cargo does, and any other name fails.\<close>

lemma xtask_succeeds_iff:
  "fst (xtask_main launch (name # command # rest)) = Returned \<longleftrightarrow>
     command \<in> {''check'', ''test''} \<and> launch ''cargo'' [command, ''--workspace''] = Exited (Some 0)"
  by (auto simp: xtask_main_def xtask_run_def split: launched.splits)

lemma xtask_never_hides_a_failure:
  "launch ''cargo'' [command, ''--workspace''] = Exited (Some c) \<Longrightarrow> command \<in> {''check'', ''test''} \<Longrightarrow> c \<noteq> 0 \<Longrightarrow>
   fst (xtask_main launch (name # command # rest)) = Exit c"
  by (auto simp: xtask_main_def xtask_run_def)

end
