(* ===== verification/Schemas.thy ===== *)
theory Schemas
  imports Trials Connection
begin

section \<open>The published schemas (\<open>schemas/*.json\<close>, \<open>crates/contracts/src/test_support.rs\<close>)\<close>

text \<open>
  The JSON Schema documents an agent writes against are kept by hand beside the Rust types, and
  tests compare names only.  Here each document is a term of a small schema language, read by
  \<open>valid\<close> as JSON Schema defines its keywords, and the theorems compare what a document admits with what
  the decoders and the runner's gate admit.  The constructors carry the keywords in use: \<open>minLength\<close>,
  \<open>maxLength\<close> and the one \<open>pattern\<close>; \<open>minimum\<close> and \<open>maximum\<close> of an integer; \<open>minimum\<close>, \<open>exclusiveMinimum\<close> and
  \<open>maximum\<close> of a number; \<open>minItems\<close>; \<open>properties\<close>, \<open>required\<close> with \<open>additionalProperties: false\<close>; \<open>oneOf\<close>.
  A \<open>$ref\<close> is the definition it names.
\<close>

subsection \<open>The language\<close>

datatype lower = Unbounded | From rat | Above rat

datatype schema =
    SObject
  | SString nat "nat option" bool
  | SEnum "string list"
  | SConst string
  | SInteger "int option" "int option"
  | SNumber lower "rat option"
  | SBoolean
  | SArray nat schema
  | SFields "(string \<times> schema) list" "string list"
  | SOneOf "schema list"

text \<open>\<open>^[a-z0-9]+([.-][a-z0-9]+)*$\<close>: \<open>inside\<close> says that the last byte was of a word.\<close>

definition word_char :: "char \<Rightarrow> bool" where
  "word_char c \<longleftrightarrow> c \<in> set ''abcdefghijklmnopqrstuvwxyz0123456789''"

fun slug_after :: "bool \<Rightarrow> string \<Rightarrow> bool" where
  "slug_after inside [] = inside"
| "slug_after inside (c # cs) =
     (if word_char c then slug_after True cs
      else inside \<and> c \<in> {CHR ''.'', CHR ''-''} \<and> slug_after False cs)"

definition slug :: "string \<Rightarrow> bool" where
  "slug s = slug_after False s"

text \<open>
  JSON Schema counts a number without a fraction as an integer however it is written; \<open>plain\<close> counts only
  what is written as one.  \<open>NegInt\<close> holds negative numbers only.
\<close>

fun number_value :: "number \<Rightarrow> rat option" where
  "number_value (PosInt n) = Some (of_nat (unat n))"
| "number_value (NegInt i) = (if i < 0 then Some (of_int i) else None)"
| "number_value (Float (Fin x)) = Some x"
| "number_value (Float _) = None"

fun plain :: "number \<Rightarrow> int option" where
  "plain (PosInt n) = Some (int (unat n))"
| "plain (NegInt i) = (if i < 0 then Some i else None)"
| "plain (Float _) = None"

definition whole :: "number \<Rightarrow> int option" where
  "whole n = (case number_value n of None \<Rightarrow> None | Some x \<Rightarrow> if of_int \<lfloor>x\<rfloor> = x then Some \<lfloor>x\<rfloor> else None)"

definition at_most :: "'a::linorder \<Rightarrow> 'a option \<Rightarrow> bool" where
  "at_most x hi \<longleftrightarrow> (case hi of None \<Rightarrow> True | Some h \<Rightarrow> x \<le> h)"

definition at_least :: "'a::linorder \<Rightarrow> 'a option \<Rightarrow> bool" where
  "at_least x lo \<longleftrightarrow> (case lo of None \<Rightarrow> True | Some l \<Rightarrow> l \<le> x)"

fun above :: "rat \<Rightarrow> lower \<Rightarrow> bool" where
  "above x Unbounded = True"
| "above x (From l) = (l \<le> x)"
| "above x (Above l) = (l < x)"

fun valid :: "(number \<Rightarrow> int option) \<Rightarrow> schema \<Rightarrow> json \<Rightarrow> bool" where
  "valid int_of SObject v = is_object v"
| "valid int_of (SString lo hi pat) v =
     (case v of Str s \<Rightarrow> lo \<le> char_count s \<and> at_most (char_count s) hi \<and> (pat \<longrightarrow> slug s) | _ \<Rightarrow> False)"
| "valid int_of (SEnum ws) v = (case v of Str s \<Rightarrow> s \<in> set ws | _ \<Rightarrow> False)"
| "valid int_of (SConst w) v = (v = Str w)"
| "valid int_of (SInteger lo hi) v =
     (case v of Number n \<Rightarrow> (case int_of n of None \<Rightarrow> False | Some i \<Rightarrow> at_least i lo \<and> at_most i hi)
      | _ \<Rightarrow> False)"
| "valid int_of (SNumber lo hi) v =
     (case v of Number n \<Rightarrow> (case number_value n of None \<Rightarrow> False | Some x \<Rightarrow> above x lo \<and> at_most x hi)
      | _ \<Rightarrow> False)"
| "valid int_of SBoolean v = (case v of Bool _ \<Rightarrow> True | _ \<Rightarrow> False)"
| "valid int_of (SArray lo e) v =
     (case v of Arr xs \<Rightarrow> lo \<le> length xs \<and> list_all (valid int_of e) xs | _ \<Rightarrow> False)"
| "valid int_of (SFields ps rs) v =
     (case v of
        Obj m \<Rightarrow> fields_within (map fst ps) m \<and> list_all (\<lambda>k. k |\<in>| fmdom m) rs \<and>
          list_all (\<lambda>(k, e). case fmlookup m k of None \<Rightarrow> True | Some w \<Rightarrow> valid int_of e w) ps
      | _ \<Rightarrow> False)"
| "valid int_of (SOneOf es) v = (length (filter (\<lambda>e. valid int_of e v) es) = 1)"

subsection \<open>The documents\<close>

abbreviation all_of :: "(string \<times> schema) list \<Rightarrow> schema" where
  "all_of ps \<equiv> SFields ps (map fst ps)"

abbreviation any_string :: schema where
  "any_string \<equiv> SString 0 None False"

definition capability_schema :: schema where
  "capability_schema = all_of
     [(''id'', SString 0 None True), (''description'', SString 1 None False),
      (''risk'', SEnum [''read-only'', ''reversible'', ''approval-required'', ''denied'']),
      (''persistence'', SEnum [''none'', ''leased'', ''persistent'', ''reboot-required'']),
      (''input_schema'', SObject)]"

definition sidecar_schema :: schema where
  "sidecar_schema = all_of
     [(''id'', SString 0 None True), (''protocol_version'', SInteger (Some 1) None),
      (''targets'', SArray 1 any_string), (''capabilities'', SArray 0 capability_schema)]"

definition metric_sample_schema :: schema where
  "metric_sample_schema = all_of
     [(''fps'', SNumber Unbounded None), (''temperature_c'', SNumber Unbounded None),
      (''power_w'', SNumber Unbounded None), (''errors'', SInteger (Some 0) None)]"

definition metric_summary_def :: schema where
  "metric_summary_def = all_of
     [(''samples'', SInteger (Some 0) None), (''mean_fps'', SNumber Unbounded None),
      (''max_temperature_c'', SNumber Unbounded None), (''max_power_w'', SNumber Unbounded None),
      (''total_errors'', SInteger (Some 0) None)]"

definition verdict_schema :: schema where
  "verdict_schema = all_of
     [(''decision'', SEnum [''promote'', ''reject'']),
      (''reason'', SEnum [''promoted'', ''insufficient-samples'', ''temperature-exceeded'',
         ''power-exceeded'', ''errors-exceeded'', ''insufficient-improvement'']),
      (''fps_improvement'', SNumber Unbounded None),
      (''baseline'', metric_summary_def), (''candidate'', metric_summary_def)]"

definition experiment_change_def :: schema where
  "experiment_change_def = all_of
     [(''capability_id'', SString 1 None False), (''parameters'', SObject),
      (''lease_seconds'', SInteger (Some 1) (Some 300))]"

definition decision_bounds_def :: schema where
  "decision_bounds_def = all_of
     [(''min_samples'', SInteger (Some 1) (Some 10000)), (''min_fps_improvement'', SNumber (From 0) None),
      (''max_temperature_c'', SNumber (Above 0) (Some 90)), (''max_power_w'', SNumber (Above 0) (Some 250)),
      (''max_errors'', SInteger (Some 0) (Some 0))]"

definition experiment_schema :: schema where
  "experiment_schema = all_of
     [(''hypothesis'', SString 1 (Some 4096) False), (''target'', experiment_change_def),
      (''warmup_samples'', SInteger (Some 0) (Some 10000)),
      (''baseline_samples'', SInteger (Some 1) (Some 10000)),
      (''candidate_samples'', SInteger (Some 1) (Some 10000)), (''bounds'', decision_bounds_def)]"

definition request_change_def :: schema where
  "request_change_def = all_of
     [(''capability_id'', SString 0 None True), (''parameters'', SObject),
      (''lease_seconds'', SInteger (Some 1) None)]"

definition broker_request_schema :: schema where
  "broker_request_schema = SFields
     [(''op'', SEnum [''discover'', ''run-lifecycle'']), (''owner'', SString 1 None False),
      (''change'', request_change_def)] [''op'']"

definition lifecycle_report_def :: schema where
  "lifecycle_report_def = all_of
     [(''provider_id'', any_string), (''preview'', any_string), (''verified'', SBoolean),
      (''rolled_back'', SBoolean)]"

definition error_body_def :: schema where
  "error_body_def = all_of
     [(''kind'', SEnum [''unauthenticated'', ''malformed'', ''unknown-capability'', ''policy-denied'',
         ''owner-conflict'', ''lifecycle-failed'', ''internal'']),
      (''message'', any_string)]"

definition broker_response_schema :: schema where
  "broker_response_schema = SOneOf
     [all_of [(''outcome'', SConst ''capabilities''), (''capabilities'', sidecar_schema)],
      all_of [(''outcome'', SConst ''lifecycle''), (''lifecycle'', lifecycle_report_def)],
      all_of [(''outcome'', SConst ''error''), (''error'', error_body_def)]]"

subsection \<open>How they read\<close>

inductive slug_text :: "string \<Rightarrow> bool" where
  slug_word: "w \<noteq> [] \<Longrightarrow> list_all word_char w \<Longrightarrow> slug_text w"
| slug_more: "w \<noteq> [] \<Longrightarrow> list_all word_char w \<Longrightarrow> c \<in> {CHR ''.'', CHR ''-''} \<Longrightarrow> slug_text s \<Longrightarrow>
    slug_text (w @ c # s)"

lemma slug_after_word: "list_all word_char w \<Longrightarrow> slug_after b (w @ s) = slug_after (b \<or> w \<noteq> []) s"
  by (induction w arbitrary: b) auto

lemma separator_not_word: "c \<in> {CHR ''.'', CHR ''-''} \<Longrightarrow> \<not> word_char c"
  by (auto simp: word_char_def)

lemma slug_after_text:
  "slug_after b s \<Longrightarrow>
     if b then \<exists>w r. list_all word_char w \<and> s = w @ r \<and>
       (r = [] \<or> (\<exists>c t. r = c # t \<and> c \<in> {CHR ''.'', CHR ''-''} \<and> slug_text t))
     else slug_text s"
proof (induction s arbitrary: b)
  case (Cons c s)
  show ?case
  proof (cases "word_char c")
    case True
    with Cons.prems have "slug_after True s" by simp
    from Cons.IH [OF this] obtain w r where w: "list_all word_char w" "s = w @ r"
      "r = [] \<or> (\<exists>c t. r = c # t \<and> c \<in> {CHR ''.'', CHR ''-''} \<and> slug_text t)" by auto
    have cw: "c # w \<noteq> []" "list_all word_char (c # w)" using w(1) True by simp_all
    from w(3) have "slug_text (c # s)"
    proof
      assume "r = []"
      then show ?thesis using slug_word [OF cw] w(2) by simp
    next
      assume "\<exists>d t. r = d # t \<and> d \<in> {CHR ''.'', CHR ''-''} \<and> slug_text t"
      then obtain d t where "r = d # t" "d \<in> {CHR ''.'', CHR ''-''}" "slug_text t" by blast
      then show ?thesis using slug_more [OF cw, of d t] w(2) by simp
    qed
    moreover have "\<exists>w' r. list_all word_char w' \<and> c # s = w' @ r \<and>
       (r = [] \<or> (\<exists>c t. r = c # t \<and> c \<in> {CHR ''.'', CHR ''-''} \<and> slug_text t))"
      using w True by (intro exI [of _ "c # w"] exI [of _ r]) simp
    ultimately show ?thesis by simp
  next
    case False
    with Cons.prems have "b" "c \<in> {CHR ''.'', CHR ''-''}" "slug_after False s" by auto
    moreover from Cons.IH [OF this(3)] have "slug_text s" by simp
    ultimately show ?thesis by (simp add: exI [of _ "[]"])
  qed
qed auto

lemma slug_iff: "slug s \<longleftrightarrow> slug_text s"
proof
  show "slug s \<Longrightarrow> slug_text s" using slug_after_text [of False s] by (simp add: slug_def)
  show "slug_text s \<Longrightarrow> slug s"
  proof (induction rule: slug_text.induct)
    case (slug_word w)
    then show ?case using slug_after_word [of w False "[]"] unfolding slug_def by simp
  next
    case (slug_more w c s)
    then show ?case
      using slug_after_word [of w False "c # s"] separator_not_word [of c] by (simp add: slug_def)
  qed
qed

lemma bounds_simps [simp]:
  "at_most x None" "at_least x None" "at_most x (Some h) \<longleftrightarrow> x \<le> h" "at_least x (Some l) \<longleftrightarrow> l \<le> x"
  by (simp_all add: at_most_def at_least_def)

declare valid.simps [simp del]

lemmas valid_reads [simp] = valid.simps(1) valid.simps(4)

lemma valid_scalars [simp]:
  "valid int_of (SString lo hi pat) (Str s) \<longleftrightarrow>
     lo \<le> char_count s \<and> at_most (char_count s) hi \<and> (pat \<longrightarrow> slug s)"
  "valid int_of (SEnum ws) (enum_enc wire x) \<longleftrightarrow> wire x \<in> set ws"
  "valid int_of SBoolean (Bool b)"
  "valid int_of (SArray lo e) (list_enc enc xs) \<longleftrightarrow> lo \<le> length xs \<and> (\<forall>x\<in>set xs. valid int_of e (enc x))"
  by (simp_all add: valid.simps enum_enc_def list_enc_def list_all_iff)

locale integer_reading =
  fixes int_of :: "number \<Rightarrow> int option"
  assumes reads_unsigned: "int_of (PosInt n) = Some (int (unat n))"
begin

lemma valid_unsigned [simp]:
  "valid int_of (SInteger lo hi) (num n) \<longleftrightarrow> at_least (uint n) lo \<and> at_most (uint n) hi"
  by (simp add: reads_unsigned valid.simps)

lemma valid_u32 [simp]:
  "valid int_of (SInteger lo hi) (enc_u32 n) \<longleftrightarrow> at_least (uint n) lo \<and> at_most (uint n) hi"
proof -
  have "uint (ucast n :: u64) = uint n"
    using arg_cong [OF unat_u64_of_u32 [of n], of int] by (simp only: of_nat_unat)
  then show ?thesis by (simp add: enc_u32_def del: unsigned_ucast_eq)
qed

end

interpretation plain: integer_reading plain
  by unfold_locales simp

interpretation whole: integer_reading whole
proof
  fix n :: u64
  have "(of_nat (unat n) :: rat) = of_int (int (unat n))" by (rule of_int_of_nat_eq [symmetric])
  then show "whole (PosInt n) = Some (int (unat n))" by (simp add: whole_def del: of_nat_unat)
qed

lemma valid_float [simp]:
  "f64_is_finite x \<Longrightarrow> valid int_of (SNumber lo hi) (enc_f64 x) \<longleftrightarrow> (\<exists>q. x = Fin q \<and> above q lo \<and> at_most q hi)"
  by (cases x) (simp_all add: enc_f64_def f64_is_finite_def valid.simps)

lemma valid_fields_obj:
  "valid int_of (SFields ps rs) (obj kvs) \<longleftrightarrow>
     list_all (\<lambda>(k, _). k \<in> set (map fst ps)) kvs \<and> list_all (\<lambda>k. map_of kvs k \<noteq> None) rs \<and>
     list_all (\<lambda>(k, e). case map_of kvs k of None \<Rightarrow> True | Some w \<Rightarrow> valid int_of e w) ps"
proof -
  have "fmlookup (fmap_of_list kvs) = map_of kvs" by (rule ext) (simp add: fmlookup_of_list)
  moreover have "fields_within (map fst ps) (fmap_of_list kvs) \<longleftrightarrow>
      list_all (\<lambda>(k, _). k \<in> set (map fst ps)) kvs"
    by (force simp: fields_within_def less_eq_fset.rep_eq fset_of_list.rep_eq list_all_iff)
  moreover have "k |\<in>| fmdom (fmap_of_list kvs) \<longleftrightarrow> map_of kvs k \<noteq> None" for k
    by (metis fmdomE fmdomI fmlookup_of_list not_None_eq)
  ultimately show ?thesis by (simp add: obj_def valid.simps)
qed

subsection \<open>What the types print\<close>

lemma uint_at_least_1 [simp]: "1 \<le> uint (n :: 'a::len word) \<longleftrightarrow> n \<noteq> 0"
  by (metis linorder_not_le unsigned_0 uint_0_iff uint_ge_0 order_le_less zless_imp_add1_zle add_0 zero_less_one)

context integer_reading begin

lemma valid_capability [simp]:
  "valid int_of capability_schema (capability_json c) \<longleftrightarrow>
     slug (cap_id c) \<and> 1 \<le> char_count (cap_description c) \<and> is_object (cap_schema c)"
proof -
  have "risk_wire r \<in> {''read-only'', ''reversible'', ''approval-required'', ''denied''}" for r
    by (cases r) simp_all
  moreover have "persistence_wire p \<in> {''none'', ''leased'', ''persistent'', ''reboot-required''}" for p
    by (cases p) simp_all
  ultimately show ?thesis
    by (simp add: capability_schema_def capability_json_def valid_fields_obj)
qed

lemma valid_manifest [simp]:
  "valid int_of sidecar_schema (manifest_json p) \<longleftrightarrow>
     slug (man_id p) \<and> protocol_version p \<noteq> 0 \<and> targets p \<noteq> [] \<and>
     (\<forall>c\<in>set (capabilities p). slug (cap_id c) \<and> 1 \<le> char_count (cap_description c) \<and> is_object (cap_schema c))"
  by (cases "targets p") (simp_all add: sidecar_schema_def manifest_json_def valid_fields_obj)

lemma valid_change [simp]:
  "change_ok c \<Longrightarrow> valid int_of request_change_def (change_json c) \<longleftrightarrow> slug (capability_id c)"
  "change_ok c \<Longrightarrow> valid int_of experiment_change_def (change_json c) \<longleftrightarrow>
     1 \<le> char_count (capability_id c) \<and> lease_seconds c \<le> 300"
  by (simp_all add: request_change_def_def experiment_change_def_def change_json_def change_ok_def
      valid_fields_obj word_le_def)

lemma valid_bounds [simp]:
  "bounds_ok b \<Longrightarrow> valid int_of decision_bounds_def (bounds_json b) \<longleftrightarrow> bounds_in_envelope b"
  by (cases "min_fps_improvement b"; cases "max_temperature_c b"; cases "max_power_w b")
    (auto simp: decision_bounds_def_def bounds_json_def bounds_ok_def valid_fields_obj word_le_def
      bounds_in_envelope_def zero_f64_def f64_is_finite_def word_uint_eq_iff)

lemma valid_spec:
  "spec_ok s \<Longrightarrow> valid int_of experiment_schema (spec_json s) \<longleftrightarrow>
     1 \<le> char_count (hypothesis s) \<and> char_count (hypothesis s) \<le> 4096 \<and>
     1 \<le> char_count (capability_id (Experiment.target s)) \<and> lease_seconds (Experiment.target s) \<le> 300 \<and>
     warmup_samples s \<le> 10000 \<and> baseline_samples s \<le> 10000 \<and> candidate_samples s \<le> 10000 \<and>
     bounds_in_envelope (bounds s)"
  by (auto simp: experiment_schema_def spec_json_def spec_ok_def valid_fields_obj word_le_def)

lemma valid_request:
  "request_ok r \<Longrightarrow> valid int_of broker_request_schema (request_json r) \<longleftrightarrow>
     (\<forall>w. rq_owner r = Some w \<longrightarrow> 1 \<le> char_count w) \<and> (\<forall>c. rq_change r = Some c \<longrightarrow> slug (capability_id c))"
  by (cases "rq_op r"; cases "rq_owner r"; cases "rq_change r")
    (simp_all add: broker_request_schema_def request_json_def request_ok_def valid_fields_obj skip_none_def)

lemma valid_error_body [simp]: "valid int_of error_body_def (error_body_json e)"
  by (cases "eb_kind e") (simp_all add: error_body_def_def error_body_json_def valid_fields_obj)

lemma valid_report [simp]: "valid int_of lifecycle_report_def (report_json r)"
  by (simp add: lifecycle_report_def_def report_json_def valid_fields_obj)

lemma valid_response:
  "valid int_of broker_response_schema (response_json r) \<longleftrightarrow>
     (\<forall>p. r = CapabilitiesResponse p \<longrightarrow> valid int_of sidecar_schema (manifest_json p))"
  by (cases r) (simp_all add: broker_response_schema_def valid.simps(10) valid_fields_obj del: valid_manifest)

end

subsection \<open>What the decoders make of a valid document\<close>

lemma valid_all_of:
  "valid int_of (all_of ps) v \<longleftrightarrow>
     (\<exists>m. v = Obj m \<and> fields_within (map fst ps) m \<and>
       (\<forall>(k, e)\<in>set ps. \<exists>w. fmlookup m k = Some w \<and> valid int_of e w))"
  by (cases v) (force simp: valid.simps list_all_iff fmlookup_dom_iff)+

lemma fields_within_Some:
  "fields_within names m \<Longrightarrow> struct_fields names (Obj m) = Some m"
  "fields_within names m \<Longrightarrow> struct_fields_from n names (Obj m) = Some m"
  by (simp_all add: struct_fields_def struct_fields_from_def)

lemma req_found: "fmlookup m k = Some w \<Longrightarrow> req m k dec = dec w"
  by (simp add: req_def)

lemma valid_string: "valid int_of (SString lo hi pat) v \<Longrightarrow>
    \<exists>s. v = Str s \<and> lo \<le> char_count s \<and> at_most (char_count s) hi \<and> (pat \<longrightarrow> slug s)"
  by (auto simp: valid.simps split: json.splits)

lemma valid_plain_integer:
  assumes "valid plain (SInteger (Some l) hi) v" "0 \<le> l"
  shows "\<exists>n. v = num n \<and> l \<le> uint n \<and> at_most (uint n) hi"
proof -
  from assms(1) obtain x i where "v = Number x" "plain x = Some i" "l \<le> i" "at_most i hi"
    by (auto simp: valid.simps split: json.splits option.splits)
  with assms(2) show ?thesis by (cases x) (auto split: if_splits)
qed

lemma dec_u32_small:
  assumes "uint n \<le> 10000"
  shows "\<exists>k. dec_u32 (num n) = Some k \<and> uint k = uint n"
proof -
  have "int (unat n) \<le> 10000" using assms by (simp only: of_nat_unat)
  then have n: "unat n \<le> 10000" by linarith
  then have "take_bit 32 (unat n) = unat n" by (subst take_bit_nat_eq_self_iff) simp
  then have "unat (ucast n :: u32) = unat n" by (simp add: unsigned_ucast_eq)
  then have "uint (ucast n :: u32) = uint n" by (metis of_nat_unat)
  with n show ?thesis by (simp add: dec_u32_def)
qed

lemma round_f64_nonneg:
  assumes "0 \<le> x" "x \<le> 2 ^ 64"
  shows "\<exists>y. round_f64 x = Fin y \<and> 0 \<le> y"
proof (cases "x = 0")
  case False
  define e where "e = max (- 1074) (floor_log2 \<bar>x\<bar> - 52)"
  define z where "z = x / 2 powi e"
  have x: "0 < x" using False assms(1) by simp
  have z: "0 \<le> z" using x by (simp add: z_def)
  have r: "0 \<le> round_half_even z" "of_int (round_half_even z) \<le> z + 1"
    using z by (auto simp: round_half_even_def Let_def) linarith+
  have "(2::rat) powi e \<le> 2 ^ 64"
  proof (cases "floor_log2 \<bar>x\<bar> - 52 \<le> - 1074")
    case True
    then have "(2::rat) powi e \<le> 2 powi 0" unfolding e_def by (intro power_int_increasing) auto
    then show ?thesis by simp
  next
    case False
    then have "(2::rat) powi e \<le> 2 powi floor_log2 \<bar>x\<bar>"
      unfolding e_def by (intro power_int_increasing) auto
    also have "\<dots> \<le> \<bar>x\<bar>" using x by (intro floor_log2_le) simp
    finally show ?thesis using x assms(2) by simp
  qed
  moreover have "of_int (round_half_even z) * 2 powi e \<le> (z + 1) * 2 powi e"
    using r(2) by (intro mult_right_mono) simp_all
  moreover have "(z + 1) * 2 powi e = x + 2 powi e" by (simp add: z_def field_simps)
  ultimately have "of_int (round_half_even z) * 2 powi e \<le> 2 ^ 64 + (2 ^ 64 :: rat)"
    using assms(2) by linarith
  also have "\<dots> < (2::rat) ^ 1024" by simp
  finally have "of_int (round_half_even z) * 2 powi e < (2::rat) ^ 1024" .
  moreover have "0 \<le> of_int (round_half_even z) * (2::rat) powi e" using r(1) by simp
  ultimately show ?thesis
    using False by (simp add: round_f64_def Let_def e_def z_def)
qed (simp add: round_f64_def)

lemma valid_ceiling:
  assumes "valid int_of (SNumber (Above 0) (Some h)) v" "h \<le> 1000"
  shows "\<exists>q. dec_f64 v = Some (Fin q) \<and> 0 < q \<and> q \<le> h"
proof -
  from assms(1) obtain n q where v: "v = Number n" "number_value n = Some q" "0 < q" "q \<le> h"
    by (auto simp: valid.simps split: json.splits option.splits)
  show ?thesis
  proof (cases n)
    case (PosInt k)
    then have q: "q = of_int (uint k)" using v(2) by simp
    then have "(of_int (uint k) :: rat) \<le> of_int 1000" using v(4) assms(2) by simp
    then have "representable (of_int (uint k))"
      by (intro representable_of_int) (simp only: of_int_le_iff, simp)
    then show ?thesis using v q PosInt by (simp add: dec_f64_def round_f64_exact)
  next
    case (NegInt i)
    with v(2,3) show ?thesis by (auto split: if_splits)
  next
    case (Float x)
    with v show ?thesis by (cases x) (auto simp: dec_f64_def)
  qed
qed

lemma valid_gain:
  assumes "valid int_of (SNumber (From 0) None) v"
  shows "\<exists>q. dec_f64 v = Some (Fin q) \<and> 0 \<le> q"
proof -
  from assms obtain n q where v: "v = Number n" "number_value n = Some q" "0 \<le> q"
    by (auto simp: valid.simps split: json.splits option.splits)
  show ?thesis
  proof (cases n)
    case (PosInt k)
    have "uint k < 2 ^ 64" using unsigned_less [of k] by simp
    then have "(of_int (uint k) :: rat) \<le> of_int (2 ^ 64)" by (simp only: of_int_le_iff)
    moreover have "(0::rat) \<le> of_int (uint k)" by (simp only: of_int_0_le_iff uint_ge_0)
    ultimately have "\<exists>y. round_f64 (of_int (uint k)) = Fin y \<and> 0 \<le> y"
      using round_f64_nonneg [of "of_int (uint k)"] by simp
    then show ?thesis using v PosInt by (auto simp: dec_f64_def)
  next
    case (NegInt i)
    with v(2,3) show ?thesis by (auto split: if_splits)
  next
    case (Float x)
    with v show ?thesis by (cases x) (auto simp: dec_f64_def)
  qed
qed

lemmas decoding = fields_within_Some req_found change_ok_def bounds_ok_def spec_ok_def word_le_def

lemma decodes_change:
  assumes "valid plain experiment_change_def v"
  shows "\<exists>c. change_of_json v = Some c \<and> change_ok c \<and> 1 \<le> char_count (capability_id c) \<and>
    lease_seconds c \<le> 300"
  using assms unfolding experiment_change_def_def valid_all_of
  by (auto simp: change_of_json_def object_parameters_def decoding
      dest!: valid_string valid_plain_integer)

lemma decodes_count:
  assumes "valid plain (SInteger (Some l) (Some 10000)) v" "0 \<le> l"
  shows "\<exists>n. dec_u32 v = Some n \<and> l \<le> uint n \<and> n \<le> 10000"
  using valid_plain_integer [OF assms] dec_u32_small by (fastforce simp: word_le_def)

lemma decodes_positive_count:
  assumes "valid plain (SInteger (Some 1) (Some 10000)) v"
  shows "\<exists>n. dec_nonzero_u32 v = Some n \<and> n \<noteq> 0 \<and> n \<le> 10000"
  using decodes_count [OF assms] by (auto simp: dec_nonzero_u32_def)

lemma decodes_bounds:
  assumes "valid plain decision_bounds_def v"
  shows "\<exists>b. bounds_of_json v = Some b \<and> bounds_ok b \<and> bounds_in_envelope b"
proof -
  from assms obtain m n g t p e where m: "v = Obj m"
      "fields_within [''min_samples'', ''min_fps_improvement'', ''max_temperature_c'', ''max_power_w'', ''max_errors''] m"
    and f: "fmlookup m ''min_samples'' = Some n" "fmlookup m ''min_fps_improvement'' = Some g"
      "fmlookup m ''max_temperature_c'' = Some t" "fmlookup m ''max_power_w'' = Some p"
      "fmlookup m ''max_errors'' = Some e"
    and v: "valid plain (SInteger (Some 1) (Some 10000)) n" "valid plain (SNumber (From 0) None) g"
      "valid plain (SNumber (Above 0) (Some 90)) t" "valid plain (SNumber (Above 0) (Some 250)) p"
      "valid plain (SInteger (Some 0) (Some 0)) e"
    unfolding decision_bounds_def_def valid_all_of by auto
  obtain k where k: "dec_nonzero_u32 n = Some k" "k \<noteq> 0" "k \<le> 10000"
    using decodes_positive_count [OF v(1)] by blast
  obtain x y z where x: "dec_f64 g = Some (Fin x)" "0 \<le> x" and y: "dec_f64 t = Some (Fin y)" "0 < y" "y \<le> 90"
    and z: "dec_f64 p = Some (Fin z)" "0 < z" "z \<le> 250"
    using valid_gain [OF v(2)] valid_ceiling [OF v(3)] valid_ceiling [OF v(4)] by auto
  have "e = num 0"
    using valid_plain_integer [OF v(5)] by (auto simp: uint_0_iff dest: antisym)
  with m f k x y z show ?thesis
    by (simp add: bounds_of_json_def decoding bounds_in_envelope_def f64_is_finite_def zero_f64_def)
qed

lemma decodes_spec:
  assumes "valid plain experiment_schema v"
  shows "\<exists>s. spec_of_json v = Some s \<and> spec_ok s \<and> valid whole experiment_schema (spec_json s)"
proof -
  from assms obtain m h c w b d e where m: "v = Obj m"
      "fields_within [''hypothesis'', ''target'', ''warmup_samples'', ''baseline_samples'', ''candidate_samples'', ''bounds''] m"
    and f: "fmlookup m ''hypothesis'' = Some h" "fmlookup m ''target'' = Some c"
      "fmlookup m ''warmup_samples'' = Some w" "fmlookup m ''baseline_samples'' = Some b"
      "fmlookup m ''candidate_samples'' = Some d" "fmlookup m ''bounds'' = Some e"
    and v: "valid plain (SString 1 (Some 4096) False) h" "valid plain experiment_change_def c"
      "valid plain (SInteger (Some 0) (Some 10000)) w" "valid plain (SInteger (Some 1) (Some 10000)) b"
      "valid plain (SInteger (Some 1) (Some 10000)) d" "valid plain decision_bounds_def e"
    unfolding experiment_schema_def valid_all_of by auto
  obtain s where s: "h = Str s" "1 \<le> char_count s" "char_count s \<le> 4096"
    using valid_string [OF v(1)] by auto
  obtain t where t: "change_of_json c = Some t" "change_ok t" "1 \<le> char_count (capability_id t)"
      "lease_seconds t \<le> 300"
    using decodes_change [OF v(2)] by blast
  obtain n where n: "dec_u32 w = Some n" "n \<le> 10000" using decodes_count [OF v(3)] by auto
  obtain k l where k: "dec_nonzero_u32 b = Some k" "k \<noteq> 0" "k \<le> 10000"
    and l: "dec_nonzero_u32 d = Some l" "l \<noteq> 0" "l \<le> 10000"
    using decodes_positive_count [OF v(4)] decodes_positive_count [OF v(5)] by auto
  obtain g where g: "bounds_of_json e = Some g" "bounds_ok g" "bounds_in_envelope g"
    using decodes_bounds [OF v(6)] by blast
  let ?s = "\<lparr>hypothesis = s, target = t, warmup_samples = n, baseline_samples = k, candidate_samples = l, bounds = g\<rparr>"
  have "spec_of_json v = Some ?s"
    using m f s(1) t(1) n(1) k(1) l(1) g(1) by (simp add: spec_of_json_def fields_within_Some req_found)
  moreover have "spec_ok ?s" using t(2) k(2) l(2) g(2) by (simp add: spec_ok_def)
  ultimately show ?thesis
    using whole.valid_spec [of ?s] s t n k l g by auto
qed

lemma decodes_request_change:
  assumes "valid plain request_change_def v"
  shows "\<exists>c. change_of_json v = Some c \<and> change_ok c \<and> slug (capability_id c) \<and> (\<exists>m. v = Obj m)"
  using assms unfolding request_change_def_def valid_all_of
  by (auto simp: change_of_json_def object_parameters_def decoding
      dest!: valid_string valid_plain_integer)

lemma decodes_enum:
  "valid int_of (SEnum (map wire variants)) v \<Longrightarrow> \<exists>x. enum_dec wire variants v = Some x"
  by (auto simp: valid.simps enum_dec_def find_None_iff simp flip: not_None_eq split: json.splits)

lemma opt_found: "fmlookup m k = Some w \<Longrightarrow> w \<noteq> Null \<Longrightarrow> opt m k dec = map_option Some (dec w)"
  by (simp add: opt_def split: json.split)

lemma decodes_request:
  assumes "valid plain broker_request_schema v"
  shows "\<exists>q. request_of_json v = Some q \<and> valid whole broker_request_schema (request_json q)"
proof -
  from assms obtain m w where m: "v = Obj m" "fields_within [''op'', ''owner'', ''change''] m"
      "fmlookup m ''op'' = Some w" "valid plain (SEnum [''discover'', ''run-lifecycle'']) w"
    and own: "case fmlookup m ''owner'' of None \<Rightarrow> True | Some x \<Rightarrow> valid plain (SString 1 None False) x"
    and cha: "case fmlookup m ''change'' of None \<Rightarrow> True | Some x \<Rightarrow> valid plain request_change_def x"
    unfolding broker_request_schema_def
    by (cases v) (auto simp: valid.simps list_all_iff split: option.splits elim!: fmdomE)
  obtain p where p: "enum_dec broker_op_wire broker_op_variants w = Some p"
    using decodes_enum [of plain broker_op_wire broker_op_variants w] m(4)
    by (auto simp: broker_op_variants_def)
  have "\<exists>x. opt m ''owner'' as_str = Some x \<and> (\<forall>y. x = Some y \<longrightarrow> 1 \<le> char_count y)"
    using own by (cases "fmlookup m ''owner''") (auto simp: opt_def dest!: valid_string)
  then obtain x where x: "opt m ''owner'' as_str = Some x" "\<forall>y. x = Some y \<longrightarrow> 1 \<le> char_count y" by blast
  have "\<exists>c. opt m ''change'' change_of_json = Some c \<and> (\<forall>d. c = Some d \<longrightarrow> change_ok d \<and> slug (capability_id d))"
    using cha by (cases "fmlookup m ''change''") (auto simp: opt_def dest!: decodes_request_change)
  then obtain c where c: "opt m ''change'' change_of_json = Some c"
    "\<forall>d. c = Some d \<longrightarrow> change_ok d \<and> slug (capability_id d)" by blast
  let ?q = "\<lparr>rq_op = p, rq_owner = x, rq_change = c\<rparr>"
  have "request_of_json v = Some ?q"
    using m p x(1) c(1) by (simp add: request_of_json_def fields_within_Some req_found)
  moreover have "request_ok ?q" using c(2) by (simp add: request_ok_def split: option.split)
  ultimately show ?thesis using whole.valid_request [of ?q] x(2) c(2) by auto
qed

text \<open>The value at a path of field names, and whether a document writes what is there as an unsigned integer.\<close>

fun at_path :: "string list \<Rightarrow> json \<Rightarrow> json option" where
  "at_path [] v = Some v"
| "at_path (k # ks) v = Option.bind (get k v) (at_path ks)"

definition unsigned_at :: "json \<Rightarrow> string list \<Rightarrow> bool" where
  "unsigned_at v ks \<longleftrightarrow> (\<forall>w. at_path ks v = Some w \<longrightarrow> (\<exists>n. w = num n))"

lemma whole_num: "whole (PosInt n) = plain (PosInt n)"
  by (simp add: whole_def del: of_nat_unat)

lemma valid_int_num: "valid whole (SInteger lo hi) (num n) \<Longrightarrow> valid plain (SInteger lo hi) (num n)"
  by (simp add: valid.simps whole_num del: plain.simps)

lemma valid_any_int:
  "valid whole (SString a b p) v \<Longrightarrow> valid plain (SString a b p) v"
  "valid whole SObject v \<Longrightarrow> valid plain SObject v"
  "valid whole (SEnum ws) v \<Longrightarrow> valid plain (SEnum ws) v"
  "valid whole (SNumber x y) v \<Longrightarrow> valid plain (SNumber x y) v"
  by (simp_all add: valid.simps)


lemma decoded_num:
  "as_u64 w = Some a \<Longrightarrow> \<exists>n. w = num n"
  "dec_nonzero_u64 w = Some a \<Longrightarrow> \<exists>n. w = num n"
  "dec_u32 w = Some b \<Longrightarrow> \<exists>n. w = num n"
  "dec_nonzero_u32 w = Some b \<Longrightarrow> \<exists>n. w = num n"
  by (auto simp: as_u64_def dec_nonzero_u64_def dec_u32_def dec_nonzero_u32_def
      split: json.splits number.splits Option.bind_splits if_splits)

lemmas unsigned = unsigned_at_def get_def valid_any_int

lemma change_unsigned:
  assumes "change_of_json c = Some d" "c = Obj m"
  shows "unsigned_at c [''lease_seconds'']"
  using assms decoded_num(2)
  by (auto simp: change_of_json_def unsigned_at_def get_def req_def bind_eq_Some_conv struct_fields_def
      struct_fields_from_def split: if_splits)

lemma request_change_plain:
  assumes "valid whole request_change_def c" "unsigned_at c [''lease_seconds'']"
  shows "valid plain request_change_def c"
  using assms valid_int_num
  unfolding request_change_def_def valid_all_of by (fastforce simp: unsigned)

lemma experiment_change_plain:
  assumes "valid whole experiment_change_def c" "unsigned_at c [''lease_seconds'']"
  shows "valid plain experiment_change_def c"
  using assms valid_int_num
  unfolding experiment_change_def_def valid_all_of by (fastforce simp: unsigned)

lemma bounds_plain:
  assumes "valid whole decision_bounds_def c" "unsigned_at c [''min_samples'']" "unsigned_at c [''max_errors'']"
  shows "valid plain decision_bounds_def c"
  using assms valid_int_num
  unfolding decision_bounds_def_def valid_all_of by (fastforce simp: unsigned)

lemma bounds_unsigned:
  assumes "bounds_of_json c = Some d" "c = Obj m"
  shows "unsigned_at c [''min_samples'']" "unsigned_at c [''max_errors'']"
  using assms decoded_num
  by (auto simp: bounds_of_json_def unsigned_at_def get_def req_def bind_eq_Some_conv struct_fields_def
      struct_fields_from_def split: if_splits)

lemma request_unsigned:
  assumes "valid whole broker_request_schema v"
  shows "unsigned_at v [''change'', ''lease_seconds''] \<Longrightarrow> valid plain broker_request_schema v"
    "request_of_json v = Some q \<Longrightarrow> unsigned_at v [''change'', ''lease_seconds'']"
proof -
  from assms obtain m w where m: "v = Obj m" "fields_within [''op'', ''owner'', ''change''] m"
      "fmlookup m ''op'' = Some w" "valid whole (SEnum [''discover'', ''run-lifecycle'']) w"
    and own: "case fmlookup m ''owner'' of None \<Rightarrow> True | Some x \<Rightarrow> valid whole (SString 1 None False) x"
    and cha: "case fmlookup m ''change'' of None \<Rightarrow> True | Some x \<Rightarrow> valid whole request_change_def x"
    unfolding broker_request_schema_def
    by (cases v) (auto simp: valid.simps list_all_iff split: option.splits elim!: fmdomE)
  have un: "unsigned_at v [''change'', ''lease_seconds''] \<longleftrightarrow>
      (case fmlookup m ''change'' of None \<Rightarrow> True | Some x \<Rightarrow> unsigned_at x [''lease_seconds''])"
    using m(1) by (simp add: unsigned_at_def get_def split: option.split)
  show "valid plain broker_request_schema v" if "unsigned_at v [''change'', ''lease_seconds'']"
    using that m own cha request_change_plain valid_any_int unfolding un broker_request_schema_def
    by (auto simp: valid.simps(9) list_all_iff fmlookup_dom_iff split: option.splits)
  show "unsigned_at v [''change'', ''lease_seconds'']" if "request_of_json v = Some q"
  proof (cases "fmlookup m ''change''")
    case (Some x)
    with cha obtain mm where "x = Obj mm"
      unfolding request_change_def_def valid_all_of by auto
    with that m Some obtain d where "change_of_json x = Some d"
      by (auto simp: request_of_json_def fields_within_Some req_found opt_def bind_eq_Some_conv)
    with Some \<open>x = Obj mm\<close> show ?thesis unfolding un by (simp add: change_unsigned)
  qed (simp add: un)
qed

definition spec_integers :: "string list list" where
  "spec_integers = [[''target'', ''lease_seconds''], [''warmup_samples''], [''baseline_samples''],
     [''candidate_samples''], [''bounds'', ''min_samples''], [''bounds'', ''max_errors'']]"

lemma spec_unsigned:
  assumes "valid whole experiment_schema v"
  shows "\<forall>ks\<in>set spec_integers. unsigned_at v ks \<Longrightarrow> valid plain experiment_schema v"
    "spec_of_json v = Some s \<Longrightarrow> \<forall>ks\<in>set spec_integers. unsigned_at v ks"
proof -
  from assms obtain m h c w b d e where m: "v = Obj m"
      "fields_within [''hypothesis'', ''target'', ''warmup_samples'', ''baseline_samples'', ''candidate_samples'', ''bounds''] m"
    and f: "fmlookup m ''hypothesis'' = Some h" "fmlookup m ''target'' = Some c"
      "fmlookup m ''warmup_samples'' = Some w" "fmlookup m ''baseline_samples'' = Some b"
      "fmlookup m ''candidate_samples'' = Some d" "fmlookup m ''bounds'' = Some e"
    and v: "valid whole (SString 1 (Some 4096) False) h" "valid whole experiment_change_def c"
      "valid whole (SInteger (Some 0) (Some 10000)) w" "valid whole (SInteger (Some 1) (Some 10000)) b"
      "valid whole (SInteger (Some 1) (Some 10000)) d" "valid whole decision_bounds_def e"
    unfolding experiment_schema_def valid_all_of by auto
  obtain n where n: "c = Obj n" using v(2) unfolding experiment_change_def_def valid_all_of by blast
  obtain k where k: "e = Obj k" using v(6) unfolding decision_bounds_def_def valid_all_of by blast
  have un: "(\<forall>ks\<in>set spec_integers. unsigned_at v ks) \<longleftrightarrow> unsigned_at c [''lease_seconds''] \<and>
      (\<exists>x. w = num x) \<and> (\<exists>x. b = num x) \<and> (\<exists>x. d = num x) \<and>
      unsigned_at e [''min_samples''] \<and> unsigned_at e [''max_errors'']"
    using m(1) f by (simp add: spec_integers_def unsigned_at_def get_def)
  show "valid plain experiment_schema v" if "\<forall>ks\<in>set spec_integers. unsigned_at v ks"
    using that m f v valid_any_int(1) [OF v(1)] experiment_change_plain [OF v(2)] bounds_plain [OF v(6)] valid_int_num
    unfolding un experiment_schema_def valid_all_of by fastforce
  show "\<forall>ks\<in>set spec_integers. unsigned_at v ks" if "spec_of_json v = Some s"
  proof -
    from that m f obtain t x y z g where "change_of_json c = Some t" "dec_u32 w = Some x"
      "dec_nonzero_u32 b = Some y" "dec_nonzero_u32 d = Some z" "bounds_of_json e = Some g"
      by (auto simp: spec_of_json_def fields_within_Some req_found bind_eq_Some_conv)
    then show ?thesis
      unfolding un using change_unsigned [OF _ n] bounds_unsigned [OF _ k] decoded_num(3,4) by blast
  qed
qed

subsection \<open>The documents against the program\<close>

text \<open>
  C33: The published experiment schema and the runner's gate.  Every specification the runner accepts
  is printed as a valid document.  Of the valid documents exactly those decode whose six integer
  fields are written as unsigned integers of 64 bits (JSON Schema also calls \<open>5.0\<close> an integer), and what
  they decode to is printed as a valid document again.  The runner accepts the decoded specification
  exactly when, beyond the schema, its target is the capability \<open>mock.value\<close> with the single parameter
  \<open>value\<close>, an unsigned integer of at most 100, and the two sample counts cover the minimum.
\<close>

theorem experiment_schema_is_the_gate:
  "(spec_ok s \<and> validate_spec s = Inr x \<longrightarrow> valid whole experiment_schema (spec_json s)) \<and>
   (valid whole experiment_schema v \<longrightarrow>
     ((\<exists>d. spec_of_json v = Some d) \<longleftrightarrow> (\<forall>ks\<in>set spec_integers. unsigned_at v ks)) \<and>
     (\<forall>d. spec_of_json v = Some d \<longrightarrow> valid whole experiment_schema (spec_json d) \<and>
       (validate_spec d = Inr y \<longleftrightarrow>
          capability_id (Experiment.target d) = ''mock.value'' \<and>
          min_samples (bounds d) \<le> baseline_samples d \<and> min_samples (bounds d) \<le> candidate_samples d \<and>
          (\<exists>m. parameters (Experiment.target d) = Obj m \<and> fset (fmdom m) \<subseteq> {''value''}) \<and>
          get_u64 ''value'' (parameters (Experiment.target d)) = Some y \<and> y \<le> 100)))"
proof (intro conjI impI allI)
  assume "spec_ok s \<and> validate_spec s = Inr x"
  then show "valid whole experiment_schema (spec_json s)"
    by (auto simp: whole.valid_spec validate_spec_gate char_count_def is_continuation_def byte_of_def)
next
  assume "valid whole experiment_schema v"
  from spec_unsigned [OF this]
  show "(\<exists>d. spec_of_json v = Some d) \<longleftrightarrow> (\<forall>ks\<in>set spec_integers. unsigned_at v ks)"
    using decodes_spec [of v] by blast
next
  fix d assume v: "valid whole experiment_schema v" and d: "spec_of_json v = Some d"
  from decodes_spec [OF spec_unsigned(1) [OF v spec_unsigned(2) [OF v d]]] d
  have d: "spec_ok d" "valid whole experiment_schema (spec_json d)" by auto
  show "valid whole experiment_schema (spec_json d)" by (rule d(2))
  show "validate_spec d = Inr y \<longleftrightarrow>
          capability_id (Experiment.target d) = ''mock.value'' \<and>
          min_samples (bounds d) \<le> baseline_samples d \<and> min_samples (bounds d) \<le> candidate_samples d \<and>
          (\<exists>m. parameters (Experiment.target d) = Obj m \<and> fset (fmdom m) \<subseteq> {''value''}) \<and>
          get_u64 ''value'' (parameters (Experiment.target d)) = Some y \<and> y \<le> 100"
    using d by (auto simp: whole.valid_spec validate_spec_gate)
qed

theorem experiment_schema_is_the_gate_witness:
  "valid whole experiment_schema (spec_json demo_spec)"
proof -
  have "spec_ok demo_spec"
    by (simp add: spec_ok_def demo_spec_def change_ok_def bounds_ok_def f64_is_finite_def)
  moreover have "validate_spec demo_spec = Inr 40" by (rule demo_gate)
  ultimately show ?thesis using experiment_schema_is_the_gate [of demo_spec 40] by blast
qed

text \<open>
  C23: The broker speaks its published schemas.  Over a well-formed manifest the sidecar schema admits,
  as the mock provider's is on every platform, every response the broker gives, to any request, is a
  document of the response schema and decodes to itself.  A request that its type can hold is a
  document of the request schema exactly when its owner is not empty and its capability identifier
  has the published form.  Of the documents of the request schema exactly those decode whose lease, if
  there is one, is written as an unsigned integer of 64 bits, and what they decode to is printed as
  such a document again.
\<close>

theorem broker_speaks_its_schemas:
  "(broker_handle H P q sv = (r, sv') \<and> manifest_ok (manifest (sv_plane sv)) \<and>
      valid whole sidecar_schema (manifest_json (manifest (sv_plane sv))) \<longrightarrow>
      valid whole broker_response_schema (response_json r) \<and> response_of_json (response_json r) = Some r) \<and>
    manifest_ok (mock_manifest platform p) \<and>
    valid whole sidecar_schema (manifest_json (mock_manifest platform p)) \<and>
    (request_ok q' \<longrightarrow> (valid whole broker_request_schema (request_json q') \<longleftrightarrow>
      (\<forall>w. rq_owner q' = Some w \<longrightarrow> 1 \<le> char_count w) \<and> (\<forall>c. rq_change q' = Some c \<longrightarrow> slug (capability_id c)))) \<and>
    (valid whole broker_request_schema v \<longrightarrow>
      ((\<exists>q. request_of_json v = Some q) \<longleftrightarrow> unsigned_at v [''change'', ''lease_seconds'']) \<and>
      (\<forall>q. request_of_json v = Some q \<longrightarrow> valid whole broker_request_schema (request_json q)))"
proof (intro conjI impI allI)
  assume h: "broker_handle H P q sv = (r, sv') \<and> manifest_ok (manifest (sv_plane sv)) \<and>
      valid whole sidecar_schema (manifest_json (manifest (sv_plane sv)))"
  have "r' = manifest (sv_plane sv)" if "r = CapabilitiesResponse r'" for r'
    using h that
    by (auto simp: broker_handle_def broker_discover_def broker_run_lifecycle_def wire_error_def
        error_response_def split: broker_op.splits option.splits sum.splits prod.splits if_splits cp_error.splits)
  with h show "valid whole broker_response_schema (response_json r)"
      "response_of_json (response_json r) = Some r"
    by (auto simp: whole.valid_response intro!: response_format.dec_enc) (cases r; auto)
next
  show "manifest_ok (mock_manifest platform p)" by (simp add: manifest_ok_def mock_manifest_def)
next
  show "valid whole sidecar_schema (manifest_json (mock_manifest platform p))"
    by (simp add: mock_manifest_def slug_def word_char_def value_schema_def char_count_def
        is_continuation_def byte_of_def)
next
  show "request_ok q' \<Longrightarrow> valid whole broker_request_schema (request_json q') \<longleftrightarrow>
      (\<forall>w. rq_owner q' = Some w \<longrightarrow> 1 \<le> char_count w) \<and> (\<forall>c. rq_change q' = Some c \<longrightarrow> slug (capability_id c))"
    by (rule whole.valid_request)
next
  assume "valid whole broker_request_schema v"
  from request_unsigned [OF this]
  show "(\<exists>q. request_of_json v = Some q) \<longleftrightarrow> unsigned_at v [''change'', ''lease_seconds'']"
    using decodes_request [of v] by blast
next
  fix q assume v: "valid whole broker_request_schema v" and q: "request_of_json v = Some q"
  from decodes_request [OF request_unsigned(1) [OF v request_unsigned(2) [OF v q]]] q
  show "valid whole broker_request_schema (request_json q)" by auto
qed

theorem broker_speaks_its_schemas_witness:
  "valid whole broker_response_schema
     (response_json (fst (broker_handle plain_host (mock_ops ''linux'') discover_request demo_service)))"
proof -
  have "manifest (sv_plane demo_service) = mock_manifest ''linux'' \<lparr>mock_value = 0\<rparr>"
    by (simp add: demo_service_def new_service_def demo_plane_def)
  with broker_speaks_its_schemas [of plain_host "mock_ops ''linux''" discover_request demo_service
      "fst (broker_handle plain_host (mock_ops ''linux'') discover_request demo_service)"
      "snd (broker_handle plain_host (mock_ops ''linux'') discover_request demo_service)"
      "''linux''" "\<lparr>mock_value = 0\<rparr>"]
  show ?thesis by simp
qed

text \<open>
  JSON Schema calls \<open>5.0\<close> an integer, the decoder of an unsigned field does not: the experiment schema
  admits a document the program cannot read.
\<close>

definition fractional_spec :: json where
  "fractional_spec = obj
     [(''hypothesis'', Str ''h''), (''target'', change_json demo_request),
      (''warmup_samples'', Number (Float (Fin 5))), (''baseline_samples'', num 5),
      (''candidate_samples'', num 5), (''bounds'', bounds_json (bounds demo_spec))]"

lemma integral_float_is_valid_but_refused:
  "valid whole experiment_schema fractional_spec \<and> spec_of_json fractional_spec = None"
proof
  have "change_ok demo_request" "bounds_ok (bounds demo_spec)" "bounds_in_envelope (bounds demo_spec)"
    by (simp_all add: demo_request_def demo_spec_def change_ok_def bounds_ok_def bounds_in_envelope_def
        f64_is_finite_def zero_f64_def)
  moreover have "valid whole (SInteger (Some 0) (Some 10000)) (Number (Float (Fin 5)))"
    by (simp add: valid.simps whole_def)
  ultimately show "valid whole experiment_schema fractional_spec"
    by (simp add: experiment_schema_def fractional_spec_def valid_fields_obj)
      (simp add: valid.simps demo_request_def char_count_def is_continuation_def byte_of_def)
  show "spec_of_json fractional_spec = None"
    by (simp add: spec_of_json_def fractional_spec_def dec_u32_def
        split: Option.bind_split)
qed

text \<open>
  The derived decoders read a sequence as the fields in their order and a variant's name also as the
  key of an object that maps it to null; the published request schema says neither.
\<close>

lemma decoder_admits_more_than_the_schema:
  "request_of_json (Arr [Str ''discover'']) = Some discover_request"
  "request_of_json (obj [(''op'', obj [(''discover'', Null)])]) = Some discover_request"
  "\<not> valid whole broker_request_schema (Arr [Str ''discover''])"
  "\<not> valid whole broker_request_schema (obj [(''op'', obj [(''discover'', Null)])])"
  by (simp_all add: request_of_json_def discover_request_def enum_dec_def broker_op_variants_def req_def opt_def
      broker_request_schema_def valid_fields_obj)
    (simp_all add: valid.simps obj_def)

end
