(* ===== verification/Contract_Tests.thy ===== *)
theory Contract_Tests
  imports Schemas
begin

section \<open>The contract tests (\<open>crates/contracts\<close>)\<close>

text \<open>
  The repository's own tests of the contracts, as definitions that hold of the model when the tests
  pass, with the helpers of \<open>test_support.rs\<close>.  They check the model against an oracle that was written
  for the code.  A helper that panics is \<open>None\<close>.  A checked-in schema is the document printed by \<open>document\<close>, in
  which a reference is replaced by what it refers to, with its definitions beside it.  The generator of
  the \<open>schemars\<close> crate is not in the repository: it is the parameter \<open>gen\<close>, the schema generated for each
  type by its name, and \<open>derives\<close> is what the derive macro documents of it.
\<close>

subsection \<open>Schemas as documents\<close>

definition limit :: "string \<Rightarrow> ('a \<Rightarrow> json) \<Rightarrow> 'a option \<Rightarrow> (string \<times> json) list" where
  "limit k enc x = (case x of None \<Rightarrow> [] | Some y \<Rightarrow> [(k, enc y)])"

abbreviation count_json :: "nat \<Rightarrow> json" where
  "count_json n \<equiv> num (of_nat n)"

abbreviation int_json :: "int \<Rightarrow> json" where
  "int_json i \<equiv> num (of_int i)"

abbreviation float_json :: "rat \<Rightarrow> json" where
  "float_json x \<equiv> Number (Float (Fin x))"

fun lower_json :: "lower \<Rightarrow> (string \<times> json) list" where
  "lower_json Unbounded = []"
| "lower_json (From x) = [(''minimum'', float_json x)]"
| "lower_json (Above x) = [(''exclusiveMinimum'', float_json x)]"

fun document :: "schema \<Rightarrow> json" where
  "document SObject = obj [(''type'', Str ''object'')]"
| "document (SString lo hi pat) = obj ((''type'', Str ''string'') #
     limit ''minLength'' count_json (if lo = 0 then None else Some lo) @ limit ''maxLength'' count_json hi @
     (if pat then [(''pattern'', Str ''^[a-z0-9]+([.-][a-z0-9]+)*$'')] else []))"
| "document (SEnum ws) = obj [(''enum'', list_enc Str ws)]"
| "document (SConst w) = obj [(''const'', Str w)]"
| "document (SInteger lo hi) = obj ((''type'', Str ''integer'') #
     limit ''minimum'' int_json lo @ limit ''maximum'' int_json hi)"
| "document (SNumber lo hi) = obj ((''type'', Str ''number'') #
     lower_json lo @ limit ''maximum'' float_json hi)"
| "document SBoolean = obj [(''type'', Str ''boolean'')]"
| "document (SArray lo e) = obj ((''type'', Str ''array'') #
     limit ''minItems'' count_json (if lo = 0 then None else Some lo) @ [(''items'', document e)])"
| "document (SFields ps rs) = obj
     [(''type'', Str ''object''), (''additionalProperties'', Bool False), (''required'', list_enc Str rs),
      (''properties'', obj (map (\<lambda>(k, e). (k, document e)) ps))]"
| "document (SOneOf es) = obj [(''oneOf'', Arr (map document es))]"

subsection \<open>Helpers\<close>

text \<open>\<open>value[key]\<close> is null where there is no such key, and an assignment adds it.\<close>

definition item :: "string \<Rightarrow> json \<Rightarrow> json" where
  "item k v = (case get k v of None \<Rightarrow> Null | Some w \<Rightarrow> w)"

definition put_field :: "string \<Rightarrow> json \<Rightarrow> json \<Rightarrow> json" where
  "put_field k w v = (case v of Obj m \<Rightarrow> Obj (fmupd k w m) | _ \<Rightarrow> v)"

definition wire_string :: "('a \<Rightarrow> json) \<Rightarrow> 'a \<Rightarrow> string option" where
  "wire_string enc x = as_str (enc x)"

definition string_set :: "json \<Rightarrow> string set option" where
  "string_set v = Option.bind (as_array v) (\<lambda>xs. map_option set (those (map as_str xs)))"

definition keys :: "json \<Rightarrow> string set option" where
  "keys v = map_option (\<lambda>m. fset (fmdom m)) (as_object v)"

definition properties :: "json \<Rightarrow> string set option" where
  "properties schema = keys (item ''properties'' schema)"

definition serialized_fields :: "('a \<Rightarrow> json) \<Rightarrow> 'a \<Rightarrow> string set option" where
  "serialized_fields enc x = keys (enc x)"

text \<open>Two panics are not a match: the assertion that compares them is not reached.\<close>

definition agree :: "'a option \<Rightarrow> 'a option \<Rightarrow> bool" where
  "agree x y \<longleftrightarrow> x \<noteq> None \<and> x = y"

definition assert_same_shape :: "json \<Rightarrow> json \<Rightarrow> bool" where
  "assert_same_shape generated checked_in \<longleftrightarrow>
     agree (properties generated) (properties checked_in) \<and>
     agree (string_set (item ''required'' generated)) (string_set (item ''required'' checked_in)) \<and>
     item ''additionalProperties'' generated = item ''additionalProperties'' checked_in"

text \<open>The schema generated for a type, by the type's name.\<close>

type_synonym schema_generator = "string \<Rightarrow> json"

definition bounded_at :: "string list \<Rightarrow> string \<Rightarrow> json \<Rightarrow> json \<Rightarrow> bool" where
  "bounded_at path keyword expected schema \<longleftrightarrow> item keyword (fold item path schema) = expected"

text \<open>A checked-in file with the definitions it keeps under \<open>$defs\<close>.\<close>

definition with_defs :: "(string \<times> schema) list \<Rightarrow> schema \<Rightarrow> json" where
  "with_defs ds s = put_field ''$defs'' (obj (map (\<lambda>(k, e). (k, document e)) ds)) (document s)"

definition experiment_file :: json where
  "experiment_file = with_defs
     [(''change_request'', experiment_change_def), (''decision_bounds'', decision_bounds_def)] experiment_schema"

definition verdict_file :: json where
  "verdict_file = with_defs [(''metric_summary'', metric_summary_def)] verdict_schema"

definition request_file :: json where
  "request_file = with_defs [(''ChangeRequest'', request_change_def)] broker_request_schema"

definition response_file :: json where
  "response_file = with_defs
     [(''LifecycleReport'', lifecycle_report_def), (''BrokerErrorBody'', error_body_def)] broker_response_schema"

definition rejects :: "(json \<Rightarrow> 'a option) \<Rightarrow> json \<Rightarrow> bool" where
  "rejects dec v \<longleftrightarrow> dec v = None"

lemma item_obj [simp]: "item k (obj kvs) = (case map_of kvs k of None \<Rightarrow> Null | Some w \<Rightarrow> w)"
  by (simp add: item_def)

lemma keys_obj [simp]: "keys (obj kvs) = Some (fst ` set kvs)"
  by (simp add: keys_def fset_of_list.rep_eq)

lemma those_Str [simp]: "those (map (as_str \<circ> Str) xs) = Some xs"
  by (induction xs) simp_all

lemma string_set_list [simp]: "string_set (list_enc Str xs) = Some (set xs)"
  by (simp add: string_set_def list_enc_def as_array_def)

lemma limit_simps [simp]: "limit k enc None = []" "limit k enc (Some x) = [(k, enc x)]"
  by (simp_all add: limit_def)

lemma put_field_obj [simp]: "put_field k w (obj kvs) = obj ((k, w) # kvs)"
  by (simp add: put_field_def obj_def)

text \<open>
  What is printed for a value of a type whose document has no more than it, has the document's properties
  and its required fields: the comparison that every \<open>*_fields_match_*\<close> test makes.
\<close>

lemma serialized_shape:
  "map fst kvs = map fst ps \<Longrightarrow>
   agree (keys (obj kvs)) (properties (document (all_of ps))) \<and>
   agree (keys (obj kvs)) (string_set (item ''required'' (document (all_of ps)))) \<and>
   item ''additionalProperties'' (document (all_of ps)) = Bool False"
proof -
  assume same: "map fst kvs = map fst ps"
  have k: "keys (obj xs) = Some (set (map fst xs))" for xs by simp
  have "map fst (map (\<lambda>(k, e). (k, document e)) ps) = map fst ps" by (induction ps) auto
  then have "properties (document (all_of ps)) = Some (set (map fst ps))"
    unfolding properties_def by (simp del: keys_obj set_map map_map add: k)
  moreover have "string_set (item ''required'' (document (all_of ps))) = Some (set (map fst ps))"
    by simp
  ultimately show ?thesis using same by (simp add: agree_def k del: keys_obj set_map)
qed

subsection \<open>\<open>lib.rs\<close>\<close>

definition sample_capability :: capability_descriptor where
  "sample_capability = \<lparr>cap_id = ''process.cpu-affinity'',
     cap_description = ''Pins a process to selected cores'', cap_risk = Reversible,
     cap_persistence = Leased, cap_schema = obj [(''type'', Str ''object'')]\<rparr>"

definition sample_manifest :: provider_manifest where
  "sample_manifest = \<lparr>man_id = ''mock'', protocol_version = 1, targets = [''windows''],
     capabilities = [sample_capability]\<rparr>"

definition enum_wire_strings_match_capability_schema :: bool where
  "enum_wire_strings_match_capability_schema \<longleftrightarrow>
     (let risk = wire_string (enum_enc risk_wire); pers = wire_string (enum_enc persistence_wire);
          schema = document capability_schema in
      risk ReadOnly = Some ''read-only'' \<and> risk Reversible = Some ''reversible'' \<and>
      risk ApprovalRequired = Some ''approval-required'' \<and> risk Denied = Some ''denied'' \<and>
      pers PersistNone = Some ''none'' \<and> pers Leased = Some ''leased'' \<and>
      pers Persistent = Some ''persistent'' \<and> pers RebootRequired = Some ''reboot-required'' \<and>
      agree (string_set (item ''enum'' (item ''risk'' (item ''properties'' schema))))
        (map_option set (those (map risk [ReadOnly, Reversible, ApprovalRequired, Denied]))) \<and>
      agree (string_set (item ''enum'' (item ''persistence'' (item ''properties'' schema))))
        (map_option set (those (map pers [PersistNone, Leased, Persistent, RebootRequired]))))"

definition fields_match :: "('a \<Rightarrow> json) \<Rightarrow> 'a \<Rightarrow> schema \<Rightarrow> bool" where
  "fields_match enc x s \<longleftrightarrow>
     agree (serialized_fields enc x) (properties (document s)) \<and>
     agree (serialized_fields enc x) (string_set (item ''required'' (document s))) \<and>
     item ''additionalProperties'' (document s) = Bool False"

definition capability_fields_match_capability_schema :: bool where
  "capability_fields_match_capability_schema \<longleftrightarrow>
     fields_match capability_json sample_capability capability_schema"

definition manifest_fields_match_sidecar_schema :: bool where
  "manifest_fields_match_sidecar_schema \<longleftrightarrow> fields_match manifest_json sample_manifest sidecar_schema"

definition unknown_fields_are_rejected_like_the_schemas :: bool where
  "unknown_fields_are_rejected_like_the_schemas \<longleftrightarrow>
     rejects capability_of_json (put_field ''unexpected'' (Bool True) (capability_json sample_capability)) \<and>
     rejects manifest_of_json (put_field ''unexpected'' (Bool True) (manifest_json sample_manifest))"

definition protocol_version_zero_is_rejected_like_the_schema :: bool where
  "protocol_version_zero_is_rejected_like_the_schema \<longleftrightarrow>
     item ''minimum'' (item ''protocol_version'' (item ''properties'' (document sidecar_schema))) = num 1 \<and>
     rejects manifest_of_json (put_field ''protocol_version'' (num 0) (manifest_json sample_manifest))"

definition lease_request :: "json \<Rightarrow> json \<Rightarrow> json" where
  "lease_request params lease = obj
     [(''capability_id'', Str ''mock.value''), (''parameters'', params), (''lease_seconds'', lease)]"

definition lease_seconds_zero_is_rejected :: bool where
  "lease_seconds_zero_is_rejected \<longleftrightarrow>
     (let serialized = lease_request (obj [(''value'', num 1)]) (num 1) in
      \<not> rejects change_of_json serialized \<and>
      rejects change_of_json (put_field ''lease_seconds'' (num 0) serialized))"

definition lease_seconds_is_bounded_like_the_schema :: "schema_generator \<Rightarrow> bool" where
  "lease_seconds_is_bounded_like_the_schema gen \<longleftrightarrow>
     bounded_at [''$defs'', ''change_request'', ''properties'', ''lease_seconds''] ''maximum''
       (num MAX_LEASE_SECONDS) experiment_file \<and>
     bounded_at [''$defs'', ''ChangeRequest'', ''properties'', ''lease_seconds''] ''maximum''
       (num MAX_LEASE_SECONDS) (gen ''ExperimentSpec'')"

definition non_object_parameters_are_rejected_like_the_schema :: bool where
  "non_object_parameters_are_rejected_like_the_schema \<longleftrightarrow>
     list_all (\<lambda>params. rejects change_of_json (lease_request params (num 1)))
       [Str ''value=1'', num 1, Arr [num 1], Null]"

lemma capability_tests:
  "enum_wire_strings_match_capability_schema" "capability_fields_match_capability_schema"
  "manifest_fields_match_sidecar_schema"
proof -
  show enum_wire_strings_match_capability_schema
    by (simp add: enum_wire_strings_match_capability_schema_def capability_schema_def wire_string_def
        enum_enc_def agree_def)
  show capability_fields_match_capability_schema
    unfolding capability_fields_match_capability_schema_def fields_match_def serialized_fields_def
      capability_json_def capability_schema_def by (rule serialized_shape) simp
  show manifest_fields_match_sidecar_schema
    unfolding manifest_fields_match_sidecar_schema_def fields_match_def serialized_fields_def
      manifest_json_def sidecar_schema_def by (rule serialized_shape) simp
qed

lemma rejection_tests:
  "unknown_fields_are_rejected_like_the_schemas" "protocol_version_zero_is_rejected_like_the_schema"
  "lease_seconds_zero_is_rejected"
  "non_object_parameters_are_rejected_like_the_schema"
proof -
  show unknown_fields_are_rejected_like_the_schemas
    by (simp add: unknown_fields_are_rejected_like_the_schemas_def rejects_def capability_json_def
        manifest_json_def capability_of_json_def manifest_of_json_def)
  show protocol_version_zero_is_rejected_like_the_schema
    by (simp add: protocol_version_zero_is_rejected_like_the_schema_def sidecar_schema_def rejects_def
        manifest_json_def manifest_of_json_def dec_nonzero_u32_def dec_u32_def)
  show lease_seconds_zero_is_rejected
    by (simp add: lease_seconds_zero_is_rejected_def lease_request_def rejects_def change_of_json_def
        object_parameters_def)
  show non_object_parameters_are_rejected_like_the_schema
    by (simp add: non_object_parameters_are_rejected_like_the_schema_def lease_request_def rejects_def
        change_of_json_def object_parameters_def dec_object_def)
qed

definition assert_object_parity :: "json \<Rightarrow> json \<Rightarrow> bool" where
  "assert_object_parity generated checked_in \<longleftrightarrow>
     agree (keys (item ''properties'' generated)) (keys (item ''properties'' checked_in)) \<and>
     agree (string_set (item ''required'' generated)) (string_set (item ''required'' checked_in)) \<and>
     item ''additionalProperties'' generated = item ''additionalProperties'' checked_in"

definition generated_object_definitions :: "json \<Rightarrow> string set" where
  "generated_object_definitions generated =
     (case as_object (item ''$defs'' generated) of
        None \<Rightarrow> {}
      | Some m \<Rightarrow> fset (fmdom (fmfilter (\<lambda>k. case fmlookup m k of None \<Rightarrow> False
                    | Some d \<Rightarrow> get ''properties'' d \<noteq> None) m)))"

record schema_case =
  label :: string
  generated :: json
  checked_in :: json
  nested :: "(string \<times> string option) list"

definition schema_cases :: "schema_generator \<Rightarrow> schema_case list" where
  "schema_cases gen =
     [\<lparr>label = ''CapabilityDescriptor'', generated = gen ''CapabilityDescriptor'',
       checked_in = document capability_schema, nested = []\<rparr>,
      \<lparr>label = ''ProviderManifest'', generated = gen ''ProviderManifest'',
       checked_in = document sidecar_schema, nested = [(''CapabilityDescriptor'', None)]\<rparr>,
      \<lparr>label = ''ExperimentSpec'', generated = gen ''ExperimentSpec'', checked_in = experiment_file,
       nested = [(''ChangeRequest'', Some ''change_request''), (''DecisionBounds'', Some ''decision_bounds'')]\<rparr>,
      \<lparr>label = ''Verdict'', generated = gen ''Verdict'', checked_in = verdict_file,
       nested = [(''MetricSummary'', Some ''metric_summary'')]\<rparr>,
      \<lparr>label = ''MetricSample'', generated = gen ''MetricSample'',
       checked_in = document metric_sample_schema, nested = []\<rparr>]"

definition checked_in_definitions :: "json \<Rightarrow> string set" where
  "checked_in_definitions c = (case keys (item ''$defs'' c) of None \<Rightarrow> {} | Some ks \<Rightarrow> ks)"

definition case_matches :: "schema_case \<Rightarrow> bool" where
  "case_matches c \<longleftrightarrow>
     assert_object_parity (generated c) (checked_in c) \<and>
     generated_object_definitions (generated c) = set (map fst (nested c)) \<and>
     checked_in_definitions (checked_in c) = set (List.map_filter snd (nested c)) \<and>
     list_all (\<lambda>(name, target). case target of None \<Rightarrow> True
         | Some k \<Rightarrow> assert_object_parity (item name (item ''$defs'' (generated c)))
             (item k (item ''$defs'' (checked_in c)))) (nested c)"

definition generated_schemas_match_checked_in_schemas :: "schema_generator \<Rightarrow> bool" where
  "generated_schemas_match_checked_in_schemas gen \<longleftrightarrow> list_all case_matches (schema_cases gen)"

text \<open>The two copies of the comparison are one relation, and it is an equivalence on object schemas.\<close>

lemma parity_is_shape: "assert_object_parity g c = assert_same_shape g c"
  by (simp add: assert_object_parity_def assert_same_shape_def properties_def)

lemma same_shape_trans:
  "assert_same_shape a b \<Longrightarrow> assert_same_shape b c \<Longrightarrow> assert_same_shape a c"
  "assert_same_shape a b \<Longrightarrow> assert_same_shape b a"
  by (auto simp: assert_same_shape_def agree_def)

definition wire_types_round_trip :: bool where
  "wire_types_round_trip \<longleftrightarrow> manifest_of_json (manifest_json sample_manifest) = Some sample_manifest"

definition sample_spec :: experiment_spec where
  "sample_spec = \<lparr>hypothesis = ''Raising mock.value improves throughput'',
     target = \<lparr>capability_id = ''mock.value'', parameters = obj [(''value'', num 60)], lease_seconds = 30\<rparr>,
     warmup_samples = 2, baseline_samples = 5, candidate_samples = 5,
     bounds = \<lparr>min_samples = 3, min_fps_improvement = Fin 5, max_temperature_c = Fin 85,
       max_power_w = Fin 200, max_errors = 0\<rparr>\<rparr>"

definition sample_verdict :: verdict where
  "sample_verdict = \<lparr>decision = Promote, reason = Promoted, fps_improvement = Fin (25 / 2),
     v_baseline = \<lparr>sum_samples = 5, mean_fps = Fin 100, sum_temperature_c = Fin 60, sum_power_w = Fin 120,
       total_errors = 0\<rparr>,
     v_candidate = \<lparr>sum_samples = 5, mean_fps = Fin (225 / 2), sum_temperature_c = Fin 70,
       sum_power_w = Fin 140, total_errors = 0\<rparr>\<rparr>"

definition sample_counts_are_bounded_like_the_schema :: "schema_generator \<Rightarrow> bool" where
  "sample_counts_are_bounded_like_the_schema gen \<longleftrightarrow>
     list_all (\<lambda>k. bounded_at [''properties'', k] ''maximum'' (enc_u32 MAX_SAMPLES) experiment_file \<and>
         bounded_at [''properties'', k] ''maximum'' (enc_u32 MAX_SAMPLES) (gen ''ExperimentSpec''))
       [''warmup_samples'', ''baseline_samples'', ''candidate_samples'']"

definition the_hypothesis_is_bounded_like_the_schema :: "schema_generator \<Rightarrow> bool" where
  "the_hypothesis_is_bounded_like_the_schema gen \<longleftrightarrow>
     list_all (\<lambda>s. bounded_at [''properties'', ''hypothesis''] ''maxLength'' (enc_u32 MAX_HYPOTHESIS_CHARS) s \<and>
         bounded_at [''properties'', ''hypothesis''] ''minLength'' (enc_u32 MIN_HYPOTHESIS_CHARS) s)
       [experiment_file, gen ''ExperimentSpec'']"

definition envelope :: "(string \<times> string \<times> json) list" where
  "envelope =
     [(''min_samples'', ''maximum'', enc_u32 MAX_SAMPLES),
      (''min_fps_improvement'', ''minimum'', float_json 0),
      (''max_temperature_c'', ''exclusiveMinimum'', float_json 0),
      (''max_temperature_c'', ''maximum'', enc_f64 MAX_DECISION_TEMPERATURE_C),
      (''max_power_w'', ''exclusiveMinimum'', float_json 0),
      (''max_power_w'', ''maximum'', enc_f64 MAX_DECISION_POWER_W),
      (''max_errors'', ''maximum'', num MAX_DECISION_ERRORS)]"

definition decision_bounds_are_bounded_like_the_schema :: "schema_generator \<Rightarrow> bool" where
  "decision_bounds_are_bounded_like_the_schema gen \<longleftrightarrow>
     list_all (\<lambda>(k, keyword, expected).
         bounded_at [''$defs'', ''decision_bounds'', ''properties'', k] keyword expected experiment_file \<and>
         bounded_at [''$defs'', ''DecisionBounds'', ''properties'', k] keyword expected (gen ''ExperimentSpec''))
       envelope"

definition verdict_enum_wire_strings_match_schema :: bool where
  "verdict_enum_wire_strings_match_schema \<longleftrightarrow>
     (let dec = wire_string (enum_enc decision_wire); why = wire_string (enum_enc reason_wire);
          schema = document verdict_schema in
      dec Promote = Some ''promote'' \<and> dec Reject = Some ''reject'' \<and>
      why Promoted = Some ''promoted'' \<and> why InsufficientSamples = Some ''insufficient-samples'' \<and>
      why TemperatureExceeded = Some ''temperature-exceeded'' \<and>
      why PowerExceeded = Some ''power-exceeded'' \<and> why ErrorsExceeded = Some ''errors-exceeded'' \<and>
      why InsufficientImprovement = Some ''insufficient-improvement'' \<and>
      agree (string_set (item ''enum'' (item ''decision'' (item ''properties'' schema))))
        (map_option set (those (map dec [Promote, Reject]))) \<and>
      agree (string_set (item ''enum'' (item ''reason'' (item ''properties'' schema))))
        (map_option set (those (map why [Promoted, InsufficientSamples, TemperatureExceeded, PowerExceeded,
          ErrorsExceeded, InsufficientImprovement]))))"

definition experiment_and_verdict_wire_types_round_trip :: bool where
  "experiment_and_verdict_wire_types_round_trip \<longleftrightarrow>
     spec_of_json (spec_json sample_spec) = Some sample_spec \<and>
     verdict_of_json (verdict_json sample_verdict) = Some sample_verdict"

definition experiment_types_reject_unknown_fields :: bool where
  "experiment_types_reject_unknown_fields \<longleftrightarrow>
     rejects spec_of_json (put_field ''unexpected'' (Bool True) (spec_json sample_spec)) \<and>
     rejects verdict_of_json (put_field ''unexpected'' (Bool True) (verdict_json sample_verdict))"

lemma experiment_tests:
  "wire_types_round_trip" "verdict_enum_wire_strings_match_schema"
  "experiment_and_verdict_wire_types_round_trip" "experiment_types_reject_unknown_fields"
proof -
  show wire_types_round_trip
    unfolding wire_types_round_trip_def
    by (rule manifest_format.dec_enc) (simp add: manifest_ok_def sample_manifest_def)
  show verdict_enum_wire_strings_match_schema
    by (simp add: verdict_enum_wire_strings_match_schema_def verdict_schema_def wire_string_def
        enum_enc_def agree_def)
  have "spec_ok sample_spec" "verdict_ok sample_verdict"
    by (simp_all add: sample_spec_def sample_verdict_def spec_ok_def verdict_ok_def change_ok_def
        bounds_ok_def summary_ok_def f64_is_finite_def)
  then show experiment_and_verdict_wire_types_round_trip
    by (simp add: experiment_and_verdict_wire_types_round_trip_def spec_format.dec_enc verdict_format.dec_enc)
  show experiment_types_reject_unknown_fields
    by (simp add: experiment_types_reject_unknown_fields_def rejects_def spec_json_def verdict_json_def
        spec_of_json_def verdict_of_json_def)
qed

subsection \<open>\<open>ipc.rs\<close>\<close>

definition branches_by_tag :: "json \<Rightarrow> string set option" where
  "branches_by_tag schema =
     Option.bind (as_array (item ''oneOf'' schema)) (\<lambda>bs.
       map_option set (those (map (\<lambda>b. as_str (item ''const'' (item ''outcome'' (item ''properties'' b)))) bs)))"

definition branch :: "json \<Rightarrow> string \<Rightarrow> json option" where
  "branch schema tag =
     Option.bind (as_array (item ''oneOf'' schema))
       (List.find (\<lambda>b. item ''const'' (item ''outcome'' (item ''properties'' b)) = Str tag))"

definition sample_change :: change_request where
  "sample_change = \<lparr>capability_id = ''mock.value'', parameters = obj [(''value'', num 42)], lease_seconds = 30\<rparr>"

definition sample_report :: lifecycle_report where
  "sample_report = \<lparr>rp_provider = ''mock'', rp_preview = ''set mock.value from 0 to 42'',
     rp_verified = True, rp_rolled_back = True\<rparr>"

definition enum_wire_strings_match_schemas :: bool where
  "enum_wire_strings_match_schemas \<longleftrightarrow>
     (let p = wire_string (enum_enc broker_op_wire); out = wire_string (enum_enc outcome_wire);
          kind = wire_string (enum_enc error_kind_wire); response = document broker_response_schema in
      p Discover = Some ''discover'' \<and> p RunLifecycle = Some ''run-lifecycle'' \<and>
      out CapabilitiesOutcome = Some ''capabilities'' \<and> out LifecycleOutcome = Some ''lifecycle'' \<and>
      out ErrorOutcome = Some ''error'' \<and>
      kind Unauthenticated = Some ''unauthenticated'' \<and> kind Malformed = Some ''malformed'' \<and>
      kind UnknownCapabilityKind = Some ''unknown-capability'' \<and> kind PolicyDeniedKind = Some ''policy-denied'' \<and>
      kind OwnerConflictKind = Some ''owner-conflict'' \<and>
      kind LifecycleFailedKind = Some ''lifecycle-failed'' \<and> kind Internal = Some ''internal'' \<and>
      agree (string_set (item ''enum'' (item ''op'' (item ''properties'' (document broker_request_schema)))))
        (map_option set (those (map p [Discover, RunLifecycle]))) \<and>
      agree (branches_by_tag response)
        (map_option set (those (map out [CapabilitiesOutcome, LifecycleOutcome, ErrorOutcome]))) \<and>
      agree (string_set (item ''enum'' (item ''kind'' (item ''properties'' (document error_body_def)))))
        (map_option set (those (map kind error_kind_variants))))"

definition request_fields_match_schema :: "schema_generator \<Rightarrow> bool" where
  "request_fields_match_schema gen \<longleftrightarrow>
     assert_same_shape (gen ''BrokerRequest'') request_file \<and>
     item ''required'' request_file = Arr [Str ''op''] \<and> item ''additionalProperties'' request_file = Bool False"

definition response_variants_match_schema :: "schema_generator \<Rightarrow> bool" where
  "response_variants_match_schema gen \<longleftrightarrow>
     agree (branches_by_tag (gen ''BrokerResponse'')) (branches_by_tag response_file) \<and>
     (\<forall>tag\<in>the (branches_by_tag response_file).
        (case (branch (gen ''BrokerResponse'') tag, branch response_file tag) of
           (Some g, Some c) \<Rightarrow>
             agree (properties g) (properties c) \<and>
             agree (string_set (item ''required'' g)) (string_set (item ''required'' c)) \<and>
             item ''additionalProperties'' c = Bool False \<and>
             (case string_set (item ''required'' c) of Some rs \<Rightarrow> ''outcome'' \<in> rs | None \<Rightarrow> False)
         | _ \<Rightarrow> False))"

definition change_request_fields_match_request_schema_defs :: "schema_generator \<Rightarrow> bool" where
  "change_request_fields_match_request_schema_defs gen \<longleftrightarrow>
     assert_same_shape (gen ''ChangeRequest'') (item ''ChangeRequest'' (item ''$defs'' request_file))"

definition lifecycle_report_fields_match_response_schema_defs :: "schema_generator \<Rightarrow> bool" where
  "lifecycle_report_fields_match_response_schema_defs gen \<longleftrightarrow>
     assert_same_shape (gen ''LifecycleReport'') (item ''LifecycleReport'' (item ''$defs'' response_file))"

definition error_body_fields_match_response_schema_defs :: "schema_generator \<Rightarrow> bool" where
  "error_body_fields_match_response_schema_defs gen \<longleftrightarrow>
     assert_same_shape (gen ''BrokerErrorBody'') (item ''BrokerErrorBody'' (item ''$defs'' response_file))"

definition change_request_parameters_are_an_object_in_both :: "schema_generator \<Rightarrow> bool" where
  "change_request_parameters_are_an_object_in_both gen \<longleftrightarrow>
     bounded_at [''$defs'', ''ChangeRequest'', ''properties'', ''parameters''] ''type'' (Str ''object'') request_file \<and>
     bounded_at [''properties'', ''parameters''] ''type'' (Str ''object'') (gen ''ChangeRequest'') \<and>
     rejects change_of_json (put_field ''parameters'' (Str ''value=42'') (change_json sample_change))"

definition unknown_fields_are_rejected :: bool where
  "unknown_fields_are_rejected \<longleftrightarrow>
     rejects request_of_json (put_field ''unexpected'' (Bool True) (request_json discover_request)) \<and>
     rejects response_of_json (put_field ''unexpected'' (Bool True)
       (response_json (error_response PolicyDeniedKind ''denied'')))"

definition a_tag_without_its_payload_is_not_representable :: bool where
  "a_tag_without_its_payload_is_not_representable \<longleftrightarrow>
     list_all (\<lambda>tag. rejects response_of_json (obj [(''outcome'', Str tag)])) [''capabilities'', ''lifecycle'', ''error'']"

definition a_mismatched_tag_and_payload_is_not_representable :: bool where
  "a_mismatched_tag_and_payload_is_not_representable \<longleftrightarrow>
     list_all (\<lambda>tag. rejects response_of_json
         (obj [(''outcome'', Str tag), (''lifecycle'', report_json sample_report)])) [''capabilities'', ''error'']"

definition requests_round_trip :: bool where
  "requests_round_trip \<longleftrightarrow>
     list_all (\<lambda>q. request_of_json (request_json q) = Some q)
       [discover_request, run_lifecycle_request ''owner-a'' sample_change]"

definition responses_round_trip :: bool where
  "responses_round_trip \<longleftrightarrow>
     list_all (\<lambda>r. item ''outcome'' (response_json r) = enum_enc outcome_wire (outcome r) \<and>
         response_of_json (response_json r) = Some r)
       [LifecycleResponse sample_report, error_response OwnerConflictKind ''held by owner-a'']"

definition error_body_carries_the_typed_kind :: bool where
  "error_body_carries_the_typed_kind \<longleftrightarrow>
     (let v = error_body_json \<lparr>eb_kind = UnknownCapabilityKind, eb_message = ''shell.exec''\<rparr> in
      item ''kind'' v = Str ''unknown-capability'' \<and> item ''message'' v = Str ''shell.exec'')"

lemma response_branches:
  "as_array (item ''oneOf'' (document broker_response_schema)) = Some (map document
     [all_of [(''outcome'', SConst ''capabilities''), (''capabilities'', sidecar_schema)],
      all_of [(''outcome'', SConst ''lifecycle''), (''lifecycle'', lifecycle_report_def)],
      all_of [(''outcome'', SConst ''error''), (''error'', error_body_def)]])"
  by (simp add: broker_response_schema_def as_array_def)

lemma enum_wire_test: "enum_wire_strings_match_schemas"
  unfolding enum_wire_strings_match_schemas_def branches_by_tag_def Let_def response_branches
  by (simp add: broker_request_schema_def error_body_def_def wire_string_def enum_enc_def agree_def
      error_kind_variants_def)

lemma ipc_format_tests:
  "unknown_fields_are_rejected" "a_tag_without_its_payload_is_not_representable"
  "a_mismatched_tag_and_payload_is_not_representable" "requests_round_trip" "responses_round_trip"
  "error_body_carries_the_typed_kind"
proof -
  show unknown_fields_are_rejected
    by (simp add: unknown_fields_are_rejected_def rejects_def request_json_def request_of_json_def
        response_of_json_def error_response_def enum_dec_def ipc_variants)
  show a_tag_without_its_payload_is_not_representable
    by (simp add: a_tag_without_its_payload_is_not_representable_def rejects_def response_of_json_def
        enum_dec_def ipc_variants)
  show a_mismatched_tag_and_payload_is_not_representable
    by (simp add: a_mismatched_tag_and_payload_is_not_representable_def rejects_def response_of_json_def
        enum_dec_def ipc_variants)
  have "change_ok sample_change" by (simp add: sample_change_def change_ok_def)
  then show requests_round_trip
    by (simp add: requests_round_trip_def request_format.dec_enc request_ok_def discover_request_def
        run_lifecycle_request_def)
  show responses_round_trip
    by (simp add: responses_round_trip_def response_format.dec_enc error_response_def enum_enc_def
        del: response_json.simps) simp
  show error_body_carries_the_typed_kind
    by (simp add: error_body_carries_the_typed_kind_def error_body_json_def enum_enc_def)
qed

subsection \<open>The generated schemas\<close>

text \<open>
  What the derive macro documents.  A struct that denies unknown fields is an object schema of its fields,
  of which those that are not an \<open>Option\<close> are required; the types it refers to are defined under \<open>$defs\<close>
  by their names, the enums among them without properties; an internally tagged enum is one object
  schema for each variant, with the tag a constant; the attributes of a field are its keywords.
\<close>

definition object_schema :: "json \<Rightarrow> string list \<Rightarrow> string list \<Rightarrow> bool" where
  "object_schema g names required \<longleftrightarrow>
     properties g = Some (set names) \<and> string_set (item ''required'' g) = Some (set required) \<and>
     item ''additionalProperties'' g = Bool False"

definition rust_structs :: "(string \<times> string list) list" where
  "rust_structs =
     [(''CapabilityDescriptor'', [''id'', ''description'', ''risk'', ''persistence'', ''input_schema'']),
      (''ProviderManifest'', [''id'', ''protocol_version'', ''targets'', ''capabilities'']),
      (''ChangeRequest'', [''capability_id'', ''parameters'', ''lease_seconds'']),
      (''MetricSample'', [''fps'', ''temperature_c'', ''power_w'', ''errors'']),
      (''MetricSummary'', [''samples'', ''mean_fps'', ''max_temperature_c'', ''max_power_w'', ''total_errors'']),
      (''DecisionBounds'', [''min_samples'', ''min_fps_improvement'', ''max_temperature_c'', ''max_power_w'', ''max_errors'']),
      (''ExperimentSpec'', [''hypothesis'', ''target'', ''warmup_samples'', ''baseline_samples'', ''candidate_samples'', ''bounds'']),
      (''Verdict'', [''decision'', ''reason'', ''fps_improvement'', ''baseline'', ''candidate'']),
      (''LifecycleReport'', [''provider_id'', ''preview'', ''verified'', ''rolled_back'']),
      (''BrokerErrorBody'', [''kind'', ''message''])]"

text \<open>The structs and the enums each type refers to.\<close>

definition rust_references :: "(string \<times> string list \<times> string list) list" where
  "rust_references =
     [(''CapabilityDescriptor'', [], [''RiskClass'', ''Persistence'']),
      (''ProviderManifest'', [''CapabilityDescriptor''], [''RiskClass'', ''Persistence'']),
      (''ExperimentSpec'', [''ChangeRequest'', ''DecisionBounds''], []),
      (''Verdict'', [''MetricSummary''], [''Decision'', ''VerdictReason'']),
      (''MetricSample'', [], [])]"

definition rust_attributes :: "(string \<times> string list \<times> string \<times> json) list" where
  "rust_attributes =
     (''ExperimentSpec'', [''$defs'', ''ChangeRequest'', ''properties'', ''lease_seconds''], ''maximum'', num MAX_LEASE_SECONDS) #
     (''ExperimentSpec'', [''properties'', ''hypothesis''], ''maxLength'', enc_u32 MAX_HYPOTHESIS_CHARS) #
     (''ExperimentSpec'', [''properties'', ''hypothesis''], ''minLength'', enc_u32 MIN_HYPOTHESIS_CHARS) #
     (''ChangeRequest'', [''properties'', ''parameters''], ''type'', Str ''object'') #
     map (\<lambda>k. (''ExperimentSpec'', [''properties'', k], ''maximum'', enc_u32 MAX_SAMPLES))
       [''warmup_samples'', ''baseline_samples'', ''candidate_samples''] @
     map (\<lambda>(k, w, v). (''ExperimentSpec'', [''$defs'', ''DecisionBounds'', ''properties'', k], w, v)) envelope"

definition response_variants :: "(string \<times> string) list" where
  "response_variants = [(''capabilities'', ''capabilities''), (''lifecycle'', ''lifecycle''), (''error'', ''error'')]"

definition defines_types :: "json \<Rightarrow> string list \<Rightarrow> string list \<Rightarrow> bool" where
  "defines_types g objects enums \<longleftrightarrow>
     (if objects @ enums = [] then item ''$defs'' g = Null
      else keys (item ''$defs'' g) = Some (set (objects @ enums))) \<and>
     (\<forall>n\<in>set objects. \<exists>fs. (n, fs) \<in> set rust_structs \<and> object_schema (item n (item ''$defs'' g)) fs fs) \<and>
     (\<forall>n\<in>set enums. get ''properties'' (item n (item ''$defs'' g)) = None)"

definition derives :: "schema_generator \<Rightarrow> bool" where
  "derives gen \<longleftrightarrow>
     list_all (\<lambda>(t, fs). object_schema (gen t) fs fs) rust_structs \<and>
     object_schema (gen ''BrokerRequest'') [''op'', ''owner'', ''change''] [''op''] \<and>
     list_all (\<lambda>(t, objects, enums). defines_types (gen t) objects enums) rust_references \<and>
     list_all (\<lambda>(t, path, keyword, v). bounded_at path keyword v (gen t)) rust_attributes \<and>
     (\<exists>bs. as_array (item ''oneOf'' (gen ''BrokerResponse'')) = Some bs \<and>
        list_all2 (\<lambda>(tag, payload) b. item ''const'' (item ''outcome'' (item ''properties'' b)) = Str tag \<and>
          object_schema b [''outcome'', payload] [''outcome'', payload]) response_variants bs)"

text \<open>A generator that prints the checked-in files under the names of the types is one.\<close>

definition plain_generator :: schema_generator where
  "plain_generator t = (case map_of
     [(''CapabilityDescriptor'', with_defs [(''RiskClass'', SEnum []), (''Persistence'', SEnum [])] capability_schema),
      (''ProviderManifest'', with_defs [(''CapabilityDescriptor'', capability_schema), (''RiskClass'', SEnum []),
         (''Persistence'', SEnum [])] sidecar_schema),
      (''ChangeRequest'', document experiment_change_def),
      (''MetricSample'', document metric_sample_schema), (''MetricSummary'', document metric_summary_def),
      (''DecisionBounds'', document decision_bounds_def),
      (''ExperimentSpec'', with_defs [(''ChangeRequest'', experiment_change_def),
         (''DecisionBounds'', decision_bounds_def)] experiment_schema),
      (''Verdict'', with_defs [(''MetricSummary'', metric_summary_def), (''Decision'', SEnum []),
         (''VerdictReason'', SEnum [])] verdict_schema),
      (''LifecycleReport'', document lifecycle_report_def), (''BrokerErrorBody'', document error_body_def),
      (''BrokerRequest'', document broker_request_schema), (''BrokerResponse'', document broker_response_schema)] t
     of Some g \<Rightarrow> g | None \<Rightarrow> Null)"

lemma document_object: "\<exists>kvs. document s = obj kvs"
  by (cases s) auto

lemma item_with_defs [simp]:
  "item k (with_defs ds s) =
     (if k = ''$defs'' then obj (map (\<lambda>(k, e). (k, document e)) ds) else item k (document s))"
  using document_object [of s] by (auto simp: with_defs_def)

lemma object_with_defs [simp]: "object_schema (with_defs ds s) fs rs = object_schema (document s) fs rs"
  by (simp add: object_schema_def properties_def)

lemma object_document: "object_schema (document (SFields ps rs)) fs qs \<longleftrightarrow> fst ` set ps = set fs \<and> set rs = set qs"
proof -
  have "fst ` (\<lambda>(k, e). (k, document e)) ` set ps = fst ` set ps" by force
  then show ?thesis by (simp add: object_schema_def properties_def)
qed

lemma same_shape_object:
  "object_schema g fs rs \<Longrightarrow> object_schema c fs rs \<Longrightarrow> assert_same_shape g c"
  by (simp add: object_schema_def assert_same_shape_def agree_def)

lemmas documents = capability_schema_def sidecar_schema_def metric_sample_schema_def metric_summary_def_def
  verdict_schema_def experiment_change_def_def decision_bounds_def_def experiment_schema_def
  request_change_def_def broker_request_schema_def lifecycle_report_def_def error_body_def_def

lemma enum_properties: "get ''properties'' (document (SEnum ws)) = None"
  by simp

lemma item_absent [simp]: "item ''$defs'' (document (SFields ps rs)) = Null"
  by simp

lemma plain_branches:
  "\<exists>bs. as_array (item ''oneOf'' (document broker_response_schema)) = Some bs \<and>
     list_all2 (\<lambda>(tag, payload) b. item ''const'' (item ''outcome'' (item ''properties'' b)) = Str tag \<and>
       object_schema b [''outcome'', payload] [''outcome'', payload]) response_variants bs"
  by (simp add: response_branches response_variants_def object_schema_def properties_def)

lemma plain_derives: "derives plain_generator"
proof -
  have "list_all (\<lambda>(t, fs). object_schema (plain_generator t) fs fs) rust_structs"
    by (simp add: rust_structs_def plain_generator_def documents object_document
        del: document.simps)
  moreover have "object_schema (plain_generator ''BrokerRequest'') [''op'', ''owner'', ''change''] [''op'']"
    by (simp add: plain_generator_def documents object_document del: document.simps)
  moreover have "list_all (\<lambda>(t, objects, enums). defines_types (plain_generator t) objects enums) rust_references"
    by (simp add: rust_references_def defines_types_def plain_generator_def documents object_document
        enum_properties rust_structs_def del: document.simps)
  moreover have "list_all (\<lambda>(t, path, keyword, v). bounded_at path keyword v (plain_generator t)) rust_attributes"
    by (simp add: rust_attributes_def envelope_def bounded_at_def plain_generator_def documents enc_u32_def
        enc_f64_def f64_is_finite_def MAX_SAMPLES_def MAX_DECISION_TEMPERATURE_C_def MAX_LEASE_SECONDS_def
        MAX_HYPOTHESIS_CHARS_def MIN_HYPOTHESIS_CHARS_def MAX_DECISION_POWER_W_def MAX_DECISION_ERRORS_def)
  moreover have "\<exists>bs. as_array (item ''oneOf'' (plain_generator ''BrokerResponse'')) = Some bs \<and>
        list_all2 (\<lambda>(tag, payload) b. item ''const'' (item ''outcome'' (item ''properties'' b)) = Str tag \<and>
          object_schema b [''outcome'', payload] [''outcome'', payload]) response_variants bs"
    using plain_branches by (simp add: plain_generator_def)
  ultimately show ?thesis unfolding derives_def by blast
qed


text \<open>What a test asks of the generated side, from what the derive macro documents.\<close>

lemma derived:
  assumes "derives gen"
  shows derived_struct: "(t, fs) \<in> set rust_structs \<Longrightarrow> object_schema (gen t) fs fs"
    and derived_references: "(t, objects, enums) \<in> set rust_references \<Longrightarrow> defines_types (gen t) objects enums"
    and derived_attribute: "(t, path, k, v) \<in> set rust_attributes \<Longrightarrow> bounded_at path k v (gen t)"
    and derived_request: "object_schema (gen ''BrokerRequest'') [''op'', ''owner'', ''change''] [''op'']"
  using assms by (auto simp: derives_def list_all_iff)

lemma parity_object: "object_schema g fs rs \<Longrightarrow> object_schema c fs rs \<Longrightarrow> assert_object_parity g c"
  by (simp add: parity_is_shape same_shape_object)

lemma item_Obj: "item k (Obj m) = (case fmlookup m k of None \<Rightarrow> Null | Some w \<Rightarrow> w)"
  by (simp add: item_def get_def)

lemma object_schema_has_properties: "object_schema g names rs \<Longrightarrow> get ''properties'' g \<noteq> None"
  by (auto simp: object_schema_def properties_def keys_def as_object_def item_def split: option.splits)

lemma defined_objects:
  assumes "defines_types g objects enums" and "set objects \<inter> set enums = {}"
  shows "generated_object_definitions g = set objects"
proof (cases "objects @ enums = []")
  case True
  then show ?thesis using assms by (simp add: defines_types_def generated_object_definitions_def as_object_def)
next
  case False
  then obtain m where m: "item ''$defs'' g = Obj m" and dom: "fset (fmdom m) = set objects \<union> set enums"
    using assms(1) by (auto simp: defines_types_def keys_def as_object_def split: json.splits)
  have "(case fmlookup m n of None \<Rightarrow> False | Some d \<Rightarrow> get ''properties'' d \<noteq> None) \<longleftrightarrow> n \<in> set objects"
    if mem: "n |\<in>| fmdom m" for n
  proof -
    obtain d where d: "fmlookup m n = Some d" using mem by (auto simp: fmlookup_dom_iff)
    then have "item n (Obj m) = d" and "n \<in> set objects \<union> set enums"
      using mem dom by (simp_all add: item_Obj)
    moreover have "get ''properties'' (item n (Obj m)) \<noteq> None" if obj: "n \<in> set objects"
    proof -
      obtain fs where "object_schema (item n (item ''$defs'' g)) fs fs"
        using assms(1) obj unfolding defines_types_def by blast
      then show ?thesis using object_schema_has_properties unfolding m by blast
    qed
    moreover have "get ''properties'' (item n (Obj m)) = None" if "n \<in> set enums"
      using assms(1) that by (simp add: defines_types_def m)
    ultimately have "get ''properties'' d \<noteq> None \<longleftrightarrow> n \<in> set objects"
      using assms(2) by auto
    then show ?thesis using d by simp
  qed
  then have "generated_object_definitions g = {n. n |\<in>| fmdom m \<and> n \<in> set objects}"
    by (simp add: generated_object_definitions_def m as_object_def set_eq_iff) blast
  then show ?thesis using dom by auto
qed

text \<open>A checked-in object has the fields of the struct it is written for.\<close>

definition written_for :: "string \<Rightarrow> json \<Rightarrow> bool" where
  "written_for t c \<longleftrightarrow> (\<exists>fs. map_of rust_structs t = Some fs \<and> object_schema c fs fs)"

lemma written_documents:
  "written_for ''CapabilityDescriptor'' (document capability_schema)"
  "written_for ''ProviderManifest'' (document sidecar_schema)"
  "written_for ''ExperimentSpec'' (document experiment_schema)"
  "written_for ''ChangeRequest'' (document experiment_change_def)"
  "written_for ''ChangeRequest'' (document request_change_def)"
  "written_for ''DecisionBounds'' (document decision_bounds_def)"
  "written_for ''Verdict'' (document verdict_schema)"
  "written_for ''MetricSummary'' (document metric_summary_def)"
  "written_for ''MetricSample'' (document metric_sample_schema)"
  "written_for ''LifecycleReport'' (document lifecycle_report_def)"
  "written_for ''BrokerErrorBody'' (document error_body_def)"
  by (simp_all add: written_for_def rust_structs_def documents object_document del: document.simps)

lemma written_with_defs [simp]: "written_for t (with_defs ds s) = written_for t (document s)"
  by (simp add: written_for_def)

lemma written_struct: "written_for t c \<Longrightarrow> object_schema c fs fs \<or> (t, fs) \<notin> set rust_structs"
  by (auto simp: written_for_def rust_structs_def)

lemma written_parity:
  assumes "derives gen" "written_for t c"
  shows "assert_object_parity (gen t) c" and "assert_same_shape (gen t) c"
proof -
  obtain fs where "(t, fs) \<in> set rust_structs" and c: "object_schema c fs fs"
    using assms(2) by (auto simp: written_for_def dest: map_of_SomeD)
  then have g: "object_schema (gen t) fs fs" using derived_struct [OF assms(1)] by blast
  show "assert_object_parity (gen t) c" by (rule parity_object [OF g c])
  show "assert_same_shape (gen t) c" by (rule same_shape_object [OF g c])
qed

lemma defined_parity:
  assumes "defines_types g objects enums" "name \<in> set objects" "written_for name c"
  shows "assert_object_parity (item name (item ''$defs'' g)) c"
proof -
  obtain fs where fs: "(name, fs) \<in> set rust_structs" "object_schema (item name (item ''$defs'' g)) fs fs"
    using assms(1,2) unfolding defines_types_def by blast
  then have "object_schema c fs fs" using written_struct [OF assms(3)] by blast
  with fs(2) show ?thesis by (rule parity_object)
qed

lemma case_matchesI:
  assumes "derives gen" "written_for t c"
    and "case map_of rust_references t of None \<Rightarrow> False
       | Some (objects, enums) \<Rightarrow> set objects \<inter> set enums = {} \<and> set (map fst ns) = set objects"
    and "checked_in_definitions c = set (List.map_filter snd ns)"
    and "list_all (\<lambda>(name, target). case target of None \<Rightarrow> True
           | Some k \<Rightarrow> written_for name (item k (item ''$defs'' c))) ns"
  shows "case_matches \<lparr>label = l, generated = gen t, checked_in = c, nested = ns\<rparr>"
proof -
  obtain objects enums where refs: "(t, objects, enums) \<in> set rust_references"
    and apart: "set objects \<inter> set enums = {}" and names: "set (map fst ns) = set objects"
    using assms(3) by (auto split: option.splits dest: map_of_SomeD)
  have defined: "defines_types (gen t) objects enums" by (rule derived_references [OF assms(1) refs])
  have "assert_object_parity (item name (item ''$defs'' (gen t))) (item k (item ''$defs'' c))"
    if mem: "(name, Some k) \<in> set ns" for name k
  proof (rule defined_parity [OF defined])
    show "name \<in> set objects" using mem names by force
    show "written_for name (item k (item ''$defs'' c))" using mem assms(5) by (force simp: list_all_iff)
  qed
  then show ?thesis
    using assms(4) names written_parity(1) [OF assms(1,2)] defined_objects [OF defined apart]
    by (auto simp: case_matches_def list_all_iff split: option.splits)
qed

lemma file_definitions:
  "checked_in_definitions (document capability_schema) = {}"
  "checked_in_definitions (document sidecar_schema) = {}"
  "checked_in_definitions (document metric_sample_schema) = {}"
  "checked_in_definitions (with_defs ds s) = fst ` set ds"
  by (simp_all add: checked_in_definitions_def documents keys_def [of Null] as_object_def image_image
      case_prod_unfold)

lemma contract_schemas:
  assumes "derives gen"
  shows "generated_schemas_match_checked_in_schemas gen"
  unfolding generated_schemas_match_checked_in_schemas_def schema_cases_def list.pred_inject
  by (intro conjI list.pred_inject(1); rule case_matchesI [OF assms])
    (simp_all add: written_documents rust_references_def experiment_file_def verdict_file_def
       file_definitions List.map_filter_def del: document.simps)

lemma derived_schema_tests:
  assumes "derives gen"
  shows "lease_seconds_is_bounded_like_the_schema gen" "sample_counts_are_bounded_like_the_schema gen"
    "the_hypothesis_is_bounded_like_the_schema gen" "decision_bounds_are_bounded_like_the_schema gen"
    "request_fields_match_schema gen" "change_request_fields_match_request_schema_defs gen"
    "lifecycle_report_fields_match_response_schema_defs gen" "error_body_fields_match_response_schema_defs gen"
    "change_request_parameters_are_an_object_in_both gen"
proof -
  note shape = written_parity(2) [OF assms] and attribute = derived_attribute [OF assms, unfolded rust_attributes_def]
  note limits = MAX_SAMPLES_def MAX_DECISION_TEMPERATURE_C_def MAX_LEASE_SECONDS_def enc_u32_def enc_f64_def
    MAX_HYPOTHESIS_CHARS_def MIN_HYPOTHESIS_CHARS_def MAX_DECISION_POWER_W_def MAX_DECISION_ERRORS_def f64_is_finite_def
  show "change_request_fields_match_request_schema_defs gen"
    by (simp add: change_request_fields_match_request_schema_defs_def request_file_def shape written_documents
        del: document.simps)
  show "lifecycle_report_fields_match_response_schema_defs gen"
    by (simp add: lifecycle_report_fields_match_response_schema_defs_def response_file_def shape written_documents
        del: document.simps)
  show "error_body_fields_match_response_schema_defs gen"
    by (simp add: error_body_fields_match_response_schema_defs_def response_file_def shape written_documents
        del: document.simps)
  show "lease_seconds_is_bounded_like_the_schema gen"
    by (simp add: lease_seconds_is_bounded_like_the_schema_def attribute)
      (simp add: bounded_at_def experiment_file_def documents limits)
  show "sample_counts_are_bounded_like_the_schema gen"
    by (simp add: sample_counts_are_bounded_like_the_schema_def attribute)
      (simp add: bounded_at_def experiment_file_def documents limits)
  show "the_hypothesis_is_bounded_like_the_schema gen"
    by (simp add: the_hypothesis_is_bounded_like_the_schema_def attribute)
      (simp add: bounded_at_def experiment_file_def documents limits)
  show "decision_bounds_are_bounded_like_the_schema gen"
    by (simp add: decision_bounds_are_bounded_like_the_schema_def attribute envelope_def)
      (simp add: bounded_at_def experiment_file_def documents limits)
  have "object_schema request_file [''op'', ''owner'', ''change''] [''op'']"
    by (simp add: request_file_def broker_request_schema_def object_document del: document.simps)
  then show "request_fields_match_schema gen"
    using same_shape_object [OF derived_request [OF assms]]
    by (simp add: request_fields_match_schema_def request_file_def broker_request_schema_def list_enc_def)
  show "change_request_parameters_are_an_object_in_both gen"
    by (simp add: change_request_parameters_are_an_object_in_both_def attribute)
      (simp add: bounded_at_def request_file_def request_change_def_def rejects_def
        change_json_def change_of_json_def object_parameters_def dec_object_def sample_change_def)
qed

lemma tagged_branches:
  assumes "as_array (item ''oneOf'' v) = Some [b1, b2, b3]"
    and "item ''const'' (item ''outcome'' (item ''properties'' b1)) = Str ''capabilities''"
    and "item ''const'' (item ''outcome'' (item ''properties'' b2)) = Str ''lifecycle''"
    and "item ''const'' (item ''outcome'' (item ''properties'' b3)) = Str ''error''"
  shows "branches_by_tag v = Some {''capabilities'', ''lifecycle'', ''error''}"
    and "branch v ''capabilities'' = Some b1" "branch v ''lifecycle'' = Some b2" "branch v ''error'' = Some b3"
  using assms by (simp_all add: branches_by_tag_def branch_def)

lemma derived_response_variants:
  assumes "derives gen"
  shows "response_variants_match_schema gen"
proof -
  obtain bs where bs: "as_array (item ''oneOf'' (gen ''BrokerResponse'')) = Some bs"
    and all: "list_all2 (\<lambda>(tag, payload) b. item ''const'' (item ''outcome'' (item ''properties'' b)) = Str tag \<and>
        object_schema b [''outcome'', payload] [''outcome'', payload]) response_variants bs"
    using assms unfolding derives_def by blast
  from all obtain b1 b2 b3 where "bs = [b1, b2, b3]"
    and tags: "item ''const'' (item ''outcome'' (item ''properties'' b1)) = Str ''capabilities''"
      "item ''const'' (item ''outcome'' (item ''properties'' b2)) = Str ''lifecycle''"
      "item ''const'' (item ''outcome'' (item ''properties'' b3)) = Str ''error''"
    and "object_schema b1 [''outcome'', ''capabilities''] [''outcome'', ''capabilities'']"
      "object_schema b2 [''outcome'', ''lifecycle''] [''outcome'', ''lifecycle'']"
      "object_schema b3 [''outcome'', ''error''] [''outcome'', ''error'']"
    by (auto simp: response_variants_def list_all2_Cons1)
  note shapes = this(1) object_schema_def [THEN iffD1, OF this(5)] object_schema_def [THEN iffD1, OF this(6)]
    object_schema_def [THEN iffD1, OF this(7)]
  have "as_array (item ''oneOf'' response_file) = as_array (item ''oneOf'' (document broker_response_schema))"
    by (simp add: response_file_def del: document.simps)
  note checked = tagged_branches [OF this [unfolded response_branches list.map]]
  note made = tagged_branches [OF bs [unfolded shapes(1)] tags]
  show ?thesis
    unfolding response_variants_match_schema_def made checked
    by (simp add: made checked shapes [unfolded properties_def] agree_def properties_def)
qed

lemmas generated_tests = contract_schemas derived_schema_tests derived_response_variants

lemmas plain_generator_tests = generated_tests [OF plain_derives]

text \<open>The comparison is not empty: a field that only one side has is caught.\<close>

lemma drifted_field_is_caught:
  assumes "object_schema g fs fs" and "object_schema c qs qs" and "set fs \<noteq> set qs"
  shows "\<not> assert_object_parity g c"
  using assms by (simp add: parity_is_shape assert_same_shape_def object_schema_def agree_def)

end
