(* ===== verification/Unit_Tests.thy ===== *)
theory Unit_Tests
  imports Trials Socket Connection
begin

section \<open>The small unit tests (\<open>crates/ipc\<close>, \<open>ownership.rs\<close>, the mock provider, the runner's model)\<close>

text \<open>
  As in \<open>Contract_Tests\<close>: a test is a definition, true when its assertions hold of the model, and a
  lemma says that it passes.  An \<open>expect\<close> is part of the conjunction; a cursor over bytes is the scripted
  stream that delivers them in one piece.
\<close>

subsection \<open>\<open>crates/ipc/src/frame.rs\<close>\<close>

definition cursor :: "byte list \<Rightarrow> script" where
  "cursor bs = \<lparr>inbound = (if bs = [] then [] else [Bytes bs]), outbound = [], deaf = False\<rparr>"

definition bytes_of :: "string \<Rightarrow> byte list" where
  "bytes_of s = map (\<lambda>c. of_nat (of_char c)) s"

definition test_frames_round_trip :: bool where
  "test_frames_round_trip \<longleftrightarrow>
     (case write_frame script_ops (bytes_of ''hello broker'') (cursor []) of (w, s) \<Rightarrow>
        w = Inr () \<and> fst (read_frame script_ops (cursor (outbound s))) = Inr (Some (bytes_of ''hello broker'')))"

definition test_clean_eof :: bool where
  "test_clean_eof \<longleftrightarrow> fst (read_frame script_ops (cursor [])) = Inr None"

definition test_oversized_length_is_refused :: bool where
  "test_oversized_length_is_refused \<longleftrightarrow>
     (case fst (read_frame script_ops (cursor (to_be_bytes (MAX_FRAME_BYTES + 1) @ bytes_of ''body''))) of
        Inl (FrameTooLarge _) \<Rightarrow> True | _ \<Rightarrow> False)"

definition test_empty_body_is_refused :: bool where
  "test_empty_body_is_refused \<longleftrightarrow>
     (case write_frame script_ops [] (cursor []) of (w, s) \<Rightarrow> w = Inl FrameEmpty \<and> outbound s = []) \<and>
     fst (read_frame script_ops (cursor (to_be_bytes 0))) = Inl FrameEmpty"

definition test_truncated_prefix_is_an_error :: bool where
  "test_truncated_prefix_is_an_error \<longleftrightarrow>
     (case fst (read_frame script_ops (cursor [0, 0])) of Inl (FrameIo _) \<Rightarrow> True | _ \<Rightarrow> False)"

lemma cursor_source [simp]: "delivers (cursor bs)" "content (cursor bs) = bs" "outbound (cursor bs) = []"
  by (simp_all add: cursor_def delivers_def content_def)

lemma read_cursor: "fst (read_frame script_ops (cursor bs)) = fst (decode_frame bs)"
  using script.read_frame_decodes [of "cursor bs" "[]" script_ops] by auto

lemma frame_tests:
  "test_frames_round_trip" "test_clean_eof" "test_oversized_length_is_refused"
  "test_empty_body_is_refused" "test_truncated_prefix_is_an_error"
proof -
  have ok: "frame_ok (bytes_of ''hello broker'')" by (simp add: frame_ok_def bytes_of_def)
  show test_frames_round_trip
    using decode_frame_frame [OF ok, of "[]"]
    by (simp add: test_frames_round_trip_def write_frame_script [OF ok] read_cursor)
  show test_clean_eof by (simp add: test_clean_eof_def read_cursor decode_frame_def)
  have "fst (decode_frame (to_be_bytes (MAX_FRAME_BYTES + 1) @ bytes_of ''body'')) = Inl (FrameTooLarge 1048577)"
    by (simp add: decode_frame_def MAX_FRAME_BYTES_def)
  then show test_oversized_length_is_refused
    unfolding test_oversized_length_is_refused_def read_cursor by simp
  have "fst (decode_frame (to_be_bytes 0)) = Inl FrameEmpty"
    by (simp add: decode_frame_def)
  then show test_empty_body_is_refused
    by (simp add: test_empty_body_is_refused_def write_frame_def read_cursor)
  have "fst (decode_frame [0, 0]) = Inl (FrameIo ''truncated frame length prefix'')"
    by (simp add: decode_frame_def)
  then show test_truncated_prefix_is_an_error
    unfolding test_truncated_prefix_is_an_error_def read_cursor by simp
qed

subsection \<open>\<open>crates/ipc/src/auth.rs\<close>\<close>

definition test_same_uid_peer_is_authorized :: bool where
  "test_same_uid_peer_is_authorized \<longleftrightarrow>
     is_ok (same_uid_authorize \<lparr>expected_uid = 1000\<rparr> \<lparr>peer_uid = 1000, peer_pid = Some 42\<rparr>)"

definition test_foreign_uid_peer_is_refused :: bool where
  "test_foreign_uid_peer_is_refused \<longleftrightarrow>
     same_uid_authorize \<lparr>expected_uid = 1000\<rparr> \<lparr>peer_uid = 1001, peer_pid = Some 42\<rparr> = Inl (ForeignUid 1000 1001)"

definition test_the_current_process_is_authorized :: "u32 \<Rightarrow> int \<Rightarrow> bool" where
  "test_the_current_process_is_authorized euid pid \<longleftrightarrow>
     is_ok (same_uid_authorize (for_current_process euid) \<lparr>peer_uid = euid, peer_pid = Some pid\<rparr>)"

lemma auth_tests:
  "test_same_uid_peer_is_authorized" "test_foreign_uid_peer_is_refused"
  "test_the_current_process_is_authorized euid pid"
  by (simp_all add: test_same_uid_peer_is_authorized_def test_foreign_uid_peer_is_refused_def
      test_the_current_process_is_authorized_def same_uid_authorize_def for_current_process_def)

subsection \<open>\<open>apps/broker/src/ownership.rs\<close>\<close>

definition test_second_owner_is_refused :: bool where
  "test_second_owner_is_refused \<longleftrightarrow>
     (case acquire ''mock.value'' ''owner-a'' new_ledger of
        (Inl _, _) \<Rightarrow> False
      | (Inr g, L) \<Rightarrow> owner_of ''mock.value'' L = Some ''owner-a'' \<and>
          (case acquire ''mock.value'' ''owner-b'' L of
             (Inr _, _) \<Rightarrow> False
           | (Inl e, L1) \<Rightarrow> oc_held_by e = ''owner-a'' \<and> oc_capability e = ''mock.value'' \<and>
               owner_of ''mock.value'' (drop_guard g L1) = None))"

definition test_distinct_knobs_have_independent_owners :: bool where
  "test_distinct_knobs_have_independent_owners \<longleftrightarrow>
     (case acquire ''mock.value'' ''owner-a'' new_ledger of
        (r, L) \<Rightarrow> is_ok r \<and> is_ok (fst (acquire ''power.scheme'' ''owner-b'' L)))"

definition test_released_knob_is_reacquired :: bool where
  "test_released_knob_is_reacquired \<longleftrightarrow>
     (case acquire ''mock.value'' ''owner-a'' new_ledger of
        (Inl _, _) \<Rightarrow> False
      | (Inr g, L) \<Rightarrow> is_ok (fst (acquire ''mock.value'' ''owner-b'' (drop_guard g L))))"

lemma ownership_tests:
  "test_second_owner_is_refused" "test_distinct_knobs_have_independent_owners" "test_released_knob_is_reacquired"
  by (simp_all add: test_second_owner_is_refused_def test_distinct_knobs_have_independent_owners_def
      test_released_knob_is_reacquired_def acquire_def new_ledger_def owner_of_def drop_guard_def)

subsection \<open>\<open>sidecars/mock-provider/src/lib.rs\<close>\<close>

definition test_lifecycle_restores_the_baseline :: "string \<Rightarrow> bool" where
  "test_lifecycle_restores_the_baseline platform \<longleftrightarrow>
     (let c = \<lparr>capability_id = ''mock.value'', parameters = obj [(''value'', num 42)], lease_seconds = 30\<rparr>;
          P = mock_ops platform; p = \<lparr>mock_value = 7\<rparr> in
      case op_snapshot P p of
        Inl _ \<Rightarrow> False
      | Inr s \<Rightarrow> is_ok (op_preview P p c) \<and>
          (case op_apply P p c of (a, p1) \<Rightarrow> is_ok a \<and> op_verify P p1 c = Inr True \<and>
            (case op_rollback P p1 s of (r, p2) \<Rightarrow> is_ok r \<and> mock_value p2 = 7)))"

lemma mock_test: "test_lifecycle_restores_the_baseline platform"
  by (simp add: test_lifecycle_restores_the_baseline_def mock_ops_def mock_snapshot_def mock_preview_def
      mock_apply_def mock_verify_def mock_rollback_def)

subsection \<open>\<open>apps/experiment-runner/src/model.rs\<close>\<close>

definition f64_abs :: "f64 \<Rightarrow> f64" where
  "f64_abs x = (case x of NaN \<Rightarrow> NaN | PInf \<Rightarrow> PInf | NInf \<Rightarrow> PInf | Fin a \<Rightarrow> Fin \<bar>a\<bar>)"

definition EPSILON :: f64 where
  "EPSILON = Fin (1 / 2 ^ 52)"

definition near :: "f64 \<Rightarrow> f64 \<Rightarrow> bool" where
  "near x y \<longleftrightarrow> f64_abs (x - y) < EPSILON"

definition test_returns_exactly_the_counted_samples :: bool where
  "test_returns_exactly_the_counted_samples \<longleftrightarrow> length (measure_samples 40 3 5) = 5"

definition test_warmup_samples_are_discarded :: bool where
  "test_warmup_samples_are_discarded \<longleftrightarrow>
     (let samples = measure_samples 40 4 6 in
      list_all (\<lambda>s. COLD_FPS < fps s) samples \<and> list_all (\<lambda>s. near (fps s) (BASE_FPS + Fin 40)) samples)"

definition test_higher_values_raise_everything :: bool where
  "test_higher_values_raise_everything \<longleftrightarrow>
     (let low = measure_samples 10 0 1 ! 0; high = measure_samples 60 0 1 ! 0 in
      fps low < fps high \<and> temperature_c low < temperature_c high \<and> power_w low < power_w high)"

definition test_faults_appear_only_past_the_safe_onset :: bool where
  "test_faults_appear_only_past_the_safe_onset \<longleftrightarrow>
     errors (measure_samples 90 0 1 ! 0) = 0 \<and> errors (measure_samples 95 0 1 ! 0) = 5"

lemma round_numeral [simp]:
  "numeral k < (2 :: nat) ^ 52 \<Longrightarrow> round_f64 (numeral k) = Fin (numeral k)"
  "numeral k < (2 :: nat) ^ 52 \<Longrightarrow> round_f64 (- numeral k) = Fin (- numeral k)"
  "round_f64 1 = Fin 1" "round_f64 0 = Fin 0"
  using f64_nat [of "numeral k"] f64_nat [of 1] f64_nat [of 0]
    round_f64_exact [OF representable_of_int [of "- numeral k"]]
  by simp_all

lemma model_samples:
  "v \<le> 100 \<Longrightarrow> measure_samples v w n = replicate (unat n) (steady v)"
  by (simp add: steady_measure sample_at_policy)

lemma model_tests:
  "test_returns_exactly_the_counted_samples" "test_warmup_samples_are_discarded"
  "test_higher_values_raise_everything" "test_faults_appear_only_past_the_safe_onset"
proof -
  show test_returns_exactly_the_counted_samples
    by (simp add: test_returns_exactly_the_counted_samples_def model_samples)
  show test_warmup_samples_are_discarded
    by (simp add: test_warmup_samples_are_discarded_def Let_def list_all_iff model_samples steady_def
        COLD_FPS_def BASE_FPS_def near_def f64_abs_def EPSILON_def plus_f64_def minus_f64_def)
  show test_higher_values_raise_everything
    by (simp add: test_higher_values_raise_everything_def model_samples steady_def)
  show test_faults_appear_only_past_the_safe_onset
    by (simp add: test_faults_appear_only_past_the_safe_onset_def model_samples steady_def saturating_sub_def)
qed

subsection \<open>\<open>apps/experiment-runner/src/evaluator.rs\<close>\<close>

definition test_bounds :: decision_bounds where
  "test_bounds = \<lparr>min_samples = 3, min_fps_improvement = Fin 5, max_temperature_c = Fin 80,
     max_power_w = Fin 200, max_errors = 0\<rparr>"

definition test_samples :: "f64 \<Rightarrow> f64 \<Rightarrow> f64 \<Rightarrow> u64 \<Rightarrow> nat \<Rightarrow> metric_sample list" where
  "test_samples f t p e n = replicate n \<lparr>fps = f, temperature_c = t, power_w = p, errors = e\<rparr>"

text \<open>The doubles that the literals \<open>80.1\<close> and \<open>200.1\<close> stand for.\<close>

definition f80_1 :: f64 where "f80_1 = Fin (2818268204315443 / 35184372088832)"
definition f200_1 :: f64 where "f200_1 = Fin (7040392854975283 / 35184372088832)"

definition judged :: "metric_sample list \<Rightarrow> metric_sample list \<Rightarrow> decision \<Rightarrow> verdict_reason \<Rightarrow> bool" where
  "judged baseline candidate d why \<longleftrightarrow>
     (let v = evaluate baseline candidate test_bounds in decision v = d \<and> reason v = why)"

definition test_promotes_when_every_bound_is_met :: bool where
  "test_promotes_when_every_bound_is_met \<longleftrightarrow>
     (let baseline = test_samples (Fin 100) (Fin 60) (Fin 150) 0 5;
          candidate = test_samples (Fin 120) (Fin 70) (Fin 180) 0 5;
          v = evaluate baseline candidate test_bounds in
      judged baseline candidate Promote Promoted \<and> near (fps_improvement v) (Fin 20) \<and>
      sum_samples (v_baseline v) = 5 \<and> near (mean_fps (v_candidate v)) (Fin 120))"

lemma fold_fps:
  assumes "(m + n) * k < 2 ^ 52" "m + n < 2 ^ 52" "fps s = Fin (of_nat k)"
    and "acc_sum_fps a = Fin (of_nat (m * k))" "acc_divisor a = Fin (of_nat m)"
  shows "acc_sum_fps (foldl accumulate a (replicate n s)) = Fin (of_nat ((m + n) * k)) \<and>
    acc_divisor (foldl accumulate a (replicate n s)) = Fin (of_nat (m + n))"
  using assms
proof (induction n arbitrary: m a)
  case (Suc n)
  have "m * k + k \<le> (m + Suc n) * k" by (simp add: algebra_simps)
  then have "m * k + k < 2 ^ 52" "Suc m < 2 ^ 52" using Suc.prems(1,2) by linarith+
  then have "round_f64 (of_nat (m * k + k)) = Fin (of_nat (m * k + k))" "round_f64 (of_nat (Suc m)) = Fin (of_nat (Suc m))"
    using f64_nat by blast+
  then have "acc_sum_fps (accumulate a s) = Fin (of_nat (Suc m * k))" "acc_divisor (accumulate a s) = Fin (of_nat (Suc m))"
    using Suc.prems(3-5) by (simp_all add: accumulate_def plus_f64_def algebra_simps)
  from Suc.IH [OF _ _ Suc.prems(3) this] Suc.prems(1,2) show ?case by simp
qed simp

lemma summarize_same:
  assumes "0 < n" "n * k < 2 ^ 52" "n < 2 ^ 52" "k < 2 ^ 52" "t \<noteq> NaN" "p \<noteq> NaN"
  shows "summarize (test_samples (Fin (of_nat k)) t p e n) =
    \<lparr>sum_samples = of_nat n, mean_fps = Fin (of_nat k), sum_temperature_c = t, sum_power_w = p,
     total_errors = of_nat (min (n * unat e) (2 ^ 64 - 1))\<rparr>"
proof -
  define s where "s = \<lparr>fps = Fin (of_nat k), temperature_c = t, power_w = p, errors = e\<rparr>"
  define a where "a = \<lparr>acc_sum_fps = 0, acc_divisor = 0, acc_temperature_c = NInf, acc_power_w = NInf, acc_errors = 0 :: u64\<rparr>"
  let ?f = "foldl accumulate a (replicate n s)"
  have "acc_sum_fps ?f = Fin (of_nat (n * k))" "acc_divisor ?f = Fin (of_nat n)"
    using fold_fps [of 0 n k s a] assms by (simp_all add: s_def a_def zero_f64_def)
  moreover have "Fin (of_nat (n * k)) / Fin (of_nat n) = Fin (of_nat k)"
    using assms(1) f64_nat [OF assms(4)] by (simp add: divide_f64_def)
  moreover have same: "foldl f64_max x (replicate j x) = x" for j :: nat and x :: f64
    by (induction j) simp_all
  obtain j where j: "n = Suc j" using assms(1) by (cases n) auto
  have "acc_temperature_c ?f = t" "acc_power_w ?f = p"
    using assms(5,6) by (simp_all add: accumulate_temperature accumulate_power accumulate_def a_def s_def j same)
  moreover have "unat (acc_errors ?f) = min (n * unat e) (2 ^ 64 - 1)"
    by (simp add: accumulate_errors a_def s_def sum_list_replicate)
  then have "acc_errors ?f = of_nat (min (n * unat e) (2 ^ 64 - 1))" 
    by (metis of_nat_unat ucast_id)
  ultimately show ?thesis
    using assms(1) by (simp add: summarize_def test_samples_def Let_def flip: s_def a_def)
qed

lemma summarize_numeral:
  assumes "0 < n" "n < 100" "k < 1000" "t \<noteq> NaN" "p \<noteq> NaN"
  shows "summarize (test_samples (Fin (of_nat k)) t p e n) =
    \<lparr>sum_samples = of_nat n, mean_fps = Fin (of_nat k), sum_temperature_c = t, sum_power_w = p,
     total_errors = of_nat (min (n * unat e) (2 ^ 64 - 1))\<rparr>"
proof (rule summarize_same [OF assms(1) _ _ _ assms(4,5)])
  have "n * k \<le> 100 * 1000" using assms(2,3) by (intro mult_mono) simp_all
  then show "n * k < 2 ^ 52" "n < 2 ^ 52" "k < 2 ^ 52" using assms(2,3) by simp_all
qed

lemmas at_fps = summarize_numeral [where k = "numeral m" for m, simplified]

definition test_rejects_below_minimum_samples :: bool where
  "test_rejects_below_minimum_samples \<longleftrightarrow>
     judged (test_samples (Fin 100) (Fin 60) (Fin 150) 0 5) (test_samples (Fin 120) (Fin 70) (Fin 180) 0 2)
       Reject InsufficientSamples"

definition test_temperature_is_checked_before_improvement :: bool where
  "test_temperature_is_checked_before_improvement \<longleftrightarrow>
     judged (test_samples (Fin 100) (Fin 60) (Fin 150) 0 5) (test_samples (Fin 140) f80_1 (Fin 180) 0 5)
       Reject TemperatureExceeded"

definition test_power_ceiling_rejects :: bool where
  "test_power_ceiling_rejects \<longleftrightarrow>
     judged (test_samples (Fin 100) (Fin 60) (Fin 150) 0 5) (test_samples (Fin 140) (Fin 70) f200_1 0 5)
       Reject PowerExceeded"

definition test_errors_ceiling_rejects :: bool where
  "test_errors_ceiling_rejects \<longleftrightarrow>
     judged (test_samples (Fin 100) (Fin 60) (Fin 150) 0 5) (test_samples (Fin 140) (Fin 70) (Fin 180) 1 5)
       Reject ErrorsExceeded"

definition test_rejects_below_the_improvement_threshold :: bool where
  "test_rejects_below_the_improvement_threshold \<longleftrightarrow>
     (let baseline = test_samples (Fin 100) (Fin 60) (Fin 150) 0 5;
          candidate = test_samples (Fin 104) (Fin 70) (Fin 180) 0 5 in
      judged baseline candidate Reject InsufficientImprovement \<and>
      near (fps_improvement (evaluate baseline candidate test_bounds)) (Fin 4))"

definition test_improvement_at_threshold_promotes :: bool where
  "test_improvement_at_threshold_promotes \<longleftrightarrow>
     judged (test_samples (Fin 100) (Fin 60) (Fin 150) 0 3) (test_samples (Fin 105) (Fin 70) (Fin 180) 0 3)
       Promote Promoted"

definition test_error_total_saturates_and_rejects :: bool where
  "test_error_total_saturates_and_rejects \<longleftrightarrow>
     (let baseline = test_samples (Fin 100) (Fin 60) (Fin 150) 0 3;
          candidate = test_samples (Fin 140) (Fin 70) (Fin 180) (- 1) 3 in
      total_errors (v_candidate (evaluate baseline candidate test_bounds)) = - 1 \<and>
      judged baseline candidate Reject ErrorsExceeded)"

definition test_maxima_report_the_worst_observation :: bool where
  "test_maxima_report_the_worst_observation \<longleftrightarrow>
     (let v = evaluate (test_samples (Fin 100) (Fin (- 40)) (Fin (- 10)) 0 3)
                (test_samples (Fin 140) (Fin (- 30)) (Fin (- 5)) 0 3) test_bounds in
      near (sum_temperature_c (v_baseline v)) (Fin (- 40)) \<and> near (sum_power_w (v_baseline v)) (Fin (- 10)) \<and>
      near (sum_temperature_c (v_candidate v)) (Fin (- 30)) \<and> near (sum_power_w (v_candidate v)) (Fin (- 5)))"

definition test_empty_set_reports_zero :: bool where
  "test_empty_set_reports_zero \<longleftrightarrow>
     (let v = evaluate [] [] test_bounds; b = v_baseline v in
      sum_samples b = 0 \<and> near (mean_fps b) 0 \<and> near (sum_temperature_c b) 0 \<and> near (sum_power_w b) 0 \<and>
      judged [] [] Reject InsufficientSamples)"

lemmas judging = judged_def evaluate_def Let_def test_bounds_def at_fps plus_f64_def minus_f64_def
  near_def f64_abs_def EPSILON_def zero_f64_def

lemma evaluator_tests:
  "test_promotes_when_every_bound_is_met" "test_rejects_below_minimum_samples"
  "test_temperature_is_checked_before_improvement" "test_power_ceiling_rejects"
  "test_errors_ceiling_rejects" "test_rejects_below_the_improvement_threshold"
  "test_improvement_at_threshold_promotes" "test_error_total_saturates_and_rejects"
  "test_maxima_report_the_worst_observation" "test_empty_set_reports_zero"
proof -
  show test_promotes_when_every_bound_is_met
    by (simp add: test_promotes_when_every_bound_is_met_def judging)
  show test_rejects_below_minimum_samples by (simp add: test_rejects_below_minimum_samples_def judging)
  show test_temperature_is_checked_before_improvement
    by (simp add: test_temperature_is_checked_before_improvement_def f80_1_def judging)
  show test_power_ceiling_rejects by (simp add: test_power_ceiling_rejects_def f200_1_def judging)
  show test_errors_ceiling_rejects by (simp add: test_errors_ceiling_rejects_def judging)
  show test_rejects_below_the_improvement_threshold
    by (simp add: test_rejects_below_the_improvement_threshold_def judging)
  show test_improvement_at_threshold_promotes
    by (simp add: test_improvement_at_threshold_promotes_def judging)
  show test_error_total_saturates_and_rejects
    by (simp add: test_error_total_saturates_and_rejects_def judging unsigned_minus_1_eq_mask
        mask_eq_exp_minus_1)
  show test_maxima_report_the_worst_observation
    by (simp add: test_maxima_report_the_worst_observation_def judging)
  show test_empty_set_reports_zero
    by (simp add: test_empty_set_reports_zero_def judging summarize_def)
qed

end
