(* ===== verification/Plane_Tests.thy ===== *)
theory Plane_Tests
  imports Lifecycle
begin

section \<open>The tests of the control plane (\<open>crates/control-plane/src/lib.rs\<close>)\<close>

text \<open>
  As in \<open>Contract_Tests\<close>.  A plane is opened over the test double and an empty database; the text
  of a record is read by the concrete host, which keeps values unprinted.
\<close>

subsection \<open>Fixtures\<close>

definition LIFECYCLE_STAGES :: "string list" where
  "LIFECYCLE_STAGES = [''snapshot'', ''preview'', ''apply-intent'', ''apply'', ''verify'', ''rollback'',
     ''rollback-verify'', ''completed'']"

definition leased_request :: "u64 \<Rightarrow> u64 \<Rightarrow> change_request" where
  "leased_request v lease = \<lparr>capability_id = ''mock.value'', parameters = obj [(''value'', num v)],
     lease_seconds = lease\<rparr>"

definition test_request :: "u64 \<Rightarrow> change_request" where
  "test_request v = leased_request v 30"

type_synonym fake_plane = "(fake_provider, json) plane"

definition no_database :: "json journal" where
  "no_database = \<lparr>jtable = False, jrows = [], jtrials = [], jclock = 0\<rparr>"

definition fake_at :: "u64 \<Rightarrow> fake_provider" where
  "fake_at v = \<lparr>fake_value = v, fail_verification = False, fail_apply = False, corrupt_rollback = False\<rparr>"

definition render :: "json \<Rightarrow> string" where
  "render v = (case as_u64 v of Some n \<Rightarrow> show_word n | None \<Rightarrow> ''null'')"

abbreviation fakes :: "fake_provider provider_ops" where
  "fakes \<equiv> fake_ops ''linux'' render"

definition plane_with :: "json host \<Rightarrow> fake_provider \<Rightarrow> json journal \<Rightarrow> fake_plane option" where
  "plane_with H p j = result_ok (fst (open_plane H fakes p j))"

definition test_plane :: "json host \<Rightarrow> bool \<Rightarrow> fake_plane option" where
  "test_plane H failing = plane_with H (fake_at 7\<lparr>fail_verification := failing\<rparr>) no_database"

definition holds_of :: "'a option \<Rightarrow> ('a \<Rightarrow> bool) \<Rightarrow> bool" where
  "holds_of r Q \<longleftrightarrow> (case r of Some x \<Rightarrow> Q x | None \<Rightarrow> False)"

definition payload_of :: "string \<Rightarrow> fake_plane \<Rightarrow> json option" where
  "payload_of st pl = map_option payload (List.find (\<lambda>r. stage r = st) (jrows (journal pl)))"

definition failed_outcome :: "json host \<Rightarrow> fake_plane \<Rightarrow> json option" where
  "failed_outcome H pl = Option.bind (payload_of ''failed'' pl) (\<lambda>t. result_ok (of_text H t))"

definition stages_are :: "json host \<Rightarrow> string list \<Rightarrow> fake_plane \<Rightarrow> bool" where
  "stages_are H ss pl \<longleftrightarrow> fst (journal_stages H pl) = Inr ss"

text \<open>The fields a test reads of a journaled failure.\<close>

definition names_failure :: "json \<Rightarrow> string \<Rightarrow> string \<Rightarrow> bool" where
  "names_failure v k st \<longleftrightarrow> get ''kind'' v = Some (Str k) \<and> get ''stage'' v = Some (Str st)"

definition ran :: "json host \<Rightarrow> change_request \<Rightarrow> fake_plane option \<Rightarrow>
    ((cp_error, lifecycle_result) result \<Rightarrow> fake_plane \<Rightarrow> bool) \<Rightarrow> bool" where
  "ran H c opened Q \<longleftrightarrow> holds_of opened (\<lambda>pl. case run_lifecycle H fakes c pl of (r, pl') \<Rightarrow> Q r pl')"

definition succeeded :: "('e, lifecycle_result) result \<Rightarrow> bool" where
  "succeeded r \<longleftrightarrow> (case r of Inr x \<Rightarrow> verified x \<and> rolled_back x | Inl _ \<Rightarrow> False)"

subsection \<open>Lifecycles\<close>

definition journal_proves_ordered_lifecycle :: bool where
  "journal_proves_ordered_lifecycle \<longleftrightarrow>
     ran plain_host (test_request 42) (test_plane plain_host False) (\<lambda>r pl.
       succeeded r \<and> stages_are plain_host LIFECYCLE_STAGES pl)"

definition failed_verification_restores :: bool where
  "failed_verification_restores \<longleftrightarrow>
     ran plain_host (test_request 42) (test_plane plain_host True) (\<lambda>r pl.
       r = Inl VerificationFailed \<and>
       stages_are plain_host [''snapshot'', ''preview'', ''apply-intent'', ''apply'', ''verify'',
         ''rollback'', ''rollback-verify'', ''failed''] pl \<and>
       payload_of ''rollback-verify'' pl = Some (obj [(''restored'', Bool True)]) \<and>
       holds_of (failed_outcome plain_host pl) (\<lambda>v. names_failure v ''verification-failed'' ''verify''))"

definition failed_apply_restores :: bool where
  "failed_apply_restores \<longleftrightarrow>
     ran plain_host (test_request 42) (plane_with plain_host (fake_at 7\<lparr>fail_apply := True\<rparr>) no_database)
       (\<lambda>r pl.
       (case r of Inl (ProviderFault _) \<Rightarrow> True | _ \<Rightarrow> False) \<and>
       stages_are plain_host [''snapshot'', ''preview'', ''apply-intent'', ''rollback'',
         ''rollback-verify'', ''failed''] pl \<and>
       holds_of (Option.bind (payload_of ''apply-intent'' pl)
           (\<lambda>t. result_ok (from_text plain_host change_of_json t)))
         (\<lambda>intent. capability_id intent = ''mock.value'' \<and> get ''value'' (parameters intent) = Some (num 42)) \<and>
       holds_of (failed_outcome plain_host pl) (\<lambda>v. names_failure v ''provider'' ''apply''))"

definition failed_rollback_verification_has_its_kind :: bool where
  "failed_rollback_verification_has_its_kind \<longleftrightarrow>
     ran plain_host (test_request 42) (plane_with plain_host (fake_at 7\<lparr>corrupt_rollback := True\<rparr>) no_database)
       (\<lambda>r pl.
       r = Inl RollbackVerificationFailed \<and>
       holds_of (failed_outcome plain_host pl) (\<lambda>v.
         names_failure v ''rollback-verification-failed'' ''rollback-verify'' \<and> get ''suppressed'' v = None))"

definition failed_restore_journals_the_apply_error :: bool where
  "failed_restore_journals_the_apply_error \<longleftrightarrow>
     ran plain_host (test_request 42)
       (plane_with plain_host (fake_at 7\<lparr>fail_apply := True, corrupt_rollback := True\<rparr>) no_database)
       (\<lambda>r pl.
       r = Inl RollbackVerificationFailed \<and>
       holds_of (failed_outcome plain_host pl) (\<lambda>v.
         names_failure v ''rollback-verification-failed'' ''rollback-verify'' \<and>
         holds_of (get ''suppressed'' v) (\<lambda>o'. names_failure o' ''provider'' ''apply'' \<and>
           get ''error'' o' = Some (Str ''provider unavailable: apply failed after mutating state''))))"

text \<open>
  The trigger aborts the insert of the record \<open>failed\<close>, the eleventh statement on the connection: three
  to open it and seven records before.
\<close>

definition blocking_host :: "json host" where
  "blocking_host = plain_host\<lparr>stmt_fault :=
     \<lambda>n. if n = 10 then Some (Sqlite_fault ''journal offline'') else None\<rparr>"

definition unjournalable_outcome_keeps_the_error :: bool where
  "unjournalable_outcome_keeps_the_error \<longleftrightarrow>
     ran blocking_host (test_request 42) (test_plane blocking_host True) (\<lambda>r pl.
       r = Inl VerificationFailed \<and>
       stages_are blocking_host [''snapshot'', ''preview'', ''apply-intent'', ''apply'', ''verify'',
         ''rollback'', ''rollback-verify''] pl)"

text \<open>Both planes are opened before either runs; what one did is in the journal the other goes on with.\<close>

definition connections_allocate_distinct_experiments :: bool where
  "connections_allocate_distinct_experiments \<longleftrightarrow>
     holds_of (plane_with plain_host (fake_at 7) no_database) (\<lambda>first.
     holds_of (plane_with plain_host (fake_at 9) (journal first)) (\<lambda>second.
     case run_lifecycle plain_host fakes (test_request 1) (first\<lparr>journal := journal second\<rparr>) of (r1, first1) \<Rightarrow>
     case run_lifecycle plain_host fakes (test_request 2) (second\<lparr>journal := journal first1\<rparr>) of (r2, second1) \<Rightarrow>
       succeeded r1 \<and> succeeded r2 \<and>
       remdups (map row_experiment (jrows (journal second1))) = [1, 2]))"

definition journal_correlates_by_experiment_and_time :: bool where
  "journal_correlates_by_experiment_and_time \<longleftrightarrow>
     holds_of (test_plane plain_host False) (\<lambda>pl.
     case run_lifecycle plain_host fakes (test_request 1) pl of (r1, pl1) \<Rightarrow>
     case run_lifecycle plain_host fakes (test_request 2) pl1 of (r2, pl2) \<Rightarrow>
     let rows = jrows (journal pl2) in
       succeeded r1 \<and> succeeded r2 \<and> length rows = 16 \<and>
       list_all (\<lambda>r. row_experiment r = 1) (take 8 rows) \<and>
       list_all (\<lambda>r. row_experiment r = 2) (drop 8 rows) \<and>
       list_all (\<lambda>r. recorded_at r \<noteq> None) rows)"

subsection \<open>Policy\<close>

text \<open>\<open>ForeignProvider\<close>: it targets a platform that does not exist, and nothing else of it can be reached.\<close>

definition foreign_ops :: "unit provider_ops" where
  "foreign_ops =
     \<lparr>op_manifest = \<lambda>_. \<lparr>man_id = ''foreign'', protocol_version = 1, targets = [''not-a-real-os''], capabilities = []\<rparr>,
      op_snapshot = \<lambda>_. Inl (Unavailable ''unreachable''),
      op_preview = \<lambda>_ _. Inl (Unavailable ''unreachable''),
      op_apply = \<lambda>p _. (Inl (Unavailable ''unreachable''), p),
      op_verify = \<lambda>_ _. Inl (Unavailable ''unreachable''),
      op_rollback = \<lambda>p _. (Inl (Unavailable ''unreachable''), p)\<rparr>"

definition unknown_targets_fail_closed :: bool where
  "unknown_targets_fail_closed \<longleftrightarrow>
     (case fst (open_plane plain_host foreign_ops () no_database) of Inl (PolicyDenied _) \<Rightarrow> True | _ \<Rightarrow> False)"

definition lease_above_the_ceiling_is_denied :: bool where
  "lease_above_the_ceiling_is_denied \<longleftrightarrow>
     holds_of (test_plane plain_host False) (\<lambda>pl.
     case run_lifecycle plain_host fakes (leased_request 42 (MAX_LEASE_SECONDS + 1)) pl of (r1, pl1) \<Rightarrow>
     case run_lifecycle plain_host fakes (leased_request 42 MAX_LEASE_SECONDS) pl1 of (r2, pl2) \<Rightarrow>
       (case r1 of Inl (PolicyDenied m) \<Rightarrow> sublist ''lease'' m | _ \<Rightarrow> False) \<and> stages_are plain_host [] pl1 \<and>
       succeeded r2 \<and> stages_are plain_host LIFECYCLE_STAGES pl2)"

subsection \<open>Trials\<close>

definition recorded :: "json list \<Rightarrow> fake_plane \<Rightarrow> (int list \<Rightarrow> fake_plane \<Rightarrow> bool) \<Rightarrow> bool" where
  "recorded vs pl Q \<longleftrightarrow>
     (case fold (\<lambda>v (ids, pl). case record_trial plain_host v pl of
          (Inr i, pl1) \<Rightarrow> (map_option (\<lambda>is. is @ [i]) ids, pl1) | (Inl _, pl1) \<Rightarrow> (None, pl1)) vs (Some [], pl) of
        (Some ids, pl1) \<Rightarrow> Q ids pl1 | (None, _) \<Rightarrow> False)"

definition trial_ids_are :: "int list \<Rightarrow> fake_plane \<Rightarrow> bool" where
  "trial_ids_are ids pl \<longleftrightarrow> fst (trial_ids plain_host pl) = Inr ids"

definition trial_reads :: "int \<Rightarrow> fake_plane \<Rightarrow> json option" where
  "trial_reads i pl = result_ok (fst (read_trial plain_host i pl))"

definition trials_round_trip :: bool where
  "trials_round_trip \<longleftrightarrow>
     holds_of (test_plane plain_host False) (\<lambda>pl. trial_ids_are [] pl \<and>
     recorded [obj [(''hypothesis'', Str ''higher clocks help''), (''decision'', Str ''promote'')],
               obj [(''hypothesis'', Str ''wider power budget''), (''decision'', Str ''reject'')]] pl
       (\<lambda>ids pl1. trial_ids_are ids pl1 \<and> length ids = 2 \<and>
          holds_of (trial_reads (ids ! 0) pl1) (\<lambda>v.
            get ''hypothesis'' v = Some (Str ''higher clocks help'') \<and>
            get ''decision'' v = Some (Str ''promote''))))"

definition recording_never_disturbs :: bool where
  "recording_never_disturbs \<longleftrightarrow>
     holds_of (test_plane plain_host False) (\<lambda>pl.
     let first = obj [(''decision'', Str ''promote''), (''lifecycle'', obj [(''verified'', Bool True)])] in
     recorded [first, obj [(''decision'', Str ''reject'')]] pl (\<lambda>ids pl1.
       length ids = 2 \<and> trial_reads (ids ! 0) pl1 = Some first \<and>
       holds_of (trial_reads (ids ! 1) pl1) (\<lambda>v. get ''decision'' v = Some (Str ''reject'')) \<and>
       trial_ids_are ids pl1))"

definition reading_an_unknown_trial_fails :: bool where
  "reading_an_unknown_trial_fails \<longleftrightarrow>
     holds_of (test_plane plain_host False) (\<lambda>pl.
       case fst (read_trial plain_host 404 pl) of
         Inl e \<Rightarrow> e = UnknownTrial 404 \<and> kind e = ''unknown-trial'' | Inr _ \<Rightarrow> False)"

definition snapshot_reads_the_state :: bool where
  "snapshot_reads_the_state \<longleftrightarrow>
     holds_of (test_plane plain_host False) (\<lambda>pl. holds_of (result_ok (plane_snapshot fakes pl)) (\<lambda>s.
       get ''value'' (snap_state s) = Some (num 7) \<and> snap_provider s = ''fake''))"

text \<open>A record of a working journal, opaque to the simplifier but for what the tests look at.\<close>

definition logged :: "'t host \<Rightarrow> int \<Rightarrow> string \<Rightarrow> json \<Rightarrow> ('p, 't) plane \<Rightarrow> ('p, 't) plane" where
  "logged H e st v pl = pl\<lparr>journal := (tick (journal pl))\<lparr>jrows := jrows (journal pl) @
     [\<lparr>row_experiment = e, recorded_at = stamp H (journal pl), stage = st,
       row_provider = man_id (manifest pl), payload = to_text H v\<rparr>]\<rparr>\<rparr>"

lemma logged_simps [simp]:
  "provider (logged H e st v pl) = provider pl" "manifest (logged H e st v pl) = manifest pl"
  "jtable (journal (logged H e st v pl)) = jtable (journal pl)"
  "jtrials (journal (logged H e st v pl)) = jtrials (journal pl)"
  "jclock (journal (logged H e st v pl)) = Suc (jclock (journal pl))"
  "jrows (journal (logged H e st v pl)) = jrows (journal pl) @
     [\<lparr>row_experiment = e, recorded_at = stamp H (journal pl), stage = st,
       row_provider = man_id (manifest pl), payload = to_text H v\<rparr>]"
  by (simp_all add: logged_def)

lemma record_stage_logged [simp]:
  "stmt_fault H (jclock (journal pl)) = None \<Longrightarrow> jtable (journal pl) \<Longrightarrow>
     record_stage H e st v pl = (Inr (), logged H e st v pl)"
  by (simp add: record_stage_def insert_record_ok logged_def)

lemma record_stage_fault [simp]:
  "stmt_fault H (jclock (journal pl)) = Some f \<Longrightarrow>
     record_stage H e st v pl = (Inl (of_fault f), pl\<lparr>journal := tick (journal pl)\<rparr>)"
  by (simp add: record_stage_def insert_record_def statement_def)

lemma begin_experiment_logged:
  "stmt_fault H (jclock (journal pl)) = None \<Longrightarrow> jtable (journal pl) \<Longrightarrow>
     next_experiment (jrows (journal pl)) = Inr e \<Longrightarrow>
     begin_experiment H s pl = (Inr e, logged H e ''snapshot'' (snapshot_json s) pl)"
  by (simp add: begin_experiment_def allocate_experiment_def statement_def append_rows_def logged_def)

lemma stages_are_of [simp]:
  "stmt_fault H (jclock (journal pl)) = None \<Longrightarrow> jtable (journal pl) \<Longrightarrow>
     stages_are H ss pl \<longleftrightarrow> map stage (jrows (journal pl)) = ss"
  by (simp add: stages_are_def journal_stages_def query_def statement_def)

lemma next_experiment_empty [simp]: "next_experiment [] = Inr 1"
  by (simp add: next_experiment_def max_experiment_def)

definition opened_at :: "fake_provider \<Rightarrow> fake_plane" where
  "opened_at p = \<lparr>provider = p, manifest = fake_manifest ''linux'' p,
     journal = \<lparr>jtable = True, jrows = [], jtrials = [], jclock = 3\<rparr>\<rparr>"

lemma opened_at_simps [simp]:
  "provider (opened_at p) = p" "manifest (opened_at p) = fake_manifest ''linux'' p"
  "journal (opened_at p) = \<lparr>jtable = True, jrows = [], jtrials = [], jclock = 3\<rparr>"
  by (simp_all add: opened_at_def)

lemma plane_opens [simp]:
  "stmt_fault H 0 = None \<Longrightarrow> stmt_fault H 1 = None \<Longrightarrow> stmt_fault H 2 = None \<Longrightarrow> os H = ''linux'' \<Longrightarrow>
     plane_with H p no_database = Some (opened_at p)"
  by (simp add: plane_with_def open_plane_def statement_def no_database_def tick_def opened_at_def
      fake_ops_def fake_manifest_def numeral_2_eq_2)

lemma plain_os [simp]: "os plain_host = ''linux''"
  by (simp add: plain_host_def)

lemmas fixtures = holds_of_def ran_def succeeded_def names_failure_def payload_of_def
  failed_outcome_def test_plane_def fake_at_def LIFECYCLE_STAGES_def

lemmas running = run_lifecycle_def run_stages_def restore_def restore_after_def apply_and_observe_def
  observe_applied_def record_outcome_def begin_experiment_logged
  fake_ops_def fake_snapshot_def fake_preview_def fake_apply_def fake_verify_def fake_rollback_def
  test_request_def leased_request_def

lemma leased_accepted:
  "validate (fake_manifest platform p) \<lparr>capability_id = ''mock.value'', parameters = obj [(''value'', num v)],
     lease_seconds = l\<rparr> = (if MAX_LEASE_SECONDS < l then Inl (PolicyDenied (''lease exceeds '' @ show_word MAX_LEASE_SECONDS @ '' seconds''))
     else if MAX_MOCK_VALUE < v then Inl (PolicyDenied (''mock.value is bounded to 0..='' @ show_word MAX_MOCK_VALUE)) else Inr ())"
  by (simp add: validate_def fake_manifest_def)

lemmas accepting = leased_accepted [where v = "numeral m" and l = "numeral n" for m n] leased_accepted [where v = 1]
  MAX_LEASE_SECONDS_def MAX_MOCK_VALUE_def

lemma lifecycle_tests:
  "journal_proves_ordered_lifecycle" "failed_verification_restores" "failed_apply_restores"
  "failed_rollback_verification_has_its_kind" "failed_restore_journals_the_apply_error"
  "unjournalable_outcome_keeps_the_error"
proof -
  show journal_proves_ordered_lifecycle
    by (simp add: journal_proves_ordered_lifecycle_def fixtures running accepting)
  show failed_verification_restores
    by (simp add: failed_verification_restores_def fixtures running accepting failed_payload_def failure_json_def)
  have "change_of_json (change_json \<lparr>capability_id = ''mock.value'', parameters = obj [(''value'', num 42)],
      lease_seconds = 30\<rparr>) = Some \<lparr>capability_id = ''mock.value'', parameters = obj [(''value'', num 42)],
      lease_seconds = 30\<rparr>"
    by (rule change_format.dec_enc) (simp add: change_ok_def)
  then show failed_apply_restores
    by (simp add: failed_apply_restores_def fixtures running accepting failed_payload_def failure_json_def
       from_text_def)
  show failed_rollback_verification_has_its_kind
    by (simp add: failed_rollback_verification_has_its_kind_def fixtures running accepting failed_payload_def failure_json_def)
  show failed_restore_journals_the_apply_error
    by (simp add: failed_restore_journals_the_apply_error_def fixtures running accepting failed_payload_def failure_json_def)
  show unjournalable_outcome_keeps_the_error
    by (simp add: unjournalable_outcome_keeps_the_error_def fixtures running accepting blocking_host_def)
qed

lemma plane_opens_on [simp]:
  "jtable j \<Longrightarrow> plane_with plain_host p j = Some \<lparr>provider = p, manifest = fake_manifest ''linux'' p,
     journal = tick (tick (tick j))\<rparr>"
  by (simp add: plane_with_def open_plane_def statement_def tick_def fake_ops_def fake_manifest_def)

lemma next_experiment_step:
  "rs \<noteq> [] \<Longrightarrow> \<forall>r\<in>set rs. row_experiment r = e \<Longrightarrow> e + 1 < 2 ^ 63 \<Longrightarrow> next_experiment rs = Inr (e + 1)"
proof -
  assume a: "rs \<noteq> []" "\<forall>r\<in>set rs. row_experiment r = e" "e + 1 < 2 ^ 63"
  then have "set (map row_experiment rs) = {e}" by (cases rs) auto
  then have "max_experiment rs = e" using a(1) by (simp add: max_experiment_def)
  then show ?thesis using a(3) by (simp add: next_experiment_def)
qed

lemma sequence_tests:
  "connections_allocate_distinct_experiments" "journal_correlates_by_experiment_and_time"
proof -
  show connections_allocate_distinct_experiments
    by (simp add: connections_allocate_distinct_experiments_def fixtures running accepting
        next_experiment_step [where e = 1])
  show journal_correlates_by_experiment_and_time
    by (simp add: journal_correlates_by_experiment_and_time_def fixtures running accepting stamp_def
        next_experiment_step [where e = 1])
qed

lemmas trialing = recorded_def trial_ids_are_def trial_reads_def record_trial_def read_trial_def trial_ids_def
  insert_trial_def query_def statement_def next_trial_def tick_def

lemma policy_and_trial_tests:
  "unknown_targets_fail_closed" "lease_above_the_ceiling_is_denied" "trials_round_trip"
  "recording_never_disturbs" "reading_an_unknown_trial_fails" "snapshot_reads_the_state"
proof -
  show unknown_targets_fail_closed
    by (simp add: unknown_targets_fail_closed_def foreign_ops_def open_plane_def)
  have "sublist ''lease'' (''lease exceeds '' @ s)" for s
    by (auto simp: sublist_def intro: exI [of _ "[]"])
  then show lease_above_the_ceiling_is_denied
    by (simp add: lease_above_the_ceiling_is_denied_def fixtures running accepting)
  show trials_round_trip by (simp add: trials_round_trip_def fixtures trialing)
  show recording_never_disturbs by (simp add: recording_never_disturbs_def fixtures trialing Let_def)
  show reading_an_unknown_trial_fails
    by (simp add: reading_an_unknown_trial_fails_def fixtures trialing)
  show snapshot_reads_the_state
    by (simp add: snapshot_reads_the_state_def fixtures plane_snapshot_def fake_ops_def fake_snapshot_def)
qed

end
