(* ===== verification/Broker_Tests.thy ===== *)
theory Broker_Tests
  imports Connection Plane_Tests
begin

section \<open>The tests of the broker's library (\<open>apps/broker/src/lib.rs\<close>)\<close>

text \<open>
  As in \<open>Contract_Tests\<close>.  What the tests say of elapsed time and of the length of a printed response
  is left out, for neither clock nor printer is modelled.
\<close>

subsection \<open>Fixtures\<close>

definition HOST_DETAIL :: string where
  "HOST_DETAIL = ''/var/lib/fpsmaxxing/private/journal.sqlite''"

definition leaky_ops :: "mock_provider provider_ops" where
  "leaky_ops =
     \<lparr>op_manifest = \<lambda>_. mock_manifest ''linux'' \<lparr>mock_value = 0\<rparr>,
      op_snapshot = \<lambda>_. mock_snapshot \<lparr>mock_value = 0\<rparr>,
      op_preview = \<lambda>_. mock_preview \<lparr>mock_value = 0\<rparr>,
      op_apply = \<lambda>p _. (Inl (Unavailable HOST_DETAIL), p),
      op_verify = \<lambda>_ _. Inr True,
      op_rollback = \<lambda>p _. (Inr (), p)\<rparr>"

abbreviation mocks :: "mock_provider provider_ops" where
  "mocks \<equiv> mock_ops ''linux''"

type_synonym test_service = "(mock_provider, json) service"

definition service_with :: "mock_provider provider_ops \<Rightarrow> ledger \<Rightarrow> test_service option" where
  "service_with P L =
     (case fst (open_plane plain_host P \<lparr>mock_value = 0\<rparr> no_database) of
        Inr pl \<Rightarrow> Some (new_service pl L) | Inl _ \<Rightarrow> None)"

definition test_change :: "string \<Rightarrow> u64 \<Rightarrow> u64 \<Rightarrow> change_request" where
  "test_change c v lease = \<lparr>capability_id = c, parameters = obj [(''value'', num v)], lease_seconds = lease\<rparr>"

definition handled :: "mock_provider provider_ops \<Rightarrow> ledger \<Rightarrow> broker_request \<Rightarrow> broker_response option" where
  "handled P L q = map_option (\<lambda>sv. fst (broker_handle plain_host P q sv)) (service_with P L)"

definition error_body_of :: "broker_response option \<Rightarrow> broker_error_body option" where
  "error_body_of r = (case r of Some (ErrorResponse b) \<Rightarrow> Some b | _ \<Rightarrow> None)"

definition error_kind_of :: "broker_response option \<Rightarrow> broker_error_kind option" where
  "error_kind_of r = map_option eb_kind (error_body_of r)"

subsection \<open>The handler\<close>

definition discover_returns_the_catalog :: bool where
  "discover_returns_the_catalog \<longleftrightarrow>
     (case handled mocks new_ledger discover_request of
        Some r \<Rightarrow> outcome r = CapabilitiesOutcome \<and>
          (case r of CapabilitiesResponse m \<Rightarrow> list_ex (\<lambda>c. cap_id c = ''mock.value'') (capabilities m)
           | _ \<Rightarrow> False)
      | None \<Rightarrow> False)"

definition full_lifecycle_succeeds :: bool where
  "full_lifecycle_succeeds \<longleftrightarrow>
     (case handled mocks new_ledger (run_lifecycle_request ''gateway'' (test_change ''mock.value'' 42 30)) of
        Some r \<Rightarrow> outcome r = LifecycleOutcome \<and>
          (case r of LifecycleResponse x \<Rightarrow> rp_verified x \<and> rp_rolled_back x | _ \<Rightarrow> False)
      | None \<Rightarrow> False)"

definition out_of_catalog_is_refused :: bool where
  "out_of_catalog_is_refused \<longleftrightarrow>
     list_all (\<lambda>c. error_kind_of (handled mocks new_ledger
         (run_lifecycle_request ''gateway'' (test_change c 1 30))) = Some UnknownCapabilityKind)
       [''shell.exec'', ''registry.set'', ''mock.unknown'']"

definition missing_owner_is_malformed :: bool where
  "missing_owner_is_malformed \<longleftrightarrow>
     error_kind_of (handled mocks new_ledger \<lparr>rq_op = RunLifecycle, rq_owner = None,
       rq_change = Some (test_change ''mock.value'' 1 30)\<rparr>) = Some Malformed"

definition out_of_bounds_is_policy_denied :: bool where
  "out_of_bounds_is_policy_denied \<longleftrightarrow>
     (let r = handled mocks new_ledger (run_lifecycle_request ''gateway'' (test_change ''mock.value'' 101 30)) in
      error_kind_of r = Some PolicyDeniedKind \<and>
      map_option eb_message (error_body_of r) =
        Some ''policy denied request: mock.value is bounded to 0..=100'')"

definition internal_failure_stays_inside :: bool where
  "internal_failure_stays_inside \<longleftrightarrow>
     (let r = handled leaky_ops new_ledger (run_lifecycle_request ''gateway'' (test_change ''mock.value'' 42 30)) in
      error_kind_of r = Some LifecycleFailedKind \<and>
      (case map_option eb_message (error_body_of r) of
         Some m \<Rightarrow> \<not> sublist HOST_DETAIL m \<and> m = ''lifecycle failed: provider''
       | None \<Rightarrow> False))"

definition oversized_capability_is_answered :: bool where
  "oversized_capability_is_answered \<longleftrightarrow>
     error_kind_of (handled mocks new_ledger (run_lifecycle_request ''gateway''
       (test_change (replicate (unat MAX_FRAME_BYTES) CHR ''z'') 1 30))) = Some UnknownCapabilityKind"

definition oversized_owner_cannot_bloat :: bool where
  "oversized_owner_cannot_bloat \<longleftrightarrow>
     (case acquire ''mock.value'' (concat (replicate (unat MAX_FRAME_BYTES div 6) ''owner-'')) new_ledger of
        (Inl _, _) \<Rightarrow> False
      | (Inr _, L) \<Rightarrow>
     (let r = handled mocks L (run_lifecycle_request ''owner-b'' (test_change ''mock.value'' 42 30)) in
      error_kind_of r = Some OwnerConflictKind \<and>
      (case error_body_of r of Some b \<Rightarrow> length (eb_message b) \<le> MAX_ECHOED_BYTES + 3 | None \<Rightarrow> False)))"

definition second_owner_is_refused :: bool where
  "second_owner_is_refused \<longleftrightarrow>
     (case acquire ''mock.value'' ''owner-a'' new_ledger of
        (Inl _, _) \<Rightarrow> False
      | (Inr _, L) \<Rightarrow> error_kind_of (handled mocks L
           (run_lifecycle_request ''owner-b'' (test_change ''mock.value'' 42 30))) = Some OwnerConflictKind)"

text \<open>The character U+3053 is the three bytes \<open>E3 81 93\<close>.\<close>

definition hiragana_ko :: string where
  "hiragana_ko = [char_of (227 :: nat), char_of (129 :: nat), char_of (147 :: nat)]"

fun all_ko :: "string \<Rightarrow> bool" where
  "all_ko [] = True"
| "all_ko (a # b # c # s) = ([a, b, c] = hiragana_ko \<and> all_ko s)"
| "all_ko s = False"

definition echoing_truncates_on_a_boundary :: bool where
  "echoing_truncates_on_a_boundary \<longleftrightarrow>
     echoed ''short'' = ''short'' \<and>
     (let s = concat (replicate MAX_ECHOED_BYTES hiragana_ko);
          shortened = echoed s;
          kept = take (length shortened - 3) shortened in
      suffix ''...'' shortened \<and> length kept \<le> MAX_ECHOED_BYTES \<and> prefix kept s \<and> all_ko kept)"

subsection \<open>Stalled peers\<close>

definition TEST_UID :: u32 where
  "TEST_UID = 4242"

definition stalled_peer :: "byte list \<Rightarrow> script" where
  "stalled_peer request = \<lparr>inbound = (if request = [] then [] else [Bytes request]), outbound = [], deaf = True\<rparr>"

text \<open>
  The error of a missed write deadline is told by its message.  The worker is never asked: a request that
  reached it would find a handler that panics.
\<close>

definition junk :: "byte list" where
  "junk = map (\<lambda>c. of_nat (of_char c)) ''junk''"

definition silent_peer_cannot_pin_the_connection :: "wire \<Rightarrow> bool" where
  "silent_peer_cannot_pin_the_connection W \<longleftrightarrow>
     (case handle_connection script_ops W (same_uid_authorize \<lparr>expected_uid = TEST_UID\<rparr>) (dispatch (\<lambda>_ _. None))
             \<lparr>peer_uid = TEST_UID, peer_pid = None\<rparr> (stalled_peer (to_be_bytes 4 @ junk))
             (Some ()) of
        Some (Inl (FrameIo e), _, _) \<Rightarrow> e = write_deadline_text
      | _ \<Rightarrow> False)"

definition rejected_peer_cannot_pin_its_slot :: "wire \<Rightarrow> bool" where
  "rejected_peer_cannot_pin_its_slot W \<longleftrightarrow>
     (case handle_connection script_ops W (same_uid_authorize \<lparr>expected_uid = TEST_UID + 1\<rparr>) (dispatch (\<lambda>_ _. None))
             \<lparr>peer_uid = TEST_UID, peer_pid = None\<rparr> (stalled_peer []) (Some ()) of
        Some (r, _, _) \<Rightarrow> r = Inr ()
      | None \<Rightarrow> False)"

subsection \<open>They pass\<close>

definition opened_service :: "ledger \<Rightarrow> test_service" where
  "opened_service L = new_service \<lparr>provider = \<lparr>mock_value = 0\<rparr>, manifest = mock_manifest ''linux'' \<lparr>mock_value = 0\<rparr>,
     journal = \<lparr>jtable = True, jrows = [], jtrials = [], jclock = 3\<rparr>\<rparr> L"

lemma service_opens:
  "service_with mocks L = Some (opened_service L)" "service_with leaky_ops L = Some (opened_service L)"
  by (simp_all add: service_with_def open_plane_def statement_def no_database_def tick_def opened_service_def
      mock_ops_def leaky_ops_def mock_manifest_def numeral_3_eq_3)

lemma opened_catalog:
  "set (sv_catalog (opened_service L)) = {''mock.value''}"
  "sv_ledger (opened_service L) = L"
  by (simp_all add: opened_service_def new_service_def mock_manifest_def)

lemmas handling = handled_def service_opens broker_handle_def run_lifecycle_request_def broker_run_lifecycle_def
  opened_catalog test_change_def error_kind_of_def error_body_of_def error_response_def

lemma catalog_tests:
  "discover_returns_the_catalog" "out_of_catalog_is_refused" "missing_owner_is_malformed"
  "oversized_capability_is_answered" "oversized_owner_cannot_bloat" "second_owner_is_refused"
proof -
  show discover_returns_the_catalog
    by (simp add: discover_returns_the_catalog_def handling discover_request_def broker_discover_def
        opened_service_def new_service_def mock_manifest_def)
  show out_of_catalog_is_refused
    by (simp add: out_of_catalog_is_refused_def handling acquire_def new_ledger_def byte_of_def Let_def)
  show missing_owner_is_malformed by (simp add: missing_owner_is_malformed_def handling)
  have "length (replicate (unat MAX_FRAME_BYTES) CHR ''z'') \<noteq> length ''mock.value''"
    by (simp add: MAX_FRAME_BYTES_def)
  then have "replicate (unat MAX_FRAME_BYTES) CHR ''z'' \<noteq> ''mock.value''" by metis
  then show oversized_capability_is_answered
    by (simp add: oversized_capability_is_answered_def handling byte_of_def Let_def)
  show oversized_owner_cannot_bloat
    by (simp add: oversized_owner_cannot_bloat_def handling acquire_def new_ledger_def byte_of_def Let_def
        length_echoed MAX_ECHOED_BYTES_def)
  show second_owner_is_refused
    by (simp add: second_owner_is_refused_def handling acquire_def new_ledger_def byte_of_def Let_def)
qed

lemma show_100: "show_nat 100 = ''100''"
  by code_simp

lemma lifecycle_service_tests:
  "full_lifecycle_succeeds" "out_of_bounds_is_policy_denied" "internal_failure_stays_inside"
proof -
  let ?c = "\<lparr>capability_id = ''mock.value'', parameters = obj [(''value'', num 42)], lease_seconds = 30\<rparr> :: change_request"
  let ?pl = "sv_plane (opened_service new_ledger)"
  have "validate (manifest ?pl) ?c = Inr ()"
    by (simp add: opened_service_def new_service_def validate_def mock_manifest_def MAX_LEASE_SECONDS_def
        MAX_MOCK_VALUE_def)
  moreover have "mock_accepts ?c" by (simp add: mock_accepts_def)
  ultimately obtain x pl' where "run_lifecycle plain_host mocks ?c ?pl = (Inr x, pl')" "verified x" "rolled_back x"
    using mock.lifecycle_succeeds [of plain_host ?pl ?c "''linux''"]
    by (auto simp: max_experiment_def opened_service_def new_service_def)
  then show full_lifecycle_succeeds
    by (simp add: full_lifecycle_succeeds_def handling new_ledger_def acquire_def byte_of_def Let_def report_of_def)
  show out_of_bounds_is_policy_denied
    by (simp add: out_of_bounds_is_policy_denied_def handling new_ledger_def acquire_def byte_of_def Let_def
        opened_service_def new_service_def run_lifecycle_def validate_def mock_manifest_def MAX_LEASE_SECONDS_def
        MAX_MOCK_VALUE_def wire_error_def echoed_def MAX_ECHOED_BYTES_def show_100)
  have "\<exists>pl'. run_lifecycle plain_host leaky_ops ?c ?pl = (Inl (ProviderFault (Unavailable HOST_DETAIL)), pl')"
    by (simp add: opened_service_def new_service_def run_lifecycle_def validate_def mock_manifest_def
        MAX_LEASE_SECONDS_def MAX_MOCK_VALUE_def leaky_ops_def mock_snapshot_def mock_preview_def
        begin_experiment_logged run_stages_def apply_and_observe_def restore_after_def restore_def
        record_outcome_def)
  moreover have "\<not> sublist HOST_DETAIL ''lifecycle failed: provider''"
    by (rule notI, drule sublist_length_le) (simp add: HOST_DETAIL_def)
  ultimately show internal_failure_stays_inside
    by (auto simp: internal_failure_stays_inside_def handling new_ledger_def acquire_def byte_of_def Let_def
        wire_error_def)
qed

lemma all_ko_many: "all_ko (concat (replicate n hiragana_ko))"
  by (induction n) (simp_all add: hiragana_ko_def)

lemma many_ko: "concat (replicate (Suc (m + n)) hiragana_ko) =
    concat (replicate m hiragana_ko) @ hiragana_ko @ concat (replicate n hiragana_ko)"
  by (induction m) simp_all

lemma boundary_before: "\<not> is_continuation c \<Longrightarrow> is_char_boundary (s @ c # t) (length s)"
  by (simp add: is_char_boundary_def)

lemma length_many_ko: "length (concat (replicate n hiragana_ko)) = 3 * n"
  by (induction n) (simp_all add: hiragana_ko_def)

text \<open>
  The comment of the test says that the cap falls inside a character.  It does not: the cap is 120
  bytes, forty characters of three bytes, and the text is cut where a cut by bytes would cut it.
\<close>

lemma echo_cap_is_a_boundary:
  "is_char_boundary (concat (replicate MAX_ECHOED_BYTES hiragana_ko)) MAX_ECHOED_BYTES"
  "echoed (concat (replicate MAX_ECHOED_BYTES hiragana_ko)) = concat (replicate 40 hiragana_ko) @ ''...''"
proof -
  let ?s = "concat (replicate MAX_ECHOED_BYTES hiragana_ko)"
  have s: "?s = concat (replicate 40 hiragana_ko) @ hiragana_ko @ concat (replicate 79 hiragana_ko)"
    using many_ko [of 40 79] by (simp add: MAX_ECHOED_BYTES_def)
  have n: "length (concat (replicate 40 hiragana_ko)) = MAX_ECHOED_BYTES"
    by (simp add: length_many_ko MAX_ECHOED_BYTES_def)
  show b: "is_char_boundary ?s MAX_ECHOED_BYTES"
  proof -
    have "\<not> is_continuation (char_of (227 :: nat))" by (simp add: is_continuation_def byte_of_def)
    note boundary_before [OF this, of "concat (replicate 40 hiragana_ko)" "tl hiragana_ko @ concat (replicate 79 hiragana_ko)"]
    moreover have "hiragana_ko @ u = char_of (227 :: nat) # tl hiragana_ko @ u" for u by (simp add: hiragana_ko_def)
    ultimately show ?thesis unfolding s n by metis
  qed
  have "rev [0..<Suc MAX_ECHOED_BYTES] = MAX_ECHOED_BYTES # rev [0..<MAX_ECHOED_BYTES]" by simp
  moreover have "take MAX_ECHOED_BYTES ?s = concat (replicate 40 hiragana_ko)"
    unfolding s by (simp add: n)
  ultimately show "echoed ?s = concat (replicate 40 hiragana_ko) @ ''...''"
    using b by (simp add: echoed_def length_many_ko MAX_ECHOED_BYTES_def)
qed

lemma echo_test: echoing_truncates_on_a_boundary
proof -
  have "prefix (concat (replicate 40 hiragana_ko)) (concat (replicate MAX_ECHOED_BYTES hiragana_ko))"
    using many_ko [of 40 79] by (simp add: MAX_ECHOED_BYTES_def)
  then show ?thesis
    using all_ko_many [of 40]
    by (simp add: echoing_truncates_on_a_boundary_def Let_def echo_cap_is_a_boundary(2) length_many_ko suffix_def)
      (simp add: echoed_def MAX_ECHOED_BYTES_def)
qed

lemma stalled_reads:
  "read_frame script_ops (stalled_peer (to_be_bytes 4 @ junk)) = (Inr (Some junk), stalled_peer [])"
proof -
  have bs: "to_be_bytes 4 @ junk = [0, 0, 0, 4, 106, 117, 110, 107]"
    by (simp add: junk_def to_be_bytes_def)
  have 1: "fill_buffer script_read 4 [] (stalled_peer (to_be_bytes 4 @ junk)) = (Filled [0, 0, 0, 4], stalled_peer [106, 117, 110, 107])"
    by (simp add: fill_buffer_pos [of 4] stalled_peer_def bs)
  have 2: "fill_buffer script_read 4 [] (stalled_peer [106, 117, 110, 107]) = (Filled [106, 117, 110, 107], stalled_peer [])"
    by (simp add: fill_buffer_pos [of 4] stalled_peer_def)
  have 3: "from_be_bytes [0, 0, 0, 4] = 4" by (simp add: from_be_bytes_def)
  have j: "junk = [106, 117, 110, 107]" by (simp add: junk_def)
  have m: "(4 :: u32) = 0 \<longleftrightarrow> False" "MAX_FRAME_BYTES < (4 :: u32) \<longleftrightarrow> False" "unat (4 :: u32) = 4"
    by (simp_all add: MAX_FRAME_BYTES_def)
  show ?thesis
    by (simp only: read_frame_def script_ops_simps 1 [unfolded j] prod.case fill.case 3 Let_def m if_False j)
      (simp only: 2 prod.case fill.case)
qed

lemma stalled_tests:
  assumes "\<And>v. \<exists>bs. wire_vec W v = Inr bs" "wire_slice W junk = Inl e"
  shows "silent_peer_cannot_pin_the_connection W" "rejected_peer_cannot_pin_its_slot W"
proof -
  have w: "\<exists>s. write_response_within script_ops W r (stalled_peer bs) = (Inl (FrameIo write_deadline_text), s)" for r bs
    using assms(1) [of "response_json r"] by (auto simp: write_response_within_def stalled_peer_def)
  obtain s where "write_response_within script_ops W (error_response Unauthenticated UNAUTHORIZED_MESSAGE)
      (stalled_peer []) = (Inl (FrameIo write_deadline_text), s)" using w by blast
  then show "rejected_peer_cannot_pin_its_slot W"
    by (simp add: rejected_peer_cannot_pin_its_slot_def handle_connection_def same_uid_authorize_def TEST_UID_def)
  let ?p = "stalled_peer (to_be_bytes 4 @ junk)"
  obtain s where "write_response_within script_ops W (error_response Malformed (''invalid request: '' @ echoed e))
      (stalled_peer []) = (Inl (FrameIo write_deadline_text), s)" using w by blast
  moreover have "s_idle script_ops ?p = None" by (simp add: stalled_peer_def never_late)
  ultimately have "connection_turn script_ops W d ?p x = (Some (Inl (FrameIo write_deadline_text)), s, x)" for d and x :: "unit option"
    using assms(2) by (simp add: connection_turn_def stalled_reads answer_def from_slice_def)
  then show "silent_peer_cannot_pin_the_connection W"
    by (simp add: silent_peer_cannot_pin_the_connection_def handle_connection_def same_uid_authorize_def
        serve_connection.simps [of _ _ _ ?p])
qed

end
