(* ===== verification/Runner_Tests.thy ===== *)
theory Runner_Tests
  imports Trials
begin

section \<open>The tests of the runner's policy gate (\<open>apps/experiment-runner/src/runner.rs\<close>)\<close>

text \<open>
  As in \<open>Contract_Tests\<close>.  A test looks for a word in the message of a rejection; a message is a list
  of fragments here, and a word is looked for in the text of each.
\<close>

subsection \<open>Fixtures\<close>

definition test_manifest :: provider_manifest where
  "test_manifest = \<lparr>man_id = ''mock'', protocol_version = 1, targets = [''linux''],
     capabilities = [\<lparr>cap_id = ''mock.value'', cap_description = ''Sets an in-memory value'',
       cap_risk = Reversible, cap_persistence = Leased, cap_schema = obj [(''type'', Str ''object'')]\<rparr>]\<rparr>"

definition spec_for_value :: "u32 \<Rightarrow> u32 \<Rightarrow> u32 \<Rightarrow> u32 \<Rightarrow> u64 \<Rightarrow> experiment_spec" where
  "spec_for_value warmup baseline candidate least v =
     \<lparr>hypothesis = ''raise mock.value'',
      target = \<lparr>capability_id = ''mock.value'', parameters = obj [(''value'', num v)], lease_seconds = 30\<rparr>,
      warmup_samples = warmup, baseline_samples = baseline, candidate_samples = candidate,
      bounds = \<lparr>min_samples = least, min_fps_improvement = Fin 5, max_temperature_c = Fin 80,
        max_power_w = Fin 200, max_errors = 0\<rparr>\<rparr>"

definition test_spec :: "u32 \<Rightarrow> u32 \<Rightarrow> u32 \<Rightarrow> u32 \<Rightarrow> experiment_spec" where
  "test_spec warmup baseline candidate least = spec_for_value warmup baseline candidate least 40"

definition rejection :: "experiment_spec \<Rightarrow> message option" where
  "rejection s = (case runner_validate test_manifest s of Inl (InvalidSpec m) \<Rightarrow> Some m | _ \<Rightarrow> None)"

fun fragment_text :: "fragment \<Rightarrow> string" where
  "fragment_text (Text t) = t"
| "fragment_text (Quoted t) = t"
| "fragment_text (Number_f64 _) = []"

definition mentions :: "string \<Rightarrow> message \<Rightarrow> bool" where
  "mentions w m \<longleftrightarrow> list_ex (\<lambda>f. sublist w (fragment_text f)) m"

definition rejected_for :: "string \<Rightarrow> experiment_spec \<Rightarrow> bool" where
  "rejected_for w s \<longleftrightarrow> (case rejection s of Some m \<Rightarrow> mentions w m | None \<Rightarrow> False)"

definition accepted :: "experiment_spec \<Rightarrow> bool" where
  "accepted s \<longleftrightarrow> (case runner_validate test_manifest s of Inr _ \<Rightarrow> True | Inl _ \<Rightarrow> False)"

definition with_bounds :: "(decision_bounds \<Rightarrow> decision_bounds) \<Rightarrow> experiment_spec" where
  "with_bounds f = (let s = test_spec 2 5 5 3 in s\<lparr>bounds := f (bounds s)\<rparr>)"

definition with_target :: "(change_request \<Rightarrow> change_request) \<Rightarrow> experiment_spec" where
  "with_target f = (let s = test_spec 2 5 5 3 in s\<lparr>target := f (target s)\<rparr>)"

text \<open>The double that the literal \<open>0.1\<close> stands for.\<close>

definition tenth :: f64 where
  "tenth = Fin (3602879701896397 / 36028797018963968)"

subsection \<open>The tests\<close>

definition accepts_a_spec_inside_the_envelope :: bool where
  "accepts_a_spec_inside_the_envelope \<longleftrightarrow>
     runner_validate test_manifest (test_spec 2 5 5 3) = Inr 40 \<and>
     accepted (test_spec MAX_SAMPLES MAX_SAMPLES MAX_SAMPLES 3)"

definition rejects_looser_bounds :: bool where
  "rejects_looser_bounds \<longleftrightarrow>
     rejected_for ''max_temperature_c'' (with_bounds (\<lambda>b. b\<lparr>max_temperature_c := MAX_DECISION_TEMPERATURE_C + tenth\<rparr>)) \<and>
     rejected_for ''max_temperature_c'' (with_bounds (\<lambda>b. b\<lparr>max_temperature_c := PInf\<rparr>)) \<and>
     rejected_for ''max_temperature_c'' (with_bounds (\<lambda>b. b\<lparr>max_temperature_c := NaN\<rparr>)) \<and>
     rejected_for ''max_temperature_c'' (with_bounds (\<lambda>b. b\<lparr>max_temperature_c := 0\<rparr>)) \<and>
     rejected_for ''max_power_w'' (with_bounds (\<lambda>b. b\<lparr>max_power_w := MAX_DECISION_POWER_W + tenth\<rparr>)) \<and>
     rejected_for ''min_fps_improvement'' (with_bounds (\<lambda>b. b\<lparr>min_fps_improvement := Fin (- 1)\<rparr>)) \<and>
     rejected_for ''min_fps_improvement'' (with_bounds (\<lambda>b. b\<lparr>min_fps_improvement := NaN\<rparr>)) \<and>
     rejected_for ''max_errors'' (with_bounds (\<lambda>b. b\<lparr>max_errors := MAX_DECISION_ERRORS + 1\<rparr>)) \<and>
     rejected_for ''min_samples'' (with_bounds (\<lambda>b. b\<lparr>min_samples := MAX_SAMPLES + 1\<rparr>))"

definition accepts_bounds_at_the_envelope :: bool where
  "accepts_bounds_at_the_envelope \<longleftrightarrow>
     accepted (with_bounds (\<lambda>b. b\<lparr>max_temperature_c := MAX_DECISION_TEMPERATURE_C,
       max_power_w := MAX_DECISION_POWER_W, max_errors := MAX_DECISION_ERRORS, min_fps_improvement := 0\<rparr>))"

definition rejects_counts_above_the_ceiling :: bool where
  "rejects_counts_above_the_ceiling \<longleftrightarrow>
     rejected_for ''warmup_samples'' (test_spec (- 1) 5 5 3) \<and>
     rejected_for ''baseline_samples'' (test_spec 2 (MAX_SAMPLES + 1) 5 3) \<and>
     rejected_for ''candidate_samples'' (test_spec 2 5 (- 1) 3)"

definition rejects_counts_below_the_minimum :: bool where
  "rejects_counts_below_the_minimum \<longleftrightarrow>
     rejected_for ''baseline_samples'' (test_spec 2 2 5 3) \<and>
     rejected_for ''candidate_samples'' (test_spec 2 5 2 3)"

definition rejects_a_value_above_the_bound :: bool where
  "rejects_a_value_above_the_bound \<longleftrightarrow>
     accepted (spec_for_value 2 5 5 3 MAX_MOCK_VALUE) \<and>
     rejected_for ''target value'' (spec_for_value 2 5 5 3 (MAX_MOCK_VALUE + 1)) \<and>
     rejected_for ''target value'' (spec_for_value 2 5 5 3 (- 1))"

definition rejects_a_lease_above_the_bound :: bool where
  "rejects_a_lease_above_the_bound \<longleftrightarrow>
     accepted (with_target (\<lambda>c. c\<lparr>lease_seconds := MAX_LEASE_SECONDS\<rparr>)) \<and>
     rejected_for ''lease_seconds'' (with_target (\<lambda>c. c\<lparr>lease_seconds := MAX_LEASE_SECONDS + 1\<rparr>)) \<and>
     rejected_for ''lease_seconds'' (with_target (\<lambda>c. c\<lparr>lease_seconds := - 1\<rparr>))"

definition rejects_an_empty_hypothesis :: bool where
  "rejects_an_empty_hypothesis \<longleftrightarrow>
     (let s = (test_spec 2 5 5 3)\<lparr>hypothesis := []\<rparr> in
      rejected_for ''hypothesis'' s \<and> rejected_for (''below the '' @ show_word MIN_HYPOTHESIS_CHARS) s)"

text \<open>The character U+E9 is the two bytes \<open>C3 A9\<close>.\<close>

definition e_acute :: string where
  "e_acute = [char_of (195 :: nat), char_of (169 :: nat)]"

definition rejects_a_long_hypothesis :: bool where
  "rejects_a_long_hypothesis \<longleftrightarrow>
     (let ceiling = unat MAX_HYPOTHESIS_CHARS;
          full = (test_spec 2 5 5 3)\<lparr>hypothesis := concat (replicate ceiling e_acute)\<rparr>;
          above = (test_spec 2 5 5 3)\<lparr>hypothesis := concat (replicate (ceiling + 1) e_acute)\<rparr> in
      accepted full \<and> rejected_for ''hypothesis'' above \<and>
      rejected_for (show_nat (ceiling + 1) @ '' characters'') above)"

definition rejects_an_unadvertised_capability :: bool where
  "rejects_an_unadvertised_capability \<longleftrightarrow>
     runner_validate test_manifest (with_target (\<lambda>c. c\<lparr>capability_id := ''gpu.core-clock-offset''\<rparr>)) =
       Inl (RunControlPlane (UnknownCapability ''gpu.core-clock-offset''))"

definition rejects_an_unmodeled_capability :: bool where
  "rejects_an_unmodeled_capability \<longleftrightarrow>
     (let man = test_manifest\<lparr>capabilities := capabilities test_manifest @
            [(hd (capabilities test_manifest))\<lparr>cap_id := ''mock.other''\<rparr>]\<rparr> in
      runner_validate man (with_target (\<lambda>c. c\<lparr>capability_id := ''mock.other''\<rparr>)) =
        Inl (RunControlPlane (UnknownCapability ''mock.other'')) \<and>
      (case runner_validate man (test_spec 2 5 5 3) of Inr _ \<Rightarrow> True | Inl _ \<Rightarrow> False))"

definition rejects_a_target_without_a_value :: bool where
  "rejects_a_target_without_a_value \<longleftrightarrow>
     runner_validate test_manifest (with_target (\<lambda>c. c\<lparr>parameters := obj [(''value'', Str ''high'')]\<rparr>)) =
       Inl InvalidTarget"

definition rejects_unmodeled_parameters :: bool where
  "rejects_unmodeled_parameters \<longleftrightarrow>
     rejected_for ''pad'' (with_target (\<lambda>c. c\<lparr>parameters := obj [(''value'', num (40 :: u64)),
       (''pad'', Str (concat (replicate 4096 e_acute)))]\<rparr>)) \<and>
     runner_validate test_manifest (with_target (\<lambda>c. c\<lparr>parameters := Arr [obj [(''value'', num (40 :: u64))]]\<rparr>)) =
       Inl InvalidTarget"

subsection \<open>They pass\<close>

lemma floor_log2_dyadic:
  assumes "odd p" "x = of_int p / 2 ^ k" "2 ^ k \<le> p"
  shows "floor_log2 x = int (floorlog 2 (nat (p div 2 ^ k))) - 1"
proof -
  have "coprime p (2 ^ k)" using assms(1) by simp
  then have "quotient_of (Fract p (2 ^ k)) = (p, 2 ^ k)"
    by (simp add: quotient_of_Fract normalize_stable)
  moreover have "x = Fract p (2 ^ k)" by (simp add: assms(2) Fract_of_int_quotient)
  ultimately show ?thesis using assms(3) by (simp add: floor_log2_def)
qed

lemmas rounding = round_f64_def round_half_even_def Let_def power_int_def power_divide

lemma floor_dyadic: "\<lfloor>3246194611408653517 / 512 :: rat\<rfloor> = 6340223850407526" "\<lfloor>9010802134442888397 / 1024 :: rat\<rfloor> = 8799611459416883"
  by (simp_all add: floor_eq_iff)

lemma over_the_ceiling:
  "MAX_DECISION_TEMPERATURE_C + tenth = Fin (3170111925203763 / 35184372088832)"
  "MAX_DECISION_POWER_W + tenth = Fin (8799611459416883 / 35184372088832)"
proof -
  have "floor_log2 (90 + 3602879701896397/36028797018963968) = 6"
    by (subst floor_log2_dyadic [of 3246194611408653517 _ 55]) (simp_all add: compute_floorlog)
  then have "round_f64 (90 + 3602879701896397/36028797018963968) = Fin (3170111925203763 / 35184372088832)"
    by (simp add: rounding floor_dyadic)
  then show "MAX_DECISION_TEMPERATURE_C + tenth = Fin (3170111925203763 / 35184372088832)"
    unfolding MAX_DECISION_TEMPERATURE_C_def tenth_def plus_f64_def f64_add.simps .
  have "floor_log2 (250 + 3602879701896397/36028797018963968) = 7"
    by (subst floor_log2_dyadic [of 9010802134442888397 _ 55]) (simp_all add: compute_floorlog)
  then have "round_f64 (250 + 3602879701896397/36028797018963968) = Fin (8799611459416883 / 35184372088832)"
    by (simp add: rounding floor_dyadic)
  then show "MAX_DECISION_POWER_W + tenth = Fin (8799611459416883 / 35184372088832)"
    unfolding MAX_DECISION_POWER_W_def tenth_def plus_f64_def f64_add.simps .
qed

lemma accepted_iff:
  "capability_id (target s) = ''mock.value'' \<Longrightarrow> accepted s \<longleftrightarrow>
     (\<exists>v. bounds_in_envelope (bounds s) \<and>
     1 \<le> char_count (hypothesis s) \<and> char_count (hypothesis s) \<le> 4096 \<and>
     warmup_samples s \<le> 10000 \<and> baseline_samples s \<le> 10000 \<and> candidate_samples s \<le> 10000 \<and>
     min_samples (bounds s) \<le> baseline_samples s \<and> min_samples (bounds s) \<le> candidate_samples s \<and>
     (\<exists>m. parameters (target s) = Obj m \<and> fset (fmdom m) \<subseteq> {''value''}) \<and>
     get_u64 ''value'' (parameters (target s)) = Some v \<and> v \<le> 100 \<and> lease_seconds (target s) \<le> 300)"
  using validate_spec_gate [of s]
  by (cases "validate_spec s") (auto simp: accepted_def runner_validate_def test_manifest_def)

lemmas specs = test_spec_def spec_for_value_def with_bounds_def with_target_def
lemmas limits = MAX_DECISION_TEMPERATURE_C_def MAX_DECISION_POWER_W_def MAX_DECISION_ERRORS_def MAX_SAMPLES_def
  MAX_MOCK_VALUE_def MAX_LEASE_SECONDS_def MAX_HYPOTHESIS_CHARS_def MIN_HYPOTHESIS_CHARS_def

lemma short_hypothesis: "char_count ''raise mock.value'' = 16"
  by code_simp

lemma char_count_e_acute: "char_count (concat (replicate n e_acute)) = n"
  by (induction n) (simp_all add: char_count_def e_acute_def is_continuation_def byte_of_def)

lemma char_count_one_more: "char_count (e_acute @ s) = Suc (char_count s)"
  by (simp add: char_count_def e_acute_def is_continuation_def byte_of_def)

lemma value_only: "\<exists>m. obj [(''value'', x)] = Obj m \<and> fset (fmdom m) \<subseteq> {''value''}"
  by (simp add: obj_def)

lemmas in_envelope = accepted_iff specs limits bounds_in_envelope_def value_only short_hypothesis f64_is_finite_def
  zero_f64_def

lemma accepting_tests:
  "accepts_a_spec_inside_the_envelope" "accepts_bounds_at_the_envelope"
proof -
  show accepts_a_spec_inside_the_envelope
    by (simp add: accepts_a_spec_inside_the_envelope_def in_envelope runner_validate_def test_manifest_def
        validate_spec_gate)
  show accepts_bounds_at_the_envelope
    by (simp add: accepts_bounds_at_the_envelope_def in_envelope)
qed

lemmas rejecting = rejected_for_def rejection_def mentions_def runner_validate_def test_manifest_def specs
  validate_spec_def validate_bounds_def check_ceiling_def spec_error_def MODELED_CAPABILITY_ID_def
  f64_is_finite_def zero_f64_def

lemma bounds_test: "rejects_looser_bounds"
  by (simp add: rejects_looser_bounds_def rejecting limits over_the_ceiling [unfolded limits])

lemmas counting = rejecting limits short_hypothesis validate_counts_def
  spec_candidate_value_def

lemma count_tests:
  "rejects_counts_above_the_ceiling" "rejects_counts_below_the_minimum"
  by (simp_all add: rejects_counts_above_the_ceiling_def rejects_counts_below_the_minimum_def counting)

lemma value_parameters [simp]: "validate_parameters (obj [(''value'', x)]) = Inr ()"
  using value_only [of x] by (simp add: validate_parameters_iff)

lemma target_tests:
  "rejects_a_value_above_the_bound" "rejects_a_lease_above_the_bound"
  by (simp_all add: rejects_a_value_above_the_bound_def rejects_a_lease_above_the_bound_def in_envelope counting)

lemma hypothesis_tests:
  "rejects_an_empty_hypothesis" "rejects_a_long_hypothesis"
proof -
  have one: "show_nat 0 = ''0''" "show_nat (Suc 0) = ''1''" by code_simp+
  show rejects_an_empty_hypothesis
    by (simp add: rejects_an_empty_hypothesis_def Let_def counting char_count_def one sublist_Cons_right)
  have "show_nat 4097 = ''4097''"
    by (simp add: show_nat.simps [of 4097] show_nat.simps [of 409] show_nat.simps [of 40] show_nat.simps [of 4]
        digit_def char_of_def bit_Suc_0_iff)
  then show rejects_a_long_hypothesis
    by (simp add: rejects_a_long_hypothesis_def Let_def in_envelope counting char_count_e_acute char_count_one_more
        sublist_Cons_right)
qed

lemma advertised_tests:
  "rejects_an_unadvertised_capability" "rejects_an_unmodeled_capability"
proof -
  show rejects_an_unadvertised_capability
    by (simp add: rejects_an_unadvertised_capability_def runner_validate_def test_manifest_def specs)
  show rejects_an_unmodeled_capability
    by (simp add: rejects_an_unmodeled_capability_def Let_def counting)
qed

lemma parameter_tests:
  "rejects_a_target_without_a_value" "rejects_unmodeled_parameters"
proof -
  show rejects_a_target_without_a_value
    by (simp add: rejects_a_target_without_a_value_def counting)
  have "validate_parameters (obj [(''value'', x), (''pad'', y)]) = Inl (InvalidSpec [Text ''target parameter '',
      Quoted ''pad'', Text (CHR '' '' # ''is not one '' @ MODELED_CAPABILITY_ID @ '' takes'')])" for x y
    by (simp add: validate_parameters_def obj_def as_object_def MODELED_PARAMETERS_def sorted_list_of_fset.rep_eq)
  moreover have "validate_parameters (Arr xs) = Inl InvalidTarget" for xs
    by (simp add: validate_parameters_def as_object_def)
  ultimately show rejects_unmodeled_parameters
    by (simp add: rejects_unmodeled_parameters_def counting)
qed

end
