(* ===== verification/Process_Tests.thy ===== *)
theory Process_Tests
  imports Startup Poller
begin

section \<open>The tests of the processes (\<open>apps/broker/src/main.rs\<close>, \<open>crates/ipc/src/transport.rs\<close>, \<open>apps/watchdog/src/main.rs\<close>)\<close>

text \<open>
  As in \<open>Contract_Tests\<close>.  A temporary directory is the directory \<open>/b\<close> of a file system that holds
  what the test created; where a test records which variables were asked for, the definition says
  that no other variable makes a difference.
\<close>

subsection \<open>The command line\<close>

definition run_options :: "string list \<Rightarrow> options option" where
  "run_options args = (case parse_args args of Inr (Run opts) \<Rightarrow> Some opts | _ \<Rightarrow> None)"

definition missing_value :: "string list \<Rightarrow> bool" where
  "missing_value args \<longleftrightarrow> (case parse_args args of Inl (MissingValue _) \<Rightarrow> True | _ \<Rightarrow> False)"

definition unrecognized :: "string list \<Rightarrow> bool" where
  "unrecognized args \<longleftrightarrow> (case parse_args args of Inl (Unrecognized _) \<Rightarrow> True | _ \<Rightarrow> False)"

definition repeated :: "string list \<Rightarrow> bool" where
  "repeated args \<longleftrightarrow> (case parse_args args of Inl (Repeated _) \<Rightarrow> True | _ \<Rightarrow> False)"

definition not_unicode :: "string list \<Rightarrow> bool" where
  "not_unicode args \<longleftrightarrow> (case parse_args args of Inl (NotUnicode _) \<Rightarrow> True | _ \<Rightarrow> False)"

definition test_both_flag_forms_are_accepted :: bool where
  "test_both_flag_forms_are_accepted \<longleftrightarrow>
     run_options [''--socket'', ''/run/b.sock'', ''--journal=/var/j.sqlite''] =
       Some \<lparr>opt_socket = Some ''/run/b.sock'', opt_journal = Some ''/var/j.sqlite''\<rparr> \<and>
     run_options [] = Some no_options"

definition test_a_flag_shaped_value_needs_the_inline_form :: bool where
  "test_a_flag_shaped_value_needs_the_inline_form \<longleftrightarrow>
     missing_value [''--socket'', ''--journal'', ''/var/j.sqlite''] \<and>
     map_option opt_socket (run_options [''--socket=--journal'']) = Some (Some ''--journal'')"

definition test_a_mistyped_command_line_is_fatal :: bool where
  "test_a_mistyped_command_line_is_fatal \<longleftrightarrow>
     missing_value [''--socket''] \<and> missing_value [''--socket=''] \<and>
     unrecognized [''--sockett'', ''/run/b.sock''] \<and> unrecognized [''/run/b.sock''] \<and>
     repeated [''--socket'', ''/a'', ''--socket'', ''/b'']"

definition invalid_argument :: string where
  "invalid_argument = [CHR ''/'', CHR 0xFF, CHR ''x'']"

definition test_a_non_utf8_argument_is_a_typed_error :: bool where
  "test_a_non_utf8_argument_is_a_typed_error \<longleftrightarrow>
     not_unicode [invalid_argument] \<and> not_unicode [''--socket'', invalid_argument]"

definition test_help_only_in_flag_position :: bool where
  "test_help_only_in_flag_position \<longleftrightarrow>
     list_all (\<lambda>flag. parse_args [flag] = Inr Help \<and>
         parse_args [''--journal'', ''/var/j.sqlite'', flag] = Inr Help \<and>
         missing_value [''--socket'', flag]) HELP_FLAGS"

lemmas parsing = run_options_def missing_value_def unrecognized_def repeated_def not_unicode_def
  parse_args_def HELP_FLAGS_def FLAGS_def split_once_def slot_def set_slot_def no_options_def
  looks_like_flag_def utf8_head_def byte_at_def byte_of_def in_range_def second_byte_ok_def Let_def

lemma argument_tests:
  "test_both_flag_forms_are_accepted" "test_a_flag_shaped_value_needs_the_inline_form"
  "test_a_mistyped_command_line_is_fatal" "test_a_non_utf8_argument_is_a_typed_error"
  "test_help_only_in_flag_position"
proof -
  show test_both_flag_forms_are_accepted
    by (simp add: test_both_flag_forms_are_accepted_def parsing)
  show test_a_flag_shaped_value_needs_the_inline_form
    by (simp add: test_a_flag_shaped_value_needs_the_inline_form_def parsing)
  show test_a_mistyped_command_line_is_fatal
    by (simp add: test_a_mistyped_command_line_is_fatal_def parsing)
  show test_a_non_utf8_argument_is_a_typed_error
    by (simp add: test_a_non_utf8_argument_is_a_typed_error_def invalid_argument_def parsing)
  show test_help_only_in_flag_position
    by (simp add: test_help_only_in_flag_position_def parsing)
qed

subsection \<open>The runtime directory\<close>

definition SESSION_UID :: u32 where
  "SESSION_UID = 1000"

definition test_an_unusable_runtime_directory_falls_back :: bool where
  "test_an_unusable_runtime_directory_falls_back \<longleftrightarrow>
     (let fallback = path_of FALLBACK_RUNTIME_BASE in
      fst (runtime_base None SESSION_UID) = fallback \<and> fst (runtime_base (Some []) SESSION_UID) = fallback \<and>
      fst (runtime_base (Some ''run/user/1000'') SESSION_UID) = fallback \<and>
      fst (runtime_base (Some ''/run/user/1000'') SESSION_UID) = path_of ''/run/user/1000'')"

definition test_root_ignores_the_runtime_directory :: bool where
  "test_root_ignores_the_runtime_directory \<longleftrightarrow>
     fst (runtime_base (Some ''/tmp/attacker-owned'') ROOT_UID) = path_of FALLBACK_RUNTIME_BASE"

lemma runtime_tests:
  "test_an_unusable_runtime_directory_falls_back" "test_root_ignores_the_runtime_directory"
  by (simp_all add: test_an_unusable_runtime_directory_falls_back_def Let_def SESSION_UID_def
      test_root_ignores_the_runtime_directory_def runtime_base_def write_path_def path_of_def ROOT_UID_def)

subsection \<open>A temporary directory\<close>

definition entry_of :: "entry_kind \<Rightarrow> u32 \<Rightarrow> u64 \<Rightarrow> meta" where
  "entry_of k mode i = \<lparr>m_kind = k, m_uid = 1000, m_mode = mode, m_dev = 1, m_ino = i\<rparr>"

abbreviation at_root :: "string list \<Rightarrow> path" where
  "at_root cs \<equiv> Path True cs"

text \<open>The root, and what the test made; the base directory \<open>/b\<close> has the mode given.\<close>

definition world :: "u32 \<Rightarrow> (path \<times> meta) list \<Rightarrow> files" where
  "world mode es =
     \<lparr>f_entry = map_of ((at_root [], \<lparr>m_kind = Directory, m_uid = 0, m_mode = 493, m_dev = 1, m_ino = 1001\<rparr>) #
        (at_root [''b''], entry_of Directory mode 1002) # es), f_locks = [], f_calls = 0\<rparr>"

abbreviation resolve_in ::
  "options \<Rightarrow> path \<Rightarrow> (string \<Rightarrow> string option) \<Rightarrow> files \<Rightarrow> (io_error, paths) result \<times> files" where
  "resolve_in opts base env F \<equiv> resolve_paths_from plain_kernel opts 1000 (base, False) env F"

definition denied :: "(io_error, 'a) result \<Rightarrow> bool" where
  "denied r \<longleftrightarrow> (case r of Inl e \<Rightarrow> io_kind e = PermissionDenied | Inr _ \<Rightarrow> False)"

definition mode_of :: "files \<Rightarrow> path \<Rightarrow> u32 option" where
  "mode_of F p = map_option (\<lambda>m. m_mode m AND PERMISSION_BITS) (f_entry F p)"

definition is_dir :: "files \<Rightarrow> path \<Rightarrow> bool" where
  "is_dir F p \<longleftrightarrow> (case f_entry F p of Some m \<Rightarrow> m_kind m = Directory | None \<Rightarrow> False)"

definition chmod :: "path \<Rightarrow> u32 \<Rightarrow> files \<Rightarrow> files" where
  "chmod p mode F = snd (set_permissions plain_kernel p mode F)"

lemmas locating = resolve_paths_from_def private_directory_in_def vet_resolved_path_def vet_directory_def
  vet_ancestors_def ancestors_def lstat_def syscall_defs system_call_def plain_kernel_def parent_def Let_def
  or_env_def join_def has_directory_def target_def follow_unfold new_meta_def entry_of_def world_def
  PRIVATE_DIR_NAME_def DEFAULT_SOCKET_NAME_def DEFAULT_JOURNAL_NAME_def LOCK_FILE_NAME_def
  PRIVATE_DIR_MODE_def PERMISSION_BITS_def ROOT_UID_def denied_def mode_of_def is_dir_def no_options_def
  OTHER_ACCESS_BITS_def OTHER_WRITE_BITS_def STICKY_BIT_def not_inside_def
  not_found_def file_exists_def

definition gateway_lookup :: "string \<Rightarrow> string option" where
  "gateway_lookup name = Some (''/b/'' @ name)"

definition test_the_journal_never_comes_from_the_gateway_environment :: bool where
  "test_the_journal_never_comes_from_the_gateway_environment \<longleftrightarrow>
     (case fst (resolve_in no_options (at_root [''b'']) gateway_lookup (world 448 [])) of
        Inl _ \<Rightarrow> False
      | Inr P \<Rightarrow> socket_at P = at_root [''b'', SOCKET_ENV] \<and> journal_at P = at_root [''b'', JOURNAL_ENV]) \<and>
     JOURNAL_ENV = ''FPSMAXXING_BROKER_JOURNAL_PATH'' \<and>
     (\<forall>env opts base F. env SOCKET_ENV = gateway_lookup SOCKET_ENV \<and> env JOURNAL_ENV = gateway_lookup JOURNAL_ENV \<longrightarrow>
        resolve_in opts base env F = resolve_in opts base gateway_lookup F)"

definition both_options :: "string \<Rightarrow> string \<Rightarrow> options" where
  "both_options s j = \<lparr>opt_socket = Some s, opt_journal = Some j\<rparr>"

definition test_explicit_flags_win :: bool where
  "test_explicit_flags_win \<longleftrightarrow>
     (case fst (resolve_in (both_options ''/b/b.sock'' ''/b/j.sqlite'') (at_root [''b'']) gateway_lookup (world 448 [])) of
        Inl _ \<Rightarrow> False
      | Inr P \<Rightarrow> socket_at P = at_root [''b'', ''b.sock''] \<and> journal_at P = at_root [''b'', ''j.sqlite'']) \<and>
     (\<forall>env s j base F. resolve_in (both_options s j) base env F = resolve_in (both_options s j) base (\<lambda>_. None) F)"

definition journal_option :: "string \<Rightarrow> options" where
  "journal_option j = \<lparr>opt_socket = None, opt_journal = Some j\<rparr>"

definition test_the_instance_lock_stays_in_the_private_directory :: bool where
  "test_the_instance_lock_stays_in_the_private_directory \<longleftrightarrow>
     (case resolve_in (journal_option ''/b/a.sqlite'') (at_root [''b'']) (\<lambda>_. None) (world 448 []) of
        (Inl _, _) \<Rightarrow> False
      | (Inr P, F) \<Rightarrow>
     (case resolve_in (journal_option ''/b/b.sqlite'') (at_root [''b'']) (\<lambda>_. None) F of
        (Inl _, _) \<Rightarrow> False
      | (Inr Q, G) \<Rightarrow>
          list_all (\<lambda>P. socket_at P = at_root [''b'', ''fpsmaxxing'', ''broker.sock''] \<and>
            lock_at P = at_root [''b'', ''fpsmaxxing'', ''broker.lock'']) [P, Q] \<and>
          (case lock_single_instance plain_kernel (lock_at P) G of
             (Inl _, _) \<Rightarrow> False
           | (Inr _, H) \<Rightarrow>
               (case fst (lock_single_instance plain_kernel (lock_at Q) H) of
                  Inl e \<Rightarrow> io_kind e = AddrInUse | Inr _ \<Rightarrow> False))))"

definition test_the_private_directory_is_always_established :: bool where
  "test_the_private_directory_is_always_established \<longleftrightarrow>
     (case resolve_in (both_options ''/b/b.sock'' ''/b/j.sqlite'') (at_root [''b'']) (\<lambda>_. None) (world 448 []) of
        (Inl _, _) \<Rightarrow> False
      | (Inr P, F) \<Rightarrow> lock_at P = at_root [''b'', ''fpsmaxxing'', ''broker.lock''] \<and>
          is_dir F (at_root [''b'', ''fpsmaxxing'']) \<and> mode_of F (at_root [''b'', ''fpsmaxxing'']) = Some PRIVATE_DIR_MODE)"

definition socket_lookup :: "string \<Rightarrow> string \<Rightarrow> string option" where
  "socket_lookup v name = (if name = SOCKET_ENV then Some v else None)"

definition test_a_relative_path_from_the_environment_is_refused :: bool where
  "test_a_relative_path_from_the_environment_is_refused \<longleftrightarrow>
     denied (fst (resolve_in (journal_option ''/b/j.sqlite'') (at_root [''b'']) (socket_lookup ''broker.sock'') (world 448 [])))"

definition test_a_writable_parent_is_refused :: bool where
  "test_a_writable_parent_is_refused \<longleftrightarrow>
     (let reachable = at_root [''b'', ''reachable''];
          run = (\<lambda>F. resolve_in (journal_option ''/b/j.sqlite'') (at_root [''b'']) (socket_lookup ''/b/reachable/broker.sock'') F) in
      (case run (world 448 [(reachable, entry_of Directory 511 1003)]) of
         (r, F) \<Rightarrow> denied r \<and>
           (case fst (run (chmod reachable PRIVATE_DIR_MODE F)) of
              Inl _ \<Rightarrow> False | Inr P \<Rightarrow> socket_at P = at_root [''b'', ''reachable'', ''broker.sock''])))"

text \<open>
  Both tests of a directory that may not hold the files: it is refused for either file, and an
  owner-only directory inside it is not.
\<close>

definition may_not_hold_the_files :: "u32 \<Rightarrow> string \<Rightarrow> bool" where
  "may_not_hold_the_files mode name \<longleftrightarrow>
     (let d = ''/b/'' @ name;
          F = world 448 [(at_root [''b'', name], entry_of Directory mode 1003)];
          G = world 448 [(at_root [''b'', name], entry_of Directory mode 1003),
            (at_root [''b'', name, ''fpsmaxxing''], entry_of Directory 448 1004)] in
      denied (fst (resolve_in (both_options (d @ ''/broker.sock'') ''/b/j.sqlite'') (at_root [''b'']) (\<lambda>_. None) F)) \<and>
      denied (fst (resolve_in (both_options ''/b/b.sock'' (d @ ''/j.sqlite'')) (at_root [''b'']) (\<lambda>_. None) F)) \<and>
      (case fst (resolve_in (both_options (d @ ''/fpsmaxxing/broker.sock'') (d @ ''/fpsmaxxing/j.sqlite''))
               (at_root [''b'', name]) (\<lambda>_. None) G) of
         Inl _ \<Rightarrow> False
       | Inr P \<Rightarrow> socket_at P = at_root [''b'', name, ''fpsmaxxing'', ''broker.sock''] \<and>
           journal_at P = at_root [''b'', name, ''fpsmaxxing'', ''j.sqlite'']))"

definition test_a_sticky_directory_may_not_hold_the_files :: bool where
  "test_a_sticky_directory_may_not_hold_the_files \<longleftrightarrow> may_not_hold_the_files 1023 ''shared''"

definition test_a_traversable_directory_may_not_hold_the_files :: bool where
  "test_a_traversable_directory_may_not_hold_the_files \<longleftrightarrow> may_not_hold_the_files 493 ''run''"

definition test_a_flag_path_is_vetted :: bool where
  "test_a_flag_path_is_vetted \<longleftrightarrow>
     denied (fst (resolve_in (both_options ''broker.sock'' ''/b/j.sqlite'') (at_root [''b'']) (\<lambda>_. None) (world 448 [])))"

lemma only_two_variables:
  "env SOCKET_ENV = env' SOCKET_ENV \<Longrightarrow> env JOURNAL_ENV = env' JOURNAL_ENV \<Longrightarrow>
   resolve_paths_from K opts uid base env F = resolve_paths_from K opts uid base env' F"
  by (simp add: resolve_paths_from_def or_env_def cong: option.case_cong)

lemma given_options_decide:
  "resolve_paths_from K (both_options s j) uid base env F = resolve_paths_from K (both_options s j) uid base env' F"
  by (simp add: resolve_paths_from_def or_env_def both_options_def)

lemma environment_tests:
  "test_the_journal_never_comes_from_the_gateway_environment" "test_explicit_flags_win"
proof -
  have "path_of (''/b/'' @ SOCKET_ENV) = at_root [''b'', SOCKET_ENV]"
    "path_of (''/b/'' @ JOURNAL_ENV) = at_root [''b'', JOURNAL_ENV]"
    by (simp_all add: path_of_def SOCKET_ENV_def JOURNAL_ENV_def)
  then have "case fst (resolve_in no_options (at_root [''b'']) gateway_lookup (world 448 [])) of
        Inl _ \<Rightarrow> False
      | Inr P \<Rightarrow> socket_at P = at_root [''b'', SOCKET_ENV] \<and> journal_at P = at_root [''b'', JOURNAL_ENV]"
    by (simp add: locating gateway_lookup_def)
  then show test_the_journal_never_comes_from_the_gateway_environment
    unfolding test_the_journal_never_comes_from_the_gateway_environment_def
    by (intro conjI allI impI only_two_variables) (simp_all add: JOURNAL_ENV_def)
  have "case fst (resolve_in (both_options ''/b/b.sock'' ''/b/j.sqlite'') (at_root [''b'']) gateway_lookup (world 448 [])) of
        Inl _ \<Rightarrow> False
      | Inr P \<Rightarrow> socket_at P = at_root [''b'', ''b.sock''] \<and> journal_at P = at_root [''b'', ''j.sqlite'']"
    by (simp add: locating both_options_def path_of_def)
  then show test_explicit_flags_win
    unfolding test_explicit_flags_win_def by (intro conjI allI given_options_decide)
qed

lemma refused_path_tests:
  "test_a_relative_path_from_the_environment_is_refused" "test_a_flag_path_is_vetted"
  "test_the_private_directory_is_always_established"
proof -
  show test_a_relative_path_from_the_environment_is_refused
    by (simp add: test_a_relative_path_from_the_environment_is_refused_def locating journal_option_def
        socket_lookup_def path_of_def)
  show test_a_flag_path_is_vetted
    by (simp add: test_a_flag_path_is_vetted_def locating both_options_def path_of_def)
  show test_the_private_directory_is_always_established
    by (simp add: test_the_private_directory_is_always_established_def locating both_options_def path_of_def)
qed

lemma directory_tests:
  "test_a_sticky_directory_may_not_hold_the_files" "test_a_traversable_directory_may_not_hold_the_files"
  "test_a_writable_parent_is_refused"
proof -
  show test_a_sticky_directory_may_not_hold_the_files
    by (simp add: test_a_sticky_directory_may_not_hold_the_files_def may_not_hold_the_files_def locating
        both_options_def path_of_def)
  show test_a_traversable_directory_may_not_hold_the_files
    by (simp add: test_a_traversable_directory_may_not_hold_the_files_def may_not_hold_the_files_def locating
        both_options_def path_of_def)
  show test_a_writable_parent_is_refused
    by (simp add: test_a_writable_parent_is_refused_def locating journal_option_def socket_lookup_def
        chmod_def path_of_def SOCKET_ENV_def JOURNAL_ENV_def)
qed

lemma instance_lock_test: "test_the_instance_lock_stays_in_the_private_directory"
  by (simp add: test_the_instance_lock_stays_in_the_private_directory_def locating journal_option_def
      path_of_def lock_single_instance_def create_owner_only_def restrict_to_owner_def JOURNAL_FILE_MODE_def)

subsection \<open>The journal and the lock\<close>

definition test_the_journal_is_owner_only :: bool where
  "test_the_journal_is_owner_only \<longleftrightarrow>
     (case restrict_journal plain_kernel (at_root [''b'', ''journal.sqlite'']) (world 493 []) of (r, F) \<Rightarrow>
        is_ok r \<and> mode_of F (at_root [''b'', ''journal.sqlite'']) = Some JOURNAL_FILE_MODE)"

definition test_existing_files_are_restricted :: bool where
  "test_existing_files_are_restricted \<longleftrightarrow>
     (let j = at_root [''b'', ''journal.sqlite'']; side = at_root [''b'', ''journal.sqlite-wal''] in
      case restrict_journal plain_kernel j
             (world 493 [(j, entry_of RegularFile 420 1003), (side, entry_of RegularFile 420 1004)]) of (r, F) \<Rightarrow>
        is_ok r \<and> mode_of F j = Some JOURNAL_FILE_MODE \<and> mode_of F side = Some JOURNAL_FILE_MODE)"

definition test_a_second_broker_cannot_take_the_lock :: bool where
  "test_a_second_broker_cannot_take_the_lock \<longleftrightarrow>
     (let lock = at_root [''b'', LOCK_FILE_NAME] in
      case lock_single_instance plain_kernel lock (world 493 []) of
        (Inl _, _) \<Rightarrow> False
      | (Inr held, F) \<Rightarrow>
          (case lock_single_instance plain_kernel lock F of
             (Inr _, _) \<Rightarrow> False
           | (Inl e, G) \<Rightarrow> io_kind e = AddrInUse \<and> f_entry G (at_root [''b'', ''journal.sqlite'']) = None \<and>
               is_ok (fst (lock_single_instance plain_kernel lock (unlock held G)))))"

definition test_the_instance_lock_is_owner_only :: bool where
  "test_the_instance_lock_is_owner_only \<longleftrightarrow>
     (case lock_single_instance plain_kernel (at_root [''b'', LOCK_FILE_NAME]) (world 493 []) of (r, F) \<Rightarrow>
        is_ok r \<and> mode_of F (at_root [''b'', LOCK_FILE_NAME]) = Some JOURNAL_FILE_MODE)"

lemmas owning = lock_single_instance_def restrict_journal_def create_owner_only_def restrict_to_owner_def
  JOURNAL_FILE_MODE_def JOURNAL_SIDE_SUFFIXES_def with_suffix_def unlock_def

lemma owner_only_tests:
  "test_the_journal_is_owner_only" "test_existing_files_are_restricted"
  "test_a_second_broker_cannot_take_the_lock" "test_the_instance_lock_is_owner_only"
proof -
  show test_the_journal_is_owner_only
    by (simp add: test_the_journal_is_owner_only_def locating owning)
  show test_existing_files_are_restricted
    by (simp add: test_existing_files_are_restricted_def locating owning)
  show test_a_second_broker_cannot_take_the_lock
    by (simp add: test_a_second_broker_cannot_take_the_lock_def locating owning)
  show test_the_instance_lock_is_owner_only
    by (simp add: test_the_instance_lock_is_owner_only_def locating owning)
qed

subsection \<open>The private directory\<close>

abbreviation private_in :: "u32 \<Rightarrow> path \<Rightarrow> files \<Rightarrow> (io_error, path) result \<times> files" where
  "private_in uid base F \<equiv> private_directory_in plain_kernel uid (base, False) F"

definition test_a_base_under_a_writable_ancestor_is_refused :: bool where
  "test_a_base_under_a_writable_ancestor_is_refused \<longleftrightarrow>
     (let outer = at_root [''b'']; base = at_root [''b'', ''base''];
          F = world 511 [(base, entry_of Directory 448 1003)] in
      case private_in 1000 base F of (r, G) \<Rightarrow>
        denied r \<and> f_entry G (at_root [''b'', ''base'', ''fpsmaxxing'']) = None \<and>
        (case private_in 1000 base (chmod outer 493 G) of (r1, H) \<Rightarrow>
           is_ok r1 \<and> is_ok (fst (private_in 1000 base (chmod outer 1023 H)))))"

definition test_a_symlinked_base_is_refused :: bool where
  "test_a_symlinked_base_is_refused \<longleftrightarrow>
     denied (fst (private_in 1000 (at_root [''b'', ''base''])
       (world 448 [(at_root [''b'', ''target''], entry_of Directory 448 1003),
          (at_root [''b'', ''base''], entry_of (Symlink (at_root [''b'', ''target''])) 511 1004)])))"

definition test_a_missing_private_directory_is_created :: bool where
  "test_a_missing_private_directory_is_created \<longleftrightarrow>
     (case private_in 1000 (at_root [''b'']) (world 448 []) of (r, F) \<Rightarrow>
        r = Inr (at_root [''b'', ''fpsmaxxing'']) \<and> is_dir F (at_root [''b'', ''fpsmaxxing'']) \<and>
        mode_of F (at_root [''b'', ''fpsmaxxing'']) = Some PRIVATE_DIR_MODE)"

definition test_an_existing_private_directory_is_reused :: bool where
  "test_an_existing_private_directory_is_reused \<longleftrightarrow>
     fst (private_in 1000 (at_root [''b'']) (world 448 [(at_root [''b'', ''fpsmaxxing''], entry_of Directory 448 1003)])) =
       Inr (at_root [''b'', ''fpsmaxxing''])"

definition test_a_reachable_or_foreign_private_directory_is_refused :: bool where
  "test_a_reachable_or_foreign_private_directory_is_refused \<longleftrightarrow>
     (case private_in 1000 (at_root [''b'']) (world 448 [(at_root [''b'', ''fpsmaxxing''], entry_of Directory 493 1003)]) of
        (r, F) \<Rightarrow> denied r \<and>
          denied (fst (private_in 1001 (at_root [''b'']) (chmod (at_root [''b'', ''fpsmaxxing'']) 448 F))))"

definition test_a_symlinked_private_directory_is_refused :: bool where
  "test_a_symlinked_private_directory_is_refused \<longleftrightarrow>
     denied (fst (private_in 1000 (at_root [''b''])
       (world 448 [(at_root [''b'', ''elsewhere''], entry_of Directory 448 1003),
          (at_root [''b'', ''fpsmaxxing''], entry_of (Symlink (at_root [''b'', ''elsewhere''])) 511 1004)])))"

lemma private_directory_tests:
  "test_a_base_under_a_writable_ancestor_is_refused" "test_a_symlinked_base_is_refused"
  "test_a_missing_private_directory_is_created" "test_an_existing_private_directory_is_reused"
  "test_a_reachable_or_foreign_private_directory_is_refused" "test_a_symlinked_private_directory_is_refused"
proof -
  show test_a_base_under_a_writable_ancestor_is_refused
    by (simp add: test_a_base_under_a_writable_ancestor_is_refused_def locating chmod_def)
  show test_a_symlinked_base_is_refused
    by (simp add: test_a_symlinked_base_is_refused_def locating)
  show test_a_missing_private_directory_is_created
    by (simp add: test_a_missing_private_directory_is_created_def locating)
  show test_an_existing_private_directory_is_reused
    by (simp add: test_an_existing_private_directory_is_reused_def locating)
  show test_a_reachable_or_foreign_private_directory_is_refused
    by (simp add: test_a_reachable_or_foreign_private_directory_is_refused_def locating chmod_def)
  show test_a_symlinked_private_directory_is_refused
    by (simp add: test_a_symlinked_private_directory_is_refused_def locating)
qed

subsection \<open>The socket transport\<close>

definition test_bind_replaces_a_stale_socket :: bool where
  "test_bind_replaces_a_stale_socket \<longleftrightarrow>
     is_ok (fst (bind_transport plain_kernel (at_root [''b'', ''broker.sock''])
       (world 493 [(at_root [''b'', ''broker.sock''], entry_of SocketFile 493 1003)])))"

definition test_a_bind_failure_names_the_socket_path :: bool where
  "test_a_bind_failure_names_the_socket_path \<longleftrightarrow>
     (let p = at_root [''b'', ''absent'', ''broker.sock''] in
      case fst (bind_transport plain_kernel p (world 493 [])) of
        Inl e \<Rightarrow> sublist (show_path p) (io_text e) | Inr _ \<Rightarrow> False)"

definition test_drop_spares_a_successor :: bool where
  "test_drop_spares_a_successor \<longleftrightarrow>
     (let p = at_root [''b'', ''broker.sock''] in
      case bind_transport plain_kernel p (world 493 []) of
        (Inl _, _) \<Rightarrow> False
      | (Inr t, F) \<Rightarrow>
     (case remove_file plain_kernel p F of (r, G) \<Rightarrow> is_ok r \<and>
     (case bind_socket plain_kernel p G of (s, H) \<Rightarrow> is_ok s \<and>
        f_entry (drop_transport plain_kernel t H) p \<noteq> None)))"

definition test_bind_refuses_a_non_socket :: bool where
  "test_bind_refuses_a_non_socket \<longleftrightarrow>
     list_all (\<lambda>(name, k).
        case bind_transport plain_kernel (at_root [''b'', name]) (world 493 [(at_root [''b'', name], entry_of k 420 1003)]) of
          (Inl e, F) \<Rightarrow> io_kind e = AlreadyExists \<and> f_entry F (at_root [''b'', name]) \<noteq> None
        | (Inr _, _) \<Rightarrow> False)
       [(''regular-file'', RegularFile), (''directory'', Directory), (''symlink'', Symlink (at_root [''dev'', ''null'']))]"

lemmas binding = bind_transport_def clear_stale_def socket_identity_def drop_transport_def

lemma transport_tests:
  "test_bind_replaces_a_stale_socket" "test_a_bind_failure_names_the_socket_path"
  "test_drop_spares_a_successor" "test_bind_refuses_a_non_socket"
proof -
  show test_bind_replaces_a_stale_socket
    by (simp add: test_bind_replaces_a_stale_socket_def locating binding)
  have "sublist (show_path p) (io_text (named p a e))" for p a e
    by (auto simp: named_def io_error_new_def sublist_def intro: exI [of _ "[]"])
  then show test_a_bind_failure_names_the_socket_path
    by (simp add: test_a_bind_failure_names_the_socket_path_def locating binding)
  show test_drop_spares_a_successor
    by (simp add: test_drop_spares_a_successor_def locating binding)
  show test_bind_refuses_a_non_socket
    by (simp add: test_bind_refuses_a_non_socket_def locating binding)
qed

text \<open>The kernel reports, for a peer of the test's own process, the user the process runs as.\<close>

definition test_a_bound_socket_accepts_a_local_peer ::
  "(path \<Rightarrow> (io_error, 's) result) \<Rightarrow> ('s \<Rightarrow> (io_error, u32 \<times> int option) result) \<Rightarrow> bool" where
  "test_a_bound_socket_accepts_a_local_peer accepting credentials \<longleftrightarrow>
     (let p = at_root [''b'', ''broker.sock''] in
      case bind_transport plain_kernel p (world 493 []) of
        (Inl _, _) \<Rightarrow> False
      | (Inr t, _) \<Rightarrow> t_path t = p \<and>
          (case accept_peer (accepting (t_path t)) credentials of
             Inl _ \<Rightarrow> False | Inr (_, peer) \<Rightarrow> peer_uid peer = k_uid plain_kernel))"

lemma local_peer_test:
  assumes "\<And>p. \<exists>s. accepting p = Inr s \<and> (\<exists>pid. credentials s = Inr (k_uid plain_kernel, pid))"
  shows "test_a_bound_socket_accepts_a_local_peer accepting credentials"
proof -
  obtain s pid where
    "accepting (at_root [''b'', ''broker.sock'']) = Inr s" "credentials s = Inr (k_uid plain_kernel, pid)"
    using assms by blast
  then show ?thesis
    by (simp add: test_a_bound_socket_accepts_a_local_peer_def locating binding accept_peer_def)
qed

subsection \<open>The watchdog's command line\<close>

definition test_recover_all_forces_single_pass :: "string option \<Rightarrow> bool" where
  "test_recover_all_forces_single_pass env \<longleftrightarrow>
     (let cfg = config_from_args env [''--recover-all''] in once cfg \<and> config_policy cfg = AllUnclosed)"

definition test_poll_stays_expired_leases_only :: "string option \<Rightarrow> bool" where
  "test_poll_stays_expired_leases_only env \<longleftrightarrow>
     (let cfg = config_from_args env [] in \<not> once cfg \<and> config_policy cfg = ExpiredLeasesOnly)"

lemma watchdog_config_tests:
  "test_recover_all_forces_single_pass env" "test_poll_stays_expired_leases_only env"
  by (simp_all add: test_recover_all_forces_single_pass_def test_poll_stays_expired_leases_only_def
      config_from_args_def config_policy_def)

end
