(* ===== verification/Fault_Tests.thy ===== *)
theory Fault_Tests
  imports Poller
begin

section \<open>The watchdog's fault injection (\<open>apps/watchdog/tests/fault_injection.rs\<close>)\<close>

text \<open>
  The tests that drive the watchdog over the journals a crash leaves behind, on a host whose statements
  work.  Each is a definition that is true when its assertions hold of the model, and a lemma that it
  is.  The connection the tests read the journal with is the journal the watchdog holds; a test that
  panics is false.
\<close>

subsection \<open>Fixtures\<close>

record leaked_experiment =
  lk_experiment :: int
  lk_provider :: string
  lk_snapshot :: u64
  lk_request :: u64
  lk_lease :: u64
  lk_age :: int \<comment> \<open>seconds before now at which the intent was recorded\<close>

text \<open>The journal file that opening a control plane over the mock provider creates.\<close>

definition new_file :: "'t journal" where
  "new_file = \<lparr>jtable = False, jrows = [], jtrials = [], jclock = 0\<rparr>"

definition create_journal :: "'t host \<Rightarrow> 't journal option" where
  "create_journal H =
     (case open_plane H (mock_ops (os H)) \<lparr>mock_value = 0\<rparr> new_file of
        (Inl _, _) \<Rightarrow> None | (Inr _, j) \<Rightarrow> Some j)"

definition seed_row :: "'t host \<Rightarrow> int \<Rightarrow> int \<Rightarrow> string \<Rightarrow> string \<Rightarrow> json \<Rightarrow> 't journal \<Rightarrow> 't journal option" where
  "seed_row H e age st pid v j =
     (case statement H (append_rows
        [\<lparr>row_experiment = e, recorded_at = Some (now_ms H (jclock j) - 1000 * age), stage = st,
          row_provider = pid, payload = to_text H v\<rparr>] ()) j of
        (Inl _, _) \<Rightarrow> None | (Inr _, j') \<Rightarrow> Some j')"

definition seed_leaked :: "'t host \<Rightarrow> leaked_experiment \<Rightarrow> 't journal \<Rightarrow> 't journal option" where
  "seed_leaked H l j =
     Option.bind (seed_row H (lk_experiment l) 1 ''snapshot'' (lk_provider l)
         (snapshot_json \<lparr>snap_provider = lk_provider l, snap_state = obj [(''value'', num (lk_snapshot l))]\<rparr>) j)
       (seed_row H (lk_experiment l) (lk_age l) ''apply-intent'' (lk_provider l)
         (change_json \<lparr>capability_id = ''mock.value'', parameters = obj [(''value'', num (lk_request l))],
            lease_seconds = lk_lease l\<rparr>))"

definition terminal_count :: "int \<Rightarrow> 't journal \<Rightarrow> nat" where
  "terminal_count e j =
     length (filter (\<lambda>x. row_experiment x = e \<and> (stage x = ''completed'' \<or> stage x = ''failed'')) (jrows j))"

definition stage_count :: "int \<Rightarrow> string \<Rightarrow> 't journal \<Rightarrow> nat" where
  "stage_count e st j = length (filter (\<lambda>x. row_experiment x = e \<and> stage x = st) (jrows j))"

text \<open>A provider that refuses its next \<open>fail_rollbacks\<close> rollbacks, and leaves the wrong value after the
  next \<open>corrupt_rollbacks\<close> that it takes.\<close>

record faulty_provider =
  fp_value :: u64
  fail_rollbacks :: u32
  corrupt_rollbacks :: u32

definition faulty_rollback :: "faulty_provider \<Rightarrow> state_snapshot \<Rightarrow> (provider_error, unit) result \<times> faulty_provider" where
  "faulty_rollback p s =
     (if 0 < fail_rollbacks p
      then (Inl (RollbackFailed ''injected fault''), p\<lparr>fail_rollbacks := fail_rollbacks p - 1\<rparr>)
      else case ok_or (RollbackFailed ''snapshot has no value'') (get_u64 ''value'' (snap_state s)) of
             Inl e \<Rightarrow> (Inl e, p)
           | Inr v \<Rightarrow>
               (Inr (), if 0 < corrupt_rollbacks p
                  then p\<lparr>fp_value := v + 1, corrupt_rollbacks := corrupt_rollbacks p - 1\<rparr>
                  else p\<lparr>fp_value := v\<rparr>))"

definition faulty_apply :: "faulty_provider \<Rightarrow> change_request \<Rightarrow> (provider_error, unit) result \<times> faulty_provider" where
  "faulty_apply p c =
     (case ok_or value_required (get_u64 ''value'' (parameters c)) of
        Inl e \<Rightarrow> (Inl e, p) | Inr v \<Rightarrow> (Inr (), p\<lparr>fp_value := v\<rparr>))"

definition value_manifest :: "string \<Rightarrow> string \<Rightarrow> provider_manifest" where
  "value_manifest platform text =
     \<lparr>man_id = ''mock'', protocol_version = 1, targets = [platform],
      capabilities = [\<lparr>cap_id = ''mock.value'', cap_description = text, cap_risk = Reversible,
        cap_persistence = Leased, cap_schema = obj [(''type'', Str ''object'')]\<rparr>]\<rparr>"

definition value_snapshot :: "u64 \<Rightarrow> state_snapshot" where
  "value_snapshot v = \<lparr>snap_provider = ''mock'', snap_state = obj [(''value'', num v)]\<rparr>"

definition faulty_ops :: "string \<Rightarrow> faulty_provider provider_ops" where
  "faulty_ops platform =
     \<lparr>op_manifest = \<lambda>_. value_manifest platform ''Injectable in-memory value for watchdog tests'',
      op_snapshot = \<lambda>p. Inr (value_snapshot (fp_value p)),
      op_preview = \<lambda>_ _. Inr ''no-op preview'', op_apply = faulty_apply,
      op_verify = \<lambda>p c. Inr (get_u64 ''value'' (parameters c) = Some (fp_value p)),
      op_rollback = faulty_rollback\<rparr>"

text \<open>\<open>PanicOnApply\<close>: the process ends in \<open>apply\<close>, so what the provider answers there is never seen.\<close>

definition panicking_ops :: "string \<Rightarrow> unit provider_ops" where
  "panicking_ops platform =
     \<lparr>op_manifest = \<lambda>_. value_manifest platform ''Terminates mid-apply for watchdog tests'',
      op_snapshot = \<lambda>_. Inr (value_snapshot 7),
      op_preview = \<lambda>_ _. Inr ''set mock.value to 99'',
      op_apply = \<lambda>_ _. (Inr (), ()),
      op_verify = \<lambda>_ _. Inr True,
      op_rollback = \<lambda>_ _. (Inr (), ())\<rparr>"

text \<open>What the tests share: a journal with its leaks and a watchdog over it, and a pass that succeeds.\<close>

fun seed_all :: "'t host \<Rightarrow> leaked_experiment list \<Rightarrow> 't journal \<Rightarrow> 't journal option" where
  "seed_all H [] j = Some j"
| "seed_all H (l # ls) j = Option.bind (seed_leaked H l j) (seed_all H ls)"

definition watching :: "'t host \<Rightarrow> 'p provider_ops \<Rightarrow> 'p \<Rightarrow> 't journal \<Rightarrow> ('p, 't) watchdog option" where
  "watching H P p j = (case open_watchdog H P p j of (Inl _, _) \<Rightarrow> None | (Inr w, _) \<Rightarrow> Some w)"

definition over_leaks ::
  "'t host \<Rightarrow> 'p provider_ops \<Rightarrow> 'p \<Rightarrow> leaked_experiment list \<Rightarrow> ('p, 't) watchdog option" where
  "over_leaks H P p ls = Option.bind (create_journal H) (\<lambda>j. Option.bind (seed_all H ls j) (watching H P p))"

definition scanned ::
  "'t host \<Rightarrow> ('p, 't) watchdog option \<Rightarrow> (unclosed_experiment list \<times> ('p, 't) watchdog) option" where
  "scanned H w =
     Option.bind w (\<lambda>w. case scan H w of (Inl _, _) \<Rightarrow> None | (Inr us, w') \<Rightarrow> Some (us, w'))"

definition reclaimed ::
  "'t host \<Rightarrow> 'p provider_ops \<Rightarrow> reclaim_policy \<Rightarrow> ('p, 't) watchdog option \<Rightarrow>
     (restoration list \<times> ('p, 't) watchdog) option" where
  "reclaimed H P pol w =
     Option.bind w (\<lambda>w. case reclaim H P pol w of (Inl _, _) \<Rightarrow> None | (Inr rs, w') \<Rightarrow> Some (rs, w'))"

definition leak_at :: "int \<Rightarrow> u64 \<Rightarrow> u64 \<Rightarrow> u64 \<Rightarrow> int \<Rightarrow> leaked_experiment" where
  "leak_at e from to lease age =
     \<lparr>lk_experiment = e, lk_provider = ''mock'', lk_snapshot = from, lk_request = to, lk_lease = lease, lk_age = age\<rparr>"

abbreviation mock_at :: "u64 \<Rightarrow> mock_provider" where
  "mock_at v \<equiv> \<lparr>mock_value = v\<rparr>"

subsection \<open>The tests\<close>

definition crash_mid_apply_restores_defaults :: "json host \<Rightarrow> bool" where
  "crash_mid_apply_restores_defaults H \<longleftrightarrow>
     (case scanned H (over_leaks H (mock_ops (os H)) (mock_at 99) [leak_at 1 7 99 300 1]) of
        Some ([u], w) \<Rightarrow> un_experiment u = 1 \<and> \<not> un_expired u \<and>
          (case reclaimed H (mock_ops (os H)) AllUnclosed (Some w) of
             Some ([r], v) \<Rightarrow> rs_restored r \<and> rs_reason r = CrashRecovery \<and>
               mock_value (w_provider v) = 7 \<and> terminal_count 1 (w_journal v) = 1 \<and>
               stage_count 1 ''watchdog-restore'' (w_journal v) = 1
           | _ \<Rightarrow> False)
      | _ \<Rightarrow> False)"

definition expired_lease_is_reclaimed_by_the_steady_state_poll :: "json host \<Rightarrow> bool" where
  "expired_lease_is_reclaimed_by_the_steady_state_poll H \<longleftrightarrow>
     (case scanned H (over_leaks H (mock_ops (os H)) (mock_at 80) [leak_at 1 5 80 30 3600]) of
        Some ([u], w) \<Rightarrow> un_expired u \<and>
          (case reclaimed H (mock_ops (os H)) ExpiredLeasesOnly (Some w) of
             Some ([r], v) \<Rightarrow> rs_restored r \<and> rs_reason r = LeaseExpired \<and> rs_lease r = 30 \<and>
               mock_value (w_provider v) = 5 \<and> terminal_count 1 (w_journal v) = 1
           | _ \<Rightarrow> False)
      | _ \<Rightarrow> False)"

definition expired_leases_only_leaves_live_experiments_for_their_owner :: "json host \<Rightarrow> bool" where
  "expired_leases_only_leaves_live_experiments_for_their_owner H \<longleftrightarrow>
     (case reclaimed H (mock_ops (os H)) ExpiredLeasesOnly
         (over_leaks H (mock_ops (os H)) (mock_at 60) [leak_at 1 3 60 30 3600, leak_at 2 4 70 300 1]) of
        Some ([r], v) \<Rightarrow> rs_experiment r = 1 \<and> terminal_count 1 (w_journal v) = 1 \<and>
          terminal_count 2 (w_journal v) = 0 \<and> stage_count 2 ''watchdog-restore'' (w_journal v) = 0
      | _ \<Rightarrow> False)"

definition reclaim_is_idempotent_and_does_not_double_rollback :: "json host \<Rightarrow> bool" where
  "reclaim_is_idempotent_and_does_not_double_rollback H \<longleftrightarrow>
     (case reclaimed H (mock_ops (os H)) AllUnclosed
         (over_leaks H (mock_ops (os H)) (mock_at 99) [leak_at 1 7 99 300 1]) of
        Some ([r], v) \<Rightarrow> rs_restored r \<and> mock_value (w_provider v) = 7 \<and>
          (case reclaimed H (mock_ops (os H)) AllUnclosed (Some v) of
             Some ([], v') \<Rightarrow> stage_count 1 ''watchdog-restore'' (w_journal v') = 1 \<and>
               terminal_count 1 (w_journal v') = 1
           | _ \<Rightarrow> False)
      | _ \<Rightarrow> False)"

definition closed_experiments_are_never_touched :: "json host \<Rightarrow> bool" where
  "closed_experiments_are_never_touched H \<longleftrightarrow>
     (case open_plane H (mock_ops (os H)) (mock_at 7) new_file of
        (Inl _, _) \<Rightarrow> False
      | (Inr pl, _) \<Rightarrow>
     (case run_lifecycle H (mock_ops (os H))
         \<lparr>capability_id = ''mock.value'', parameters = obj [(''value'', num 42)], lease_seconds = 30\<rparr> pl of
        (Inl _, _) \<Rightarrow> False
      | (Inr result, pl') \<Rightarrow> verified result \<and> rolled_back result \<and>
          (case scanned H (watching H (mock_ops (os H)) (mock_at 7) (journal pl')) of
             Some ([], w) \<Rightarrow>
               (case reclaimed H (mock_ops (os H)) AllUnclosed (Some w) of Some (rs, _) \<Rightarrow> rs = [] | None \<Rightarrow> False)
           | _ \<Rightarrow> False)))"

definition other_providers_experiments_are_ignored :: "json host \<Rightarrow> bool" where
  "other_providers_experiments_are_ignored H \<longleftrightarrow>
     (case scanned H (over_leaks H (mock_ops (os H)) (mock_at 50)
         [(leak_at 1 1 50 30 3600)\<lparr>lk_provider := ''other-provider''\<rparr>]) of
        Some ([], w) \<Rightarrow>
          (case reclaimed H (mock_ops (os H)) AllUnclosed (Some w) of
             Some ([], v) \<Rightarrow> terminal_count 1 (w_journal v) = 0 | _ \<Rightarrow> False)
      | _ \<Rightarrow> False)"

definition failed_rollback_leaves_the_experiment_for_a_later_pass :: "json host \<Rightarrow> bool" where
  "failed_rollback_leaves_the_experiment_for_a_later_pass H \<longleftrightarrow>
     (case reclaimed H (faulty_ops (os H)) AllUnclosed (over_leaks H (faulty_ops (os H))
         \<lparr>fp_value = 99, fail_rollbacks = 1, corrupt_rollbacks = 0\<rparr> [leak_at 1 7 99 300 1]) of
        Some ([r], v) \<Rightarrow> \<not> rs_restored r \<and> rs_error r \<noteq> None \<and> terminal_count 1 (w_journal v) = 0 \<and>
          (case reclaimed H (faulty_ops (os H)) AllUnclosed (Some v) of
             Some ([r'], v') \<Rightarrow> rs_restored r' \<and> fp_value (w_provider v') = 7 \<and>
               terminal_count 1 (w_journal v') = 1
           | _ \<Rightarrow> False)
      | _ \<Rightarrow> False)"

text \<open>A pass that leaves its one experiment stuck.\<close>

definition stuck_pass ::
  "'t host \<Rightarrow> 'p provider_ops \<Rightarrow> reclaim_policy \<Rightarrow> ('p, 't) watchdog option \<Rightarrow> ('p, 't) watchdog option" where
  "stuck_pass H P pol w =
     (case reclaimed H P pol w of Some ([r], v) \<Rightarrow> if rs_restored r then None else Some v | _ \<Rightarrow> None)"

definition repeated_identical_failures_are_not_re_journaled_but_stay_retryable :: "json host \<Rightarrow> bool" where
  "repeated_identical_failures_are_not_re_journaled_but_stay_retryable H \<longleftrightarrow>
     (let pass = stuck_pass H (faulty_ops (os H)) ExpiredLeasesOnly;
          w = pass (pass (pass (over_leaks H (faulty_ops (os H))
                \<lparr>fp_value = 99, fail_rollbacks = 3, corrupt_rollbacks = 0\<rparr> [leak_at 1 7 99 30 3600]))) in
      case w of
        Some v \<Rightarrow> stage_count 1 ''watchdog-restore'' (w_journal v) = 1 \<and> terminal_count 1 (w_journal v) = 0 \<and>
          (case scanned H w of Some (us, _) \<Rightarrow> length us = 1 | None \<Rightarrow> False)
      | None \<Rightarrow> False)"

definition corrupted_rollback_is_detected_by_the_verify_probe :: "json host \<Rightarrow> bool" where
  "corrupted_rollback_is_detected_by_the_verify_probe H \<longleftrightarrow>
     (case reclaimed H (faulty_ops (os H)) AllUnclosed (over_leaks H (faulty_ops (os H))
         \<lparr>fp_value = 99, fail_rollbacks = 0, corrupt_rollbacks = 1\<rparr> [leak_at 1 7 99 300 1]) of
        Some ([r], v) \<Rightarrow> \<not> rs_restored r \<and> terminal_count 1 (w_journal v) = 0 \<and>
          (case reclaimed H (faulty_ops (os H)) AllUnclosed (Some v) of
             Some (r' # _, v') \<Rightarrow> rs_restored r' \<and> fp_value (w_provider v') = 7 \<and>
               terminal_count 1 (w_journal v') = 1
           | _ \<Rightarrow> False)
      | _ \<Rightarrow> False)"

text \<open>The binary returns no watchdog; the journal it leaves is the one its pass leaves.\<close>

definition binary_once_reclaims_and_closes_a_leaked_experiment :: "json host \<Rightarrow> bool" where
  "binary_once_reclaims_and_closes_a_leaked_experiment H \<longleftrightarrow>
     (case Option.bind (create_journal H) (seed_leaked H (leak_at 1 7 99 300 1)) of
        None \<Rightarrow> False
      | Some j \<Rightarrow>
          (case watchdog_main H (mock_ops (os H)) (mock_at 0) (\<lambda>p. if p = ''journal.sqlite'' then j else new_file)
              None [''--once'', ''--recover-all'', ''--journal'', ''journal.sqlite''] 0 of
             (Inr None, out) \<Rightarrow>
               list_ex (\<lambda>l. case l of Out s \<Rightarrow> sublist ''restored experiment 1'' s | Err _ \<Rightarrow> False) out
           | _ \<Rightarrow> False) \<and>
          (case reclaimed H (mock_ops (os H)) AllUnclosed (watching H (mock_ops (os H)) (mock_at 0) j) of
             Some (_, v) \<Rightarrow> terminal_count 1 (w_journal v) = 1 | None \<Rightarrow> False))"

text \<open>The control plane's process ends at its sixth effect, the apply, with the intent committed.\<close>

definition gateway_termination_mid_apply_is_recovered :: "json host \<Rightarrow> bool" where
  "gateway_termination_mid_apply_is_recovered H \<longleftrightarrow>
     (case open_plane H (panicking_ops (os H)) () new_file of
        (Inl _, _) \<Rightarrow> False
      | (Inr pl, _) \<Rightarrow>
     (case after_effects 5 H (panicking_ops (os H))
         \<lparr>capability_id = ''mock.value'', parameters = obj [(''value'', num 99)], lease_seconds = 120\<rparr> (PStart, pl) of
        (PIntent _ _ _, pl') \<Rightarrow> terminal_count 1 (journal pl') = 0 \<and>
          (case reclaimed H (mock_ops (os H)) AllUnclosed (watching H (mock_ops (os H)) (mock_at 99) (journal pl')) of
             Some ([r], v) \<Rightarrow> rs_restored r \<and> mock_value (w_provider v) = 7 \<and> terminal_count 1 (w_journal v) = 1
           | _ \<Rightarrow> False)
      | _ \<Rightarrow> False))"

lemma fault_tests:
  "crash_mid_apply_restores_defaults plain_host"
  "expired_lease_is_reclaimed_by_the_steady_state_poll plain_host"
  "expired_leases_only_leaves_live_experiments_for_their_owner plain_host"
  "reclaim_is_idempotent_and_does_not_double_rollback plain_host"
  "closed_experiments_are_never_touched plain_host"
  "other_providers_experiments_are_ignored plain_host"
  "failed_rollback_leaves_the_experiment_for_a_later_pass plain_host"
  "repeated_identical_failures_are_not_re_journaled_but_stay_retryable plain_host"
  "corrupted_rollback_is_detected_by_the_verify_probe plain_host"
  "gateway_termination_mid_apply_is_recovered plain_host"
  by code_simp+

lemma binary_test: "binary_once_reclaims_and_closes_a_leaked_experiment plain_host"
  by code_simp

end
