(* ===== verification/Trial_Tests.thy ===== *)
theory Trial_Tests
  imports Runner_Tests Fault_Tests
begin

section \<open>The runner's integration tests (\<open>apps/experiment-runner/tests/integration.rs\<close>)\<close>

text \<open>
  The tests that run a whole trial, from the gate through the measurements and the lifecycle to the row
  it leaves in the journal, and the replays of that row.  Each is a definition that is true when its
  assertions hold of the model, and a lemma that it is on a host whose statements work, or whose trial
  statements fail for the tests that lose the record (\<open>without_trials\<close>); a test that panics is false.
  Their shared fact is that a trial the gate lets through is measured, judged and stored with the verdict
  that the evaluator gives (\<open>trial_of\<close>).
\<close>

subsection \<open>Fixtures\<close>

definition hypothesis_for :: "u64 \<Rightarrow> string" where
  "hypothesis_for v = ''raise mock.value to '' @ show_word v"

definition spec_with_lease :: "u64 \<Rightarrow> f64 \<Rightarrow> f64 \<Rightarrow> u64 \<Rightarrow> experiment_spec" where
  "spec_with_lease v improvement temperature lease =
     \<lparr>hypothesis = hypothesis_for v,
      target = \<lparr>capability_id = ''mock.value'', parameters = obj [(''value'', num v)], lease_seconds = lease\<rparr>,
      warmup_samples = 2, baseline_samples = 5, candidate_samples = 5,
      bounds = \<lparr>min_samples = 3, min_fps_improvement = improvement, max_temperature_c = temperature,
        max_power_w = Fin 200, max_errors = 0\<rparr>\<rparr>"

definition spec_for :: "u64 \<Rightarrow> f64 \<Rightarrow> f64 \<Rightarrow> experiment_spec" where
  "spec_for v improvement temperature = spec_with_lease v improvement temperature 30"

definition opened :: "'t host \<Rightarrow> 'p provider_ops \<Rightarrow> 'p \<Rightarrow> 't journal \<Rightarrow> ('p, 't) plane option" where
  "opened H P p j = (case open_plane H P p j of (Inl _, _) \<Rightarrow> None | (Inr pl, _) \<Rightarrow> Some pl)"

definition current_value :: "'p provider_ops \<Rightarrow> ('p, 't) plane \<Rightarrow> u64 option" where
  "current_value P pl =
     (case plane_snapshot P pl of Inl _ \<Rightarrow> None | Inr s \<Rightarrow> get_u64 ''value'' (snap_state s))"

definition gated_ops :: "string \<Rightarrow> mock_provider provider_ops" where
  "gated_ops platform = (mock_ops platform)\<lparr>op_manifest := \<lambda>p.
     (let m = mock_manifest platform p in
      m\<lparr>capabilities := map (\<lambda>c. c\<lparr>cap_risk := ApprovalRequired\<rparr>) (capabilities m)\<rparr>)\<rparr>"

definition at_ten :: "'p provider_ops \<Rightarrow> 'p \<Rightarrow> ('p, json) plane" where
  "at_ten P p = \<lparr>provider = p, manifest = op_manifest P p,
     journal = \<lparr>jtable = True, jrows = [], jtrials = [], jclock = 3\<rparr>\<rparr>"

lemma opened_ten:
  "opened plain_host (mock_ops ''linux'') \<lparr>mock_value = 10\<rparr> new_file = Some (at_ten (mock_ops ''linux'') \<lparr>mock_value = 10\<rparr>)"
  "opened plain_host (gated_ops ''linux'') \<lparr>mock_value = 10\<rparr> new_file = Some (at_ten (gated_ops ''linux'') \<lparr>mock_value = 10\<rparr>)"
  by (simp_all add: opened_def open_plane_def mock_defs gated_ops_def statement_def plain_host_def new_file_def at_ten_def tick_def Let_def)

lemma gate:
  "runner_validate (mock_manifest ''linux'' p) (spec_for 40 (Fin 5) (Fin 80)) = Inr 40"
  "runner_validate (mock_manifest ''linux'' p) (spec_for 70 (Fin 5) (Fin 80)) = Inr 70"
  "runner_validate (mock_manifest ''linux'' p) (spec_with_lease 40 (Fin 5) (Fin 80) MAX_LEASE_SECONDS) = Inr 40"
  by code_simp+

lemma promoted_reason: "decision (evaluate bs cs b) = Promote \<longleftrightarrow> reason (evaluate bs cs b) = Promoted"
  by (simp add: evaluate_def Let_def)

lemma verdict_40:
  assumes "v = evaluate (measure_samples 10 2 5) (measure_samples 40 2 5)
      \<lparr>min_samples = 3, min_fps_improvement = Fin 5, max_temperature_c = Fin 80, max_power_w = Fin 200, max_errors = 0\<rparr>"
  shows "decision v = Promote" "reason v = Promoted"
proof -
  have s: "measure_samples 10 2 5 = replicate 5 (steady 10)" "measure_samples 40 2 5 = replicate 5 (steady 40)"
    by (simp_all add: steady_measure sample_at_policy)
  show d: "decision v = Promote"
    using policy_verdict [OF _ _ _ _ _ _ assms [unfolded s]] by simp
  then show "reason v = Promoted" using promoted_reason unfolding assms by blast
qed

lemma verdict_70:
  assumes "v = evaluate (measure_samples 10 2 5) (measure_samples 70 2 5)
      \<lparr>min_samples = 3, min_fps_improvement = Fin 5, max_temperature_c = Fin 80, max_power_w = Fin 200, max_errors = 0\<rparr>"
  shows "decision v = Reject" "reason v = TemperatureExceeded"
proof -
  have s: "measure_samples 10 2 5 = replicate 5 (steady 10)" "measure_samples 70 2 5 = replicate 5 (steady 70)"
    by (simp_all add: steady_measure sample_at_policy)
  obtain e1 where e1: "summarize (replicate 5 (steady 10)) =
    \<lparr>sum_samples = 5, mean_fps = Fin 70, sum_temperature_c = Fin 55, sum_power_w = Fin 110, total_errors = e1\<rparr>"
    using summarize_steady [of 10 5] by auto
  obtain e2 where e2: "summarize (replicate 5 (steady 70)) =
    \<lparr>sum_samples = 5, mean_fps = Fin 130, sum_temperature_c = Fin 85, sum_power_w = Fin 170, total_errors = e2\<rparr>"
    using summarize_steady [of 70 5] by auto
  show "decision v = Reject" "reason v = TemperatureExceeded"
    unfolding assms s by (simp_all add: evaluate_def e1 e2 Let_def)
qed


text \<open>A trial that the gate lets through, with its measurements and its verdict given.\<close>

definition trial_of ::
  "experiment_spec \<Rightarrow> u64 \<Rightarrow> u64 \<Rightarrow> verdict \<Rightarrow> (cp_error, lifecycle_result) result option \<Rightarrow> trial_record" where
  "trial_of s bv cv v out =
     \<lparr>schema_version = TRIAL_RECORD_VERSION, tr_spec = s, baseline_value = bv, candidate_value = cv,
      tr_baseline_samples = measure_samples bv (warmup_samples s) (baseline_samples s),
      tr_candidate_samples = measure_samples cv (warmup_samples s) (candidate_samples s), tr_verdict = v,
      lifecycle = map_option outcome_of (result_of out), lifecycle_error = map_option failure_of (error_of out)\<rparr>"

lemma run_measured:
  assumes "runner_validate (manifest pl) s = Inr cv" "plane_baseline_value P pl = Inr bv"
    and "v = evaluate (measure_samples bv (warmup_samples s) (baseline_samples s))
      (measure_samples cv (warmup_samples s) (candidate_samples s)) (bounds s)"
  shows rejected_trial: "decision v = Reject \<Longrightarrow> run_trial H P s pl =
      (case record_trial H (trial_json (trial_of s bv cv v None)) pl of
        (Inl e, pl2) \<Rightarrow> (Inl (TrialNotJournaled None e), pl2)
      | (Inr i, pl2) \<Rightarrow> (Inr \<lparr>st_id = i, st_record = trial_of s bv cv v None\<rparr>, pl2))"
    and completed_trial: "decision v = Promote \<Longrightarrow> run_lifecycle H P (target s) pl = (Inr x, pl1) \<Longrightarrow>
      run_trial H P s pl =
      (case record_trial H (trial_json (trial_of s bv cv v (Some (Inr x)))) pl1 of
        (Inl e, pl2) \<Rightarrow> (Inl (TrialNotJournaled (Some (outcome_of x)) e), pl2)
      | (Inr i, pl2) \<Rightarrow> (Inr \<lparr>st_id = i, st_record = trial_of s bv cv v (Some (Inr x))\<rparr>, pl2))"
    and refused_trial: "decision v = Promote \<Longrightarrow> run_lifecycle H P (target s) pl = (Inl e, pl1) \<Longrightarrow>
      run_trial H P s pl =
      (case record_trial H (trial_json (trial_of s bv cv v (Some (Inl e)))) pl1 of
        (j, pl2) \<Rightarrow> (Inl (LifecycleFailed (result_ok j) (result_err j) e), pl2))"
  using assms by (simp_all add: run_trial_def trial_of_def Let_def outcome_cases split: prod.split sum.split)

lemma baseline_ten:
  "plane_baseline_value (mock_ops platform) (at_ten Q \<lparr>mock_value = 10\<rparr>) = Inr 10"
  "plane_baseline_value (gated_ops platform) (at_ten Q \<lparr>mock_value = 10\<rparr>) = Inr 10"
  by (simp_all add: plane_baseline_value_def plane_snapshot_def mock_defs gated_ops_def at_ten_def MAX_MOCK_VALUE_def Let_def)

definition foreign_knob_ops :: "string \<Rightarrow> unit provider_ops" where
  "foreign_knob_ops platform =
     \<lparr>op_manifest = \<lambda>_. \<lparr>man_id = ''foreign'', protocol_version = 1, targets = [platform],
        capabilities = [\<lparr>cap_id = ''foreign.knob'',
          cap_description = ''A knob the measurement model never described'', cap_risk = Reversible,
          cap_persistence = Leased, cap_schema = obj [(''type'', Str ''object'')]\<rparr>]\<rparr>,
      op_snapshot = \<lambda>_. Inr \<lparr>snap_provider = ''foreign'', snap_state = obj [(''knob'', num 0)]\<rparr>,
      op_preview = \<lambda>_ _. Inl (UnsupportedCapability ''foreign.knob''),
      op_apply = \<lambda>p _. (Inl (UnsupportedCapability ''foreign.knob''), p),
      op_verify = \<lambda>_ _. Inr False,
      op_rollback = \<lambda>p _. (Inr (), p)\<rparr>"

subsection \<open>Trials that run\<close>

definition a_promoted_experiment_runs_the_full_lifecycle :: "json host \<Rightarrow> bool" where
  "a_promoted_experiment_runs_the_full_lifecycle H \<longleftrightarrow>
     (case opened H (mock_ops (os H)) \<lparr>mock_value = 10\<rparr> new_file of
        None \<Rightarrow> False
      | Some pl \<Rightarrow>
     (case run_trial H (mock_ops (os H)) (spec_for 40 (Fin 5) (Fin 80)) pl of
        (Inl _, _) \<Rightarrow> False
      | (Inr trial, pl1) \<Rightarrow>
          decision (tr_verdict (st_record trial)) = Promote \<and>
          reason (tr_verdict (st_record trial)) = Promoted \<and>
          (case lifecycle (st_record trial) of
             None \<Rightarrow> False
           | Some l \<Rightarrow> lo_provider l = ''mock'' \<and> lo_verified l \<and> lo_rolled_back l) \<and>
          lifecycle_error (st_record trial) = None \<and>
          fst (trial_ids H pl1) = Inr [st_id trial] \<and>
          (case fst (read_trial H (st_id trial) pl1) of
             Inl _ \<Rightarrow> False | Inr v \<Rightarrow> trial_of_json v = Some (st_record trial)) \<and>
          (case fst (replay_trial H (st_id trial) pl1) of Inl _ \<Rightarrow> False | Inr r \<Rightarrow> is_consistent r) \<and>
          current_value (mock_ops (os H)) pl1 = Some 10))"

definition a_rejected_experiment_is_never_applied_and_leaves_the_baseline :: "json host \<Rightarrow> bool" where
  "a_rejected_experiment_is_never_applied_and_leaves_the_baseline H \<longleftrightarrow>
     (case opened H (mock_ops (os H)) \<lparr>mock_value = 10\<rparr> new_file of
        None \<Rightarrow> False
      | Some pl \<Rightarrow>
     (case run_trial H (mock_ops (os H)) (spec_for 70 (Fin 5) (Fin 80)) pl of
        (Inl _, _) \<Rightarrow> False
      | (Inr trial, pl1) \<Rightarrow>
          decision (tr_verdict (st_record trial)) = Reject \<and>
          reason (tr_verdict (st_record trial)) = TemperatureExceeded \<and>
          lifecycle (st_record trial) = None \<and> current_value (mock_ops (os H)) pl1 = Some 10))"

definition a_promoted_trial_survives_a_lifecycle_the_broker_refuses :: "json host \<Rightarrow> bool" where
  "a_promoted_trial_survives_a_lifecycle_the_broker_refuses H \<longleftrightarrow>
     (case opened H (gated_ops (os H)) \<lparr>mock_value = 10\<rparr> new_file of
        None \<Rightarrow> False
      | Some pl \<Rightarrow>
     (case run_trial H (gated_ops (os H)) (spec_for 40 (Fin 5) (Fin 80)) pl of
        (Inl (LifecycleFailed (Some i) None (PolicyDenied d)), pl1) \<Rightarrow>
          mentions (''trial '' @ show_int i) (show_runner_error (LifecycleFailed (Some i) None (PolicyDenied d))) \<and>
          fst (trial_ids H pl1) = Inr [i] \<and>
          (case fst (read_trial H i pl1) of
             Inl _ \<Rightarrow> False
           | Inr v \<Rightarrow> (case trial_of_json v of
               None \<Rightarrow> False
             | Some r \<Rightarrow> decision (tr_verdict r) = Promote \<and> lifecycle r = None \<and>
                 (case lifecycle_error r of
                    None \<Rightarrow> False
                  | Some f \<Rightarrow> lf_kind f = ''policy-denied'' \<and>
                      sublist ''only reversible mock capabilities are enabled'' (lf_error f)))) \<and>
          (case fst (replay_trial H i pl1) of
             Inl _ \<Rightarrow> False | Inr r \<Rightarrow> is_consistent r \<and> decision (recomputed r) = Promote) \<and>
          current_value (gated_ops (os H)) pl1 = Some 10
      | _ \<Rightarrow> False))"

lemma ten_sel [simp]:
  "provider (at_ten P p) = p" "manifest (at_ten P p) = op_manifest P p"
  "journal (at_ten P p) = \<lparr>jtable = True, jrows = [], jtrials = [], jclock = 3\<rparr>"
  by (simp_all add: at_ten_def)

lemma spec_sel [simp]:
  "warmup_samples (spec_with_lease v i t l) = 2" "baseline_samples (spec_with_lease v i t l) = 5"
  "candidate_samples (spec_with_lease v i t l) = 5"
  "bounds (spec_with_lease v i t l) = \<lparr>min_samples = 3, min_fps_improvement = i, max_temperature_c = t,
     max_power_w = Fin 200, max_errors = 0\<rparr>"
  by (simp_all add: spec_with_lease_def)

lemma plain_host_os [simp]: "os plain_host = ''linux''" by (simp add: plain_host_def)

lemma plain_record:
  "jtable (journal pl) \<Longrightarrow> jtrials (journal pl) = [] \<Longrightarrow> record_trial plain_host v pl =
     (Inr 1, pl\<lparr>journal := (tick (journal pl))\<lparr>jtrials := [\<lparr>trial_id = 1, trial_payload = v\<rparr>]\<rparr>\<rparr>)"
  by (simp add: record_trial_def insert_trial_def statement_def plain_host_def next_trial_def Let_def)

lemma current_mock:
  "current_value (mock_ops platform) pl = Some (mock_value (provider pl))"
  "current_value (gated_ops platform) pl = Some (mock_value (provider pl))"
  by (simp_all add: current_value_def plane_snapshot_def mock_defs gated_ops_def)

lemma rejected_test: "a_rejected_experiment_is_never_applied_and_leaves_the_baseline plain_host"
proof -
  define s where "s = spec_for 70 (Fin 5) (Fin 80)"
  define v where "v = evaluate (measure_samples 10 (warmup_samples s) (baseline_samples s))
      (measure_samples 70 (warmup_samples s) (candidate_samples s)) (bounds s)"
  have v: "decision v = Reject" "reason v = TemperatureExceeded"
    by (rule verdict_70; simp add: v_def s_def spec_for_def)+
  let ?pl = "at_ten (mock_ops ''linux'') \<lparr>mock_value = 10\<rparr>"
  have "runner_validate (manifest ?pl) s = Inr 70" by (simp add: s_def gate(2) mock_ops_def)
  from rejected_trial [OF this baseline_ten(1) v_def v(1), of plain_host] v show ?thesis
    by (simp add: a_rejected_experiment_is_never_applied_and_leaves_the_baseline_def opened_ten plain_record
        s_def [symmetric] trial_of_def current_mock outcome_cases)
qed

lemma life_40:
  "\<exists>pl. run_lifecycle plain_host (mock_ops ''linux'') (target (spec_with_lease 40 (Fin 5) (Fin 80) 30))
       (at_ten (mock_ops ''linux'') \<lparr>mock_value = 10\<rparr>) =
     (Inr \<lparr>res_provider = ''mock'', res_preview = ''set mock.value from 10 to 40'', verified = True,
        rolled_back = True\<rparr>, pl) \<and>
     provider pl = \<lparr>mock_value = 10\<rparr> \<and> jtable (journal pl) \<and> jtrials (journal pl) = [] \<and> jclock (journal pl) = 11"
proof -
  have "(case run_lifecycle plain_host (mock_ops ''linux'') (target (spec_with_lease 40 (Fin 5) (Fin 80) 30))
       (at_ten (mock_ops ''linux'') \<lparr>mock_value = 10\<rparr>) of (r, pl) \<Rightarrow>
     r = (Inr \<lparr>res_provider = ''mock'', res_preview = ''set mock.value from 10 to 40'', verified = True,
        rolled_back = True\<rparr>) \<and>
     mock_value (provider pl) = 10 \<and> jtable (journal pl) \<and> jtrials (journal pl) = [] \<and> jclock (journal pl) = 11)"
    by code_simp
  then show ?thesis by (auto split: prod.splits)
qed

lemma plain_reads:
  assumes "jtable (journal pl)" "jtrials (journal pl) = [\<lparr>trial_id = 1, trial_payload = w\<rparr>]"
  shows "fst (trial_ids plain_host pl) = Inr [1]" "fst (read_trial plain_host 1 pl) = Inr w"
  using assms by (simp_all add: trial_ids_def read_trial_def query_def statement_def plain_host_def)

lemma trial_of_ok:
  assumes "measured P s pl bv cv v" "spec_ok s"
  shows "trial_ok (trial_of s bv cv v out)"
proof -
  note m = measured_policy [OF assms(1)]
  have "sample_ok (steady w)" for w by (simp add: sample_ok_def steady_def f64_is_finite_def)
  with m assms(2) stored_verdict_ok [OF assms(2,1)] show ?thesis
    by (simp add: trial_of_def trial_ok_def list_all_iff steady_measure sample_at_policy)
qed

text \<open>A row that holds a trial's record replays with the verdict the evaluator gives.\<close>

lemma replay_of_record:
  assumes "fst (read_trial plain_host 1 pl) = Inr (trial_json (trial_of s bv cv v out))"
    and "measured P s q bv cv v" "spec_ok s"
  shows "\<exists>r. fst (replay_trial plain_host 1 pl) = Inr r \<and> is_consistent r \<and> recorded r = v \<and> recomputed r = v \<and>
    policy_legal r = (result_err (check_policy (trial_of s bv cv v out)) = None)"
proof -
  let ?r = "trial_of s bv cv v out"
  have "trial_of_json (trial_json ?r) = Some ?r"
    using trial_of_ok [OF assms(2,3)] by (simp add: trial_format.dec_enc)
  moreover have "Option.bind (get ''schema_version'' (trial_json ?r)) dec_u32 = Some TRIAL_RECORD_VERSION"
    by (simp add: trial_json_def trial_of_def)
  moreover have "evaluate (tr_baseline_samples ?r) (tr_candidate_samples ?r) (bounds (tr_spec ?r)) = v"
    using assms(2) by (simp add: trial_of_def measured_def)
  moreover obtain pl2 where "read_trial plain_host 1 pl = (Inr (trial_json ?r), pl2)"
    using assms(1) by (cases "read_trial plain_host 1 pl") auto
  ultimately show ?thesis
    using stored_verdict_ok [OF assms(3,2)]
    by (simp add: replay_trial_def Let_def is_consistent_def verdict_eq_refl) (simp add: trial_of_def verdict_eq_refl)
qed

lemma spec_for_ok: "spec_ok (spec_for v (Fin 5) (Fin 80))"
  by (simp add: spec_ok_def spec_for_def spec_with_lease_def change_ok_def bounds_ok_def f64_is_finite_def)

lemma measured_40:
  assumes "manifest pl = mock_manifest ''linux'' p \<or> pl = at_ten (gated_ops ''linux'') \<lparr>mock_value = 10\<rparr>"
    and "plane_baseline_value P pl = Inr 10"
    and "v = evaluate (measure_samples 10 2 5) (measure_samples 40 2 5) (bounds (spec_for 40 (Fin 5) (Fin 80)))"
  shows "measured P (spec_for 40 (Fin 5) (Fin 80)) pl 10 40 v"
proof -
  have "runner_validate (manifest pl) (spec_for 40 (Fin 5) (Fin 80)) = Inr 40"
    using assms(1) gate(1) by (auto simp: gated_ops_def mock_ops_def mock_manifest_def runner_validate_def split: if_splits)
  with assms show ?thesis by (simp add: measured_def spec_for_def)
qed

lemma trial_of_sel:
  "tr_verdict (trial_of s bv cv v out) = v"
  "lifecycle (trial_of s bv cv v out) = map_option outcome_of (result_of out)"
  "lifecycle_error (trial_of s bv cv v out) = map_option failure_of (error_of out)"
  by (simp_all add: trial_of_def)

abbreviation ten :: "(mock_provider, json) plane" where
  "ten \<equiv> at_ten (mock_ops ''linux'') \<lparr>mock_value = 10\<rparr>"

abbreviation gated_ten :: "(mock_provider, json) plane" where
  "gated_ten \<equiv> at_ten (gated_ops ''linux'') \<lparr>mock_value = 10\<rparr>"

definition promoting :: verdict where
  "promoting = evaluate (measure_samples 10 2 5) (measure_samples 40 2 5) (bounds (spec_for 40 (Fin 5) (Fin 80)))"

lemma promoting_sel: "decision promoting = Promote" "reason promoting = Promoted"
  by (rule verdict_40; simp add: promoting_def spec_for_def)+

lemma measured_ten:
  "measured (mock_ops ''linux'') (spec_for 40 (Fin 5) (Fin 80)) ten 10 40 promoting"
  "measured (gated_ops ''linux'') (spec_for 40 (Fin 5) (Fin 80)) gated_ten 10 40 promoting"
  using measured_40 [of ten "\<lparr>mock_value = 10\<rparr>" "mock_ops ''linux''", OF _ baseline_ten(1) promoting_def]
    measured_40 [of gated_ten, OF _ baseline_ten(2) promoting_def]
  by (simp_all add: mock_ops_def)

lemma promoted_ten:
  "\<exists>pl. run_trial plain_host (mock_ops ''linux'') (spec_for 40 (Fin 5) (Fin 80)) ten =
     (Inr \<lparr>st_id = 1, st_record = trial_of (spec_for 40 (Fin 5) (Fin 80)) 10 40 promoting
        (Some (Inr \<lparr>res_provider = ''mock'', res_preview = ''set mock.value from 10 to 40'',
           verified = True, rolled_back = True\<rparr>))\<rparr>, pl) \<and>
     provider pl = \<lparr>mock_value = 10\<rparr> \<and> manifest pl = manifest ten \<and> jtable (journal pl) \<and>
     jtrials (journal pl) = [\<lparr>trial_id = 1, trial_payload =
       trial_json (trial_of (spec_for 40 (Fin 5) (Fin 80)) 10 40 promoting
        (Some (Inr \<lparr>res_provider = ''mock'', res_preview = ''set mock.value from 10 to 40'',
           verified = True, rolled_back = True\<rparr>)))\<rparr>]"
proof -
  note m = measured_ten(1) [unfolded measured_def]
  obtain pl where pl: "run_lifecycle plain_host (mock_ops ''linux'') (target (spec_for 40 (Fin 5) (Fin 80))) ten =
     (Inr \<lparr>res_provider = ''mock'', res_preview = ''set mock.value from 10 to 40'', verified = True,
        rolled_back = True\<rparr>, pl)" "provider pl = \<lparr>mock_value = 10\<rparr>" "jtable (journal pl)" "jtrials (journal pl) = []"
    using life_40 by (auto simp: spec_for_def)
  have man: "manifest pl = manifest ten"
    using pl(1) by (cases rule: run_lifecycle_shape) (auto dest: grows_manifest)
  show ?thesis
    using completed_trial [OF m [THEN conjunct1] m [THEN conjunct2, THEN conjunct1]
      m [THEN conjunct2, THEN conjunct2] promoting_sel(1) pl(1)] pl man
    by (simp add: plain_record)
qed

lemma promoted_test: "a_promoted_experiment_runs_the_full_lifecycle plain_host"
proof -
  obtain pl where pl: "run_trial plain_host (mock_ops ''linux'') (spec_for 40 (Fin 5) (Fin 80)) ten =
     (Inr \<lparr>st_id = 1, st_record = trial_of (spec_for 40 (Fin 5) (Fin 80)) 10 40 promoting
        (Some (Inr \<lparr>res_provider = ''mock'', res_preview = ''set mock.value from 10 to 40'',
           verified = True, rolled_back = True\<rparr>))\<rparr>, pl)"
    "provider pl = \<lparr>mock_value = 10\<rparr>" "jtable (journal pl)"
    and tr: "jtrials (journal pl) = [\<lparr>trial_id = 1, trial_payload =
       trial_json (trial_of (spec_for 40 (Fin 5) (Fin 80)) 10 40 promoting
        (Some (Inr \<lparr>res_provider = ''mock'', res_preview = ''set mock.value from 10 to 40'',
           verified = True, rolled_back = True\<rparr>)))\<rparr>]"
    using promoted_ten by blast
  have "trial_of_json (trial_json (trial_of (spec_for 40 (Fin 5) (Fin 80)) 10 40 promoting out)) =
      Some (trial_of (spec_for 40 (Fin 5) (Fin 80)) 10 40 promoting out)" for out
    using trial_of_ok [OF measured_ten(1) spec_for_ok] by (simp add: trial_format.dec_enc)
  then show ?thesis
    using replay_of_record [OF plain_reads(2) [OF pl(3) tr] measured_ten(1) spec_for_ok] plain_reads [OF pl(3) tr] pl promoting_sel
    by (auto simp: a_promoted_experiment_runs_the_full_lifecycle_def opened_ten trial_of_sel outcome_cases
        outcome_of_def current_mock)
qed

lemma refused_life:
  "run_lifecycle H (gated_ops ''linux'') (target (spec_for 40 (Fin 5) (Fin 80))) gated_ten =
     (Inl (PolicyDenied ''only reversible mock capabilities are enabled''), gated_ten)"
  by (simp add: run_lifecycle_def validate_def gated_ops_def mock_ops_def mock_manifest_def spec_for_def
      spec_with_lease_def Let_def)

lemma refused_test: "a_promoted_trial_survives_a_lifecycle_the_broker_refuses plain_host"
proof -
  note m = measured_ten(2) [unfolded measured_def]
  let ?d = "''only reversible mock capabilities are enabled''"
  let ?r = "trial_of (spec_for 40 (Fin 5) (Fin 80)) 10 40 promoting (Some (Inl (PolicyDenied ?d)))"
  define pl where "pl = gated_ten\<lparr>journal := (tick (journal gated_ten))\<lparr>jtrials :=
      [\<lparr>trial_id = 1, trial_payload = trial_json ?r\<rparr>]\<rparr>\<rparr>"
  have run: "run_trial plain_host (gated_ops ''linux'') (spec_for 40 (Fin 5) (Fin 80)) gated_ten =
      (Inl (LifecycleFailed (Some 1) None (PolicyDenied ?d)), pl)"
    using refused_trial [OF m [THEN conjunct1] m [THEN conjunct2, THEN conjunct1]
      m [THEN conjunct2, THEN conjunct2] promoting_sel(1) refused_life]
    by (simp add: plain_record pl_def)
  have pl: "jtable (journal pl)" "provider pl = \<lparr>mock_value = 10\<rparr>"
      "jtrials (journal pl) = [\<lparr>trial_id = 1, trial_payload = trial_json ?r\<rparr>]"
    by (simp_all add: pl_def)
  have "mentions (''trial '' @ show_int 1) (show_runner_error (LifecycleFailed (Some 1) None (PolicyDenied ?d)))"
    by code_simp
  moreover have "trial_of_json (trial_json ?r) = Some ?r"
    using trial_of_ok [OF measured_ten(2) spec_for_ok] by (simp add: trial_format.dec_enc)
  moreover have "kind (PolicyDenied ?d) = ''policy-denied''" "sublist ?d (show_cp_error (PolicyDenied ?d))"
    by code_simp+
  ultimately show ?thesis
    using replay_of_record [OF plain_reads(2) [OF pl(1,3)] measured_ten(2) spec_for_ok] plain_reads [OF pl(1,3)] run pl promoting_sel
    by (auto simp: a_promoted_trial_survives_a_lifecycle_the_broker_refuses_def opened_ten trial_of_sel outcome_cases
        failure_of_def current_mock)
qed

subsection \<open>Records that are lost\<close>

text \<open>
  A test drops the table of the trials behind the control plane's back.  The model has one flag for both
  tables, so here the statements that would write a trial fail instead, by their numbers.
\<close>

definition without_trials :: "nat list \<Rightarrow> json host" where
  "without_trials ns = plain_host\<lparr>stmt_fault := \<lambda>n. if n \<in> set ns
     then Some (Sqlite_fault ''no such table: experiment_trials'') else None\<rparr>"

definition a_refused_lifecycle_reports_why_its_trial_could_not_be_journaled :: "json host \<Rightarrow> bool" where
  "a_refused_lifecycle_reports_why_its_trial_could_not_be_journaled H \<longleftrightarrow>
     (case opened H (gated_ops (os H)) \<lparr>mock_value = 10\<rparr> new_file of
        None \<Rightarrow> False
      | Some pl \<Rightarrow>
     (case run_trial H (gated_ops (os H)) (spec_for 40 (Fin 5) (Fin 80)) pl of
        (Inl (LifecycleFailed None (Some (JournalFault e)) (PolicyDenied d)), pl1) \<Rightarrow>
          (let m = show_runner_error (LifecycleFailed None (Some (JournalFault e)) (PolicyDenied d)) in
           mentions ''failing to journal its trial'' m \<and> mentions ''experiment_trials'' m) \<and>
          current_value (gated_ops (os H)) pl1 = Some 10
      | _ \<Rightarrow> False))"

definition a_lost_record_reports_the_lifecycle_the_promotion_had_already_run :: "json host \<Rightarrow> bool" where
  "a_lost_record_reports_the_lifecycle_the_promotion_had_already_run H \<longleftrightarrow>
     (case opened H (mock_ops (os H)) \<lparr>mock_value = 10\<rparr> new_file of
        None \<Rightarrow> False
      | Some pl \<Rightarrow>
     (case run_trial H (mock_ops (os H)) (spec_for 40 (Fin 5) (Fin 80)) pl of
        (Inl (TrialNotJournaled (Some l) (JournalFault e)), pl1) \<Rightarrow>
          lo_provider l = ''mock'' \<and> lo_verified l \<and> lo_rolled_back l \<and>
          mentions ''completed the lifecycle'' (show_runner_error (TrialNotJournaled (Some l) (JournalFault e))) \<and>
          (case run_trial H (mock_ops (os H)) (spec_for 70 (Fin 5) (Fin 80)) pl1 of
             (Inl (TrialNotJournaled None _), pl2) \<Rightarrow> current_value (mock_ops (os H)) pl2 = Some 10
           | _ \<Rightarrow> False)
      | _ \<Rightarrow> False))"

lemma without_os [simp]: "os (without_trials ns) = ''linux''"
  by (simp add: without_trials_def plain_host_def)

lemma opened_without:
  "opened (without_trials [3]) (gated_ops ''linux'') \<lparr>mock_value = 10\<rparr> new_file = Some gated_ten"
  "opened (without_trials [11, 12]) (mock_ops ''linux'') \<lparr>mock_value = 10\<rparr> new_file = Some ten"
  by (simp_all add: opened_def open_plane_def mock_defs gated_ops_def statement_def plain_host_def new_file_def
      at_ten_def tick_def Let_def without_trials_def)

lemma lost_record:
  "jclock (journal pl) \<in> set ns \<Longrightarrow> record_trial (without_trials ns) v pl =
     (Inl (JournalFault ''no such table: experiment_trials''), pl\<lparr>journal := tick (journal pl)\<rparr>)"
  by (simp add: record_trial_def insert_trial_def statement_def without_trials_def)

lemma refused_lost_test: "a_refused_lifecycle_reports_why_its_trial_could_not_be_journaled (without_trials [3])"
proof -
  note m = measured_ten(2) [unfolded measured_def]
  let ?d = "''only reversible mock capabilities are enabled''" and ?e = "''no such table: experiment_trials''"
  from refused_trial [OF m [THEN conjunct1] m [THEN conjunct2, THEN conjunct1]
      m [THEN conjunct2, THEN conjunct2] promoting_sel(1) refused_life]
  have run: "run_trial (without_trials [3]) (gated_ops ''linux'') (spec_for 40 (Fin 5) (Fin 80)) gated_ten =
      (Inl (LifecycleFailed None (Some (JournalFault ?e)) (PolicyDenied ?d)),
       gated_ten\<lparr>journal := tick (journal gated_ten)\<rparr>)"
    by (simp add: lost_record)
  let ?m = "show_runner_error (LifecycleFailed None (Some (JournalFault ?e)) (PolicyDenied ?d))"
  have "mentions ''failing to journal its trial'' ?m" "mentions ''experiment_trials'' ?m"
    by code_simp+
  then show ?thesis
    using run by (simp add: a_refused_lifecycle_reports_why_its_trial_could_not_be_journaled_def opened_without
        current_mock Let_def)
qed

lemma life_40_without:
  "\<exists>pl. run_lifecycle (without_trials [11, 12]) (mock_ops ''linux'') (target (spec_for 40 (Fin 5) (Fin 80))) ten =
     (Inr \<lparr>res_provider = ''mock'', res_preview = ''set mock.value from 10 to 40'', verified = True,
        rolled_back = True\<rparr>, pl) \<and>
     provider pl = \<lparr>mock_value = 10\<rparr> \<and> jclock (journal pl) = 11 \<and> manifest pl = mock_manifest ''linux'' \<lparr>mock_value = 10\<rparr>"
proof -
  have "(case run_lifecycle (without_trials [11, 12]) (mock_ops ''linux'') (target (spec_for 40 (Fin 5) (Fin 80))) ten of
      (r, pl) \<Rightarrow>
     r = (Inr \<lparr>res_provider = ''mock'', res_preview = ''set mock.value from 10 to 40'', verified = True,
        rolled_back = True\<rparr>) \<and>
     mock_value (provider pl) = 10 \<and> jclock (journal pl) = 11)"
    by code_simp
  then obtain pl where pl: "run_lifecycle (without_trials [11, 12]) (mock_ops ''linux'')
      (target (spec_for 40 (Fin 5) (Fin 80))) ten =
     (Inr \<lparr>res_provider = ''mock'', res_preview = ''set mock.value from 10 to 40'', verified = True,
        rolled_back = True\<rparr>, pl)" "mock_value (provider pl) = 10" "jclock (journal pl) = 11"
    by (auto split: prod.splits)
  have "manifest pl = manifest ten"
    using pl(1) by (cases rule: run_lifecycle_shape) (auto simp: grows_def)
  with pl show ?thesis by (auto simp: mock_ops_def)
qed

lemma lost_record_test: "a_lost_record_reports_the_lifecycle_the_promotion_had_already_run (without_trials [11, 12])"
proof -
  note m = measured_ten(1) [unfolded measured_def]
  let ?H = "without_trials [11, 12]" and ?P = "mock_ops ''linux''" and ?e = "''no such table: experiment_trials''"
  let ?x = "\<lparr>res_provider = ''mock'', res_preview = ''set mock.value from 10 to 40'', verified = True, rolled_back = True\<rparr>"
  obtain pl where pl: "run_lifecycle ?H ?P (target (spec_for 40 (Fin 5) (Fin 80))) ten = (Inr ?x, pl)"
    "provider pl = \<lparr>mock_value = 10\<rparr>" "jclock (journal pl) = 11" "manifest pl = mock_manifest ''linux'' \<lparr>mock_value = 10\<rparr>"
    using life_40_without by blast
  define pl1 where "pl1 = pl\<lparr>journal := tick (journal pl)\<rparr>"
  from completed_trial [OF m [THEN conjunct1] m [THEN conjunct2, THEN conjunct1]
      m [THEN conjunct2, THEN conjunct2] promoting_sel(1) pl(1)]
  have first: "run_trial ?H ?P (spec_for 40 (Fin 5) (Fin 80)) ten =
      (Inl (TrialNotJournaled (Some (outcome_of ?x)) (JournalFault ?e)), pl1)"
    by (simp add: lost_record pl(3) pl1_def)
  define s where "s = spec_for 70 (Fin 5) (Fin 80)"
  define v where "v = evaluate (measure_samples 10 (warmup_samples s) (baseline_samples s))
      (measure_samples 70 (warmup_samples s) (candidate_samples s)) (bounds s)"
  have v: "decision v = Reject"
    by (rule verdict_70; simp add: v_def s_def spec_for_def)+
  have g: "runner_validate (manifest pl1) s = Inr 70" by (simp add: s_def gate(2) pl(4) pl1_def)
  have b: "plane_baseline_value ?P pl1 = Inr 10"
    by (simp add: plane_baseline_value_def plane_snapshot_def mock_defs MAX_MOCK_VALUE_def pl1_def pl(2))
  have second: "run_trial ?H ?P s pl1 =
      (Inl (TrialNotJournaled None (JournalFault ?e)), pl1\<lparr>journal := tick (journal pl1)\<rparr>)"
    using rejected_trial [OF g b v_def v] pl(3) by (simp add: lost_record pl1_def)
  have "mentions ''completed the lifecycle'' (show_runner_error (TrialNotJournaled (Some (outcome_of ?x)) (JournalFault ?e)))"
    by code_simp
  then show ?thesis
    using first second pl(2)
    by (simp add: a_lost_record_reports_the_lifecycle_the_promotion_had_already_run_def opened_without s_def
        current_mock outcome_of_def pl1_def)
qed

subsection \<open>Trials that are refused before any measurement\<close>

text \<open>The trial is refused for a reason, no row is written and the provider keeps its value.\<close>

definition refused_untouched ::
  "json host \<Rightarrow> u64 \<Rightarrow> (runner_error \<Rightarrow> bool) \<Rightarrow> experiment_spec \<Rightarrow> bool" where
  "refused_untouched H value why s \<longleftrightarrow>
     (case opened H (mock_ops (os H)) \<lparr>mock_value = value\<rparr> new_file of
        None \<Rightarrow> False
      | Some pl \<Rightarrow>
     (case run_trial H (mock_ops (os H)) s pl of
        (Inr _, _) \<Rightarrow> False
      | (Inl e, pl1) \<Rightarrow> why e \<and> fst (trial_ids H pl1) = Inr [] \<and> current_value (mock_ops (os H)) pl1 = Some value))"

fun invalid_spec :: "runner_error \<Rightarrow> bool" where
  "invalid_spec (InvalidSpec _) = True" | "invalid_spec _ = False"

definition an_out_of_envelope_spec_is_refused_before_any_measurement :: "json host \<Rightarrow> bool" where
  "an_out_of_envelope_spec_is_refused_before_any_measurement H \<longleftrightarrow>
     refused_untouched H 10 invalid_spec ((spec_for 40 (Fin 5) (Fin 80))\<lparr>warmup_samples := - 1\<rparr>)"

definition a_candidate_outside_the_policy_bound_is_refused_before_any_measurement :: "json host \<Rightarrow> bool" where
  "a_candidate_outside_the_policy_bound_is_refused_before_any_measurement H \<longleftrightarrow>
     refused_untouched H 10 invalid_spec (spec_for (- 1) (Fin 5) (Fin 80))"

definition target_parameters_the_model_does_not_take_are_refused_before_any_measurement :: "json host \<Rightarrow> bool" where
  "target_parameters_the_model_does_not_take_are_refused_before_any_measurement H \<longleftrightarrow>
     (let s = spec_for 40 (Fin 5) (Fin 80) in
      refused_untouched H 10 (\<lambda>e. case e of InvalidSpec m \<Rightarrow> mentions ''pad'' m | _ \<Rightarrow> False)
        (s\<lparr>target := (target s)\<lparr>parameters :=
          obj [(''value'', num 40), (''pad'', Str (replicate 4096 CHR ''x''))]\<rparr>\<rparr>))"

definition a_lease_outside_the_policy_bound_is_refused_before_any_measurement :: "json host \<Rightarrow> bool" where
  "a_lease_outside_the_policy_bound_is_refused_before_any_measurement H \<longleftrightarrow>
     refused_untouched H 10 invalid_spec (spec_with_lease 40 (Fin 5) (Fin 80) (MAX_LEASE_SECONDS + 1)) \<and>
     (case opened H (mock_ops (os H)) \<lparr>mock_value = 10\<rparr> new_file of
        None \<Rightarrow> False
      | Some pl \<Rightarrow>
     (case run_trial H (mock_ops (os H)) (spec_with_lease 40 (Fin 5) (Fin 80) MAX_LEASE_SECONDS) pl of
        (Inl _, _) \<Rightarrow> False | (Inr trial, _) \<Rightarrow> decision (tr_verdict (st_record trial)) = Promote))"

definition a_baseline_outside_the_policy_bound_is_refused_before_any_measurement :: "json host \<Rightarrow> bool" where
  "a_baseline_outside_the_policy_bound_is_refused_before_any_measurement H \<longleftrightarrow>
     refused_untouched H (MAX_MOCK_VALUE + 1)
       (\<lambda>e. case e of BaselineOutOfPolicy v \<Rightarrow> v = MAX_MOCK_VALUE + 1 | _ \<Rightarrow> False) (spec_for 40 (Fin 5) (Fin 80))"

definition a_trial_targeting_an_unadvertised_capability_is_refused :: "json host \<Rightarrow> bool" where
  "a_trial_targeting_an_unadvertised_capability_is_refused H \<longleftrightarrow>
     (let s = spec_for 40 (Fin 5) (Fin 80) in
      refused_untouched H 10 (\<lambda>e. case e of RunControlPlane (UnknownCapability _) \<Rightarrow> True | _ \<Rightarrow> False)
        (s\<lparr>target := (target s)\<lparr>capability_id := ''gpu.core-clock-offset''\<rparr>\<rparr>))"

definition replaying_a_trial_that_was_never_recorded_fails_closed :: "json host \<Rightarrow> bool" where
  "replaying_a_trial_that_was_never_recorded_fails_closed H \<longleftrightarrow>
     (case opened H (mock_ops (os H)) \<lparr>mock_value = 10\<rparr> new_file of
        None \<Rightarrow> False
      | Some pl \<Rightarrow> (case fst (replay_trial H 404 pl) of Inl (RunControlPlane (UnknownTrial i)) \<Rightarrow> i = 404 | _ \<Rightarrow> False))"

lemma refused_untouchedI:
  assumes "case runner_validate (mock_manifest ''linux'' \<lparr>mock_value = 10\<rparr>) s of Inl e \<Rightarrow> why e | Inr _ \<Rightarrow> False"
  shows "refused_untouched plain_host 10 why s"
proof -
  from assms obtain e where e: "runner_validate (manifest ten) s = Inl e" "why e"
    by (auto simp: mock_ops_def split: sum.splits)
  then have "run_trial plain_host (mock_ops ''linux'') s ten = (Inl e, ten)" by (simp add: run_trial_def)
  moreover have "fst (trial_ids plain_host ten) = Inr []"
    by (simp add: trial_ids_def query_def statement_def plain_host_def)
  ultimately show ?thesis using e(2) by (simp add: refused_untouched_def opened_ten current_mock)
qed

lemmas gating = runner_validate_def mock_manifest_def spec_for_def spec_with_lease_def validate_spec_def
  validate_bounds_def check_ceiling_def spec_error_def MODELED_CAPABILITY_ID_def f64_is_finite_def zero_f64_def
  limits validate_counts_def spec_candidate_value_def

lemma short_number: "n < 10 ^ k \<Longrightarrow> 0 < k \<Longrightarrow> length (show_nat n) \<le> k"
proof (induction k arbitrary: n)
  case (Suc k)
  show ?case
  proof (cases "n < 10")
    case False
    then have "0 < k" using Suc.prems(1) by (cases k) auto
    moreover have "n div 10 < 10 ^ k" using Suc.prems(1) by (simp add: less_mult_imp_div_less mult.commute)
    ultimately show ?thesis using Suc.IH [of "n div 10"] False by (subst show_nat.simps) simp
  qed (subst show_nat.simps, simp)
qed simp

lemma short_hypothesis_for: "0 < char_count (hypothesis_for v)" "char_count (hypothesis_for v) \<le> 40"
proof -
  have "unat v < 2 ^ 64" using unsigned_less [of v] by simp
  then have "unat v < 10 ^ 20" by (rule less_le_trans) simp
  then have "length (show_nat (unat v)) \<le> 20" by (rule short_number) simp
  then have "char_count (show_nat (unat v)) \<le> 20"
    unfolding char_count_def using length_filter_le le_trans by blast
  then show "0 < char_count (hypothesis_for v)" "char_count (hypothesis_for v) \<le> 40"
    by (simp_all add: hypothesis_for_def char_count_def is_continuation_def byte_of_def)
qed

lemma refused_tests:
  "an_out_of_envelope_spec_is_refused_before_any_measurement plain_host"
  "a_candidate_outside_the_policy_bound_is_refused_before_any_measurement plain_host"
  "target_parameters_the_model_does_not_take_are_refused_before_any_measurement plain_host"
  "a_baseline_outside_the_policy_bound_is_refused_before_any_measurement plain_host"
  "a_trial_targeting_an_unadvertised_capability_is_refused plain_host"
  "replaying_a_trial_that_was_never_recorded_fails_closed plain_host"
proof -
  have h: "char_count (hypothesis_for v) \<noteq> 0" "\<not> 4096 < char_count (hypothesis_for v)" for v
    using short_hypothesis_for [of v] by simp_all
  show "an_out_of_envelope_spec_is_refused_before_any_measurement plain_host"
    unfolding an_out_of_envelope_spec_is_refused_before_any_measurement_def
    by (rule refused_untouchedI) (simp add: gating h Let_def)
  show "a_candidate_outside_the_policy_bound_is_refused_before_any_measurement plain_host"
    unfolding a_candidate_outside_the_policy_bound_is_refused_before_any_measurement_def
    by (rule refused_untouchedI) (simp add: gating h Let_def)
  have "validate_parameters (obj [(''value'', x), (''pad'', y)]) = Inl (InvalidSpec [Text ''target parameter '',
      Quoted ''pad'', Text (CHR '' '' # ''is not one '' @ MODELED_CAPABILITY_ID @ '' takes'')])" for x y
    by (simp add: validate_parameters_def obj_def as_object_def MODELED_PARAMETERS_def sorted_list_of_fset.rep_eq)
  then show "target_parameters_the_model_does_not_take_are_refused_before_any_measurement plain_host"
    unfolding target_parameters_the_model_does_not_take_are_refused_before_any_measurement_def Let_def
    by (intro refused_untouchedI) (simp add: gating h Let_def mentions_def)
  show "a_baseline_outside_the_policy_bound_is_refused_before_any_measurement plain_host"
    by code_simp
  show "a_trial_targeting_an_unadvertised_capability_is_refused plain_host"
    unfolding a_trial_targeting_an_unadvertised_capability_is_refused_def Let_def
    by (rule refused_untouchedI) (simp add: gating)
  show "replaying_a_trial_that_was_never_recorded_fails_closed plain_host"
    by code_simp
qed

lemma lease_test: "a_lease_outside_the_policy_bound_is_refused_before_any_measurement plain_host"
proof -
  have h: "char_count (hypothesis_for v) \<noteq> 0" "\<not> 4096 < char_count (hypothesis_for v)" for v
    using short_hypothesis_for [of v] by simp_all
  have "refused_untouched plain_host 10 invalid_spec (spec_with_lease 40 (Fin 5) (Fin 80) (MAX_LEASE_SECONDS + 1))"
    by (rule refused_untouchedI) (simp add: gating h Let_def)
  moreover
  let ?s = "spec_with_lease 40 (Fin 5) (Fin 80) MAX_LEASE_SECONDS"
  have "validate (manifest ten) (target ?s) = Inr ()"
    by (simp add: validate_def mock_ops_def mock_manifest_def spec_with_lease_def MAX_LEASE_SECONDS_def
        MAX_MOCK_VALUE_def)
  then obtain x pl where run: "run_lifecycle plain_host (mock_ops ''linux'') (target ?s) ten = (Inr x, pl)"
    using mock.lifecycle_succeeds [of plain_host ten "target ?s" "''linux''"]
    by (auto simp: max_experiment_def mock_accepts_def spec_with_lease_def)
  then have "jtable (journal pl)" "jtrials (journal pl) = []"
    by (cases rule: run_lifecycle_shape; simp add: grows_def)+
  moreover have "runner_validate (manifest ten) ?s = Inr 40" by (simp add: gate(3) mock_ops_def)
  ultimately show ?thesis
    using completed_trial [OF _ baseline_ten(1) _ promoting_sel(1) run] promoting_sel(1)
    by (simp add: a_lease_outside_the_policy_bound_is_refused_before_any_measurement_def opened_ten
        promoting_def spec_for_def plain_record trial_of_sel)
qed

subsection \<open>Replay from the journal alone\<close>

definition a_trial_replays_from_the_journal_alone_with_an_identical_verdict :: "json host \<Rightarrow> bool" where
  "a_trial_replays_from_the_journal_alone_with_an_identical_verdict H \<longleftrightarrow>
     (case opened H (mock_ops (os H)) \<lparr>mock_value = 10\<rparr> new_file of
        None \<Rightarrow> False
      | Some pl \<Rightarrow>
     (case run_trial H (mock_ops (os H)) (spec_for 40 (Fin 5) (Fin 80)) pl of
        (Inl _, _) \<Rightarrow> False
      | (Inr trial, pl1) \<Rightarrow>
     (case opened H (mock_ops (os H)) \<lparr>mock_value = 0\<rparr> (journal pl1) of
        None \<Rightarrow> False
      | Some replayed \<Rightarrow>
          (case fst (replay_trial H (st_id trial) replayed) of
             Inl _ \<Rightarrow> False
           | Inr r \<Rightarrow> is_consistent r \<and> recorded r = recomputed r \<and> decision (recomputed r) = Promote))))"

definition a_replay_does_not_depend_on_the_attached_provider :: "json host \<Rightarrow> bool" where
  "a_replay_does_not_depend_on_the_attached_provider H \<longleftrightarrow>
     (case opened H (mock_ops (os H)) \<lparr>mock_value = 10\<rparr> new_file of
        None \<Rightarrow> False
      | Some pl \<Rightarrow>
     (case run_trial H (mock_ops (os H)) (spec_for 40 (Fin 5) (Fin 80)) pl of
        (Inl _, _) \<Rightarrow> False
      | (Inr trial, pl1) \<Rightarrow>
     (case opened H (foreign_knob_ops (os H)) () (journal pl1) of
        None \<Rightarrow> False
      | Some archived \<Rightarrow>
          (case fst (replay_trial H (st_id trial) archived) of
             Inl _ \<Rightarrow> False | Inr r \<Rightarrow> is_consistent r \<and> policy_legal r) \<and>
          (case fst (run_trial H (foreign_knob_ops (os H)) (spec_for 40 (Fin 5) (Fin 80)) archived) of
             Inl (RunControlPlane (UnknownCapability _)) \<Rightarrow> True | _ \<Rightarrow> False))))"

definition mvp_one_measured_experiment_is_promoted_or_rejected_by_the_evaluator :: "json host \<Rightarrow> bool" where
  "mvp_one_measured_experiment_is_promoted_or_rejected_by_the_evaluator H \<longleftrightarrow>
     (case opened H (mock_ops (os H)) \<lparr>mock_value = 10\<rparr> new_file of
        None \<Rightarrow> False
      | Some pl \<Rightarrow>
     (case run_trial H (mock_ops (os H)) (spec_for 40 (Fin 5) (Fin 80)) pl of
        (Inl _, _) \<Rightarrow> False
      | (Inr trial, _) \<Rightarrow>
          (let r = st_record trial in
           decision (tr_verdict r) \<in> {Promote, Reject} \<and>
           evaluate (tr_baseline_samples r) (tr_candidate_samples r) (bounds (tr_spec r)) = tr_verdict r)))"

lemma reopened:
  assumes "jtable j"
  shows "\<exists>pl. opened plain_host (mock_ops ''linux'') p j = Some pl \<and> jtable (journal pl) \<and> jtrials (journal pl) = jtrials j"
    and "\<exists>pl. opened plain_host (foreign_knob_ops ''linux'') () j = Some pl \<and> jtable (journal pl) \<and>
      jtrials (journal pl) = jtrials j \<and> manifest pl = op_manifest (foreign_knob_ops ''linux'') ()"
  using assms
  by (simp_all add: opened_def open_plane_def mock_defs foreign_knob_ops_def statement_def plain_host_def tick_def Let_def)

lemma replay_tests:
  "a_trial_replays_from_the_journal_alone_with_an_identical_verdict plain_host"
  "a_replay_does_not_depend_on_the_attached_provider plain_host"
  "mvp_one_measured_experiment_is_promoted_or_rejected_by_the_evaluator plain_host"
proof -
  let ?s = "spec_for 40 (Fin 5) (Fin 80)" and ?P = "mock_ops ''linux''"
  obtain out pl where run: "run_trial plain_host ?P ?s ten = (Inr \<lparr>st_id = 1, st_record = trial_of ?s 10 40 promoting out\<rparr>, pl)"
    and tab: "jtable (journal pl)"
    and tr: "jtrials (journal pl) = [\<lparr>trial_id = 1, trial_payload = trial_json (trial_of ?s 10 40 promoting out)\<rparr>]"
    using promoted_ten by blast
  note replay = replay_of_record [OF _ measured_ten(1) spec_for_ok]
  have legal: "result_err (check_policy (trial_of ?s 10 40 promoting out)) = None"
    using stored_replay [OF plain_no_faults run spec_for_ok] replay [OF plain_reads(2) [OF tab tr]]
    by (auto simp: reads_back_def plain_host_def)
  obtain pl2 where "opened plain_host ?P \<lparr>mock_value = 0\<rparr> (journal pl) = Some pl2" "jtable (journal pl2)"
      "jtrials (journal pl2) = jtrials (journal pl)"
    using reopened(1) [OF tab] by blast
  then show "a_trial_replays_from_the_journal_alone_with_an_identical_verdict plain_host"
    using replay [of pl2 out] plain_reads(2) [of pl2] run tr promoting_sel(1)
    by (auto simp: a_trial_replays_from_the_journal_alone_with_an_identical_verdict_def opened_ten)
  obtain pl3 where pl3: "opened plain_host (foreign_knob_ops ''linux'') () (journal pl) = Some pl3"
      "jtable (journal pl3)" "jtrials (journal pl3) = jtrials (journal pl)"
      "manifest pl3 = op_manifest (foreign_knob_ops ''linux'') ()"
    using reopened(2) [OF tab] by blast
  have "fst (run_trial plain_host (foreign_knob_ops ''linux'') ?s pl3) = Inl (RunControlPlane (UnknownCapability ''mock.value''))"
    by (simp add: run_trial_def runner_validate_def pl3(4) foreign_knob_ops_def spec_for_def spec_with_lease_def)
  then show "a_replay_does_not_depend_on_the_attached_provider plain_host"
    using replay [of pl3 out] plain_reads(2) [of pl3] run tr legal pl3
    by (auto simp: a_replay_does_not_depend_on_the_attached_provider_def opened_ten)
  show "mvp_one_measured_experiment_is_promoted_or_rejected_by_the_evaluator plain_host"
    using run measured_ten(1) promoting_sel(1)
    by (simp add: mvp_one_measured_experiment_is_promoted_or_rejected_by_the_evaluator_def opened_ten trial_of_def
        measured_def)
qed

end
