(* ===== verification/Replay_Tests.thy ===== *)
theory Replay_Tests
  imports Trial_Tests
begin

section \<open>Replays of records that were tampered with (\<open>apps/experiment-runner/tests/integration.rs\<close>)\<close>

text \<open>
  The tests that append a rewritten record to the journal and replay it: a version or a shape the decoder
  refuses, and rewrites that reproduce the recorded verdict but that the policy gate refuses.  A rewrite
  of a payload is shown to be the payload of another record, and \<open>replay_of_row\<close> says what such a row
  replays to.
\<close>

subsection \<open>Records that were tampered with\<close>

text \<open>An assignment \<open>v[k] = w\<close>, which makes an object of a null and panics on other values.\<close>

definition object_field :: "string \<Rightarrow> json \<Rightarrow> json \<Rightarrow> json" where
  "object_field k w v = (case v of Obj m \<Rightarrow> Obj (fmupd k w m) | Null \<Rightarrow> obj [(k, w)] | _ \<Rightarrow> v)"

definition without_field :: "string \<Rightarrow> json \<Rightarrow> json" where
  "without_field k v = (case v of Obj m \<Rightarrow> Obj (fmdrop k m) | _ \<Rightarrow> v)"

text \<open>Each payload is appended in turn, and what its replay returns is judged.\<close>

fun appended_replays ::
  "'t host \<Rightarrow> ((runner_error, replay_outcome) result \<Rightarrow> bool) \<Rightarrow> json list \<Rightarrow> ('p, 't) plane \<Rightarrow> ('p, 't) plane option" where
  "appended_replays H ok [] pl = Some pl"
| "appended_replays H ok (v # vs) pl =
     (case record_trial H v pl of
        (Inl _, _) \<Rightarrow> None
      | (Inr i, pl1) \<Rightarrow> if ok (fst (replay_trial H i pl1)) then appended_replays H ok vs pl1 else None)"

text \<open>The promoted trial a test starts from, the payload it reads back, and the plane.\<close>

definition recorded_trial ::
  "json host \<Rightarrow> (stored_trial \<times> json \<times> (mock_provider, json) plane) option" where
  "recorded_trial H =
     (case opened H (mock_ops (os H)) \<lparr>mock_value = 10\<rparr> new_file of
        None \<Rightarrow> None
      | Some pl \<Rightarrow>
     (case run_trial H (mock_ops (os H)) (spec_for 40 (Fin 5) (Fin 80)) pl of
        (Inl _, _) \<Rightarrow> None
      | (Inr trial, pl1) \<Rightarrow>
          (case read_trial H (st_id trial) pl1 of (Inl _, _) \<Rightarrow> None | (Inr v, pl2) \<Rightarrow> Some (trial, v, pl2))))"

definition a_trial_record_without_a_readable_version_fails_closed :: "json host \<Rightarrow> bool" where
  "a_trial_record_without_a_readable_version_fails_closed H \<longleftrightarrow>
     (case recorded_trial H of
        None \<Rightarrow> False
      | Some (trial, v, pl) \<Rightarrow>
          appended_replays H (\<lambda>r. case r of Inl MalformedRecordVersion \<Rightarrow> True | _ \<Rightarrow> False)
            (map (\<lambda>w. object_field ''schema_version'' w v) [Null, Str ''one'', num 4294967296] @
             [without_field ''schema_version'' v]) pl \<noteq> None)"

definition a_trial_record_from_an_unsupported_version_fails_closed :: "json host \<Rightarrow> bool" where
  "a_trial_record_from_an_unsupported_version_fails_closed H \<longleftrightarrow>
     (case recorded_trial H of
        None \<Rightarrow> False
      | Some (trial, v, pl) \<Rightarrow>
          (let future = object_field ''schema_version'' (num 2) v in
           case appended_replays H (\<lambda>r. case r of Inl (UnsupportedRecordVersion n) \<Rightarrow> n = 2 | _ \<Rightarrow> False)
               [future, object_field ''verdict'' (Str ''promote'') future] pl of
             None \<Rightarrow> False
           | Some pl1 \<Rightarrow> (case fst (replay_trial H (st_id trial) pl1) of Inl _ \<Rightarrow> False | Inr r \<Rightarrow> is_consistent r)))"

definition a_trial_record_carrying_unknown_fields_fails_closed :: "json host \<Rightarrow> bool" where
  "a_trial_record_carrying_unknown_fields_fails_closed H \<longleftrightarrow>
     (case recorded_trial H of
        None \<Rightarrow> False
      | Some (trial, v, pl) \<Rightarrow>
          (case get ''verdict'' v of
             None \<Rightarrow> False
           | Some w \<Rightarrow>
               appended_replays H (\<lambda>r. case r of Inl (Decode _) \<Rightarrow> True | _ \<Rightarrow> False)
                 [object_field ''unexpected'' (Bool True) v,
                  object_field ''verdict'' (object_field ''unexpected'' (Bool True) w) v] pl \<noteq> None))"

lemma appended:
  assumes "jtable (journal pl)"
  shows "\<exists>i pl1 pl2. record_trial plain_host v pl = (Inr i, pl1) \<and> jtable (journal pl1) \<and>
    read_trial plain_host i pl1 = (Inr v, pl2) \<and>
    (\<forall>k w. fst (read_trial plain_host k pl) = Inr w \<longrightarrow> fst (read_trial plain_host k pl1) = Inr w)"
proof -
  obtain i pl1 where r: "record_trial plain_host v pl = (Inr i, pl1)"
    using assms by (auto simp: record_trial_def insert_trial_def statement_def plain_host_def Let_def)
  moreover have "fst (read_trial plain_host i pl1) = Inr v"
    using read_back_trial [OF plain_no_faults r] by (simp add: reads_back_def plain_host_def)
  moreover have "jtable (journal pl1) \<and>
      (\<forall>k w. fst (read_trial plain_host k pl) = Inr w \<longrightarrow> fst (read_trial plain_host k pl1) = Inr w)"
    using r assms by (auto simp: record_trial_def insert_trial_def read_trial_def query_def statement_def plain_host_def
        Let_def find_append split: option.splits)
  ultimately show ?thesis by (metis prod.collapse)
qed

lemma appended_replays_plain:
  fixes pl :: "('p, json) plane"
  assumes "jtable (journal pl)"
    and "\<forall>v\<in>set vs. \<forall>i (q :: ('p, json) plane) q'. read_trial plain_host i q = (Inr v, q') \<longrightarrow> ok (fst (replay_trial plain_host i q))"
  shows "\<exists>pl1. appended_replays plain_host ok vs pl = Some pl1 \<and> jtable (journal pl1) \<and>
    (\<forall>k w. fst (read_trial plain_host k pl) = Inr w \<longrightarrow> fst (read_trial plain_host k pl1) = Inr w)"
  using assms
proof (induction vs arbitrary: pl)
  case (Cons v vs)
  obtain i pl1 pl2 where a: "record_trial plain_host v pl = (Inr i, pl1)" "jtable (journal pl1)"
    "read_trial plain_host i pl1 = (Inr v, pl2)"
    "\<forall>k w. fst (read_trial plain_host k pl) = Inr w \<longrightarrow> fst (read_trial plain_host k pl1) = Inr w"
    using appended [OF Cons.prems(1), of v] by blast
  have "ok (fst (replay_trial plain_host i pl1))" using Cons.prems(2) a(3) by (meson list.set_intros(1))
  with Cons.IH [OF a(2)] Cons.prems(2) a(1,4) show ?case by auto
qed simp

lemma get_object_field: "is_object v \<Longrightarrow> get k (object_field k' w v) = (if k = k' then Some w else get k v)"
  by (auto simp: object_field_def get_def is_object_def as_object_def split: json.splits)

lemma get_without_field: "get k (without_field k v) = None"
  by (auto simp: without_field_def get_def split: json.splits)

lemma unknown_field: "is_object v \<Longrightarrow> k \<notin> set names \<Longrightarrow> struct_fields names (object_field k w v) = None"
  by (cases v) (simp_all add: object_field_def is_object_def as_object_def
      struct_fields_unknown [where k = k and v = w])

lemma struct_fields_get: "struct_fields names v = Some m \<Longrightarrow> get k' v = Some u \<Longrightarrow> fmlookup m k = get k v"
  by (auto simp: struct_fields_def struct_fields_from_def get_def split: json.splits if_splits)

lemma unreadable_trials:
  "is_object v \<Longrightarrow> trial_of_json (object_field ''unexpected'' w v) = None"
  "is_object v \<Longrightarrow> verdict_of_json (object_field ''unexpected'' w v) = None"
  "get ''verdict'' v = Some u \<Longrightarrow> verdict_of_json u = None \<Longrightarrow> trial_of_json v = None"
  by (simp_all add: trial_of_json_def verdict_of_json_def unknown_field)
    (auto simp: trial_of_json_def verdict_of_json_def req_def struct_fields_get split: Option.bind_split)

lemma replay_judges:
  assumes "read_trial plain_host i q = (Inr v, q')"
  shows "Option.bind (get ''schema_version'' v) dec_u32 = None \<Longrightarrow>
      fst (replay_trial plain_host i q) = Inl MalformedRecordVersion"
    and "Option.bind (get ''schema_version'' v) dec_u32 = Some n \<Longrightarrow> n \<noteq> TRIAL_RECORD_VERSION \<Longrightarrow>
      fst (replay_trial plain_host i q) = Inl (UnsupportedRecordVersion n)"
    and "Option.bind (get ''schema_version'' v) dec_u32 = Some TRIAL_RECORD_VERSION \<Longrightarrow> trial_of_json v = None \<Longrightarrow>
      fst (replay_trial plain_host i q) = Inl (Decode (shape_text plain_host v))"
  using assms by (simp_all add: replay_trial_def)

lemma bad_versions: "dec_u32 Null = None" "dec_u32 (Str s) = None" "dec_u32 (num 4294967296) = None"
  "dec_u32 (num 2) = Some 2" "dec_u32 (num 1) = Some TRIAL_RECORD_VERSION"
  by (simp_all add: dec_u32_def TRIAL_RECORD_VERSION_def)

lemma is_object_field: "is_object v \<Longrightarrow> is_object (object_field k w v)"
  by (auto simp: object_field_def is_object_def as_object_def split: json.splits)

definition promoted_record :: trial_record where
  "promoted_record = trial_of (spec_for 40 (Fin 5) (Fin 80)) 10 40 promoting
     (Some (Inr \<lparr>res_provider = ''mock'', res_preview = ''set mock.value from 10 to 40'', verified = True,
        rolled_back = True\<rparr>))"

lemma recorded_ten:
  "\<exists>pl. recorded_trial plain_host = Some (\<lparr>st_id = 1, st_record = promoted_record\<rparr>, trial_json promoted_record, pl) \<and>
     jtable (journal pl) \<and> fst (read_trial plain_host 1 pl) = Inr (trial_json promoted_record)"
proof -
  obtain pl where run: "run_trial plain_host (mock_ops ''linux'') (spec_for 40 (Fin 5) (Fin 80)) ten =
      (Inr \<lparr>st_id = 1, st_record = promoted_record\<rparr>, pl)" "jtable (journal pl)"
      "jtrials (journal pl) = [\<lparr>trial_id = 1, trial_payload = trial_json promoted_record\<rparr>]"
    using promoted_ten unfolding promoted_record_def by blast
  obtain pl2 where "read_trial plain_host 1 pl = (Inr (trial_json promoted_record), pl2)" "jtable (journal pl2)"
      "jtrials (journal pl2) = jtrials (journal pl)"
    using run(2,3) by (simp add: read_trial_def query_def statement_def plain_host_def)
  with run show ?thesis
    using plain_reads(2) [of pl2] by (auto simp: recorded_trial_def opened_ten)
qed

text \<open>A replay that reports a consistent trial the policy allows, or one it refuses for a reason.\<close>

definition legal_replay :: "(runner_error, replay_outcome) result \<Rightarrow> bool" where
  "legal_replay r \<longleftrightarrow> (case r of Inl _ \<Rightarrow> False
     | Inr x \<Rightarrow> is_consistent x \<and> policy_legal x \<and> policy_reason x = None)"

definition illegal_for :: "string \<Rightarrow> (runner_error, replay_outcome) result \<Rightarrow> bool" where
  "illegal_for w r \<longleftrightarrow> (case r of Inl _ \<Rightarrow> False
     | Inr x \<Rightarrow> is_consistent x \<and> \<not> policy_legal x \<and>
         (case policy_reason x of None \<Rightarrow> False | Some m \<Rightarrow> mentions w m))"

text \<open>A row whose record still evaluates to the verdict it carries replays to what the gate says of it.\<close>

lemma replay_of_row:
  assumes "trial_ok r" "schema_version r = TRIAL_RECORD_VERSION"
    and "evaluate (tr_baseline_samples r) (tr_candidate_samples r) (bounds (tr_spec r)) = tr_verdict r"
    and "fst (read_trial plain_host i q) = Inr (trial_json r)"
  shows "check_policy r = Inr () \<Longrightarrow> legal_replay (fst (replay_trial plain_host i q))"
    and "check_policy r = Inl e \<Longrightarrow> mentions w (show_runner_error e) \<Longrightarrow>
      illegal_for w (fst (replay_trial plain_host i q))"
proof -
  obtain q' where "read_trial plain_host i q = (Inr (trial_json r), q')"
    using assms(4) by (cases "read_trial plain_host i q") auto
  moreover have "Option.bind (get ''schema_version'' (trial_json r)) dec_u32 = Some TRIAL_RECORD_VERSION"
    using assms(2) by (simp add: trial_json_def)
  moreover have "verdict_eq (tr_verdict r) (tr_verdict r)"
    using assms(1) by (simp add: trial_ok_def verdict_eq_refl)
  moreover note trial_format.dec_enc [OF assms(1)] assms(3)
  ultimately show "check_policy r = Inr () \<Longrightarrow> legal_replay (fst (replay_trial plain_host i q))"
    and "check_policy r = Inl e \<Longrightarrow> mentions w (show_runner_error e) \<Longrightarrow>
      illegal_for w (fst (replay_trial plain_host i q))"
    by (simp_all add: replay_trial_def Let_def is_consistent_def legal_replay_def illegal_for_def)
qed

lemma promoted_sel:
  "schema_version promoted_record = TRIAL_RECORD_VERSION" "tr_spec promoted_record = spec_for 40 (Fin 5) (Fin 80)"
  "baseline_value promoted_record = 10" "candidate_value promoted_record = 40"
  "tr_baseline_samples promoted_record = measure_samples 10 2 5"
  "tr_candidate_samples promoted_record = measure_samples 40 2 5" "tr_verdict promoted_record = promoting"
  "lifecycle promoted_record = Some \<lparr>lo_provider = ''mock'', lo_preview = ''set mock.value from 10 to 40'',
     lo_verified = True, lo_rolled_back = True\<rparr>"
  "lifecycle_error promoted_record = None"
  by (simp_all add: promoted_record_def trial_of_def spec_for_def outcome_cases outcome_of_def)

lemma five_samples: "length (measure_samples 10 2 5) = 5" "length (measure_samples 40 2 5) = 5"
  by (simp_all add: steady_measure sample_at_policy)

lemma promoted_ok: "trial_ok promoted_record" "check_policy promoted_record = Inr ()"
  "evaluate (tr_baseline_samples promoted_record) (tr_candidate_samples promoted_record) (bounds (tr_spec promoted_record)) =
     tr_verdict promoted_record"
proof -
  show "trial_ok promoted_record"
    using trial_of_ok [OF measured_ten(1) spec_for_ok] by (simp add: promoted_record_def)
  have "validate_spec (spec_for 40 (Fin 5) (Fin 80)) = Inr 40"
    using gate(1) [of "\<lparr>mock_value = 0\<rparr>"] by (auto simp: runner_validate_def split: if_splits)
  then show "check_policy promoted_record = Inr ()"
    using promoting_sel(1) five_samples by (simp add: check_policy_def promoted_sel spec_for_def MAX_MOCK_VALUE_def
        holds_declared_count_def)
  show "evaluate (tr_baseline_samples promoted_record) (tr_candidate_samples promoted_record) (bounds (tr_spec promoted_record)) =
     tr_verdict promoted_record"
    by (simp add: promoted_sel promoting_def)
qed

lemma promoted_replays:
  "fst (read_trial plain_host i q) = Inr (trial_json promoted_record) \<Longrightarrow>
     legal_replay (fst (replay_trial plain_host i q))"
  using replay_of_row(1) [OF promoted_ok(1) promoted_sel(1) promoted_ok(3)] promoted_ok(2) by blast

lemma verdict_object: "is_object (verdict_json v)"
  by (simp add: verdict_json_def)

lemma tampered_tests:
  "a_trial_record_without_a_readable_version_fails_closed plain_host"
  "a_trial_record_from_an_unsupported_version_fails_closed plain_host"
  "a_trial_record_carrying_unknown_fields_fails_closed plain_host"
proof -
  obtain pl where rec: "recorded_trial plain_host = Some (\<lparr>st_id = 1, st_record = promoted_record\<rparr>, trial_json promoted_record, pl)"
    "jtable (journal pl)" "fst (read_trial plain_host 1 pl) = Inr (trial_json promoted_record)"
    using recorded_ten by blast
  have v: "is_object (trial_json promoted_record)" "get ''schema_version'' (trial_json promoted_record) = Some (num 1)"
    "get ''verdict'' (trial_json promoted_record) = Some (verdict_json promoting)"
    by (simp_all add: trial_json_def promoted_record_def trial_of_def TRIAL_RECORD_VERSION_def enc_u32_def)
  note fields = v get_object_field get_without_field is_object_field bad_versions
  note all = appended_replays_plain [OF rec(2)]
  let ?u = "map (\<lambda>w. object_field ''schema_version'' w (trial_json promoted_record)) [Null, Str ''one'', num 4294967296] @
      [without_field ''schema_version'' (trial_json promoted_record)]"
  have "\<forall>w\<in>set ?u. Option.bind (get ''schema_version'' w) dec_u32 = None"
    by (simp add: fields)
  then have "\<exists>pl1. appended_replays plain_host (\<lambda>r. case r of Inl MalformedRecordVersion \<Rightarrow> True | _ \<Rightarrow> False) ?u pl = Some pl1"
    using all [of ?u "\<lambda>r. case r of Inl MalformedRecordVersion \<Rightarrow> True | _ \<Rightarrow> False"] replay_judges(1) by fastforce
  then show "a_trial_record_without_a_readable_version_fails_closed plain_host"
    unfolding a_trial_record_without_a_readable_version_fails_closed_def rec(1) by auto
  let ?f = "object_field ''schema_version'' (num 2) (trial_json promoted_record)"
  let ?w = "[?f, object_field ''verdict'' (Str ''promote'') ?f]"
  have "\<forall>w\<in>set ?w. Option.bind (get ''schema_version'' w) dec_u32 = Some 2"
    by (simp add: fields)
  then have "\<forall>w\<in>set ?w. \<forall>i (q :: (mock_provider, json) plane) q'. read_trial plain_host i q = (Inr w, q') \<longrightarrow>
      fst (replay_trial plain_host i q) = Inl (UnsupportedRecordVersion 2)"
    using replay_judges(2) [where n = 2] unfolding TRIAL_RECORD_VERSION_def by fastforce
  then have "\<forall>w\<in>set ?w. \<forall>i (q :: (mock_provider, json) plane) q'. read_trial plain_host i q = (Inr w, q') \<longrightarrow>
      (case fst (replay_trial plain_host i q) of Inl (UnsupportedRecordVersion n) \<Rightarrow> n = 2 | _ \<Rightarrow> False)"
    by simp
  from all [OF this] rec(3) obtain pl1 where "appended_replays plain_host
      (\<lambda>r. case r of Inl (UnsupportedRecordVersion n) \<Rightarrow> n = 2 | _ \<Rightarrow> False) ?w pl = Some pl1"
      "fst (read_trial plain_host 1 pl1) = Inr (trial_json promoted_record)"
    by blast
  then show "a_trial_record_from_an_unsupported_version_fails_closed plain_host"
    using promoted_replays [of 1 pl1]
    by (auto simp: a_trial_record_from_an_unsupported_version_fails_closed_def rec(1) Let_def legal_replay_def
        simp del: appended_replays.simps split: sum.splits)
  let ?t = "[object_field ''unexpected'' (Bool True) (trial_json promoted_record),
      object_field ''verdict'' (object_field ''unexpected'' (Bool True) (verdict_json promoting)) (trial_json promoted_record)]"
  have "\<forall>w\<in>set ?t. Option.bind (get ''schema_version'' w) dec_u32 = Some TRIAL_RECORD_VERSION \<and> trial_of_json w = None"
    using unreadable_trials(3) [of _ "object_field ''unexpected'' (Bool True) (verdict_json promoting)"]
    by (simp add: fields unreadable_trials(1,2) verdict_object)
  then have "\<exists>pl1. appended_replays plain_host (\<lambda>r. case r of Inl (Decode _) \<Rightarrow> True | _ \<Rightarrow> False) ?t pl = Some pl1"
    using all [of ?t "\<lambda>r. case r of Inl (Decode _) \<Rightarrow> True | _ \<Rightarrow> False"] replay_judges(3) by fastforce
  then show "a_trial_record_carrying_unknown_fields_fails_closed plain_host"
    unfolding a_trial_record_carrying_unknown_fields_fails_closed_def rec(1) by (auto simp: v(3))
qed

subsection \<open>Records the policy gate would refuse\<close>

text \<open>An assignment through a path of keys, \<open>v[k1][k2] = w\<close>.\<close>

fun with_field :: "string list \<Rightarrow> json \<Rightarrow> json \<Rightarrow> json" where
  "with_field [] w v = w"
| "with_field (k # ks) w v = object_field k (with_field ks w (case get k v of None \<Rightarrow> Null | Some u \<Rightarrow> u)) v"

text \<open>Each rewrite is appended in turn, and must replay as illegal for the reason it comes with.\<close>

fun illegal_replays :: "'t host \<Rightarrow> (string \<times> json) list \<Rightarrow> ('p, 't) plane \<Rightarrow> ('p, 't) plane option" where
  "illegal_replays H [] pl = Some pl"
| "illegal_replays H ((w, v) # rows) pl =
     (case appended_replays H (illegal_for w) [v] pl of None \<Rightarrow> None | Some pl1 \<Rightarrow> illegal_replays H rows pl1)"

definition a_replay_reports_bounds_outside_the_policy_envelope :: "json host \<Rightarrow> bool" where
  "a_replay_reports_bounds_outside_the_policy_envelope H \<longleftrightarrow>
     (case recorded_trial H of
        None \<Rightarrow> False
      | Some (trial, v, pl) \<Rightarrow>
     (case illegal_replays H
         [(''max_temperature_c'', with_field [''spec'', ''bounds'', ''max_temperature_c''] (enc_f64 (Fin 200)) v)] pl of
        None \<Rightarrow> False
      | Some pl1 \<Rightarrow> legal_replay (fst (replay_trial H (st_id trial) pl1))))"

definition rewrites_the_policy_gate_refuses :: "json \<Rightarrow> (string \<times> json) list" where
  "rewrites_the_policy_gate_refuses v =
     [(''unknown capability'', with_field [''spec'', ''target'', ''capability_id''] (Str ''gpu.core-clock-offset'') v),
      (''target value'', with_field [''candidate_value''] (num (MAX_MOCK_VALUE + 1))
         (with_field [''spec'', ''target'', ''parameters'', ''value''] (num (MAX_MOCK_VALUE + 1)) v)),
      (''lease_seconds'', with_field [''spec'', ''target'', ''lease_seconds''] (num (MAX_LEASE_SECONDS + 1)) v),
      (''pad'', with_field [''spec'', ''target'', ''parameters'', ''pad''] (Str (replicate 4096 (CHR ''x''))) v),
      (''hypothesis'', with_field [''spec'', ''hypothesis'']
         (Str (replicate (unat MAX_HYPOTHESIS_CHARS + 1) (CHR ''x''))) v),
      (''hypothesis'', with_field [''spec'', ''hypothesis''] (Str []) v),
      (''candidate_value'', with_field [''candidate_value''] (num 41) v),
      (''baseline_value'', with_field [''baseline_value''] (num (MAX_MOCK_VALUE + 1)) v),
      (''candidate_samples'', with_field [''spec'', ''candidate_samples''] (num 4) v)]"

definition a_replay_reports_a_record_the_policy_gate_would_refuse :: "json host \<Rightarrow> bool" where
  "a_replay_reports_a_record_the_policy_gate_would_refuse H \<longleftrightarrow>
     (case recorded_trial H of
        None \<Rightarrow> False
      | Some (trial, v, pl) \<Rightarrow>
     (case illegal_replays H (rewrites_the_policy_gate_refuses v) pl of
        None \<Rightarrow> False
      | Some pl1 \<Rightarrow> legal_replay (fst (replay_trial H (st_id trial) pl1))))"

lemma object_field_obj: "object_field k w (obj kvs) = obj (AList.update k w kvs)"
  by (simp add: object_field_def obj_def) (rule fmap_ext, simp add: fmlookup_of_list update_conv)

text \<open>A row that its gate refuses: it still evaluates to its verdict, and the gate's message mentions \<open>w\<close>.\<close>

definition refused_record :: "string \<Rightarrow> trial_record \<Rightarrow> bool" where
  "refused_record w r \<longleftrightarrow> trial_ok r \<and> schema_version r = TRIAL_RECORD_VERSION \<and>
     evaluate (tr_baseline_samples r) (tr_candidate_samples r) (bounds (tr_spec r)) = tr_verdict r \<and>
     (\<exists>e. check_policy r = Inl e \<and> mentions w (show_runner_error e))"

lemma illegal_replays_plain:
  fixes pl :: "('p, json) plane"
  assumes "jtable (journal pl)" "\<forall>(w, r)\<in>set rows. refused_record w r"
  shows "\<exists>pl1. illegal_replays plain_host (map (apsnd trial_json) rows) pl = Some pl1 \<and> jtable (journal pl1) \<and>
    (\<forall>k w. fst (read_trial plain_host k pl) = Inr w \<longrightarrow> fst (read_trial plain_host k pl1) = Inr w)"
  using assms
proof (induction rows arbitrary: pl)
  case (Cons row rows)
  obtain w r where row: "row = (w, r)" by fastforce
  then have "refused_record w r" using Cons.prems(2) by simp
  then have "illegal_for w (fst (replay_trial plain_host i q))"
    if "read_trial plain_host i q = (Inr (trial_json r), q')" for i q' and q :: "('p, json) plane"
    using replay_of_row(2) [of r i q] that by (auto simp: refused_record_def)
  then obtain pl1 where "appended_replays plain_host (illegal_for w) [trial_json r] pl = Some pl1" "jtable (journal pl1)"
      "\<forall>k w. fst (read_trial plain_host k pl) = Inr w \<longrightarrow> fst (read_trial plain_host k pl1) = Inr w"
    using appended_replays_plain [OF Cons.prems(1), of "[trial_json r]" "illegal_for w"] by auto
  with Cons.IH [of pl1] Cons.prems(2) row show ?case
    by (auto simp del: appended_replays.simps)
qed simp

lemmas rewriting = trial_json_def spec_json_def change_json_def bounds_json_def object_field_obj

text \<open>Each rewrite of a recorded trial is the payload of another record.\<close>

lemma rewritten_fields:
  "with_field [''candidate_value''] (num n) (trial_json r) = trial_json (r\<lparr>candidate_value := n\<rparr>)"
  "with_field [''baseline_value''] (num n) (trial_json r) = trial_json (r\<lparr>baseline_value := n\<rparr>)"
  "with_field [''spec'', ''hypothesis''] (Str h) (trial_json r) =
     trial_json (r\<lparr>tr_spec := (tr_spec r)\<lparr>hypothesis := h\<rparr>\<rparr>)"
  "with_field [''spec'', ''candidate_samples''] (num 4) (trial_json r) =
     trial_json (r\<lparr>tr_spec := (tr_spec r)\<lparr>candidate_samples := 4\<rparr>\<rparr>)"
  "with_field [''spec'', ''bounds'', ''max_temperature_c''] (enc_f64 x) (trial_json r) =
     trial_json (r\<lparr>tr_spec := (tr_spec r)\<lparr>bounds := (bounds (tr_spec r))\<lparr>max_temperature_c := x\<rparr>\<rparr>\<rparr>)"
  by (simp_all add: rewriting enc_u32_def)

lemma rewritten_target:
  "with_field [''spec'', ''target'', ''capability_id''] (Str i) (trial_json r) =
     trial_json (r\<lparr>tr_spec := (tr_spec r)\<lparr>target := (target (tr_spec r))\<lparr>capability_id := i\<rparr>\<rparr>\<rparr>)"
  "with_field [''spec'', ''target'', ''lease_seconds''] (num n) (trial_json r) =
     trial_json (r\<lparr>tr_spec := (tr_spec r)\<lparr>target := (target (tr_spec r))\<lparr>lease_seconds := n\<rparr>\<rparr>\<rparr>)"
  "with_field [''spec'', ''target'', ''parameters'', k] w (trial_json r) =
     trial_json (r\<lparr>tr_spec := (tr_spec r)\<lparr>target := (target (tr_spec r))
       \<lparr>parameters := object_field k w (parameters (target (tr_spec r)))\<rparr>\<rparr>\<rparr>)"
  by (simp_all add: rewriting)

lemma one_promotion:
  "decision (evaluate bs cs b) = Promote \<Longrightarrow> decision (evaluate bs cs b') = Promote \<Longrightarrow>
     evaluate bs cs b = evaluate bs cs b'"
  by (auto simp: evaluate_def Let_def split: if_splits)

lemma widened_promotes:
  "evaluate (measure_samples 10 2 5) (measure_samples 40 2 5) ((bounds (spec_for 40 (Fin 5) (Fin 80)))\<lparr>max_temperature_c := Fin 200\<rparr>) =
     promoting"
proof -
  have m: "measure_samples 10 2 5 = replicate 5 (steady 10)" "measure_samples 40 2 5 = replicate 5 (steady 40)"
    by (simp_all add: steady_measure sample_at_policy)
  have "decision (evaluate (measure_samples 10 2 5) (measure_samples 40 2 5)
      ((bounds (spec_for 40 (Fin 5) (Fin 80)))\<lparr>max_temperature_c := Fin 200\<rparr>)) = Promote"
    using policy_verdict [OF _ _ _ _ _ _ refl, of 10 40 5 5] unfolding m by (simp add: spec_for_def)
  then show ?thesis
    using one_promotion promoting_sel(1) unfolding promoting_def by blast
qed

lemma spec_40_sel [simp]:
  "target (spec_for 40 (Fin 5) (Fin 80)) = \<lparr>capability_id = ''mock.value'', parameters = obj [(''value'', num 40)], lease_seconds = 30\<rparr>"
  "warmup_samples (spec_for 40 (Fin 5) (Fin 80)) = 2" "baseline_samples (spec_for 40 (Fin 5) (Fin 80)) = 5"
  "candidate_samples (spec_for 40 (Fin 5) (Fin 80)) = 5" "hypothesis (spec_for 40 (Fin 5) (Fin 80)) = hypothesis_for 40"
  "bounds (spec_for 40 (Fin 5) (Fin 80)) = \<lparr>min_samples = 3, min_fps_improvement = Fin 5, max_temperature_c = Fin 80,
     max_power_w = Fin 200, max_errors = 0\<rparr>"
  by (simp_all add: spec_for_def spec_with_lease_def)

lemma refused_rows:
  assumes "\<forall>(w, r)\<in>set rows. refused_record w r"
  shows "\<exists>pl pl1. recorded_trial plain_host = Some (\<lparr>st_id = 1, st_record = promoted_record\<rparr>, trial_json promoted_record, pl) \<and>
    illegal_replays plain_host (map (apsnd trial_json) rows) pl = Some pl1 \<and>
    legal_replay (fst (replay_trial plain_host 1 pl1))"
proof -
  obtain pl where rec: "recorded_trial plain_host = Some (\<lparr>st_id = 1, st_record = promoted_record\<rparr>, trial_json promoted_record, pl)"
    "jtable (journal pl)" "fst (read_trial plain_host 1 pl) = Inr (trial_json promoted_record)"
    using recorded_ten by blast
  then show ?thesis
    using illegal_replays_plain [OF rec(2) assms] promoted_replays by blast
qed

lemma bounds_replay_test: "a_replay_reports_bounds_outside_the_policy_envelope plain_host"
proof -
  let ?s = "(spec_for 40 (Fin 5) (Fin 80))\<lparr>bounds := (bounds (spec_for 40 (Fin 5) (Fin 80)))\<lparr>max_temperature_c := Fin 200\<rparr>\<rparr>"
  have "\<exists>e. validate_spec ?s = Inl e \<and> mentions ''max_temperature_c'' (show_runner_error e)"
    by (simp add: gating mentions_def)
  then have "refused_record ''max_temperature_c'' (promoted_record\<lparr>tr_spec := ?s\<rparr>)"
    using widened_promotes promoted_ok(1) spec_for_ok [of 40]
    by (auto simp: refused_record_def trial_ok_def promoted_sel check_policy_def spec_ok_def bounds_ok_def f64_is_finite_def)
  then show ?thesis
    using refused_rows [of "[(''max_temperature_c'', promoted_record\<lparr>tr_spec := ?s\<rparr>)]"]
    by (auto simp: a_replay_reports_bounds_outside_the_policy_envelope_def rewritten_fields(5) promoted_sel(2)
        simp del: with_field.simps illegal_replays.simps)
qed

definition gate_rewrites :: "(string \<times> trial_record) list" where
  "gate_rewrites =
     (let s = spec_for 40 (Fin 5) (Fin 80); c = target s; r = promoted_record in
      [(''unknown capability'', r\<lparr>tr_spec := s\<lparr>target := c\<lparr>capability_id := ''gpu.core-clock-offset''\<rparr>\<rparr>\<rparr>),
       (''target value'', r\<lparr>tr_spec := s\<lparr>target := c\<lparr>parameters := obj [(''value'', num 101)]\<rparr>\<rparr>, candidate_value := 101\<rparr>),
       (''lease_seconds'', r\<lparr>tr_spec := s\<lparr>target := c\<lparr>lease_seconds := 301\<rparr>\<rparr>\<rparr>),
       (''pad'', r\<lparr>tr_spec := s\<lparr>target := c\<lparr>parameters := obj [(''value'', num 40),
          (''pad'', Str (replicate 4096 (CHR ''x'')))]\<rparr>\<rparr>\<rparr>),
       (''hypothesis'', r\<lparr>tr_spec := s\<lparr>hypothesis := replicate 4097 (CHR ''x'')\<rparr>\<rparr>),
       (''hypothesis'', r\<lparr>tr_spec := s\<lparr>hypothesis := []\<rparr>\<rparr>),
       (''candidate_value'', r\<lparr>candidate_value := 41\<rparr>),
       (''baseline_value'', r\<lparr>baseline_value := 101\<rparr>),
       (''candidate_samples'', r\<lparr>tr_spec := s\<lparr>candidate_samples := 4\<rparr>\<rparr>)])"

lemma gate_rewrites_json:
  "rewrites_the_policy_gate_refuses (trial_json promoted_record) = map (apsnd trial_json) gate_rewrites"
  by (simp add: rewrites_the_policy_gate_refuses_def gate_rewrites_def Let_def rewritten_fields rewritten_target
      promoted_sel limits object_field_obj del: with_field.simps)

lemma refused_recordI:
  assumes "schema_version r = TRIAL_RECORD_VERSION" "tr_verdict r = promoting"
    and "tr_baseline_samples r = measure_samples 10 2 5" "tr_candidate_samples r = measure_samples 40 2 5"
    and "bounds (tr_spec r) = bounds (spec_for 40 (Fin 5) (Fin 80))" "spec_ok (tr_spec r)"
    and "\<exists>e. check_policy r = Inl e \<and> mentions w (show_runner_error e)"
  shows "refused_record w r"
  using assms promoted_ok(1) by (simp add: refused_record_def trial_ok_def promoted_sel promoting_def)

lemma gate_rewrites_refused: "\<forall>(w, r)\<in>set gate_rewrites. refused_record w r"
proof -
  have h: "char_count (hypothesis_for v) \<noteq> 0" "\<not> 4096 < char_count (hypothesis_for v)" for v
    using short_hypothesis_for [of v] by simp_all
  have x: "char_count (replicate n (CHR ''x'')) = n" for n
    by (induction n) (simp_all add: char_count_def is_continuation_def byte_of_def)
  have nil: "char_count [] = 0" by (simp add: char_count_def)
  have pad: "validate_parameters (obj [(''value'', x), (''pad'', y)]) = Inl (InvalidSpec [Text ''target parameter '',
      Quoted ''pad'', Text (CHR '' '' # ''is not one '' @ MODELED_CAPABILITY_ID @ '' takes'')])" for x y
    by (simp add: validate_parameters_def obj_def as_object_def MODELED_PARAMETERS_def sorted_list_of_fset.rep_eq)
  have ok: "spec_ok (spec_for 40 (Fin 5) (Fin 80))" by (rule spec_for_ok)
  show ?thesis
    unfolding gate_rewrites_def Let_def
    by (simp, intro conjI refused_recordI)
      (simp_all add: promoted_sel spec_ok_def change_ok_def bounds_ok_def f64_is_finite_def
        check_policy_def gating h x nil pad mentions_def five_samples holds_declared_count_def record_error_def Let_def)
qed

lemma gate_replay_test: "a_replay_reports_a_record_the_policy_gate_would_refuse plain_host"
  using refused_rows [OF gate_rewrites_refused]
  by (auto simp: a_replay_reports_a_record_the_policy_gate_would_refuse_def gate_rewrites_json
      simp del: illegal_replays.simps)

subsection \<open>Lifecycle fields that contradict the verdict\<close>

definition a_replay_reports_lifecycle_fields_that_contradict_the_verdict :: "json host \<Rightarrow> bool" where
  "a_replay_reports_lifecycle_fields_that_contradict_the_verdict H \<longleftrightarrow>
     (case opened H (mock_ops (os H)) \<lparr>mock_value = 10\<rparr> new_file of
        None \<Rightarrow> False
      | Some pl \<Rightarrow>
     (case run_trial H (mock_ops (os H)) (spec_for 40 (Fin 5) (Fin 80)) pl of
        (Inl _, _) \<Rightarrow> False
      | (Inr promoted, pl1) \<Rightarrow>
     (case run_trial H (mock_ops (os H)) (spec_for 70 (Fin 5) (Fin 80)) pl1 of
        (Inl _, _) \<Rightarrow> False
      | (Inr rejected, pl2) \<Rightarrow> decision (tr_verdict (st_record rejected)) = Reject \<and>
     (case read_trial H (st_id promoted) pl2 of
        (Inl _, _) \<Rightarrow> False
      | (Inr p, pl3) \<Rightarrow>
     (case read_trial H (st_id rejected) pl3 of
        (Inl _, _) \<Rightarrow> False
      | (Inr r, pl4) \<Rightarrow>
     (case illegal_replays H
         [(''lifecycle'', with_field [''lifecycle''] Null p),
          (''lifecycle'', with_field [''lifecycle''] (obj [(''provider_id'', Str ''mock''),
             (''preview'', Str ''set value to 70''), (''verified'', Bool True), (''rolled_back'', Bool True)]) r),
          (''lifecycle'', with_field [''lifecycle'', ''rolled_back''] (Bool False) p),
          (''lifecycle'', with_field [''lifecycle'', ''verified''] (Bool False) p)] pl4 of
        None \<Rightarrow> False
      | Some pl5 \<Rightarrow> legal_replay (fst (replay_trial H (st_id promoted) pl5)) \<and>
          legal_replay (fst (replay_trial H (st_id rejected) pl5))))))))"

definition rejecting_70 :: verdict where
  "rejecting_70 = evaluate (measure_samples 10 2 5) (measure_samples 70 2 5) (bounds (spec_for 70 (Fin 5) (Fin 80)))"

definition rejected_record :: trial_record where
  "rejected_record = trial_of (spec_for 70 (Fin 5) (Fin 80)) 10 70 rejecting_70 None"

lemma rejecting_sel: "decision rejecting_70 = Reject"
  by (rule verdict_70(1)) (simp add: rejecting_70_def spec_for_def)

lemma rejected_sel:
  "schema_version rejected_record = TRIAL_RECORD_VERSION" "tr_spec rejected_record = spec_for 70 (Fin 5) (Fin 80)"
  "baseline_value rejected_record = 10" "candidate_value rejected_record = 70"
  "tr_baseline_samples rejected_record = measure_samples 10 2 5"
  "tr_candidate_samples rejected_record = measure_samples 70 2 5" "tr_verdict rejected_record = rejecting_70"
  "lifecycle rejected_record = None" "lifecycle_error rejected_record = None"
  by (simp_all add: rejected_record_def trial_of_def spec_for_def outcome_cases)

lemma measured_70:
  assumes "manifest pl = manifest ten" "provider pl = \<lparr>mock_value = 10\<rparr>"
  shows "measured (mock_ops ''linux'') (spec_for 70 (Fin 5) (Fin 80)) pl 10 70 rejecting_70"
proof -
  have "plane_baseline_value (mock_ops ''linux'') pl = Inr 10"
    using assms(2) by (simp add: plane_baseline_value_def plane_snapshot_def mock_defs MAX_MOCK_VALUE_def)
  moreover have "runner_validate (manifest pl) (spec_for 70 (Fin 5) (Fin 80)) = Inr 70"
    using assms(1) gate(2) by (simp add: mock_ops_def)
  ultimately show ?thesis by (simp add: measured_def rejecting_70_def spec_for_def)
qed

lemma rejected_ok: "trial_ok rejected_record" "check_policy rejected_record = Inr ()"
  "evaluate (tr_baseline_samples rejected_record) (tr_candidate_samples rejected_record) (bounds (tr_spec rejected_record)) =
     tr_verdict rejected_record"
proof -
  show "trial_ok rejected_record"
    using trial_of_ok [OF measured_70 spec_for_ok, of ten] by (simp add: rejected_record_def)
  have "validate_spec (spec_for 70 (Fin 5) (Fin 80)) = Inr 70"
    using gate(2) [of "\<lparr>mock_value = 0\<rparr>"] by (auto simp: runner_validate_def split: if_splits)
  moreover have "length (measure_samples 70 2 5) = 5"
    by (simp add: steady_measure sample_at_policy)
  ultimately show "check_policy rejected_record = Inr ()"
    using rejecting_sel five_samples by (simp add: check_policy_def rejected_sel spec_for_def MAX_MOCK_VALUE_def
        holds_declared_count_def)
qed (simp add: rejected_sel rejecting_70_def)

lemma two_trials:
  "\<exists>pl1 pl2. run_trial plain_host (mock_ops ''linux'') (spec_for 40 (Fin 5) (Fin 80)) ten =
       (Inr \<lparr>st_id = 1, st_record = promoted_record\<rparr>, pl1) \<and>
     run_trial plain_host (mock_ops ''linux'') (spec_for 70 (Fin 5) (Fin 80)) pl1 =
       (Inr \<lparr>st_id = 2, st_record = rejected_record\<rparr>, pl2) \<and>
     jtable (journal pl2) \<and> fst (read_trial plain_host 1 pl2) = Inr (trial_json promoted_record) \<and>
     fst (read_trial plain_host 2 pl2) = Inr (trial_json rejected_record)"
proof -
  obtain pl1 where pl1: "run_trial plain_host (mock_ops ''linux'') (spec_for 40 (Fin 5) (Fin 80)) ten =
      (Inr \<lparr>st_id = 1, st_record = promoted_record\<rparr>, pl1)" "provider pl1 = \<lparr>mock_value = 10\<rparr>"
      "manifest pl1 = manifest ten" "jtable (journal pl1)"
      "jtrials (journal pl1) = [\<lparr>trial_id = 1, trial_payload = trial_json promoted_record\<rparr>]"
    using promoted_ten unfolding promoted_record_def by blast
  note m = measured_70 [OF pl1(3,2), unfolded measured_def]
  obtain pl2 where pl2: "record_trial plain_host (trial_json rejected_record) pl1 = (Inr 2, pl2)"
      "jtable (journal pl2)" "jtrials (journal pl2) = [\<lparr>trial_id = 1, trial_payload = trial_json promoted_record\<rparr>,
         \<lparr>trial_id = 2, trial_payload = trial_json rejected_record\<rparr>]"
    using pl1(4,5) by (simp add: record_trial_def insert_trial_def statement_def plain_host_def next_trial_def Let_def)
  then have "run_trial plain_host (mock_ops ''linux'') (spec_for 70 (Fin 5) (Fin 80)) pl1 =
      (Inr \<lparr>st_id = 2, st_record = rejected_record\<rparr>, pl2)"
    using rejected_trial [OF m [THEN conjunct1] m [THEN conjunct2, THEN conjunct1]
      m [THEN conjunct2, THEN conjunct2] rejecting_sel, of plain_host] by (simp add: rejected_record_def)
  with pl1(1) pl2(2,3) show ?thesis
    by (auto simp: read_trial_def query_def statement_def plain_host_def)
qed

lemma read_keeps:
  assumes "jtable (journal pl)" "fst (read_trial plain_host k pl) = Inr w"
  shows "\<exists>pl'. read_trial plain_host k pl = (Inr w, pl') \<and> jtable (journal pl') \<and>
    (\<forall>i. fst (read_trial plain_host i pl') = fst (read_trial plain_host i pl))"
  using assms by (auto simp: read_trial_def query_def statement_def plain_host_def split: option.splits)

lemma rewritten_lifecycle:
  "with_field [''lifecycle''] Null (trial_json r) = trial_json (r\<lparr>lifecycle := None\<rparr>)"
  "with_field [''lifecycle''] (obj [(''provider_id'', Str p), (''preview'', Str d), (''verified'', Bool a),
     (''rolled_back'', Bool b)]) (trial_json r) =
     trial_json (r\<lparr>lifecycle := Some \<lparr>lo_provider = p, lo_preview = d, lo_verified = a, lo_rolled_back = b\<rparr>\<rparr>)"
  "lifecycle r = Some l \<Longrightarrow> with_field [''lifecycle'', ''rolled_back''] (Bool b) (trial_json r) =
     trial_json (r\<lparr>lifecycle := Some (l\<lparr>lo_rolled_back := b\<rparr>)\<rparr>)"
  "lifecycle r = Some l \<Longrightarrow> with_field [''lifecycle'', ''verified''] (Bool b) (trial_json r) =
     trial_json (r\<lparr>lifecycle := Some (l\<lparr>lo_verified := b\<rparr>)\<rparr>)"
  by (simp_all add: rewriting outcome_json_def option_json_def)

definition lifecycle_rewrites :: "(string \<times> trial_record) list" where
  "lifecycle_rewrites =
     (let l = \<lparr>lo_provider = ''mock'', lo_preview = ''set mock.value from 10 to 40'', lo_verified = True,
          lo_rolled_back = True\<rparr> in
      [(''lifecycle'', promoted_record\<lparr>lifecycle := None\<rparr>),
       (''lifecycle'', rejected_record\<lparr>lifecycle := Some (l\<lparr>lo_preview := ''set value to 70''\<rparr>)\<rparr>),
       (''lifecycle'', promoted_record\<lparr>lifecycle := Some (l\<lparr>lo_rolled_back := False\<rparr>)\<rparr>),
       (''lifecycle'', promoted_record\<lparr>lifecycle := Some (l\<lparr>lo_verified := False\<rparr>)\<rparr>)])"

lemma lifecycle_rewrites_refused: "\<forall>(w, r)\<in>set lifecycle_rewrites. refused_record w r"
proof -
  have specs: "validate_spec (spec_for 40 (Fin 5) (Fin 80)) = Inr 40" "validate_spec (spec_for 70 (Fin 5) (Fin 80)) = Inr 70"
    using gate(1,2) [of "\<lparr>mock_value = 0\<rparr>"] by (auto simp: runner_validate_def split: if_splits)
  have samples: "length (measure_samples 70 2 5) = 5" "baseline_samples (spec_for 70 (Fin 5) (Fin 80)) = 5"
    "candidate_samples (spec_for 70 (Fin 5) (Fin 80)) = 5"
    by (simp_all add: steady_measure sample_at_policy spec_for_def)
  show ?thesis
    using promoted_ok(1,3) rejected_ok(1,3)
    by (simp add: lifecycle_rewrites_def refused_record_def trial_ok_def promoted_sel rejected_sel check_policy_def specs
        samples five_samples holds_declared_count_def MAX_MOCK_VALUE_def promoting_sel rejecting_sel record_error_def
        mentions_def Let_def presence_def sublist_Cons_right)
qed

lemma lifecycle_replay_test: "a_replay_reports_lifecycle_fields_that_contradict_the_verdict plain_host"
proof -
  obtain pl1 pl2 where runs: "run_trial plain_host (mock_ops ''linux'') (spec_for 40 (Fin 5) (Fin 80)) ten =
       (Inr \<lparr>st_id = 1, st_record = promoted_record\<rparr>, pl1)"
     "run_trial plain_host (mock_ops ''linux'') (spec_for 70 (Fin 5) (Fin 80)) pl1 =
       (Inr \<lparr>st_id = 2, st_record = rejected_record\<rparr>, pl2)" "jtable (journal pl2)"
    and two: "fst (read_trial plain_host 1 pl2) = Inr (trial_json promoted_record)"
     "fst (read_trial plain_host 2 pl2) = Inr (trial_json rejected_record)"
    using two_trials by blast
  obtain pl3 where pl3: "read_trial plain_host 1 pl2 = (Inr (trial_json promoted_record), pl3)" "jtable (journal pl3)"
    "\<forall>i. fst (read_trial plain_host i pl3) = fst (read_trial plain_host i pl2)"
    using read_keeps [OF runs(3) two(1)] by blast
  obtain pl4 where pl4: "read_trial plain_host 2 pl3 = (Inr (trial_json rejected_record), pl4)" "jtable (journal pl4)"
    "\<forall>i. fst (read_trial plain_host i pl4) = fst (read_trial plain_host i pl3)"
    using read_keeps [OF pl3(2), of 2] pl3(3) two(2) by auto
  obtain pl5 where pl5: "illegal_replays plain_host (map (apsnd trial_json) lifecycle_rewrites) pl4 = Some pl5"
    "\<forall>k w. fst (read_trial plain_host k pl4) = Inr w \<longrightarrow> fst (read_trial plain_host k pl5) = Inr w"
    using illegal_replays_plain [OF pl4(2) lifecycle_rewrites_refused] by blast
  have "fst (read_trial plain_host 1 pl5) = Inr (trial_json promoted_record)"
    "fst (read_trial plain_host 2 pl5) = Inr (trial_json rejected_record)"
    using pl5(2) pl3(3) pl4(3) two by simp_all
  then have "legal_replay (fst (replay_trial plain_host 1 pl5))" "legal_replay (fst (replay_trial plain_host 2 pl5))"
    using promoted_replays replay_of_row(1) [OF rejected_ok(1) rejected_sel(1) rejected_ok(3) _ rejected_ok(2)] by blast+
  then show ?thesis
    using pl5(1) by (simp add: a_replay_reports_lifecycle_fields_that_contradict_the_verdict_def opened_ten runs pl3(1) pl4(1)
        rewritten_lifecycle promoted_sel(8) rejected_sel(7) rejecting_sel lifecycle_rewrites_def Let_def
        del: with_field.simps illegal_replays.simps)
qed

end
