(* ===== verification/Spec2Isabelle.thy ===== *)
theory Spec2Isabelle
  imports Crash Shared Poller Trials Connection Server Startup Gateway Cli Xtask
    Schemas Contract_Tests Unit_Tests Plane_Tests Broker_Tests Runner_Tests Process_Tests
    Fault_Tests Trial_Tests Replay_Tests
begin

text \<open>
  A verification development of FPSMaxxing, a system that lets a language model try reversible changes
  of a machine's settings (``knobs'') through a privileged broker, and that must never lose the state
  the user had.

  \<^bold>\<open>The program.\<close>  A provider (\<open>crates/provider-sdk\<close>, \<open>sidecars/mock-provider\<close>) can snapshot,
  preview, apply, verify and roll back one knob.  The control plane (\<open>crates/control-plane\<close>) drives it
  through one lifecycle per change, snapshot to rollback, and writes each stage to a SQLite journal
  before it acts.  The watchdog (\<open>apps/watchdog\<close>) is another process that reads that journal and
  restores what a dead lifecycle left applied.  The experiment runner (\<open>apps/experiment-runner\<close>)
  measures a candidate value, decides by fixed bounds, and lets only a promotion reach the control
  plane.  The broker (\<open>apps/broker\<close>) owns the control plane on one worker thread and serves it over a
  Unix socket to peers of its own uid, in frames (\<open>crates/ipc\<close>) of JSON (\<open>crates/contracts/src/ipc.rs\<close>).
  The gateway (\<open>apps/gateway\<close>) serves a plane of its own as an MCP tool over standard input, and the
  CLI (\<open>apps/cli\<close>) reports on the journal.

  \<^bold>\<open>Theories.\<close>
  \<^item> \<open>Prelude\<close>: results (\<open>'e + 'a\<close>), decimal text, UTF-8 boundaries, list lemmas, the machine integers.
    \<open>Float64\<close>: IEEE doubles as their finite values and the rounding the code's arithmetic needs.
    \<open>Json\<close>: \<open>serde_json::Value\<close> after parsing (an integer of 2^64 or more is a float there), its accessors,
    what a derived decoder reads (a struct also from a sequence, a variant also from an object that
    maps its name to null), and the locale \<open>wire_format\<close> of a type with a wire form.
  \<^item> \<open>Contracts\<close>, \<open>Experiment\<close>: \<open>crates/contracts/src/lib.rs\<close>, each record with its encoder and decoder
    and an interpretation of \<open>wire_format\<close>.  \<open>Ipc\<close>: \<open>crates/contracts/src/ipc.rs\<close> likewise.
  \<^item> \<open>Provider\<close>: the \<open>Provider\<close> trait as a record of operations, the locales \<open>restoring_provider\<close> (what a
    rollback owes) and \<open>serving_provider\<close>, interpreted by the mock provider and by the test double of
    the control plane's own tests.
  \<^item> \<open>Journal\<close>: the tables as lists of rows and the statements on them; \<open>Control_Plane\<close>: every method of
    \<open>ControlPlane\<close>, from \<open>validate\<close> to \<open>run_lifecycle\<close>; \<open>Lifecycle\<close>: what a lifecycle does to the provider
    and to the journal, by the shape of its outcome.
  \<^item> \<open>Watchdog\<close>: scan, reclaim pass and records of \<open>apps/watchdog\<close>; \<open>Recovery\<close>: what a pass restores and
    closes; \<open>Crash\<close>: the lifecycle as a machine of single effects, stopped anywhere, and recovery;
    \<open>Shared\<close>: that machine interleaved with the passes of a watchdog that runs beside it; \<open>Poller\<close>: the
    command and its polling loop.
  \<^item> \<open>Evaluator\<close>, \<open>Runner\<close>, \<open>Trials\<close>: \<open>evaluator.rs\<close>, \<open>model.rs\<close> and \<open>runner.rs\<close> of the experiment runner.
  \<^item> \<open>Frame\<close>, \<open>Auth\<close>, \<open>Socket\<close>: \<open>frame.rs\<close>, \<open>auth.rs\<close> and \<open>transport.rs\<close> of \<open>crates/ipc\<close>, with the locales
    \<open>byte_source\<close> (a stream that delivers its bytes) and \<open>peer_authorizer\<close>; \<open>Files\<close>: the io errors, paths
    and file system calls that the transport and the broker's start share.
  \<^item> \<open>Ownership\<close>, \<open>Broker\<close>, \<open>Connection\<close>: \<open>ownership.rs\<close> (locale \<open>exclusive_ledger\<close>) and \<open>lib.rs\<close> of the
    broker, and \<open>client.rs\<close>: the service and its worker, one connection, the accept loop, the client.
    \<open>Server\<close>: all of them at once, as a step relation over the accept loop, the connection tasks, the
    channel of jobs and the worker thread, until the process exits after the loop gave up.
  \<^item> \<open>Arguments\<close>, \<open>Locations\<close>, \<open>Startup\<close>: \<open>main.rs\<close> of the broker: the command line, where its files may
    live, and the order of a start.
  \<^item> \<open>Gateway\<close>, \<open>Cli\<close>: the two unprivileged programs; \<open>Xtask\<close>: the task runner.
  \<^item> \<open>Schemas\<close>: the seven documents of \<open>schemas\<close>, a validator for the keywords they use, and the locale
    \<open>integer_reading\<close> for the two ways an integer can be read (5.0 is one, or is not).
  \<^item> \<open>Contract_Tests\<close>, \<open>Unit_Tests\<close>, \<open>Plane_Tests\<close>, \<open>Broker_Tests\<close>, \<open>Runner_Tests\<close>, \<open>Process_Tests\<close>: the tests
    in the program's own modules, each a definition that is true when its assertions hold of the model
    and a lemma that it is.  They check the translation against expectations that were written for the
    code, and nothing else rests on them.  What \<open>schemars\<close> generates is the parameter \<open>gen\<close> of the contract
    tests, and \<open>derives\<close> what its derive macro documents.  \<open>Fault_Tests\<close>: the watchdog's fault injection.
    \<open>Trial_Tests\<close>, \<open>Replay_Tests\<close>: the runner's integration tests.

  \<^bold>\<open>How the code is read.\<close>  A struct is a record, an enum a datatype, a fixed-width integer a word.  A
  method that takes \<open>&mut self\<close> returns the new state with its result; \<open>Result\<close> is a sum, every
  \<open>?\<close> a branch.  What is not in the repository is a parameter: SQLite's failures (\<open>stmt_fault\<close>, any
  schedule), its clock, the JSON printer and parser (\<open>host\<close>, \<open>wire\<close>, \<open>json_text\<close>), the stream
  (\<open>stream_ops\<close>), the kernel's answers and faults (\<open>kernel\<close>).  A theorem that needs one of them to behave
  says so in a hypothesis (\<open>no_faults\<close>, \<open>reads_back\<close>, \<open>carries\<close>, \<open>sendable\<close>, \<open>faultless\<close>, \<open>honest\<close>).

  \<^bold>\<open>What is shown.\<close>
  \<^item> The user's state: a lifecycle restores it, writes ahead of every change, and closes its experiment
    unless the insert that would close it fails (\<open>Lifecycle\<close>); a crash after any effect leaves what one recovery pass needs (\<open>Crash\<close>); the pass
    reports exactly the leaks, once each, rolls each selected one back and closes it or records why
    not, is idempotent and does not flood the journal (\<open>Recovery\<close>); the
    polling loop gets there after any number of failed rounds (\<open>Poller\<close>); a lifecycle within its lease
    does not notice a watchdog beside it, and one that overran can be acted on after it finished
    (\<open>Shared\<close>); and the whole path holds: whatever peers the concurrent broker serves and wherever it
    dies, one pass puts back the state from before it served anybody (here).
  \<^item> The gates: the policy, the runner's envelope and the decision rule are each characterised by an
    equivalence, the floating-point decision by integers, and only a promotion reaches the provider;
    a stored trial replays (\<open>Lifecycle\<close>, \<open>Evaluator\<close>, \<open>Trials\<close>).
  \<^item> The boundary: frames decode to what was written however they are cut, and never exceed the bound;
    a connection is the sequential handling of its frames and always ends; the client gets the
    worker's answer; a foreign peer gets a fixed rejection; an error says nothing of the host; no
    request leaves a knob owned or the provider moved (\<open>Frame\<close>, \<open>Broker\<close>, \<open>Connection\<close>).
  \<^item> The concurrency: in every interleaving the worker handles the requests in one order, every connection
    does what it would do alone with the answers it got, requests are answered within a bounded number
    of steps unless the process exits first, and slots and channel keep their bounds (\<open>Server\<close>).
  \<^item> The contracts: every type decodes what it encodes and nothing with other fields; what the broker
    answers is a document of its published schema; of the valid requests and experiments exactly those
    decode whose integers are written as integers, and what the runner's gate asks beyond the
    experiment schema is listed in full (\<open>Contracts\<close>, \<open>Ipc\<close>, \<open>Schemas\<close>).
  \<^item> The process: vetting accepts exactly the private paths, by their mode bits, a start gets through only with private
    files and a lock that no second start can pass, and gives back what it took (\<open>Locations\<close>, \<open>Startup\<close>).

  \<^bold>\<open>Bounds and fuel.\<close>  The effect machine needs at most fourteen steps for a lifecycle and is run with
  that number, which a theorem shows to be enough.  A symbolic link is followed forty deep, as the
  kernel does, and an error beyond.  \<open>serve_connection\<close> is a partial function, \<open>None\<close> for a connection that
  never ends; \<open>connections_end\<close> shows that over finitely many pieces it is never \<open>None\<close>.  The polling loop
  is taken for any number of rounds, the concurrent broker for any sequence of steps.  The loops over
  buffers, lists and arguments are total.

  \<^bold>\<open>Not modelled.\<close>  Printing and stderr traces; sleeping and the length of deadlines (only that one
  passed, over a whole frame when it is a read); where inside a turn of a connection its task is suspended, since between two uses of the
  channel a task touches its own stream alone; the kernel's queue of a socket; a
  second process that changes the file system between two calls of a start, except as the faults and
  states the theorems quantify over; a socket or journal path written with a trailing separator,
  which the kernel refuses to create; SQLite's side files, named and restricted here, written there;
  elapsed times and printed lengths in the tests; the integration tests of \<open>tests\<close> other than the
  watchdog's and the runner's, which start processes or print transcripts; fixtures of the tests with
  no counterpart here (temporary directories, argument conversion).
\<close>

section \<open>The whole path from a peer to the provider\<close>

text \<open>
  A connection's requests reach the worker between requests of other peers: \<open>others\<close> is whatever the
  worker was made to handle before the next one of this connection.
\<close>

definition shared_dispatch ::
  "'t host \<Rightarrow> 'p provider_ops \<Rightarrow> (('p, 't) service \<Rightarrow> broker_request list) \<Rightarrow> broker_request \<Rightarrow>
     ('p, 't) service option \<Rightarrow> broker_response \<times> ('p, 't) service option" where
  "shared_dispatch H P others q w =
     dispatch (\<lambda>q sv. Some (broker_handle H P q sv)) q
       (map_option (\<lambda>sv. snd (handle_all H P (others sv) sv)) w)"

lemma shared_dispatch_handles:
  "snd (shared_dispatch H P others q (Some sv)) = Some (snd (handle_all H P (others sv @ [q]) sv))"
proof -
  have "handle_all H P (qs @ [q]) sv =
      (let (rs, sv1) = handle_all H P qs sv; (r, sv2) = broker_handle H P q sv1 in (rs @ [r], sv2))" for qs
    by (induction qs arbitrary: sv) (simp_all add: Let_def split: prod.split)
  then show ?thesis
    by (simp add: shared_dispatch_def dispatch_def split: prod.split)
qed

text \<open>
  No peer can move the hardware.  Whatever stream a connection runs on, whatever its peer sends and
  whatever other peers ask for in between, when the connection ends the worker is alive, the mock
  provider holds the value it held before, no knob has changed its owner and the journal has only
  grown.
\<close>

theorem peers_cannot_move_the_hardware:
  fixes H :: "'t host"
  assumes "handle_connection S W authorize (shared_dispatch H (mock_ops platform) others) who s (Some sv) =
    Some (r, t, w)"
  shows "\<exists>sv'. w = Some sv' \<and> provider (sv_plane sv') = provider (sv_plane sv) \<and>
    sv_ledger sv' = sv_ledger sv \<and>
    prefix (jrows (journal (sv_plane sv))) (jrows (journal (sv_plane sv')))"
proof -
  define I :: "(mock_provider, 't) service option \<Rightarrow> bool" where "I w \<longleftrightarrow> (\<exists>sv'. w = Some sv' \<and> provider (sv_plane sv') = provider (sv_plane sv) \<and>
    sv_ledger sv' = sv_ledger sv \<and>
    prefix (jrows (journal (sv_plane sv))) (jrows (journal (sv_plane sv'))))" for w
  have "I (snd (shared_dispatch H (mock_ops platform) others q w))" if w: "I w" for q w
  proof -
    obtain sv1 where sv1: "w = Some sv1" "provider (sv_plane sv1) = provider (sv_plane sv)"
      "sv_ledger sv1 = sv_ledger sv" "prefix (jrows (journal (sv_plane sv))) (jrows (journal (sv_plane sv1)))"
      using w by (auto simp: I_def)
    obtain rs sv2 where h: "handle_all H (mock_ops platform) (others sv1 @ [q]) sv1 = (rs, sv2)"
      by fastforce
    then have "snd (shared_dispatch H (mock_ops platform) others q w) = Some sv2"
      by (simp add: sv1(1) shared_dispatch_handles)
    then show ?thesis
      using broker_session_restores [OF h] sv1 by (auto simp: I_def intro: prefix_order.trans)
  qed
  moreover have "I (Some sv)" by (simp add: I_def)
  ultimately have "I w" using handle_connection_invariant [OF assms, of I] by blast
  then show ?thesis by (simp add: I_def)
qed

theorem peers_cannot_move_the_hardware_witness:
  "\<exists>r t sv'. handle_connection script_ops demo_wire (same_uid_authorize \<lparr>expected_uid = 1000\<rparr>)
     (shared_dispatch plain_host (mock_ops ''linux'')
        (\<lambda>_. [run_lifecycle_request ''me'' demo_request])) \<lparr>peer_uid = 1000, peer_pid = None\<rparr>
     (peer_sending [[0, 0, 0, 1], [1]]) (Some demo_service) = Some (r, t, Some sv') \<and>
     provider (sv_plane sv') = \<lparr>mock_value = 0\<rparr>"
proof -
  let ?d = "shared_dispatch plain_host (mock_ops ''linux'') (\<lambda>_. [run_lifecycle_request ''me'' demo_request])"
  obtain bs w where a: "answers demo_wire ?d [[1]] (Some demo_service) = (bs, w)" by fastforce
  obtain t where "serve_connection script_ops demo_wire ?d (peer_sending [[0, 0, 0, 1], [1]]) (Some demo_service) =
      serve_connection script_ops demo_wire ?d t w" "delivers t" "content t = []"
    using turns_answer [OF _ _ _ a, of "peer_sending [[0, 0, 0, 1], [1]]" "[]"]
    by (auto simp: frame_def to_be_bytes_def list_all_iff simp del: answers.simps)
  moreover obtain u where "connection_turn script_ops demo_wire ?d t w = (Some (Inr ()), u, w)"
    using turn_at_end [OF calculation(2,3), of demo_wire ?d w] by blast
  ultimately have h: "handle_connection script_ops demo_wire (same_uid_authorize \<lparr>expected_uid = 1000\<rparr>)
      ?d \<lparr>peer_uid = 1000, peer_pid = None\<rparr> (peer_sending [[0, 0, 0, 1], [1]]) (Some demo_service) =
      Some (Inr (), u, w)"
    by (simp add: handle_connection_def same_uid_authorize_def serve_connection.simps [of _ _ _ t])
  from peers_cannot_move_the_hardware [OF h] obtain sv' where
    "w = Some sv'" "provider (sv_plane sv') = provider (sv_plane demo_service)" by blast
  then show ?thesis using h by (auto simp: demo_service_def new_service_def)
qed

section \<open>From a peer's request, through a crash, to the watchdog\<close>

lemma session_same_leaks:
  assumes "no_faults H" "handle_all H P qs sv = (rs, sv')"
  shows "(leaked pid (jrows (journal (sv_plane sv'))) d \<longleftrightarrow> leaked pid (jrows (journal (sv_plane sv))) d) \<and>
    manifest (sv_plane sv') = manifest (sv_plane sv)"
  using assms(2)
proof (induction qs arbitrary: sv rs)
  case (Cons q qs)
  obtain r sv1 where 1: "broker_handle H P q sv = (r, sv1)" by fastforce
  obtain rs1 where 2: "handle_all H P qs sv1 = (rs1, sv')"
    using Cons.prems 1 by (auto split: prod.splits)
  have "(leaked pid (jrows (journal (sv_plane sv1))) d \<longleftrightarrow> leaked pid (jrows (journal (sv_plane sv))) d) \<and>
      manifest (sv_plane sv1) = manifest (sv_plane sv)"
    using handled_plane(1) [OF 1]
  proof (elim disjE exE)
    fix c assume c: "sv_plane sv1 = snd (run_lifecycle H P c (sv_plane sv))"
    obtain r pl where run: "run_lifecycle H P c (sv_plane sv) = (r, pl)" by fastforce
    show ?thesis
      using lifecycle_same_leaks [OF assms(1) run] lifecycle_grows [OF run] c run by (auto simp: grows_def)
  qed simp
  then show ?case using Cons.IH [OF 2] by simp
qed simp

lemma printed_calm: "all_readable (calm H) j \<longleftrightarrow> all_readable H j"
  by (simp add: all_readable_def)

lemma session_printed:
  assumes "\<forall>v. is_ok (of_text H (to_text H v))" "handle_all H P qs sv = (rs, sv')"
    and "all_readable H (journal (sv_plane sv))"
  shows "all_readable H (journal (sv_plane sv'))"
  using assms(2,3)
proof (induction qs arbitrary: sv rs)
  case (Cons q qs)
  obtain r sv1 where 1: "broker_handle H P q sv = (r, sv1)" by fastforce
  obtain rs1 where 2: "handle_all H P qs sv1 = (rs1, sv')"
    using Cons.prems(1) 1 by (auto split: prod.splits)
  have "all_readable H (journal (sv_plane sv1))"
    using handled_plane(1) [OF 1] lifecycle_printed [OF assms(1) Cons.prems(2)] Cons.prems(2) by auto
  then show ?case by (rule Cons.IH [OF 2])
qed simp

text \<open>
  C2: Nothing the broker's peers do, and no crash, loses the user's state.  Run the concurrent broker on the mock
  provider over a journal without leaks, with any peers in any interleaving, and let its process die
  after any number of effects of the lifecycle its worker has in hand, with any statement of that
  lifecycle failing.  When the watchdog takes over the provider and the journal and its statements work,
  one pass over all unclosed experiments succeeds, puts the provider back to the value it held before
  the broker served anybody, and leaves no leak.
\<close>

theorem broker_crash_is_recovered:
  assumes "server_run G sv evs st" "handles_for (calm H) (mock_ops platform) (handler G)"
    and "worker st = Some sv'" "crashed H (mock_ops platform) c (sv_plane sv') (ph, pl)"
    and "\<forall>d. \<not> leaked (man_id (manifest (sv_plane sv))) (jrows (journal (sv_plane sv))) d"
    and "readable (calm H) (journal (sv_plane sv))" "\<forall>v. is_ok (of_text H (to_text H v))" "change_ok c"
    and "\<forall>s. mock_snapshot (provider (sv_plane sv)) = Inr s \<longrightarrow> reads_back H (snapshot_json s)"
    and "reads_back H (change_json c)"
  shows "\<exists>rs w'. reclaim (calm H) (mock_ops platform) AllUnclosed (takes_over pl) = (Inr rs, w') \<and>
    w_provider w' = provider (sv_plane sv) \<and>
    (\<forall>e. \<not> leaked (man_id (manifest (sv_plane sv))) (jrows (w_journal w')) e)"
proof -
  have "handle_in_order (handler G) (map asked (server.handled st)) sv = Some (map told (server.handled st), sv')"
    using run_in_order [OF assms(1)] assms(3) by (auto simp: in_order_def)
  then have h: "handle_all (calm H) (mock_ops platform) (map asked (server.handled st)) sv = (map told (server.handled st), sv')"
    by (rule in_order_handles_all [OF assms(2)])
  note leaks = session_same_leaks [OF calm_simps(1) h]
  let ?p = "provider (sv_plane sv)" and ?q = "provider (sv_plane sv')"
  obtain s where s: "op_snapshot (mock_ops platform) ?p = Inr s" using mock.snapshot_ok by blast
  have q: "op_snapshot (mock_ops platform) ?q = Inr s" using mock.session_restores [OF h TrueI s] by simp
  have "reads_back H (snapshot_json s)" using s assms(9) by (simp add: mock_ops_def)
  moreover have "readable (calm H) (journal pl)"
    using session_printed [OF _ h] crashed_printed [OF assms(4,7)] assms(6,7)
    by (simp add: readable_calm printed_calm)
  ultimately obtain rs w' where r: "reclaim (calm H) (mock_ops platform) AllUnclosed (takes_over pl) = (Inr rs, w')"
      "op_snapshot (mock_ops platform) (w_provider w') = Inr s"
      "\<forall>e. \<not> leaked (man_id (manifest (sv_plane sv))) (jrows (w_journal w')) e"
    using mock.crash_then_recovery [OF TrueI q assms(4) _ _ assms(7,8) _ assms(10)] leaks assms(5) by auto
  have "w_provider w' = ?p"
    using r(2) s by (cases "w_provider w'"; cases ?p) (auto simp: mock_defs obj_single_eq)
  with r show ?thesis by blast
qed

text \<open>A broker with one peer at work, whose process dies right after an apply.\<close>

theorem broker_crash_is_recovered_witness:
  "\<exists>st pl rs w'. server_run demo_setting demo_service [Accept, Greet 0, Turn 0, Send 0] st \<and>
     crashed plain_host (mock_ops ''linux'') demo_request (sv_plane (the (worker st)))
       (after_effects 6 plain_host (mock_ops ''linux'') demo_request (PStart, demo_plane)) \<and>
     snd (after_effects 6 plain_host (mock_ops ''linux'') demo_request (PStart, demo_plane)) = pl \<and>
     provider pl = \<lparr>mock_value = 7\<rparr> \<and>
     reclaim (calm plain_host) (mock_ops ''linux'') AllUnclosed (takes_over pl) = (Inr rs, w') \<and>
     w_provider w' = \<lparr>mock_value = 0\<rparr>"
proof -
  obtain st where st: "server_run demo_setting demo_service [Accept, Greet 0, Turn 0, Send 0] st"
    "worker st = Some demo_service" using demo_server_run by blast
  let ?st = "after_effects 6 plain_host (mock_ops ''linux'') demo_request (PStart, demo_plane)"
  have plane: "sv_plane demo_service = demo_plane" by (simp add: demo_service_def new_service_def)
  have c: "crashed plain_host (mock_ops ''linux'') demo_request (sv_plane demo_service) (fst ?st, snd ?st)"
    using crashed_after [OF crashed_start, of plain_host "mock_ops ''linux''" demo_request demo_plane 6]
    by (simp add: plane)
  have p: "mock_value (provider (snd ?st)) = 7"
    by code_simp
  have "readable (calm plain_host) (journal (sv_plane demo_service))"
    by (simp add: readable_def plane)
  moreover have "\<forall>d. \<not> leaked (man_id (manifest (sv_plane demo_service))) (jrows (journal (sv_plane demo_service))) d"
    by (simp add: leaked_def plane)
  moreover have "handles_for (calm plain_host) (mock_ops ''linux'') (handler demo_setting)"
    using demo_handles by (simp add: calm_def plain_host_def)
  ultimately obtain rs w' where
    "reclaim (calm plain_host) (mock_ops ''linux'') AllUnclosed (takes_over (snd ?st)) = (Inr rs, w')"
    "w_provider w' = provider (sv_plane demo_service)"
    using broker_crash_is_recovered [OF st(1) _ st(2) c] demo_request_ok by (auto simp: reads_back_def)
  with p(1) st c show ?thesis
    by (intro exI [of _ st] exI [of _ "snd ?st"] exI [of _ rs] exI [of _ w']) (auto simp: plane)
qed

end
